(* ===== verification/Prelude.thy ===== *)
theory Prelude
  imports Main "HOL-Library.Word"
begin

unbundle bit_operations_syntax

text \<open>
  What every other theory shares: the names of the machine types, the little-endian
  memory layout of the C structs (the M4F, the A53 and the CC1310 are all little-endian),
  copying into byte buffers, and the interfaces that several components implement: a
  running checksum (\<open>byte_hash\<close>), a wire codec (\<open>codec\<close>, \<open>checked_codec\<close>), a bounded
  first-in first-out channel (\<open>bounded_fifo\<close>) and a small keyed table (\<open>keyed_table\<close>).
\<close>

type_synonym u8 = "8 word"
type_synonym u16 = "16 word"
type_synonym u32 = "32 word"
type_synonym u64 = "64 word"

named_theorems layout \<comment> \<open>lengths and field reads of the modelled memory layouts\<close>
named_theorems wf_intros \<comment> \<open>well-formedness of the results of operations\<close>

subsection \<open>Little-endian scalars in memory\<close>

definition le16_bytes :: "u16 \<Rightarrow> u8 list" where
  "le16_bytes w = [ucast w, ucast (drop_bit 8 w)]"

definition le32_bytes :: "u32 \<Rightarrow> u8 list" where
  "le32_bytes w = [ucast w, ucast (drop_bit 8 w), ucast (drop_bit 16 w), ucast (drop_bit 24 w)]"

definition le16_at :: "u8 list \<Rightarrow> nat \<Rightarrow> u16" where
  "le16_at bs i = ucast (bs ! i) OR push_bit 8 (ucast (bs ! (i + 1)))"

definition le32_at :: "u8 list \<Rightarrow> nat \<Rightarrow> u32" where
  "le32_at bs i = ucast (bs ! i) OR push_bit 8 (ucast (bs ! (i + 1))) OR
     push_bit 16 (ucast (bs ! (i + 2))) OR push_bit 24 (ucast (bs ! (i + 3)))"

lemma length_le_bytes [simp, layout]:
  "length (le16_bytes w) = 2" "length (le32_bytes v) = 4"
  by (simp_all add: le16_bytes_def le32_bytes_def)

lemma le16_join: "ucast (ucast w :: u8) OR push_bit 8 (ucast (ucast (drop_bit 8 w) :: u8)) = (w :: u16)"
  by (rule bit_word_eqI) (auto simp: bit_simps)

lemma le32_join:
  "ucast (ucast w :: u8) OR push_bit 8 (ucast (ucast (drop_bit 8 w) :: u8)) OR
   push_bit 16 (ucast (ucast (drop_bit 16 w) :: u8)) OR
   push_bit 24 (ucast (ucast (drop_bit 24 w) :: u8)) = (w :: u32)" (is "?l = w")
proof (rule bit_word_eqI)
  fix n assume "n < LENGTH(32)"
  then consider "n < 8" | "8 \<le> n" "n < 16" | "16 \<le> n" "n < 24" | "24 \<le> n" "n < 32" by fastforce
  then show "bit ?l n = bit w n" by cases (auto simp: bit_simps)
qed

subsection \<open>Copying into a buffer\<close>

definition blit :: "'a list \<Rightarrow> nat \<Rightarrow> 'a list \<Rightarrow> 'a list" where
  "blit buf off src = take off buf @ src @ drop (off + length src) buf"

lemma length_blit [simp]: "off + length src \<le> length buf \<Longrightarrow> length (blit buf off src) = length buf"
  by (simp add: blit_def)

lemma nth_blit:
  "off + length src \<le> length buf \<Longrightarrow>
   blit buf off src ! i = (if off \<le> i \<and> i < off + length src then src ! (i - off) else buf ! i)"
  by (auto simp: blit_def nth_append not_less)

lemma le32_at_blit [layout]:
  "off + 4 \<le> length buf \<Longrightarrow> le32_at (blit buf off (le32_bytes w)) off = w"
  by (simp add: le32_at_def nth_blit le32_bytes_def le32_join)

lemma le16_at_blit [layout]:
  "off + 2 \<le> length buf \<Longrightarrow> le16_at (blit buf off (le16_bytes w)) off = w"
  by (simp add: le16_at_def nth_blit le16_bytes_def le16_join)

lemma le32_at_blit_other [layout]:
  "off + length src \<le> length buf \<Longrightarrow> i + 4 \<le> off \<or> off + length src \<le> i \<Longrightarrow>
   le32_at (blit buf off src) i = le32_at buf i"
  by (auto simp: le32_at_def nth_blit)

lemma nth_blit_outside [layout]:
  "off + length src \<le> length buf \<Longrightarrow> i < off \<or> off + length src \<le> i \<Longrightarrow>
   blit buf off src ! i = buf ! i"
  by (auto simp: nth_blit)

lemma nth_blit_inside [layout]:
  "off + length src \<le> length buf \<Longrightarrow> off \<le> i \<Longrightarrow> i < off + length src \<Longrightarrow>
   blit buf off src ! i = src ! (i - off)"
  by (auto simp: nth_blit)

lemma take_blit:
  "off + length src \<le> length buf \<Longrightarrow>
   take (off + length src) (blit buf off src) = take off buf @ src"
  by (simp add: blit_def)

subsection \<open>Running checksums\<close>

text \<open>
  The CRC16 of the RPMsg and SPI frames, the CRC32 of a ruleset and the XOR byte of a radio
  frame are folds of one step over the bytes. A step that is injective in the running value and in
  the byte makes the fold sensitive to every single byte.
\<close>

locale byte_hash =
  fixes step :: "'s \<Rightarrow> 'b \<Rightarrow> 's"
  assumes state_inj: "step s b = step t b \<Longrightarrow> s = t"
    and byte_inj: "step s a = step s b \<Longrightarrow> a = b"
begin

lemma foldl_state_inj: "foldl step s bs = foldl step t bs \<Longrightarrow> s = t"
  by (induction bs arbitrary: s t) (auto dest: state_inj)

lemma foldl_one_byte:
  "foldl step s (xs @ a # ys) = foldl step s (xs @ b # ys) \<longleftrightarrow> a = b"
  by (auto dest: foldl_state_inj byte_inj)

lemma foldl_update:
  assumes "i < length xs"
  shows "foldl step s (xs[i := b]) = foldl step s xs \<longleftrightarrow> b = xs ! i"
proof -
  have "xs[i := b] = take i xs @ b # drop (Suc i) xs"
    using assms by (rule upd_conv_take_nth_drop)
  moreover have "xs = take i xs @ xs ! i # drop (Suc i) xs"
    using assms by (rule id_take_nth_drop)
  ultimately show ?thesis using foldl_one_byte by metis
qed

end

subsection \<open>Wire codecs\<close>

text \<open>
  A codec turns a message into bytes and back; decoding may refuse. A checked codec also
  refuses every message of which one byte was replaced on the wire.
\<close>

locale codec =
  fixes enc :: "'a \<Rightarrow> 'b list"
    and dec :: "'b list \<Rightarrow> 'e + 'a"
    and ok :: "'a \<Rightarrow> bool"
  assumes roundtrip: "ok x \<Longrightarrow> dec (enc x) = Inr x"
    and canonical: "dec bs = Inr x \<Longrightarrow> ok x \<and> enc x = bs"
begin

lemma enc_inj: "ok x \<Longrightarrow> ok y \<Longrightarrow> enc x = enc y \<Longrightarrow> x = y"
  using roundtrip by (metis Inr_inject)

lemma dec_inj: "dec as = Inr x \<Longrightarrow> dec bs = Inr x \<Longrightarrow> as = bs"
  using canonical by metis

lemma accepted_iff: "(\<exists>x. dec bs = Inr x) \<longleftrightarrow> (\<exists>x. ok x \<and> bs = enc x)"
  using roundtrip canonical by metis

end

locale checked_codec = codec +
  assumes detects: "ok x \<Longrightarrow> i < length (enc x) \<Longrightarrow> b \<noteq> enc x ! i \<Longrightarrow>
    \<exists>e. dec ((enc x)[i := b]) = Inl e"
begin

lemma corrupted_not_accepted:
  "ok x \<Longrightarrow> i < length (enc x) \<Longrightarrow> dec ((enc x)[i := b]) = Inr y \<Longrightarrow> y = x \<and> b = enc x ! i"
  using detects [of x i b] roundtrip [of x]
  by (metis Inl_Inr_False Inr_inject list_update_id)

lemma distance_two:
  assumes "ok x" "ok y" "x \<noteq> y" "length (enc x) = length (enc y)"
  shows "\<exists>i j. i < length (enc x) \<and> j < length (enc x) \<and> i \<noteq> j \<and>
    enc x ! i \<noteq> enc y ! i \<and> enc x ! j \<noteq> enc y ! j"
proof (rule ccontr)
  assume close: "\<not> ?thesis"
  have "enc x \<noteq> enc y" using assms enc_inj by blast
  then obtain i where i: "i < length (enc x)" "enc x ! i \<noteq> enc y ! i"
    using assms(4) by (metis nth_equalityI)
  then have "enc y = (enc x)[i := enc y ! i]"
    using close assms(4) by (intro nth_equalityI) (simp, metis length_list_update nth_list_update)
  then have "dec ((enc x)[i := enc y ! i]) = Inr y" using roundtrip assms(2) by metis
  with assms(1) i(1) have "y = x" by (blast dest: corrupted_not_accepted)
  with assms(3) show False by simp
qed

end

subsection \<open>Bounded queues\<close>

text \<open>
  A bounded first-in first-out channel: a push into a full one is refused, a pop of an
  empty one returns nothing, and what comes out is what went in, in order. \<open>norm\<close> is what the
  channel keeps of an item (all of it, or a prefix that fits its slot).
\<close>

locale bounded_fifo =
  fixes push :: "'a \<Rightarrow> 'q \<Rightarrow> 'q option"
    and pop :: "'q \<Rightarrow> ('a \<times> 'q) option"
    and items :: "'q \<Rightarrow> 'a list"
    and norm :: "'a \<Rightarrow> 'a"
    and cap :: nat
    and inv :: "'q \<Rightarrow> bool"
  assumes within: "inv q \<Longrightarrow> length (items q) \<le> cap"
    and push_room: "inv q \<Longrightarrow> length (items q) < cap \<Longrightarrow>
      \<exists>q'. push x q = Some q' \<and> items q' = items q @ [norm x] \<and> inv q'"
    and push_full: "inv q \<Longrightarrow> length (items q) = cap \<Longrightarrow> push x q = None"
    and pop_empty: "inv q \<Longrightarrow> items q = [] \<Longrightarrow> pop q = None"
    and pop_first: "inv q \<Longrightarrow> items q = x # xs \<Longrightarrow>
      \<exists>q'. pop q = Some (x, q') \<and> items q' = xs \<and> inv q'"
begin

lemma push_SomeD: "inv q \<Longrightarrow> push x q = Some q' \<Longrightarrow> items q' = items q @ [norm x] \<and> inv q'"
  using push_room [of q x] push_full [of q x] within [of q]
  by (metis le_neq_implies_less option.distinct(1) option.inject)

lemma push_None_iff: "inv q \<Longrightarrow> push x q = None \<longleftrightarrow> length (items q) = cap"
  using push_room [of q x] push_full [of q x] within [of q]
  by (metis le_neq_implies_less option.distinct(1))

lemma pop_None_iff: "inv q \<Longrightarrow> pop q = None \<longleftrightarrow> items q = []"
  using pop_empty [of q] pop_first [of q] by (metis neq_Nil_conv option.distinct(1))

lemma pop_SomeD: "inv q \<Longrightarrow> pop q = Some (x, q') \<Longrightarrow> items q = x # items q' \<and> inv q'"
  using pop_empty [of q] pop_first [of q]
  by (metis neq_Nil_conv option.distinct(1) option.inject prod.inject)

text \<open>Pushing a sequence keeps what fits, in order, and drops the rest.\<close>

primrec push_all :: "'a list \<Rightarrow> 'q \<Rightarrow> 'q" where
  "push_all [] q = q"
| "push_all (x # xs) q = push_all xs (case push x q of None \<Rightarrow> q | Some q' \<Rightarrow> q')"

lemma push_all_items:
  "inv q \<Longrightarrow> inv (push_all xs q) \<and>
     items (push_all xs q) = items q @ map norm (take (cap - length (items q)) xs)"
proof (induction xs arbitrary: q)
  case (Cons x xs)
  show ?case
  proof (cases "push x q")
    case None
    then have "length (items q) = cap" using push_None_iff Cons.prems by blast
    then show ?thesis using Cons None by simp
  next
    case (Some q')
    then have q': "items q' = items q @ [norm x]" "inv q'" using push_SomeD Cons.prems by blast+
    then have "cap - length (items q) = Suc (cap - length (items q'))"
      using within [of q'] by simp
    then show ?thesis using Cons.IH [OF q'(2)] Some q'(1) by simp
  qed
qed simp

text \<open>Emptying the channel yields its items in order.\<close>

lemma pop_cases: "inv q \<Longrightarrow> (case pop q of None \<Rightarrow> items q = [] | Some (x, q') \<Rightarrow> items q = x # items q' \<and> inv q')"
  using pop_None_iff [of q] pop_SomeD [of q] by (auto split: option.split)

end

subsection \<open>Keyed tables\<close>

text \<open>
  A table of bounded size seen through its lookup: arming a key binds it when it is there
  already or a slot is free, and changes nothing otherwise; disarming unbinds the key.
\<close>

locale keyed_table =
  fixes find :: "'t \<Rightarrow> 'k \<Rightarrow> 'v option"
    and arm :: "'k \<Rightarrow> 'v \<Rightarrow> 't \<Rightarrow> 't"
    and disarm :: "'k \<Rightarrow> 't \<Rightarrow> 't"
    and room :: "'t \<Rightarrow> bool"
    and inv :: "'t \<Rightarrow> bool"
  assumes inv_arm: "inv t \<Longrightarrow> inv (arm k v t)"
    and inv_disarm: "inv t \<Longrightarrow> inv (disarm k t)"
    and find_arm: "inv t \<Longrightarrow> find t k \<noteq> None \<or> room t \<Longrightarrow> find (arm k v t) = (find t)(k \<mapsto> v)"
    and find_arm_full: "inv t \<Longrightarrow> find t k = None \<Longrightarrow> \<not> room t \<Longrightarrow> find (arm k v t) = find t"
    and find_disarm: "inv t \<Longrightarrow> find (disarm k t) = (find t)(k := None)"
begin

lemma arm_other: "inv t \<Longrightarrow> k' \<noteq> k \<Longrightarrow> find (arm k v t) k' = find t k'"
  using find_arm [of t k v] find_arm_full [of t k v] by (cases "find t k \<noteq> None \<or> room t") auto

lemma arm_disarm:
  "inv t \<Longrightarrow> find (disarm k (arm k v t)) = (find t)(k := None)"
proof -
  assume t: "inv t"
  have "find (arm k v t) k' = find t k'" if "k' \<noteq> k" for k'
    using t that by (rule arm_other)
  then show ?thesis using t by (auto simp: find_disarm inv_arm fun_eq_iff)
qed

lemma rearm: "inv t \<Longrightarrow> find t k = Some u \<Longrightarrow> find (arm k v t) k = Some v"
  by (simp add: find_arm)

end

end
