(* ===== verification/Protocol.thy ===== *)
theory Protocol
  imports Prelude
begin

text \<open>
  The framing of the RPMsg link between the Linux service and the M4F firmware
  (\<open>src/Shared/Protocol/protocol.h\<close>): a header of type, sequence number and payload length, the
  payload, and a CRC16 over both, numbers big-endian. \<open>protocol_encode\<close> writes into a caller's
  buffer and \<open>protocol_decode\<close> reads one; \<open>protocol_wire\<close> states the format itself.
\<close>

subsection \<open>Constants\<close>

definition MAX_PAYLOAD_SIZE :: nat where "MAX_PAYLOAD_SIZE = 480"
definition MAX_PENDING_ACKS :: nat where "MAX_PENDING_ACKS = 8"
definition MAX_RETRIES :: nat where "MAX_RETRIES = 3"
definition ACK_TIMEOUT_MS :: nat where "ACK_TIMEOUT_MS = 1000"

abbreviation (input) "MSG_HELLO \<equiv> 0x01 :: u8"
abbreviation (input) "MSG_HELLO_ACK \<equiv> 0x02 :: u8"
abbreviation (input) "MSG_PING \<equiv> 0x03 :: u8"
abbreviation (input) "MSG_DATA \<equiv> 0x10 :: u8"
abbreviation (input) "MSG_ACK \<equiv> 0x11 :: u8"
abbreviation (input) "MSG_EVENT \<equiv> 0x20 :: u8"
abbreviation (input) "MSG_ERROR \<equiv> 0xFF :: u8"
abbreviation (input) "MSG_DEBUG_CRASH \<equiv> 0xF0 :: u8"
abbreviation (input) "MSG_DEBUG_HANG \<equiv> 0xF1 :: u8"
abbreviation (input) "MSG_RULE_BEGIN \<equiv> 0x30 :: u8"
abbreviation (input) "MSG_RULE_ITEM \<equiv> 0x31 :: u8"
abbreviation (input) "MSG_RULE_COMMIT \<equiv> 0x32 :: u8"
abbreviation (input) "MSG_NODE_CMD \<equiv> 0x33 :: u8"
abbreviation (input) "MSG_TIME_SYNC \<equiv> 0x34 :: u8"
abbreviation (input) "MSG_ARM_PENDING \<equiv> 0x35 :: u8"
abbreviation (input) "MSG_NODE_TELEMETRY \<equiv> 0x40 :: u8"
abbreviation (input) "MSG_NODE_STATE \<equiv> 0x41 :: u8"
abbreviation (input) "MSG_RULE_FIRED \<equiv> 0x42 :: u8"

definition MSG_HEADER_SIZE :: nat where "MSG_HEADER_SIZE = 5"
definition MSG_CRC_SIZE :: nat where "MSG_CRC_SIZE = 2"
definition MSG_OVERHEAD :: nat where "MSG_OVERHEAD = MSG_HEADER_SIZE + MSG_CRC_SIZE"

lemmas protocol_sizes = MAX_PAYLOAD_SIZE_def MSG_HEADER_SIZE_def MSG_CRC_SIZE_def MSG_OVERHEAD_def

subsection \<open>The checksum\<close>

definition crc16_bit :: "u16 \<Rightarrow> u16" where
  "crc16_bit crc =
     (if crc AND 0x8000 \<noteq> 0 then (push_bit 1 crc) XOR 0x1021 else push_bit 1 crc)"

definition crc16_step :: "u16 \<Rightarrow> u8 \<Rightarrow> u16" where
  "crc16_step crc b = (crc16_bit ^^ 8) (crc XOR push_bit 8 (ucast b))"

definition protocol_crc16 :: "u8 list \<Rightarrow> u16" where
  "protocol_crc16 data = foldl crc16_step 0xFFFF data"

subsection \<open>Big-endian helpers\<close>

definition protocol_get_u16_be :: "u8 list \<Rightarrow> nat \<Rightarrow> u16" where
  "protocol_get_u16_be p i = push_bit 8 (ucast (p ! i)) OR ucast (p ! (i + 1))"

definition protocol_put_u16_be :: "u8 list \<Rightarrow> nat \<Rightarrow> u16 \<Rightarrow> u8 list" where
  "protocol_put_u16_be p i v = p[i := ucast (drop_bit 8 v), i + 1 := ucast (v AND 0xFF)]"

subsection \<open>Encoding and decoding\<close>

text \<open>
  The buffer after the call and the number of bytes written, 0 for a payload that is too large.
  \<open>None\<close> is the NULL payload: its bytes are then whatever the buffer held.
\<close>

definition protocol_encode ::
  "u8 list \<Rightarrow> u8 \<Rightarrow> u16 \<Rightarrow> u8 list option \<Rightarrow> u16 \<Rightarrow> u8 list \<times> nat" where
  "protocol_encode buf ty sq payload payload_len =
     (let n = unat payload_len in
      if n > MAX_PAYLOAD_SIZE then (buf, 0)
      else
        let b1 = protocol_put_u16_be (protocol_put_u16_be (buf[0 := ty]) 1 sq) 3 payload_len;
            b2 = (case payload of None \<Rightarrow> b1
                  | Some p \<Rightarrow> if n > 0 then blit b1 MSG_HEADER_SIZE (take n p) else b1);
            crc = protocol_crc16 (take (MSG_HEADER_SIZE + n) b2)
        in (protocol_put_u16_be b2 (MSG_HEADER_SIZE + n) crc, MSG_HEADER_SIZE + n + MSG_CRC_SIZE))"

datatype decode_error = TooShort | BadLength | BadCrc

definition protocol_decode :: "u8 list \<Rightarrow> decode_error + u8 \<times> u16 \<times> u8 list" where
  "protocol_decode buf =
     (if length buf < MSG_OVERHEAD then Inl TooShort
      else
        let ty = buf ! 0; sq = protocol_get_u16_be buf 1; plen = protocol_get_u16_be buf 3;
            n = unat plen
        in
          if n > MAX_PAYLOAD_SIZE then Inl BadLength
          else if length buf \<noteq> MSG_HEADER_SIZE + n + MSG_CRC_SIZE then Inl BadLength
          else if protocol_crc16 (take (MSG_HEADER_SIZE + n) buf)
                  \<noteq> protocol_get_u16_be buf (MSG_HEADER_SIZE + n) then Inl BadCrc
          else Inr (ty, sq, take n (drop MSG_HEADER_SIZE buf)))"

text \<open>The wire format, stated without a buffer.\<close>

definition be16 :: "u16 \<Rightarrow> u8 list" where
  "be16 v = [ucast (drop_bit 8 v), ucast (v AND 0xFF)]"

definition protocol_body :: "u8 \<Rightarrow> u16 \<Rightarrow> u8 list \<Rightarrow> u8 list" where
  "protocol_body ty sq p = ty # be16 sq @ be16 (word_of_nat (length p)) @ p"

definition protocol_wire :: "u8 \<Rightarrow> u16 \<Rightarrow> u8 list \<Rightarrow> u8 list" where
  "protocol_wire ty sq p = protocol_body ty sq p @ be16 (protocol_crc16 (protocol_body ty sq p))"

definition wire_msg :: "u8 \<times> u16 \<times> u8 list \<Rightarrow> u8 list" where
  "wire_msg m = (case m of (ty, sq, p) \<Rightarrow> protocol_wire ty sq p)"

definition wire_msg_ok :: "u8 \<times> u16 \<times> u8 list \<Rightarrow> bool" where
  "wire_msg_ok m = (length (snd (snd m)) \<le> MAX_PAYLOAD_SIZE)"

lemmas crc16_eval = protocol_crc16_def crc16_step_def crc16_bit_def numeral_eq_Suc

subsection \<open>The checksum step is linear and injective\<close>

lemma test_top_bit: "x AND 0x8000 \<noteq> 0 \<longleftrightarrow> bit (x :: u16) 15"
  using bit_iff_and_push_bit_not_eq_0 [of x 15] by simp

lemma bit_crc_poly: "n < 16 \<Longrightarrow> bit (0x1021 :: u16) n \<longleftrightarrow> n = 0 \<or> n = 5 \<or> n = 12"
proof -
  assume "n < 16"
  moreover have "(0x1021 :: u16) = 1 OR push_bit 5 1 OR push_bit 12 1" by simp
  ultimately show ?thesis
    by (simp only: bit_or_iff bit_push_bit_iff bit_1_iff possible_bit_word) auto
qed

lemma bit_crc16_bit:
  "n < 16 \<Longrightarrow> bit (crc16_bit x) n \<longleftrightarrow>
     (if n = 0 then bit x 15 else bit x (n - 1) \<noteq> (bit x 15 \<and> (n = 5 \<or> n = 12)))"
proof -
  assume n: "n < 16"
  have "bit (push_bit 1 x) n \<longleftrightarrow> n \<noteq> 0 \<and> bit x (n - 1)"
    using n by (auto simp only: bit_push_bit_iff possible_bit_word) simp_all
  moreover have "crc16_bit x = push_bit 1 x XOR (if bit x 15 then 0x1021 else 0)"
    by (simp add: crc16_bit_def test_top_bit)
  ultimately show ?thesis
    using n by (cases "bit x 15") (auto simp only: bit_xor_iff bit_crc_poly bit_0_eq if_True if_False bot_fun_def bot_bool_def simp_thms split: if_splits)
qed

lemma crc16_bit_xor: "crc16_bit (x XOR y) = crc16_bit x XOR crc16_bit y"
  by (rule bit_word_eqI) (auto simp: bit_crc16_bit bit_xor_iff)

lemma crc16_bit_0 [simp]: "crc16_bit 0 = 0"
  by (simp add: crc16_bit_def)

lemma crc16_bit_inj: "crc16_bit x = crc16_bit y \<Longrightarrow> x = y"
proof (rule bit_word_eqI)
  fix n assume eq: "crc16_bit x = crc16_bit y" and n: "n < LENGTH(16)"
  have top: "bit x 15 = bit y 15"
    using arg_cong [OF eq, of "\<lambda>w. bit w 0"] by (simp add: bit_crc16_bit)
  show "bit x n = bit y n"
  proof (cases "n = 15")
    case False
    then show ?thesis
      using arg_cong [OF eq, of "\<lambda>w. bit w (Suc n)"] top n by (auto simp: bit_crc16_bit)
  qed (simp add: top)
qed

lemma crc16_bits_xor: "(crc16_bit ^^ k) (x XOR y) = (crc16_bit ^^ k) x XOR (crc16_bit ^^ k) y"
  by (induction k) (simp_all add: crc16_bit_xor)

lemma crc16_bits_inj: "(crc16_bit ^^ k) x = (crc16_bit ^^ k) y \<Longrightarrow> x = y"
  by (induction k) (auto dest: crc16_bit_inj)

lemma crc16_bits_inj_iff: "(crc16_bit ^^ k) x = (crc16_bit ^^ k) y \<longleftrightarrow> x = y"
  by (auto dest: crc16_bits_inj)

lemma crc16_bits_0 [simp]: "(crc16_bit ^^ k) 0 = 0"
  by (induction k) simp_all

text \<open>Eight shifts of a byte that starts in the low half move it, unreduced, to the high half.\<close>

lemma crc16_bit_shift: "\<not> bit x 15 \<Longrightarrow> crc16_bit x = push_bit 1 x"
  by (simp add: crc16_bit_def test_top_bit)

lemma crc16_bits_shift:
  "k \<le> 8 \<Longrightarrow> (crc16_bit ^^ k) (ucast (b :: u8)) = push_bit k (ucast b)"
proof (induction k)
  case (Suc k)
  have "\<not> bit (push_bit k (ucast b) :: u16) 15"
    using Suc.prems by (auto simp: bit_push_bit_iff bit_ucast_iff dest: bit_imp_le_length)
  with Suc show ?case
    by (simp only: funpow.simps o_apply Suc_leD [OF Suc.prems] crc16_bit_shift push_bit_push_bit
        plus_1_eq_Suc simp_thms)
qed simp

definition crc16_pair :: "u8 \<Rightarrow> u8 \<Rightarrow> u16" where
  "crc16_pair a b = push_bit 8 (ucast a) XOR ucast b"

lemma crc16_two_steps:
  "crc16_step (crc16_step c a) b = (crc16_bit ^^ 8) ((crc16_bit ^^ 8) (c XOR crc16_pair a b))"
proof -
  have "push_bit 8 (ucast b) = (crc16_bit ^^ 8) (ucast b)"
    by (simp only: crc16_bits_shift order_refl)
  then have "crc16_step (crc16_step c a) b =
      (crc16_bit ^^ 8) ((crc16_bit ^^ 8) (c XOR push_bit 8 (ucast a)) XOR (crc16_bit ^^ 8) (ucast b))"
    by (simp only: crc16_step_def)
  then show ?thesis
    by (simp only: crc16_pair_def xor.assoc flip: crc16_bits_xor)
qed

lemma crc16_pair_inj: "crc16_pair a b = crc16_pair a' b' \<longleftrightarrow> a = a' \<and> b = b'"
proof
  assume eq: "crc16_pair a b = crc16_pair a' b'"
  have "bit b n = bit b' n" if "n < 8" for n
    using arg_cong [OF eq, of "\<lambda>w. bit w n"] that
    by (auto simp: crc16_pair_def bit_xor_iff bit_push_bit_iff bit_ucast_iff)
  moreover have "bit a n = bit a' n" if "n < 8" for n
    using arg_cong [OF eq, of "\<lambda>w. bit w (n + 8)"] that
    by (auto simp: crc16_pair_def bit_xor_iff bit_push_bit_iff bit_ucast_iff dest: bit_imp_le_length)
  ultimately show "a = a' \<and> b = b'" by (auto intro: bit_word_eqI)
qed simp

lemma xor_cancel [simp]:
  "a XOR c = b XOR c \<longleftrightarrow> a = (b :: 'w :: len word)"
  "c XOR a = c XOR b \<longleftrightarrow> a = b"
  by (metis xor.assoc xor.right_neutral xor_self_eq, metis xor.assoc xor.left_neutral xor_self_eq)

interpretation crc16: byte_hash crc16_step
proof
  show "crc16_step s b = crc16_step t b \<Longrightarrow> s = t" for s t b
    unfolding crc16_step_def by (drule crc16_bits_inj) (simp only: xor_cancel)
  show "crc16_step s a = crc16_step s b \<Longrightarrow> a = b" for s a b
  proof -
    assume "crc16_step s a = crc16_step s b"
    then have "push_bit 8 (ucast a :: u16) = push_bit 8 (ucast b)"
      unfolding crc16_step_def by (simp only: xor_cancel crc16_bits_inj_iff)
    then have "crc16_pair a 0 = crc16_pair b 0" by (simp only: crc16_pair_def)
    then show "a = b" by (simp only: crc16_pair_inj)
  qed
qed


subsection \<open>A valid frame has residue zero\<close>

lemma bit_crc16_pair:
  "n < 16 \<Longrightarrow> bit (crc16_pair a b) n \<longleftrightarrow> (if n < 8 then bit b n else bit a (n - 8))"
  by (auto simp: crc16_pair_def bit_xor_iff bit_push_bit_iff bit_ucast_iff dest: bit_imp_le_length)

lemma get_u16_be_pair: "protocol_get_u16_be p i = crc16_pair (p ! i) (p ! (i + 1))"
  by (rule bit_word_eqI)
    (auto simp: protocol_get_u16_be_def bit_crc16_pair bit_or_iff bit_push_bit_iff bit_ucast_iff
      dest: bit_imp_le_length)

lemma low_byte: "v AND 0xFF = take_bit 8 (v :: u16)"
  by (simp add: take_bit_eq_mask mask_eq_exp_minus_1)

lemma be16_pair [simp]: "be16 (crc16_pair a b) = [a, b]"
  unfolding be16_def low_byte
  by (auto intro!: bit_word_eqI simp: bit_ucast_iff bit_drop_bit_eq bit_crc16_pair bit_take_bit_iff)

lemma pair_be16: "crc16_pair (ucast (drop_bit 8 v)) (ucast (v AND 0xFF)) = v"
proof -
  have "bit (crc16_pair (ucast (drop_bit 8 v)) (ucast (take_bit 8 v))) n = bit v n" if "n < 16" for n
    using that by (simp add: bit_crc16_pair bit_ucast_iff bit_drop_bit_eq bit_take_bit_iff) arith
  then show ?thesis unfolding low_byte by (intro bit_word_eqI) simp
qed

lemma length_be16 [simp]: "length (be16 v) = 2"
  by (simp add: be16_def)

lemma crc16_residue: "crc16_step (crc16_step c a) b = 0 \<longleftrightarrow> c = crc16_pair a b"
proof -
  have "crc16_step (crc16_step c a) b = 0 \<longleftrightarrow> c XOR crc16_pair a b = 0"
    using crc16_bits_inj_iff [of 8 _ 0] by (simp only: crc16_two_steps crc16_bits_0)
  then show ?thesis using xor_cancel(1) [of c "crc16_pair a b" "crc16_pair a b"] by (simp only: xor_self_eq)
qed

lemma crc16_two_bytes:
  "foldl crc16_step c (xs @ a # b # ys) = foldl crc16_step c (xs @ a' # b' # ys) \<longleftrightarrow> a = a' \<and> b = b'"
proof
  assume "foldl crc16_step c (xs @ a # b # ys) = foldl crc16_step c (xs @ a' # b' # ys)"
  then have "crc16_step (crc16_step (foldl crc16_step c xs) a) b =
      crc16_step (crc16_step (foldl crc16_step c xs) a') b'"
    by (auto dest: crc16.foldl_state_inj)
  then show "a = a' \<and> b = b'"
    by (simp only: crc16_two_steps crc16_bits_inj_iff xor_cancel crc16_pair_inj)
qed simp

subsection \<open>What the decoder accepts\<close>

lemma list_five: "5 \<le> length bs \<Longrightarrow> \<exists>a b c d e r. bs = a # b # c # d # e # r"
  by (simp add: Suc_le_length_iff numeral_eq_Suc) blast

lemma decode_five:
  "protocol_decode (a # b # c # d # e # r) =
     (let n = unat (crc16_pair d e) in
      if length r < 2 then Inl TooShort
      else if n > 480 \<or> length r \<noteq> n + 2 then Inl BadLength
      else if foldl crc16_step 0xFFFF (a # b # c # d # e # r) \<noteq> 0 then Inl BadCrc
      else Inr (a, crc16_pair b c, take n r))"
proof -
  define n where "n = unat (crc16_pair d e)"
  have tail: "r = take n r @ [r ! n, r ! Suc n]" if "length r = n + 2"
  proof -
    have "drop n r = r ! n # drop (Suc n) r" "drop (Suc n) r = r ! Suc n # drop (Suc (Suc n)) r"
      using that by (simp_all only: Cons_nth_drop_Suc)
    then show ?thesis using that by (metis append_take_drop_id drop_all le_eq_less_or_eq add_2_eq_Suc')
  qed
  have "foldl crc16_step 0xFFFF (a # b # c # d # e # r) = 0 \<longleftrightarrow>
      foldl crc16_step 0xFFFF (a # b # c # d # e # take n r) = crc16_pair (r ! n) (r ! Suc n)"
    if "length r = n + 2"
    by (subst tail [OF that])
      (simp only: crc16_residue foldl_append foldl.simps append_Cons)
  then show ?thesis
    by (auto simp: protocol_decode_def protocol_sizes get_u16_be_pair Let_def protocol_crc16_def
        n_def [symmetric] numeral_eq_Suc)
qed


lemma word16_of_nat_unat: "n \<le> 480 \<Longrightarrow> unat (word_of_nat n :: u16) = n"
  by (simp add: unat_of_nat take_bit_eq_mod)

lemma be16_list: "be16 v = [ucast (drop_bit 8 v), ucast (v AND 0xFF)]"
  by (simp add: be16_def)

lemma wire_residue: "foldl crc16_step 0xFFFF (protocol_wire ty sq p) = 0"
  by (simp only: protocol_wire_def protocol_crc16_def be16_list foldl_append foldl.simps
      crc16_residue pair_be16)

lemma length_protocol_wire [simp]: "length (protocol_wire ty sq p) = length p + 7"
  by (simp add: protocol_wire_def protocol_body_def)

lemma decode_wire:
  assumes "length p \<le> 480"
  shows "protocol_decode (protocol_wire ty sq p) = Inr (ty, sq, p)"
  using wire_residue [of ty sq p] assms
  by (simp add: protocol_wire_def protocol_body_def be16_list decode_five pair_be16
      word16_of_nat_unat del: foldl_append foldl_Cons)

lemma decode_InrD:
  assumes "protocol_decode bs = Inr (ty, sq, p)"
  shows "length p \<le> 480 \<and> protocol_wire ty sq p = bs"
proof -
  have "5 \<le> length bs" using assms
    by (auto simp: protocol_decode_def protocol_sizes split: if_splits)
  then obtain a b c d e r where bs: "bs = a # b # c # d # e # r" using list_five by blast
  define n where "n = unat (crc16_pair d e)"
  have len: "length r = n + 2" and n: "n \<le> 480" and r: "ty = a" "sq = crc16_pair b c" "p = take n r"
    and res: "foldl crc16_step 0xFFFF (a # b # c # d # e # r) = 0"
    using assms unfolding bs decode_five Let_def n_def [symmetric]
    by (auto split: if_splits simp del: foldl_Cons)
  have lenp: "length p = n" using len r by simp
  obtain x y where tail: "r = p @ [x, y]"
  proof -
    have "length (drop n r) = Suc (Suc 0)" using len by simp
    then obtain x y where "drop n r = [x, y]" unfolding length_Suc_conv by auto
    then show ?thesis using that r(3) append_take_drop_id [of n r] by metis
  qed
  have body: "protocol_body ty sq p = a # b # c # d # e # p"
    using lenp n by (simp add: protocol_body_def r(1,2) n_def)
  have "foldl crc16_step 0xFFFF ((a # b # c # d # e # p) @ [x, y]) = 0"
    using res tail by (simp del: foldl_Cons foldl_append)
  then have "protocol_crc16 (protocol_body ty sq p) = crc16_pair x y"
    unfolding body protocol_crc16_def by (simp only: foldl_append foldl.simps crc16_residue)
  then show ?thesis using lenp n body tail bs by (simp add: protocol_wire_def)
qed


subsection \<open>Corruption on the wire\<close>

lemma same_residue_accepted:
  assumes "protocol_decode bs = Inr m"
  shows "foldl crc16_step 0xFFFF bs = 0"
  using decode_InrD wire_residue assms by (metis prod_cases3)

lemma decode_Inl_or: "(\<exists>e. protocol_decode bs = Inl e) \<longleftrightarrow> (\<nexists>m. protocol_decode bs = Inr m)"
  by (metis Inl_Inr_False sum.exhaust)

lemma wire_msg_detects:
  assumes "i < length (wire_msg m)" "b \<noteq> wire_msg m ! i"
  shows "\<exists>e. protocol_decode ((wire_msg m)[i := b]) = Inl e"
  unfolding decode_Inl_or
proof
  assume "\<exists>m'. protocol_decode ((wire_msg m)[i := b]) = Inr m'"
  then have "foldl crc16_step 0xFFFF ((wire_msg m)[i := b]) = foldl crc16_step 0xFFFF (wire_msg m)"
    using same_residue_accepted wire_residue by (metis wire_msg_def prod.case prod_cases3)
  with assms show False by (simp add: crc16.foldl_update)
qed

interpretation rpmsg: checked_codec wire_msg protocol_decode wire_msg_ok
proof
  show "protocol_decode (wire_msg m) = Inr m" if "wire_msg_ok m" for m
    using that by (cases m) (simp add: wire_msg_def wire_msg_ok_def decode_wire protocol_sizes)
  show "wire_msg_ok m \<and> wire_msg m = bs" if "protocol_decode bs = Inr m" for bs m
    using that by (cases m) (auto simp: wire_msg_def wire_msg_ok_def protocol_sizes dest: decode_InrD)
  show "\<exists>e. protocol_decode ((wire_msg m)[i := b]) = Inl e"
    if "wire_msg_ok m" "i < length (wire_msg m)" "b \<noteq> wire_msg m ! i" for m i b
    using that by (intro wire_msg_detects)
qed

subsection \<open>The buffer the encoder fills\<close>

lemma put_u16_be: "protocol_put_u16_be (xs @ a # b # ys) (length xs) v = xs @ be16 v @ ys"
  by (simp add: protocol_put_u16_be_def be16_def list_update_append)

lemma put_u16_be_at:
  assumes "length xs = i"
  shows "protocol_put_u16_be (xs @ a # b # ys) i v = xs @ be16 v @ ys"
  using put_u16_be assms by blast

lemma protocol_encode_wire:
  assumes n: "unat pl \<le> 480" and buf: "unat pl + 7 \<le> length buf" and p: "unat pl \<le> length p"
  shows "protocol_encode buf ty sq (Some p) pl =
    (protocol_wire ty sq (take (unat pl) p) @ drop (unat pl + 7) buf, unat pl + 7)"
proof -
  define n where "n = unat pl"
  obtain a b c d e r where bs: "buf = a # b # c # d # e # r"
    using list_five [of buf] buf by fastforce
  have r: "n + 2 \<le> length r" using buf by (simp add: bs n_def)
  define x y z where "x = take n r" and "y = r ! n" and "z = r ! Suc n"
  have split_r: "r = x @ y # z # drop (n + 2) r"
  proof -
    have "drop n r = y # z # drop (n + 2) r" using r by (simp add: y_def z_def Cons_nth_drop_Suc)
    then show ?thesis using append_take_drop_id [of n r] by (simp add: x_def)
  qed
  have x: "length x = n" using r by (simp add: x_def)
  let ?hd = "ty # be16 sq @ be16 pl"
  have b1: "protocol_put_u16_be (protocol_put_u16_be (buf[0 := ty]) 1 sq) 3 pl = ?hd @ r"
    using put_u16_be_at [of "[ty]" 1 b c "d # e # r" sq]
      put_u16_be_at [of "ty # be16 sq" 3 d e r pl] by (simp add: bs)
  have b2: "(if n > 0 then blit (?hd @ r) 5 (take n p) else ?hd @ r)
      = ?hd @ take n p @ y # z # drop (n + 2) r"
  proof (cases "n = 0")
    case True
    then show ?thesis using split_r x by simp
  next
    case False
    have "drop (n + 5) (?hd @ r) = drop n r" by (simp add: be16_def numeral_eq_Suc)
    also have "drop n r = y # z # drop (n + 2) r" using split_r x by (metis append_eq_conv_conj)
    finally show ?thesis using False p by (simp add: blit_def n_def min_def add.commute)
  qed
  have body: "protocol_body ty sq (take n p) = ?hd @ take n p"
    using p by (simp add: protocol_body_def n_def)
  have "protocol_put_u16_be (?hd @ take n p @ y # z # drop (n + 2) r) (5 + n) crc
      = protocol_body ty sq (take n p) @ be16 crc @ drop (n + 2) r" for crc
    using put_u16_be_at [of "?hd @ take n p" "5 + n" y z "drop (n + 2) r" crc] p [folded n_def]
    by (simp add: body)
  moreover have "take (5 + n) (?hd @ take n p @ y # z # drop (n + 2) r) = protocol_body ty sq (take n p)"
    using p [folded n_def] by (simp add: body be16_def numeral_eq_Suc)
  moreover have "drop (n + 7) buf = drop (n + 2) r" by (simp add: bs numeral_eq_Suc)
  moreover have "\<not> 480 < n" "5 + n + 2 = n + 7" using n by (simp_all add: n_def)
  ultimately show ?thesis
    by (simp only: protocol_encode_def Let_def n_def [symmetric] protocol_sizes b1 option.case b2
        if_False protocol_wire_def append_assoc)
qed

lemma protocol_decode_wire_example:
  "protocol_decode ([0x10, 0, 7, 0, 2, 1, 2] @ be16 (protocol_crc16 [0x10, 0, 7, 0, 2, 1, 2])) =
     Inr (0x10, 7, [1, 2])"
  using decode_wire [of "[1, 2]" "0x10" 7] by (simp add: protocol_wire_def protocol_body_def be16_def)

subsection \<open>Properties\<close>

text \<open>
  C1. Round trip over the encoder's buffer: whatever the buffer held, the bytes that
  \<open>protocol_encode\<close> reports as written decode to the type, the sequence number and the payload
  it was given, for every payload of at most \<open>MAX_PAYLOAD_SIZE\<close> bytes; a larger payload is
  refused with 0 and the buffer untouched.
\<close>

theorem protocol_encode_decode:
  assumes "length p = unat pl" and "unat pl + 7 \<le> length buf"
  shows "case protocol_encode buf ty sq (Some p) pl of (buf', n) \<Rightarrow>
    if unat pl \<le> MAX_PAYLOAD_SIZE
    then n = unat pl + MSG_OVERHEAD \<and> length buf' = length buf \<and> drop n buf' = drop n buf \<and>
         protocol_decode (take n buf') = Inr (ty, sq, p)
    else n = 0 \<and> buf' = buf"
proof (cases "unat pl \<le> 480")
  case True
  then show ?thesis
    using assms by (simp add: protocol_encode_wire decode_wire protocol_sizes)
next
  case False
  then show ?thesis by (simp add: protocol_encode_def protocol_sizes)
qed

theorem protocol_encode_decode_witness:
  "protocol_decode (take 9 (fst (protocol_encode (replicate 12 0) MSG_DATA 7 (Some [1, 2]) 2)))
     = Inr (MSG_DATA, 7, [1, 2])"
  using protocol_encode_decode [of "[1, 2]" 2 "replicate 12 0" MSG_DATA 7]
  by (auto simp: protocol_sizes)

text \<open>
  C2. The decoder accepts exactly the canonical frames: a byte sequence decodes if and only if it
  is the wire form of the message it decodes to, with a payload of at most 480 bytes. So two
  different byte sequences never decode to the same message, and no frame has two readings.
\<close>

theorem protocol_decode_exact:
  "protocol_decode bs = Inr (ty, sq, p) \<longleftrightarrow>
     length p \<le> MAX_PAYLOAD_SIZE \<and> bs = protocol_wire ty sq p"
  using decode_InrD decode_wire by (auto simp: protocol_sizes)

text \<open>
  C3. A burst is detected: when two neighbouring bytes of an accepted frame are replaced, wherever
  they stand (header, length, payload or checksum) and whatever their new values, the
  decoder refuses the frame unless both bytes are what they were.
\<close>

theorem protocol_burst_detected:
  assumes "protocol_decode (xs @ a # b # ys) = Inr m"
  shows "(\<exists>m'. protocol_decode (xs @ a' # b' # ys) = Inr m') \<longleftrightarrow> a' = a \<and> b' = b"
  using assms same_residue_accepted crc16_two_bytes by metis

theorem protocol_burst_detected_witness:
  "\<not> (\<exists>m. protocol_decode ([0x10, 0, 7, 0, 2] @ 2 # 1 # be16 (protocol_crc16 [0x10, 0, 7, 0, 2, 1, 2])) = Inr m)"
proof -
  have "protocol_decode ([0x10, 0, 7, 0, 2] @ 1 # 2 # be16 (protocol_crc16 [0x10, 0, 7, 0, 2, 1, 2]))
      = Inr (0x10, 7, [1, 2])"
    using protocol_decode_wire_example by simp
  from protocol_burst_detected [OF this, of 2 1] show ?thesis by simp
qed

end
