(* ===== verification/RxRing.thy ===== *)
theory RxRing
  imports Protocol
begin

text \<open>
  The receive ring of the communication task (\<open>src/Gateway/Firmware/M4F/ipc_rpmsg_echo.c\<close>): four slots
  between the RPMsg callback, which advances the head, and the task loop, which advances the tail. One
  slot always stays free, so it holds three messages. A message longer than 255 bytes is cut.
\<close>

definition RX_RING_SLOTS :: nat where [simp]: "RX_RING_SLOTS = 4"
definition MAX_MSG_SIZE :: nat where [simp]: "MAX_MSG_SIZE = 256"

record RxSlot =
  rs_data :: "u8 list"
  rs_dataLen :: nat

record RxRing =
  gRxRing :: "RxSlot list"
  gRxHead :: nat
  gRxTail :: nat

definition rx_init :: "RxRing \<Rightarrow> RxRing" where
  "rx_init r = r\<lparr> gRxHead := 0, gRxTail := 0 \<rparr>"

text \<open>The callback's part on the ring; \<open>None\<close> is the drop of a message that finds it full.\<close>

definition ring_push :: "u8 list \<Rightarrow> RxRing \<Rightarrow> RxRing option" where
  "ring_push d r =
     (let next = (gRxHead r + 1) mod RX_RING_SLOTS in
      if next = gRxTail r then None
      else
        let dataLen = (if length d > MAX_MSG_SIZE - 1 then MAX_MSG_SIZE - 1 else length d);
            slot = gRxRing r ! gRxHead r;
            copied = (blit (rs_data slot) 0 (take dataLen d))[dataLen := 0]
        in Some (r\<lparr> gRxRing := (gRxRing r)[gRxHead r := \<lparr> rs_data = copied, rs_dataLen = dataLen \<rparr>],
                    gRxHead := next \<rparr>))"

text \<open>The loop's part: the bytes of the slot at the tail, then the advance.\<close>

definition ring_peek :: "RxRing \<Rightarrow> u8 list option" where
  "ring_peek r = (if gRxTail r = gRxHead r then None
     else let slot = gRxRing r ! gRxTail r in Some (take (rs_dataLen slot) (rs_data slot)))"

definition ring_advance :: "RxRing \<Rightarrow> RxRing" where
  "ring_advance r = r\<lparr> gRxTail := (gRxTail r + 1) mod RX_RING_SLOTS \<rparr>"

definition ring_pop :: "RxRing \<Rightarrow> (u8 list \<times> RxRing) option" where
  "ring_pop r = (case ring_peek r of None \<Rightarrow> None | Some d \<Rightarrow> Some (d, ring_advance r))"

subsection \<open>The ring holds a queue of three\<close>

definition ring_count :: "RxRing \<Rightarrow> nat" where
  "ring_count r = (gRxHead r + RX_RING_SLOTS - gRxTail r) mod RX_RING_SLOTS"

definition ring_items :: "RxRing \<Rightarrow> u8 list list" where
  "ring_items r = map (\<lambda>k. let slot = gRxRing r ! ((gRxTail r + k) mod RX_RING_SLOTS)
     in take (rs_dataLen slot) (rs_data slot)) [0 ..< ring_count r]"

definition ring_inv :: "RxRing \<Rightarrow> bool" where
  "ring_inv r \<longleftrightarrow> length (gRxRing r) = RX_RING_SLOTS \<and> gRxHead r < RX_RING_SLOTS \<and>
     gRxTail r < RX_RING_SLOTS \<and> list_all (\<lambda>s. length (rs_data s) = MAX_MSG_SIZE) (gRxRing r)"

definition rx_clip :: "u8 list \<Rightarrow> u8 list" where
  "rx_clip d = take (MAX_MSG_SIZE - 1) d"

lemma less_4_cases: "(n :: nat) < 4 \<Longrightarrow> n = 0 \<or> n = 1 \<or> n = 2 \<or> n = 3"
  by linarith

lemma ring_inv_cases:
  assumes "ring_inv r"
  obtains a b c d where "gRxRing r = [a, b, c, d]"
    "length (rs_data a) = 256" "length (rs_data b) = 256" "length (rs_data c) = 256" "length (rs_data d) = 256"
  using assms by (auto simp: ring_inv_def numeral_eq_Suc length_Suc_conv)

lemma count_bound: "ring_inv r \<Longrightarrow> ring_count r \<le> 3"
  by (simp add: ring_count_def)

lemma slot_bytes:
  "length buf = 256 \<Longrightarrow> take n ((blit buf 0 (take n d))[n := 0]) = take n d"
  if "n \<le> 255" "n \<le> length d" for n :: nat and buf d :: "u8 list"
  using that by (simp add: blit_def min_def)

lemma ring_full: "ring_inv r \<Longrightarrow> (gRxHead r + 1) mod 4 = gRxTail r \<longleftrightarrow> ring_count r = 3"
  unfolding ring_inv_def ring_count_def RX_RING_SLOTS_def
  using less_4_cases [of "gRxHead r"] less_4_cases [of "gRxTail r"] by auto

lemma ring_empty: "ring_inv r \<Longrightarrow> gRxTail r = gRxHead r \<longleftrightarrow> ring_count r = 0"
  unfolding ring_inv_def ring_count_def RX_RING_SLOTS_def
  using less_4_cases [of "gRxHead r"] less_4_cases [of "gRxTail r"] by auto

lemma ring_items_Nil: "ring_items r = [] \<longleftrightarrow> ring_count r = 0"
  by (simp add: ring_items_def)

lemma length_ring_items [simp]: "length (ring_items r) = ring_count r"
  by (simp add: ring_items_def)


lemma ring_count_push:
  assumes "ring_inv r" "ring_count r < 3"
  shows "ring_count (r\<lparr> gRxRing := s, gRxHead := (gRxHead r + 1) mod 4 \<rparr>) = Suc (ring_count r)"
  using assms less_4_cases [of "gRxHead r"] less_4_cases [of "gRxTail r"]
  by (auto simp: ring_inv_def ring_count_def)

lemma ring_index:
  assumes "ring_inv r" "k < ring_count r"
  shows "(gRxTail r + k) mod 4 \<noteq> gRxHead r"
  using assms less_4_cases [of "gRxHead r"] less_4_cases [of "gRxTail r"] less_4_cases [of k]
    count_bound [OF assms(1)]
  by (auto simp: ring_inv_def ring_count_def)

lemma ring_head_index: "ring_inv r \<Longrightarrow> (gRxTail r + ring_count r) mod 4 = gRxHead r"
  using less_4_cases [of "gRxHead r"] less_4_cases [of "gRxTail r"]
  by (auto simp: ring_inv_def ring_count_def)

lemma ring_push_room:
  assumes "ring_inv r" "ring_count r < 3"
  shows "\<exists>r'. ring_push d r = Some r' \<and> ring_items r' = ring_items r @ [rx_clip d] \<and> ring_inv r'"
proof -
  let ?n = "if length d > 255 then 255 else length d" and ?h = "gRxHead r"
  define sl where "sl = \<lparr> rs_data = (blit (rs_data (gRxRing r ! ?h)) 0 (take ?n d))[?n := 0], rs_dataLen = ?n \<rparr>"
  define r' where "r' = r\<lparr> gRxRing := (gRxRing r)[?h := sl], gRxHead := (?h + 1) mod 4 \<rparr>"
  have h: "?h < 4" "length (gRxRing r) = 4" using assms(1) by (simp_all add: ring_inv_def)
  have buf: "length (rs_data (gRxRing r ! ?h)) = 256"
    using assms(1) h by (auto simp: ring_inv_def list_all_length)
  have push: "ring_push d r = Some r'"
    using ring_full [OF assms(1)] assms(2) by (simp add: ring_push_def Let_def r'_def sl_def)
  have cnt: "ring_count r' = Suc (ring_count r)"
    using ring_count_push [OF assms] by (simp add: r'_def)
  have old: "gRxRing r' ! ((gRxTail r + k) mod 4) = gRxRing r ! ((gRxTail r + k) mod 4)"
    if "k < ring_count r" for k
    using ring_index [OF assms(1) that] by (simp add: r'_def)
  have new: "gRxRing r' ! ((gRxTail r + ring_count r) mod 4) = sl"
    using h ring_head_index [OF assms(1)] by (simp add: r'_def)
  have sl: "take (rs_dataLen sl) (rs_data sl) = rx_clip d" "length (rs_data sl) = 256"
    using slot_bytes [of ?n d] buf by (simp_all add: rx_clip_def sl_def)
  have "gRxTail r' = gRxTail r" by (simp add: r'_def)
  then have "ring_items r' = ring_items r @ [rx_clip d]"
    unfolding ring_items_def cnt by (simp add: Let_def old new sl)
  moreover have "ring_inv r'"
    using assms(1) h sl by (auto simp: ring_inv_def r'_def list_all_length nth_list_update)
  ultimately show ?thesis using push by blast
qed

lemma ring_pop_first:
  assumes "ring_inv r" "ring_items r = x # xs"
  shows "\<exists>r'. ring_pop r = Some (x, r') \<and> ring_items r' = xs \<and> ring_inv r'"
proof -
  define r' where "r' = ring_advance r"
  have c: "ring_count r = Suc (length xs)" using assms(2) by (metis length_Cons length_ring_items)
  have t: "gRxTail r < 4" "gRxHead r < 4" using assms(1) by (simp_all add: ring_inv_def)
  have "ring_count r \<noteq> 0 \<Longrightarrow> ring_count r' = ring_count r - 1"
    using t less_4_cases [of "gRxHead r"] less_4_cases [of "gRxTail r"]
    by (auto simp: r'_def ring_advance_def ring_count_def)
  with c have c': "ring_count r' = length xs" by simp
  have cons: "ring_items r = (let s = gRxRing r ! gRxTail r in take (rs_dataLen s) (rs_data s)) # ring_items r'"
    unfolding ring_items_def c c'
    using t by (simp add: upt_conv_Cons map_Suc_upt [symmetric] comp_def Let_def r'_def ring_advance_def mod_simps del: upt_Suc map_Suc_upt)
  have "ring_inv r'" using assms(1) by (simp add: r'_def ring_advance_def ring_inv_def)
  moreover have "ring_peek r = Some x"
    using cons assms(2) ring_empty [OF assms(1)] c by (auto simp: ring_peek_def Let_def)
  ultimately show ?thesis using cons assms(2) by (simp add: ring_pop_def r'_def)
qed

interpretation rx_ring: bounded_fifo ring_push ring_pop ring_items rx_clip 3 ring_inv
proof
  show "ring_inv r \<Longrightarrow> length (ring_items r) \<le> 3" for r by (simp add: count_bound)
  show "ring_inv r \<Longrightarrow> length (ring_items r) < 3 \<Longrightarrow>
      \<exists>r'. ring_push d r = Some r' \<and> ring_items r' = ring_items r @ [rx_clip d] \<and> ring_inv r'" for r d
    by (simp add: ring_push_room)
  show "ring_inv r \<Longrightarrow> length (ring_items r) = 3 \<Longrightarrow> ring_push d r = None" for r d
    using ring_full [of r] by (simp add: ring_push_def Let_def)
  show "ring_inv r \<Longrightarrow> ring_items r = [] \<Longrightarrow> ring_pop r = None" for r
    by (simp add: ring_items_Nil ring_pop_def ring_peek_def ring_empty)
  show "ring_inv r \<Longrightarrow> ring_items r = x # xs \<Longrightarrow>
      \<exists>r'. ring_pop r = Some (x, r') \<and> ring_items r' = xs \<and> ring_inv r'" for r x xs
    by (rule ring_pop_first)
qed

end
