(* ===== verification/NodeProtocol.thy ===== *)
theory NodeProtocol
  imports Protocol
begin

text \<open>
  The structs that nodes, concentrator, M4F and Linux exchange
  (\<open>src/Shared/Protocol/node_protocol.h\<close>), kept as their memory images: a \<open>MessageStruct\<close> is four
  header bytes and a 40-byte union, and each arm of the union is a view of those bytes at its
  ABI offset, because the code writes one arm and reads another. All numbers are little-endian.
\<close>

subsection \<open>Codes\<close>

abbreviation (input) "NODE_SOLAR_CONTROLLER \<equiv> 0 :: u8"
abbreviation (input) "NODE_BUFOR_CONTROLLER \<equiv> 1 :: u8"
abbreviation (input) "NODE_LIGHT_CONTROLLER \<equiv> 3 :: u8"
abbreviation (input) "NODE_TH_SENSOR \<equiv> 6 :: u8"

abbreviation (input) "CMD_SEND_DATA_TO_DB \<equiv> 0 :: u8"
abbreviation (input) "CMD_SEND_PUMP_STATUS \<equiv> 1 :: u8"
abbreviation (input) "CMD_TURN_PUMP_ON_OFF \<equiv> 2 :: u8"
abbreviation (input) "CMD_SEND_TEXT_MSG \<equiv> 3 :: u8"
abbreviation (input) "CMD_JOIN_REQUEST \<equiv> 4 :: u8"
abbreviation (input) "CMD_JOIN_ACCEPT \<equiv> 5 :: u8"
abbreviation (input) "CMD_REMOVE \<equiv> 6 :: u8"
abbreviation (input) "CMD_UNREGISTERED \<equiv> 7 :: u8"

definition NODE_TEXT_MAX :: nat where "NODE_TEXT_MAX = 30"
definition NODE_FACTORY_ID_LEN :: nat where "NODE_FACTORY_ID_LEN = 8"

abbreviation (input) "ADDR_GATEWAY \<equiv> 0x00 :: u8"
abbreviation (input) "ADDR_UNPROVISIONED \<equiv> 0xFF :: u8"

abbreviation (input) "RF_FRAME_TAG_LEGACY \<equiv> 0x44 :: u8"
abbreviation (input) "RF_FRAME_TAG_V2 \<equiv> 0x45 :: u8"
abbreviation (input) "RF_REPLY_ACK \<equiv> 0x41 :: u8"
abbreviation (input) "RF_REPLY_NACK \<equiv> 0x4E :: u8"

abbreviation (input) "CTRL_OP_ARM \<equiv> 1 :: u8"
abbreviation (input) "CTRL_OP_DISARM \<equiv> 2 :: u8"

subsection \<open>MessageStruct\<close>

record MessageStruct =
  m_id :: u8
  m_type :: u8
  m_cmd :: u8
  m_length :: u8
  m_payload :: "u8 list"

definition PAYLOAD_SIZE :: nat where "PAYLOAD_SIZE = 40"
definition MESSAGE_SIZE :: nat where "MESSAGE_SIZE = 44"

definition wf_msg :: "MessageStruct \<Rightarrow> bool" where
  "wf_msg m \<longleftrightarrow> length (m_payload m) = PAYLOAD_SIZE"

definition msg_zero :: MessageStruct where
  "msg_zero = \<lparr> m_id = 0, m_type = 0, m_cmd = 0, m_length = 0, m_payload = replicate PAYLOAD_SIZE 0 \<rparr>"

definition msg_bytes :: "MessageStruct \<Rightarrow> u8 list" where
  "msg_bytes m = [m_id m, m_type m, m_cmd m, m_length m] @ m_payload m"

definition msg_of_bytes :: "u8 list \<Rightarrow> MessageStruct" where
  "msg_of_bytes bs = \<lparr> m_id = bs ! 0, m_type = bs ! 1, m_cmd = bs ! 2, m_length = bs ! 3,
     m_payload = take PAYLOAD_SIZE (drop 4 bs) \<rparr>"

text \<open>The arms of the union, by field.\<close>

definition solarData_Tin :: "MessageStruct \<Rightarrow> u32" where "solarData_Tin m = le32_at (m_payload m) 0"
definition solarData_Tout :: "MessageStruct \<Rightarrow> u32" where "solarData_Tout m = le32_at (m_payload m) 4"
definition solarData_T4 :: "MessageStruct \<Rightarrow> u32" where "solarData_T4 m = le32_at (m_payload m) 8"
definition solarData_T3 :: "MessageStruct \<Rightarrow> u32" where "solarData_T3 m = le32_at (m_payload m) 12"
definition solarData_T2 :: "MessageStruct \<Rightarrow> u32" where "solarData_T2 m = le32_at (m_payload m) 16"
definition solarData_T1 :: "MessageStruct \<Rightarrow> u32" where "solarData_T1 m = le32_at (m_payload m) 20"
definition solarData_Tcol :: "MessageStruct \<Rightarrow> u32" where "solarData_Tcol m = le32_at (m_payload m) 24"
definition solarData_energyGain :: "MessageStruct \<Rightarrow> u32" where
  "solarData_energyGain m = le32_at (m_payload m) 28"
definition solarData_flowRate :: "MessageStruct \<Rightarrow> u32" where
  "solarData_flowRate m = le32_at (m_payload m) 32"
definition solarData_pumpState :: "MessageStruct \<Rightarrow> u8" where "solarData_pumpState m = m_payload m ! 36"
definition pumpData_pumpState :: "MessageStruct \<Rightarrow> u8" where "pumpData_pumpState m = m_payload m ! 0"
definition buforData_sBuforTemp :: "MessageStruct \<Rightarrow> u32" where
  "buforData_sBuforTemp m = le32_at (m_payload m) 0"
definition thData_temperature :: "MessageStruct \<Rightarrow> u32" where
  "thData_temperature m = le32_at (m_payload m) 0"
definition thData_humidity :: "MessageStruct \<Rightarrow> u32" where "thData_humidity m = le32_at (m_payload m) 4"
definition thData_batt_mv :: "MessageStruct \<Rightarrow> u16" where "thData_batt_mv m = le16_at (m_payload m) 8"
definition thData_soh_pct :: "MessageStruct \<Rightarrow> u8" where "thData_soh_pct m = m_payload m ! 10"
definition thData_acc_uah :: "MessageStruct \<Rightarrow> u32" where "thData_acc_uah m = le32_at (m_payload m) 12"
definition joinData_factory_id :: "MessageStruct \<Rightarrow> u8 list" where
  "joinData_factory_id m = take NODE_FACTORY_ID_LEN (m_payload m)"
definition joinData_capabilities :: "MessageStruct \<Rightarrow> u32" where
  "joinData_capabilities m = le32_at (m_payload m) 8"
definition joinAcceptData_factory_id :: "MessageStruct \<Rightarrow> u8 list" where
  "joinAcceptData_factory_id m = take NODE_FACTORY_ID_LEN (m_payload m)"
definition joinAcceptData_assigned_addr :: "MessageStruct \<Rightarrow> u8" where
  "joinAcceptData_assigned_addr m = m_payload m ! 8"
definition textData_text :: "MessageStruct \<Rightarrow> u8 list" where
  "textData_text m = take NODE_TEXT_MAX (m_payload m)"

text \<open>An assignment to a field of an arm writes its bytes and keeps the others.\<close>

definition put_payload :: "nat \<Rightarrow> u8 list \<Rightarrow> MessageStruct \<Rightarrow> MessageStruct" where
  "put_payload off bs m = m\<lparr> m_payload := blit (m_payload m) off bs \<rparr>"

subsection \<open>NodeFrame and PendingCtrl\<close>

record NodeFrame =
  nf_factory_id :: "u8 list"
  nf_msg :: MessageStruct

definition NODEFRAME_SIZE :: nat where "NODEFRAME_SIZE = 52"

definition wf_frame :: "NodeFrame \<Rightarrow> bool" where
  "wf_frame f \<longleftrightarrow> length (nf_factory_id f) = NODE_FACTORY_ID_LEN \<and> wf_msg (nf_msg f)"

definition frame_bytes :: "NodeFrame \<Rightarrow> u8 list" where
  "frame_bytes f = nf_factory_id f @ msg_bytes (nf_msg f)"

definition frame_of_bytes :: "u8 list \<Rightarrow> NodeFrame" where
  "frame_of_bytes bs = \<lparr> nf_factory_id = take NODE_FACTORY_ID_LEN bs,
     nf_msg = msg_of_bytes (drop NODE_FACTORY_ID_LEN bs) \<rparr>"

record PendingCtrl =
  pc_op :: u8
  pc_cmd :: u8
  pc_factory_id :: "u8 list"

definition PENDINGCTRL_SIZE :: nat where "PENDINGCTRL_SIZE = 10"

definition wf_ctrl :: "PendingCtrl \<Rightarrow> bool" where
  "wf_ctrl c \<longleftrightarrow> length (pc_factory_id c) = NODE_FACTORY_ID_LEN"

definition ctrl_bytes :: "PendingCtrl \<Rightarrow> u8 list" where
  "ctrl_bytes c = [pc_op c, pc_cmd c] @ pc_factory_id c"

definition ctrl_of_bytes :: "u8 list \<Rightarrow> PendingCtrl" where
  "ctrl_of_bytes bs = \<lparr> pc_op = bs ! 0, pc_cmd = bs ! 1,
     pc_factory_id = take NODE_FACTORY_ID_LEN (drop 2 bs) \<rparr>"

lemmas struct_sizes [simp] =
  PAYLOAD_SIZE_def MESSAGE_SIZE_def NODEFRAME_SIZE_def PENDINGCTRL_SIZE_def
  NODE_FACTORY_ID_LEN_def NODE_TEXT_MAX_def

subsection \<open>The memory images are faithful\<close>

text \<open>
  A struct is received by comparing the length and copying the bytes. Each image is a codec:
  what is copied in is what was copied out, and every byte string of the struct's size is the image
  of exactly one value.
\<close>

definition struct_read :: "nat \<Rightarrow> (u8 list \<Rightarrow> 'a) \<Rightarrow> u8 list \<Rightarrow> unit + 'a" where
  "struct_read n f bs = (if length bs = n then Inr (f bs) else Inl ())"

lemma length_msg_bytes [simp]: "length (msg_bytes m) = 4 + length (m_payload m)"
  by (simp add: msg_bytes_def)

lemma msg_of_bytes_bytes: "wf_msg m \<Longrightarrow> msg_of_bytes (msg_bytes m) = m"
  by (simp add: msg_of_bytes_def msg_bytes_def wf_msg_def)

lemma four_split: "4 \<le> length bs \<Longrightarrow> [bs ! 0, bs ! 1, bs ! 2, bs ! 3] @ drop 4 bs = bs"
  by (simp add: numeral_eq_Suc Suc_le_length_iff) auto

lemma msg_bytes_of_bytes: "length bs = 44 \<Longrightarrow> msg_bytes (msg_of_bytes bs) = bs"
  using four_split [of bs] by (simp add: msg_of_bytes_def msg_bytes_def)

lemma wf_msg_of_bytes [simp, wf_intros]: "44 \<le> length bs \<Longrightarrow> wf_msg (msg_of_bytes bs)"
  by (simp add: wf_msg_def msg_of_bytes_def)

lemma wf_msg_zero [simp, wf_intros]: "wf_msg msg_zero"
  by (simp add: wf_msg_def msg_zero_def)

lemma wf_put_payload [simp, wf_intros]:
  "wf_msg m \<Longrightarrow> off + length bs \<le> 40 \<Longrightarrow> wf_msg (put_payload off bs m)"
  by (simp add: wf_msg_def put_payload_def)

lemma put_payload_header [simp]:
  "m_id (put_payload off bs m) = m_id m" "m_type (put_payload off bs m) = m_type m"
  "m_cmd (put_payload off bs m) = m_cmd m" "m_length (put_payload off bs m) = m_length m"
  by (simp_all add: put_payload_def)

interpretation msg_layout: codec msg_bytes "struct_read MESSAGE_SIZE msg_of_bytes" wf_msg
proof
  show "wf_msg m \<Longrightarrow> struct_read MESSAGE_SIZE msg_of_bytes (msg_bytes m) = Inr m" for m
    by (simp add: struct_read_def msg_of_bytes_bytes) (simp add: wf_msg_def)
  show "struct_read MESSAGE_SIZE msg_of_bytes bs = Inr m \<Longrightarrow> wf_msg m \<and> msg_bytes m = bs" for bs m
    by (auto simp: struct_read_def msg_bytes_of_bytes split: if_splits)
qed

lemma length_frame_bytes [simp]:
  "wf_frame f \<Longrightarrow> length (frame_bytes f) = 52"
  by (simp add: frame_bytes_def wf_frame_def wf_msg_def)

lemma frame_of_bytes_bytes: "wf_frame f \<Longrightarrow> frame_of_bytes (frame_bytes f) = f"
  by (simp add: frame_of_bytes_def frame_bytes_def wf_frame_def msg_of_bytes_bytes)

lemma frame_bytes_of_bytes: "length bs = 52 \<Longrightarrow> frame_bytes (frame_of_bytes bs) = bs"
  by (simp add: frame_of_bytes_def frame_bytes_def msg_bytes_of_bytes)

lemma wf_frame_of_bytes [simp, wf_intros]: "length bs = 52 \<Longrightarrow> wf_frame (frame_of_bytes bs)"
  by (simp add: wf_frame_def frame_of_bytes_def)

interpretation frame_layout: codec frame_bytes "struct_read NODEFRAME_SIZE frame_of_bytes" wf_frame
proof
  show "wf_frame f \<Longrightarrow> struct_read NODEFRAME_SIZE frame_of_bytes (frame_bytes f) = Inr f" for f
    by (simp add: struct_read_def frame_of_bytes_bytes)
  show "struct_read NODEFRAME_SIZE frame_of_bytes bs = Inr f \<Longrightarrow> wf_frame f \<and> frame_bytes f = bs" for bs f
    by (auto simp: struct_read_def frame_bytes_of_bytes split: if_splits)
qed

lemma ctrl_of_bytes_bytes: "wf_ctrl c \<Longrightarrow> ctrl_of_bytes (ctrl_bytes c) = c"
  by (simp add: ctrl_of_bytes_def ctrl_bytes_def wf_ctrl_def)

lemma ctrl_bytes_of_bytes: "length bs = 10 \<Longrightarrow> ctrl_bytes (ctrl_of_bytes bs) = bs"
  by (simp add: ctrl_of_bytes_def ctrl_bytes_def numeral_eq_Suc)
    (auto simp: length_Suc_conv)

lemma wf_ctrl_of_bytes [simp, wf_intros]: "length bs = 10 \<Longrightarrow> wf_ctrl (ctrl_of_bytes bs)"
  by (simp add: wf_ctrl_def ctrl_of_bytes_def)

interpretation ctrl_layout: codec ctrl_bytes "struct_read PENDINGCTRL_SIZE ctrl_of_bytes" wf_ctrl
proof
  show "wf_ctrl c \<Longrightarrow> struct_read PENDINGCTRL_SIZE ctrl_of_bytes (ctrl_bytes c) = Inr c" for c
    by (simp add: struct_read_def ctrl_of_bytes_bytes) (simp add: ctrl_bytes_def wf_ctrl_def)
  show "struct_read PENDINGCTRL_SIZE ctrl_of_bytes bs = Inr c \<Longrightarrow> wf_ctrl c \<and> ctrl_bytes c = bs" for bs c
    by (auto simp: struct_read_def ctrl_bytes_of_bytes split: if_splits)
qed

end
