(* ===== verification/Automation.thy ===== *)
theory Automation
  imports NodeProtocol
begin

text \<open>
  The rule model (\<open>src/Shared/Protocol/automation.h\<close>): a rule of 196 bytes with a name, up to three
  conditions that are all required, and an action. The unions of conditions and actions are kept
  as bytes with one view per arm, the padding bytes are kept because the checksum of a ruleset
  covers them.
\<close>

definition MAX_RULES :: nat where "MAX_RULES = 100"
definition MAX_RULE_NAME_LEN :: nat where "MAX_RULE_NAME_LEN = 64"
definition MAX_MESSAGE_LEN :: nat where "MAX_MESSAGE_LEN = 64"
definition MAX_CONDITIONS :: nat where "MAX_CONDITIONS = 3"

lemmas automation_limits [simp] =
  MAX_RULES_def MAX_RULE_NAME_LEN_def MAX_MESSAGE_LEN_def MAX_CONDITIONS_def

abbreviation (input) "PARAM_T1 \<equiv> 0 :: u8"
abbreviation (input) "PARAM_T2 \<equiv> 1 :: u8"
abbreviation (input) "PARAM_T3 \<equiv> 2 :: u8"
abbreviation (input) "PARAM_T4 \<equiv> 3 :: u8"
abbreviation (input) "PARAM_SBUF_TEMP \<equiv> 4 :: u8"
abbreviation (input) "PARAM_TCOL \<equiv> 5 :: u8"
abbreviation (input) "PARAM_ENERGY_GAIN \<equiv> 6 :: u8"
abbreviation (input) "PARAM_FLOW_RATE \<equiv> 7 :: u8"
abbreviation (input) "PARAM_PUMP_STATE \<equiv> 8 :: u8"
abbreviation (input) "PARAM_TEMPERATURE \<equiv> 9 :: u8"
abbreviation (input) "PARAM_HUMIDITY \<equiv> 10 :: u8"
abbreviation (input) "PARAM_BATT_MV \<equiv> 11 :: u8"

abbreviation (input) "COND_TIME \<equiv> 0 :: u8"
abbreviation (input) "COND_PARAMETER \<equiv> 1 :: u8"
abbreviation (input) "COND_PARAMETER_DELTA \<equiv> 2 :: u8"

abbreviation (input) "OP_LESS_THAN \<equiv> 0 :: u8"
abbreviation (input) "OP_MORE_THAN \<equiv> 1 :: u8"
abbreviation (input) "OP_BETWEEN \<equiv> 2 :: u8"

abbreviation (input) "ACTION_SET_RELAY \<equiv> 0 :: u8"
abbreviation (input) "ACTION_SEND_MESSAGE \<equiv> 1 :: u8"

definition NODE_CAP :: "nat \<Rightarrow> u32" where
  "NODE_CAP action = push_bit action 1"

subsection \<open>Conditions\<close>

record TimeCondition =
  tc_hourStart :: u8
  tc_minStart :: u8
  tc_hourEnd :: u8
  tc_minEnd :: u8

record ParameterCondition =
  pcn_nodeAddr :: u8
  pcn_parameter :: u8
  pcn_op :: u8
  pcn_thresholdMin :: u32
  pcn_thresholdMax :: u32

record ParameterDeltaCondition =
  pdc_nodeAddr1 :: u8
  pdc_parameter1 :: u8
  pdc_nodeAddr2 :: u8
  pdc_parameter2 :: u8
  pdc_deltaOp :: u8
  pdc_deltaMin :: u32
  pdc_deltaMax :: u32

record RuleCondition =
  rc_conditionType :: u8
  rc_pad :: "u8 list"
  rc_u :: "u8 list"

definition rc_time :: "RuleCondition \<Rightarrow> TimeCondition" where
  "rc_time rc = \<lparr> tc_hourStart = rc_u rc ! 0, tc_minStart = rc_u rc ! 1,
     tc_hourEnd = rc_u rc ! 2, tc_minEnd = rc_u rc ! 3 \<rparr>"

definition rc_parameter :: "RuleCondition \<Rightarrow> ParameterCondition" where
  "rc_parameter rc = \<lparr> pcn_nodeAddr = rc_u rc ! 0, pcn_parameter = rc_u rc ! 1, pcn_op = rc_u rc ! 2,
     pcn_thresholdMin = le32_at (rc_u rc) 4, pcn_thresholdMax = le32_at (rc_u rc) 8 \<rparr>"

definition rc_parameterDelta :: "RuleCondition \<Rightarrow> ParameterDeltaCondition" where
  "rc_parameterDelta rc = \<lparr> pdc_nodeAddr1 = rc_u rc ! 0, pdc_parameter1 = rc_u rc ! 1,
     pdc_nodeAddr2 = rc_u rc ! 2, pdc_parameter2 = rc_u rc ! 3, pdc_deltaOp = rc_u rc ! 4,
     pdc_deltaMin = le32_at (rc_u rc) 8, pdc_deltaMax = le32_at (rc_u rc) 12 \<rparr>"

subsection \<open>Actions and rules\<close>

record RuleAction =
  ra_actionType :: u8
  ra_nodeAddr :: u8
  ra_pad :: "u8 list"
  ra_data :: "u8 list"

definition ra_value :: "RuleAction \<Rightarrow> u32" where
  "ra_value a = le32_at (ra_data a) 0"

definition ra_message :: "RuleAction \<Rightarrow> u8 list" where
  "ra_message a = take MAX_MESSAGE_LEN (ra_data a)"

record AutomationRule =
  r_name :: "u8 list"
  r_conditionCount :: u8
  r_pad :: "u8 list"
  r_conditions :: "RuleCondition list"
  r_action :: RuleAction

definition RULECONDITION_SIZE :: nat where "RULECONDITION_SIZE = 20"
definition RULEACTION_SIZE :: nat where "RULEACTION_SIZE = 68"
definition RULE_SIZE :: nat where "RULE_SIZE = 196"

lemmas automation_sizes [simp] = RULECONDITION_SIZE_def RULEACTION_SIZE_def RULE_SIZE_def

subsection \<open>Memory images\<close>

definition wf_cond :: "RuleCondition \<Rightarrow> bool" where
  "wf_cond rc \<longleftrightarrow> length (rc_pad rc) = 3 \<and> length (rc_u rc) = 16"

definition wf_action :: "RuleAction \<Rightarrow> bool" where
  "wf_action a \<longleftrightarrow> length (ra_pad a) = 2 \<and> length (ra_data a) = 64"

definition wf_rule :: "AutomationRule \<Rightarrow> bool" where
  "wf_rule r \<longleftrightarrow> length (r_name r) = MAX_RULE_NAME_LEN \<and> length (r_pad r) = 3 \<and>
     length (r_conditions r) = MAX_CONDITIONS \<and> list_all wf_cond (r_conditions r) \<and> wf_action (r_action r)"

definition cond_bytes :: "RuleCondition \<Rightarrow> u8 list" where
  "cond_bytes rc = rc_conditionType rc # rc_pad rc @ rc_u rc"

definition cond_of_bytes :: "u8 list \<Rightarrow> RuleCondition" where
  "cond_of_bytes bs = \<lparr> rc_conditionType = bs ! 0, rc_pad = take 3 (drop 1 bs), rc_u = take 16 (drop 4 bs) \<rparr>"

definition action_bytes :: "RuleAction \<Rightarrow> u8 list" where
  "action_bytes a = [ra_actionType a, ra_nodeAddr a] @ ra_pad a @ ra_data a"

definition action_of_bytes :: "u8 list \<Rightarrow> RuleAction" where
  "action_of_bytes bs = \<lparr> ra_actionType = bs ! 0, ra_nodeAddr = bs ! 1, ra_pad = take 2 (drop 2 bs),
     ra_data = take 64 (drop 4 bs) \<rparr>"

definition rule_bytes :: "AutomationRule \<Rightarrow> u8 list" where
  "rule_bytes r = r_name r @ r_conditionCount r # r_pad r @ concat (map cond_bytes (r_conditions r)) @
     action_bytes (r_action r)"

definition rule_of_bytes :: "u8 list \<Rightarrow> AutomationRule" where
  "rule_of_bytes bs = \<lparr> r_name = take 64 bs, r_conditionCount = bs ! 64, r_pad = take 3 (drop 65 bs),
     r_conditions = map (\<lambda>k. cond_of_bytes (take 20 (drop (68 + 20 * k) bs))) [0 ..< MAX_CONDITIONS],
     r_action = action_of_bytes (drop 128 bs) \<rparr>"

lemma length_cond_bytes [simp]: "wf_cond rc \<Longrightarrow> length (cond_bytes rc) = 20"
  by (simp add: wf_cond_def cond_bytes_def)

lemma length_action_bytes [simp]: "wf_action a \<Longrightarrow> length (action_bytes a) = 68"
  by (simp add: wf_action_def action_bytes_def)

lemma cond_of_bytes_bytes: "wf_cond rc \<Longrightarrow> cond_of_bytes (cond_bytes rc) = rc"
  by (simp add: cond_of_bytes_def cond_bytes_def wf_cond_def)

lemma action_of_bytes_bytes: "wf_action a \<Longrightarrow> action_of_bytes (action_bytes a) = a"
  by (simp add: action_of_bytes_def action_bytes_def wf_action_def numeral_eq_Suc)

lemma cond_bytes_of_bytes: "length bs = 20 \<Longrightarrow> cond_bytes (cond_of_bytes bs) = bs"
proof -
  assume l: "length bs = 20"
  then obtain b r where bs: "bs = b # r" by (cases bs) auto
  have "take 3 r @ drop 3 r = r" by simp
  with l bs show ?thesis by (simp add: cond_bytes_def cond_of_bytes_def numeral_eq_Suc)
qed

lemma action_bytes_of_bytes: "length bs = 68 \<Longrightarrow> action_bytes (action_of_bytes bs) = bs"
proof -
  assume l: "length bs = 68"
  then obtain b c r where bs: "bs = b # c # r" by (cases bs; cases "tl bs") auto
  have "take 2 r @ drop 2 r = r" by simp
  with l bs show ?thesis by (simp add: action_bytes_def action_of_bytes_def numeral_eq_Suc)
qed

lemma three_conds:
  "length cs = 3 \<Longrightarrow> list_all wf_cond cs \<Longrightarrow>
   \<exists>a b c. cs = [a, b, c] \<and> wf_cond a \<and> wf_cond b \<and> wf_cond c"
  by (auto simp: numeral_eq_Suc length_Suc_conv)

lemma length_rule_bytes [simp]: "wf_rule r \<Longrightarrow> length (rule_bytes r) = 196"
  using three_conds [of "r_conditions r"] by (auto simp: wf_rule_def rule_bytes_def)

lemma drop_append_exact: "length xs = n \<Longrightarrow> drop (n + k) (xs @ ys) = drop k ys"
  by simp

lemma rule_of_bytes_bytes:
  assumes "wf_rule r"
  shows "rule_of_bytes (rule_bytes r) = r"
proof -
  obtain a b c where cs: "r_conditions r = [a, b, c]" "wf_cond a" "wf_cond b" "wf_cond c"
    using three_conds [of "r_conditions r"] assms by (auto simp: wf_rule_def)
  have ra: "wf_action (r_action r)" and n: "length (r_name r) = 64" "length (r_pad r) = 3"
    using assms by (auto simp: wf_rule_def)
  define h where "h = r_name r @ r_conditionCount r # r_pad r"
  have h: "length h = 68" using n by (simp add: h_def)
  have img: "rule_bytes r = h @ cond_bytes a @ cond_bytes b @ cond_bytes c @ action_bytes (r_action r)"
    by (simp add: rule_bytes_def cs(1) h_def)
  have "drop 68 (rule_bytes r) = cond_bytes a @ cond_bytes b @ cond_bytes c @ action_bytes (r_action r)"
    "drop 88 (rule_bytes r) = cond_bytes b @ cond_bytes c @ action_bytes (r_action r)"
    "drop 108 (rule_bytes r) = cond_bytes c @ action_bytes (r_action r)"
    "drop 128 (rule_bytes r) = action_bytes (r_action r)"
    using h cs by (simp_all add: img)
  then have "r_conditions (rule_of_bytes (rule_bytes r)) = [a, b, c]"
    "r_action (rule_of_bytes (rule_bytes r)) = r_action r"
    using cs ra by (simp_all add: rule_of_bytes_def numeral_eq_Suc upt_rec cond_of_bytes_bytes
        action_of_bytes_bytes)
  moreover have "r_name (rule_of_bytes (rule_bytes r)) = r_name r"
    "r_conditionCount (rule_of_bytes (rule_bytes r)) = r_conditionCount r"
    "r_pad (rule_of_bytes (rule_bytes r)) = r_pad r"
    using n by (simp_all add: rule_of_bytes_def rule_bytes_def nth_append)
  ultimately show ?thesis using cs(1) by simp
qed

lemma take_chunk: "take n (drop k bs) @ drop (k + n) bs = drop k bs"
  by (metis add.commute append_take_drop_id drop_drop)

lemma rule_bytes_of_bytes:
  assumes "length bs = 196"
  shows "rule_bytes (rule_of_bytes bs) = bs"
proof -
  have "[0 ..< 3] = [0, 1, 2 :: nat]" by (simp add: upt_rec)
  then have "rule_bytes (rule_of_bytes bs) =
      take 64 bs @ [bs ! 64] @ take 3 (drop 65 bs) @ take 20 (drop 68 bs) @ take 20 (drop 88 bs) @
      take 20 (drop 108 bs) @ drop 128 bs"
    using assms
    by (simp add: rule_bytes_def rule_of_bytes_def cond_bytes_of_bytes action_bytes_of_bytes)
  also have "take 20 (drop 108 bs) @ drop 128 bs = drop 108 bs" using take_chunk [of 20 108 bs] by simp
  also have "take 20 (drop 88 bs) @ drop 108 bs = drop 88 bs" using take_chunk [of 20 88 bs] by simp
  also have "take 20 (drop 68 bs) @ drop 88 bs = drop 68 bs" using take_chunk [of 20 68 bs] by simp
  also have "take 3 (drop 65 bs) @ drop 68 bs = drop 65 bs" using take_chunk [of 3 65 bs] by simp
  also have "[bs ! 64] @ drop 65 bs = drop 64 bs" using Cons_nth_drop_Suc [of 64 bs] assms by simp
  finally show ?thesis by simp
qed

lemma wf_rule_of_bytes [simp, wf_intros]: "length bs = 196 \<Longrightarrow> wf_rule (rule_of_bytes bs)"
  by (simp add: wf_rule_def rule_of_bytes_def wf_cond_def wf_action_def cond_of_bytes_def
      action_of_bytes_def list_all_iff)

interpretation rule_layout: codec rule_bytes "struct_read RULE_SIZE rule_of_bytes" wf_rule
proof
  show "wf_rule r \<Longrightarrow> struct_read RULE_SIZE rule_of_bytes (rule_bytes r) = Inr r" for r
    by (simp add: struct_read_def rule_of_bytes_bytes)
  show "struct_read RULE_SIZE rule_of_bytes bs = Inr r \<Longrightarrow> wf_rule r \<and> rule_bytes r = bs" for bs r
    by (auto simp: struct_read_def rule_bytes_of_bytes split: if_splits)
qed

end
