(* ===== verification/Float32.thy ===== *)
theory Float32
  imports Prelude
begin

text \<open>
  The \<open>float\<close> of the C sources: IEEE-754 binary32, kept as its 32-bit pattern (that is how the
  wire structs carry it). Every finite value is an integer multiple of \<open>2^-149\<close>; \<open>f32_fix\<close> is
  that integer, so sums, products and quotients are computed exactly and then rounded once,
  to nearest with ties to even. Comparisons are false when an operand is a NaN.
\<close>

subsection \<open>Fields and classes\<close>

definition f32_sign :: "u32 \<Rightarrow> bool" where
  "f32_sign x \<longleftrightarrow> bit x 31"

definition f32_mag :: "u32 \<Rightarrow> nat" where
  "f32_mag x = unat (take_bit 31 x)"

definition f32_nan :: "u32 \<Rightarrow> bool" where
  "f32_nan x \<longleftrightarrow> f32_mag x > 0x7F800000"

definition f32_inf :: "u32 \<Rightarrow> bool" where
  "f32_inf x \<longleftrightarrow> f32_mag x = 0x7F800000"

definition f32_finite :: "u32 \<Rightarrow> bool" where
  "f32_finite x \<longleftrightarrow> f32_mag x < 0x7F800000"

text \<open>The magnitude of a finite value, in units of \<open>2^-149\<close>, from its 31 low bits.\<close>

definition f32_unpack :: "nat \<Rightarrow> nat" where
  "f32_unpack n = (if n < 2 ^ 23 then n else (2 ^ 23 + n mod 2 ^ 23) * 2 ^ (n div 2 ^ 23 - 1))"

definition f32_fix :: "u32 \<Rightarrow> int" where
  "f32_fix x = (if f32_sign x then - int (f32_unpack (f32_mag x)) else int (f32_unpack (f32_mag x)))"

definition f32_key :: "u32 \<Rightarrow> int" where
  "f32_key x = (if f32_sign x then - int (f32_mag x) else int (f32_mag x))"

subsection \<open>Comparisons\<close>

definition f32_lt :: "u32 \<Rightarrow> u32 \<Rightarrow> bool" where
  "f32_lt x y \<longleftrightarrow> \<not> f32_nan x \<and> \<not> f32_nan y \<and> f32_key x < f32_key y"

definition f32_le :: "u32 \<Rightarrow> u32 \<Rightarrow> bool" where
  "f32_le x y \<longleftrightarrow> \<not> f32_nan x \<and> \<not> f32_nan y \<and> f32_key x \<le> f32_key y"

abbreviation f32_gt :: "u32 \<Rightarrow> u32 \<Rightarrow> bool" where
  "f32_gt x y \<equiv> f32_lt y x"

abbreviation f32_ge :: "u32 \<Rightarrow> u32 \<Rightarrow> bool" where
  "f32_ge x y \<equiv> f32_le y x"

subsection \<open>Rounding and arithmetic\<close>

fun nbits :: "nat \<Rightarrow> nat" where
  "nbits n = (if n = 0 then 0 else Suc (nbits (n div 2)))"

declare nbits.simps [simp del]

text \<open>The 31 low bits of the binary32 number nearest to \<open>p / q\<close> (in units of \<open>2^-149\<close>).\<close>

definition f32_round :: "nat \<Rightarrow> nat \<Rightarrow> nat" where
  "f32_round p q =
     (let k = nbits (p div q) - 24; d = q * 2 ^ k; n = p div d; r = p mod d;
          n' = (if d < 2 * r \<or> (2 * r = d \<and> odd n) then n + 1 else n)
      in min (k * 2 ^ 23 + n') 0x7F800000)"

definition f32_mk :: "bool \<Rightarrow> nat \<Rightarrow> u32" where
  "f32_mk s n = (if s then 0x80000000 else 0) + word_of_nat n"

definition f32_of_frac :: "bool \<Rightarrow> nat \<Rightarrow> nat \<Rightarrow> u32" where
  "f32_of_frac s p q = f32_mk s (f32_round p q)"

definition f32_qnan :: u32 where
  "f32_qnan = 0x7FC00000"

definition f32_neg :: "u32 \<Rightarrow> u32" where
  "f32_neg x = x XOR 0x80000000"

definition f32_add :: "u32 \<Rightarrow> u32 \<Rightarrow> u32" where
  "f32_add a b =
     (if f32_nan a \<or> f32_nan b then f32_qnan
      else if f32_inf a then (if f32_inf b \<and> f32_sign a \<noteq> f32_sign b then f32_qnan else a)
      else if f32_inf b then b
      else let v = f32_fix a + f32_fix b in
        if v = 0 then f32_mk (f32_sign a \<and> f32_sign b) 0 else f32_of_frac (v < 0) (nat \<bar>v\<bar>) 1)"

definition f32_sub :: "u32 \<Rightarrow> u32 \<Rightarrow> u32" where
  "f32_sub a b = f32_add a (f32_neg b)"

definition f32_mul :: "u32 \<Rightarrow> u32 \<Rightarrow> u32" where
  "f32_mul a b =
     (let s = (f32_sign a \<noteq> f32_sign b) in
      if f32_nan a \<or> f32_nan b then f32_qnan
      else if f32_inf a \<or> f32_inf b
        then (if f32_mag a = 0 \<or> f32_mag b = 0 then f32_qnan else f32_mk s 0x7F800000)
      else f32_of_frac s (nat \<bar>f32_fix a * f32_fix b\<bar>) (2 ^ 149))"

definition f32_div :: "u32 \<Rightarrow> u32 \<Rightarrow> u32" where
  "f32_div a b =
     (let s = (f32_sign a \<noteq> f32_sign b) in
      if f32_nan a \<or> f32_nan b then f32_qnan
      else if f32_inf a then (if f32_inf b then f32_qnan else f32_mk s 0x7F800000)
      else if f32_inf b then f32_mk s 0
      else if f32_mag b = 0 then (if f32_mag a = 0 then f32_qnan else f32_mk s 0x7F800000)
      else f32_of_frac s (nat \<bar>f32_fix a\<bar> * 2 ^ 149) (nat \<bar>f32_fix b\<bar>))"

definition f32_of_int :: "int \<Rightarrow> u32" where
  "f32_of_int i = f32_of_frac (i < 0) (nat \<bar>i\<bar> * 2 ^ 149) 1"

text \<open>The conversion to an integer truncates towards zero.\<close>

definition f32_to_int :: "u32 \<Rightarrow> int" where
  "f32_to_int x = (let t = int (f32_unpack (f32_mag x) div 2 ^ 149) in if f32_sign x then - t else t)"

lemma nbits_numeral [simp]:
  "nbits 0 = 0" "nbits (Suc 0) = 1" "nbits 1 = 1"
  "nbits (numeral (num.Bit0 m)) = Suc (nbits (numeral m))"
  "nbits (numeral (num.Bit1 m)) = Suc (nbits (numeral m))"
  by (simp_all add: nbits.simps [of 0] nbits.simps [of "Suc 0"] nbits.simps [of "numeral (num.Bit0 m)"]
      nbits.simps [of "numeral (num.Bit1 m)"])

text \<open>Unfolding these evaluates a closed float term.\<close>

lemmas f32_eval =
  f32_sign_def f32_mag_def f32_nan_def f32_inf_def f32_unpack_def f32_fix_def f32_key_def
  f32_lt_def f32_le_def f32_round_def f32_mk_def f32_of_frac_def f32_qnan_def f32_neg_def
  f32_add_def f32_sub_def f32_mul_def f32_div_def f32_of_int_def f32_to_int_def Let_def
  bit_iff_odd

lemma f32_constants:
  "f32_of_int 1 = 0x3F800000" "f32_of_int 7 = 0x40E00000" "f32_of_int (-45) = 0xC2340000"
  "f32_div 0x3F800000 (f32_of_int 2) = 0x3F000000"
  by (simp_all add: f32_eval)

lemma f32_rounding_examples:
  "f32_of_int 16777217 = f32_of_int 16777216"
  "f32_of_int 16777219 = f32_of_int 16777220"
  "f32_div (f32_of_int 1) (f32_of_int 10) = 0x3DCCCCCD"
  "f32_sub (f32_of_int 3) (f32_of_int 3) = 0"
  by (simp_all add: f32_eval)

subsection \<open>Comparisons agree with the exact values\<close>

lemma f32_mag_less: "f32_mag x < 2 ^ 31"
  by (simp only: f32_mag_def unsigned_take_bit_eq take_bit_nat_less_exp)

lemma f32_unpack_Suc: "f32_unpack n < f32_unpack (Suc n)"
proof (cases "n < 2 ^ 23 - 1")
  case True
  then show ?thesis by (simp add: f32_unpack_def)
next
  case big: False
  define e m where "e = n div 2 ^ 23" and "m = n mod 2 ^ 23"
  have n: "n = e * 2 ^ 23 + m" and m: "m < 2 ^ 23"
    by (simp_all add: e_def m_def)
  show ?thesis
  proof (cases "m = 2 ^ 23 - 1")
    case True
    then have suc: "Suc n = (e + 1) * 2 ^ 23" using n by simp
    show ?thesis
      using True n by (cases e) (simp_all add: f32_unpack_def suc)
  next
    case False
    then have m': "m + 1 < 2 ^ 23" using m by simp
    have "Suc n = e * 2 ^ 23 + (m + 1)" using n by simp
    then have "Suc n div 2 ^ 23 = e" "Suc n mod 2 ^ 23 = m + 1"
      using m' by (simp_all add: div_mult_self3)
    moreover have ge: "\<not> n < 2 ^ 23" "\<not> Suc n < 2 ^ 23"
      using big False n m by (cases e; simp)+
    ultimately have "f32_unpack (Suc n) = (2 ^ 23 + (m + 1)) * 2 ^ (e - 1)"
      by (simp only: f32_unpack_def if_False)
    moreover have "f32_unpack n = (2 ^ 23 + m) * 2 ^ (e - 1)"
      using ge(1) by (simp only: f32_unpack_def e_def m_def if_False)
    ultimately show ?thesis by simp
  qed
qed

lemma f32_unpack_less_iff [simp]: "f32_unpack m < f32_unpack n \<longleftrightarrow> m < n"
  using strict_mono_less [of f32_unpack] f32_unpack_Suc by (simp add: strict_mono_Suc_iff)

lemma f32_unpack_le_iff [simp]: "f32_unpack m \<le> f32_unpack n \<longleftrightarrow> m \<le> n"
  by (meson f32_unpack_less_iff not_le)

lemma f32_unpack_eq_iff [simp]: "f32_unpack m = f32_unpack n \<longleftrightarrow> m = n"
  by (metis f32_unpack_le_iff order_antisym order_refl)

lemma f32_unpack_0 [simp]: "f32_unpack 0 = 0"
  by (simp add: f32_unpack_def)

lemma f32_unpack_pos [simp]: "0 < f32_unpack n \<longleftrightarrow> 0 < n"
  using f32_unpack_less_iff [of 0 n] by (simp del: f32_unpack_less_iff)

lemma f32_key_less_iff: "f32_key x < f32_key y \<longleftrightarrow> f32_fix x < f32_fix y"
  using f32_unpack_pos [of "f32_mag x"] f32_unpack_pos [of "f32_mag y"]
  by (auto simp: f32_key_def f32_fix_def simp del: f32_unpack_pos)

lemma f32_lt_exact: "f32_finite x \<Longrightarrow> f32_finite y \<Longrightarrow> f32_lt x y \<longleftrightarrow> f32_fix x < f32_fix y"
  by (auto simp: f32_lt_def f32_nan_def f32_finite_def f32_key_less_iff)

lemma f32_le_exact: "f32_finite x \<Longrightarrow> f32_finite y \<Longrightarrow> f32_le x y \<longleftrightarrow> f32_fix x \<le> f32_fix y"
  using f32_key_less_iff [of y x]
  by (auto simp: f32_le_def f32_nan_def f32_finite_def not_less [symmetric])

lemma f32_lt_irrefl [simp]: "\<not> f32_lt x x"
  by (simp add: f32_lt_def)

lemma f32_lt_trans: "f32_lt x y \<Longrightarrow> f32_lt y z \<Longrightarrow> f32_lt x z"
  by (auto simp: f32_lt_def)

lemma f32_not_lt: "\<not> f32_nan x \<Longrightarrow> \<not> f32_nan y \<Longrightarrow> \<not> f32_lt x y \<longleftrightarrow> f32_le y x"
  by (auto simp: f32_lt_def f32_le_def)

lemma f32_nan_compare: "f32_nan x \<Longrightarrow> \<not> f32_lt x y \<and> \<not> f32_lt y x \<and> \<not> f32_le x y \<and> \<not> f32_le y x"
  by (simp add: f32_lt_def f32_le_def)

end
