(* ===== verification/Engine.thy ===== *)
theory Engine
  imports Automation Float32
begin

text \<open>
  The automation engine (\<open>src/Gateway/Firmware/M4F/engine.c\<close>): per-node live state keyed by radio
  address, the wall clock derived from a monotonic counter, the evaluation of the active rules and
  the double-buffered ruleset upload. The file-static variables are the record \<open>Engine\<close>; a
  reading of the injected monotonic clock is an argument of each function that takes one.
\<close>

subsection \<open>State\<close>

record NodeRec =
  nr_inUse :: u8
  nr_type :: u8
  nr_d :: "u8 list"

definition NODEREC_UNION_SIZE :: nat where [simp]: "NODEREC_UNION_SIZE = 32"

definition solar_T1 :: "NodeRec \<Rightarrow> u32" where "solar_T1 nd = le32_at (nr_d nd) 0"
definition solar_T2 :: "NodeRec \<Rightarrow> u32" where "solar_T2 nd = le32_at (nr_d nd) 4"
definition solar_T3 :: "NodeRec \<Rightarrow> u32" where "solar_T3 nd = le32_at (nr_d nd) 8"
definition solar_T4 :: "NodeRec \<Rightarrow> u32" where "solar_T4 nd = le32_at (nr_d nd) 12"
definition solar_Tcol :: "NodeRec \<Rightarrow> u32" where "solar_Tcol nd = le32_at (nr_d nd) 16"
definition solar_energyGain :: "NodeRec \<Rightarrow> u32" where "solar_energyGain nd = le32_at (nr_d nd) 20"
definition solar_flowRate :: "NodeRec \<Rightarrow> u32" where "solar_flowRate nd = le32_at (nr_d nd) 24"
definition solar_pumpState :: "NodeRec \<Rightarrow> u8" where "solar_pumpState nd = nr_d nd ! 28"
definition bufor_sBuforTemp :: "NodeRec \<Rightarrow> u32" where "bufor_sBuforTemp nd = le32_at (nr_d nd) 0"
definition th_temperature :: "NodeRec \<Rightarrow> u32" where "th_temperature nd = le32_at (nr_d nd) 0"
definition th_humidity :: "NodeRec \<Rightarrow> u32" where "th_humidity nd = le32_at (nr_d nd) 4"
definition th_batt_mv :: "NodeRec \<Rightarrow> u16" where "th_batt_mv nd = le16_at (nr_d nd) 8"

lemmas noderec_views =
  solar_T1_def solar_T2_def solar_T3_def solar_T4_def solar_Tcol_def solar_energyGain_def
  solar_flowRate_def solar_pumpState_def bufor_sBuforTemp_def th_temperature_def th_humidity_def
  th_batt_mv_def

definition put_d :: "nat \<Rightarrow> u8 list \<Rightarrow> NodeRec \<Rightarrow> NodeRec" where
  "put_d off bs nd = nd\<lparr> nr_d := blit (nr_d nd) off bs \<rparr>"

record Engine =
  g_node :: "u8 \<Rightarrow> NodeRec"
  g_action_fn :: bool
  g_clock_fn :: bool
  wall_base_secs :: u32
  wall_anchor_us :: u64
  wall_valid :: bool
  g_rules :: "u8 \<Rightarrow> AutomationRule list"
  g_count :: "u8 \<Rightarrow> u16"
  g_active :: u8
  g_last_time_min :: int
  g_building :: bool
  g_shadow :: u8
  g_shadow_expected :: u16
  g_shadow_filled :: u16

subsection \<open>CRC32\<close>

definition crc32_bit :: "u32 \<Rightarrow> u32" where
  "crc32_bit crc = drop_bit 1 crc XOR (0xEDB88320 AND (- (crc AND 1)))"

definition crc32_step :: "u32 \<Rightarrow> u8 \<Rightarrow> u32" where
  "crc32_step crc b = (crc32_bit ^^ 8) (crc XOR ucast b)"

definition crc32_calc :: "u8 list \<Rightarrow> u32" where
  "crc32_calc data = foldl crc32_step 0xFFFFFFFF data XOR 0xFFFFFFFF"

lemma crc32_bit_cases: "crc32_bit x = (if bit x 0 then drop_bit 1 x XOR 0xEDB88320 else drop_bit 1 x)"
proof -
  have "x AND 1 = (if bit x 0 then 1 else 0)"
    by (rule bit_word_eqI) (auto simp: bit_and_iff bit_1_iff intro: gr0I)
  then show ?thesis by (simp add: crc32_bit_def)
qed

lemma crc32_bit_inj: "crc32_bit x = crc32_bit y \<Longrightarrow> x = y"
proof (rule bit_word_eqI)
  fix n assume eq: "crc32_bit x = crc32_bit y" and n: "n < LENGTH(32)"
  have top: "bit (crc32_bit z) 31 = bit z 0" for z
    by (auto simp: crc32_bit_cases bit_xor_iff bit_drop_bit_eq dest: bit_imp_le_length)
  have low: "bit x 0 = bit y 0" using top [of x] top [of y] eq by simp
  then have sh: "drop_bit 1 x = drop_bit 1 y"
    using eq by (auto simp: crc32_bit_cases split: if_splits)
  show "bit x n = bit y n"
  proof (cases n)
    case (Suc m)
    then show ?thesis
      using arg_cong [OF sh, of "\<lambda>w. bit w m"] by (simp add: bit_drop_bit_eq)
  qed (use low in simp)
qed

lemma crc32_bits_inj: "(crc32_bit ^^ k) x = (crc32_bit ^^ k) y \<Longrightarrow> x = y"
  by (induction k) (auto dest: crc32_bit_inj)

interpretation crc32: byte_hash crc32_step
proof
  show "crc32_step s b = crc32_step t b \<Longrightarrow> s = t" for s t b
    unfolding crc32_step_def by (drule crc32_bits_inj) (simp only: xor_cancel)
  show "crc32_step s a = crc32_step s b \<Longrightarrow> a = b" for s a b
  proof -
    assume "crc32_step s a = crc32_step s b"
    then have eq: "(ucast a :: u32) = ucast b"
      unfolding crc32_step_def by (auto dest!: crc32_bits_inj)
    have "bit a n = bit b n" if "n < 8" for n
      using that arg_cong [OF eq, of "\<lambda>w. bit w n"] by (simp add: bit_ucast_iff)
    then show "a = b" by (auto intro: bit_word_eqI)
  qed
qed

lemma crc32_one_byte: "i < length xs \<Longrightarrow> crc32_calc (xs[i := b]) = crc32_calc xs \<longleftrightarrow> b = xs ! i"
  by (simp add: crc32_calc_def crc32.foldl_update)

subsection \<open>Lifecycle\<close>

text \<open>\<open>g_node\<close> and \<open>g_rules\<close> are in an uninitialised section and \<open>engine_init\<close> leaves them alone.\<close>

definition engine_init :: "bool \<Rightarrow> bool \<Rightarrow> Engine \<Rightarrow> Engine" where
  "engine_init action_fn clock_fn e = e\<lparr>
     g_action_fn := action_fn, g_clock_fn := clock_fn, wall_valid := False, g_last_time_min := -1,
     g_active := 0, g_count := (g_count e)(0 := 0, 1 := 0), g_building := False,
     g_shadow_expected := 0, g_shadow_filled := 0 \<rparr>"

subsection \<open>Live state\<close>

definition engine_update_node :: "MessageStruct option \<Rightarrow> Engine \<Rightarrow> bool \<times> Engine" where
  "engine_update_node msg e = (case msg of None \<Rightarrow> (False, e)
   | Some m \<Rightarrow>
     let nd = g_node e (m_id m);
         store = (\<lambda>nd'. (True, e\<lparr> g_node := (g_node e)(m_id m := nd') \<rparr>))
     in
     if m_type m = NODE_SOLAR_CONTROLLER \<and> m_cmd m = CMD_SEND_DATA_TO_DB then
       let n1 = nd\<lparr> nr_type := NODE_SOLAR_CONTROLLER \<rparr>;
           n2 = put_d 12 (le32_bytes (solarData_T4 m)) n1;
           n3 = put_d 8 (le32_bytes (solarData_T3 m)) n2;
           n4 = put_d 4 (le32_bytes (solarData_T2 m)) n3;
           n5 = put_d 0 (le32_bytes (solarData_T1 m)) n4;
           n6 = put_d 16 (le32_bytes (solarData_Tcol m)) n5;
           n7 = put_d 20 (le32_bytes (solarData_energyGain m)) n6;
           n8 = put_d 24 (le32_bytes (solarData_flowRate m)) n7;
           n9 = put_d 28 [solarData_pumpState m] n8
       in store (n9\<lparr> nr_inUse := 1 \<rparr>)
     else if m_type m = NODE_SOLAR_CONTROLLER \<and> m_cmd m = CMD_SEND_PUMP_STATUS then
       let n1 = nd\<lparr> nr_type := NODE_SOLAR_CONTROLLER \<rparr>;
           n2 = put_d 28 [pumpData_pumpState m] n1
       in store (n2\<lparr> nr_inUse := 1 \<rparr>)
     else if m_type m = NODE_BUFOR_CONTROLLER then
       let n1 = nd\<lparr> nr_type := NODE_BUFOR_CONTROLLER \<rparr>;
           n2 = put_d 0 (le32_bytes (buforData_sBuforTemp m)) n1
       in store (n2\<lparr> nr_inUse := 1 \<rparr>)
     else if m_type m = NODE_TH_SENSOR then
       let n1 = nd\<lparr> nr_type := NODE_TH_SENSOR \<rparr>;
           n2 = put_d 0 (le32_bytes (thData_temperature m)) n1;
           n3 = put_d 4 (le32_bytes (thData_humidity m)) n2;
           n4 = put_d 8 (le16_bytes (thData_batt_mv m)) n3
       in store (n4\<lparr> nr_inUse := 1 \<rparr>)
     else (False, e))"

subsection \<open>Wall clock\<close>

definition wall_now :: "Engine \<Rightarrow> u64 \<Rightarrow> (u8 \<times> u8 \<times> u8) option" where
  "wall_now e now =
     (if \<not> wall_valid e \<or> \<not> g_clock_fn e then None
      else
        let elapsed_s = unat (now - wall_anchor_us e) div 1000000;
            secs = (unat (wall_base_secs e) + elapsed_s) mod 86400
        in Some (word_of_nat (secs div 3600), word_of_nat (secs div 60 mod 60), word_of_nat (secs mod 60)))"

definition engine_set_time :: "u8 \<Rightarrow> u8 \<Rightarrow> u8 \<Rightarrow> u64 \<Rightarrow> Engine \<Rightarrow> Engine" where
  "engine_set_time hour minute second now e = e\<lparr>
     wall_base_secs := ucast hour * 3600 + ucast minute * 60 + ucast second,
     wall_anchor_us := (if g_clock_fn e then now else 0),
     wall_valid := True \<rparr>"

definition engine_clear_time :: "Engine \<Rightarrow> Engine" where
  "engine_clear_time e = e\<lparr> wall_valid := False \<rparr>"

definition engine_ms_to_next_minute :: "Engine \<Rightarrow> u64 \<Rightarrow> nat" where
  "engine_ms_to_next_minute e now =
     (if \<not> wall_valid e \<or> \<not> g_clock_fn e then 60000
      else
        let wall_ms = unat (wall_base_secs e) * 1000 + unat (now - wall_anchor_us e) div 1000;
            into = wall_ms mod 60000
        in 60000 - into)"

definition WALL_TICK_BIAS_S :: nat where "WALL_TICK_BIAS_S = 4"

definition wall_now_rounded :: "Engine \<Rightarrow> u64 \<Rightarrow> (u8 \<times> u8) option" where
  "wall_now_rounded e now = (case wall_now e now of None \<Rightarrow> None
   | Some (h, m, s) \<Rightarrow>
       let total = (unat h * 3600 + unat m * 60 + unat s + WALL_TICK_BIAS_S) mod 86400
       in Some (word_of_nat (total div 3600), word_of_nat (total div 60 mod 60)))"

subsection \<open>Conditions\<close>

definition f32_half :: u32 where "f32_half = 0x3F000000"

definition getNodeParam :: "Engine \<Rightarrow> u8 \<Rightarrow> u8 \<Rightarrow> u32" where
  "getNodeParam e addr parameter =
     (let nd = g_node e addr in
      if nr_type nd = NODE_SOLAR_CONTROLLER then
        (if parameter = PARAM_T1 then solar_T1 nd
         else if parameter = PARAM_T2 then solar_T2 nd
         else if parameter = PARAM_T3 then solar_T3 nd
         else if parameter = PARAM_T4 then solar_T4 nd
         else if parameter = PARAM_TCOL then solar_Tcol nd
         else if parameter = PARAM_ENERGY_GAIN then f32_of_int (sint (solar_energyGain nd))
         else if parameter = PARAM_FLOW_RATE then f32_of_int (sint (solar_flowRate nd))
         else if parameter = PARAM_PUMP_STATE then f32_of_int (uint (solar_pumpState nd))
         else 0)
      else if nr_type nd = NODE_BUFOR_CONTROLLER then
        (if parameter = PARAM_SBUF_TEMP then bufor_sBuforTemp nd else 0)
      else if nr_type nd = NODE_TH_SENSOR then
        (if parameter = PARAM_TEMPERATURE then th_temperature nd
         else if parameter = PARAM_HUMIDITY then th_humidity nd
         else if parameter = PARAM_BATT_MV then f32_of_int (uint (th_batt_mv nd))
         else 0)
      else 0)"

definition evaluateTimeCondition :: "Engine \<Rightarrow> u64 \<Rightarrow> TimeCondition \<Rightarrow> bool" where
  "evaluateTimeCondition e now tc = (case wall_now_rounded e now of None \<Rightarrow> False
   | Some (h, m) \<Rightarrow>
       (h > tc_hourStart tc \<or> (h = tc_hourStart tc \<and> m \<ge> tc_minStart tc)) \<and>
       (h < tc_hourEnd tc \<or> (h = tc_hourEnd tc \<and> m \<le> tc_minEnd tc)))"

definition evaluateParameterCondition :: "ParameterCondition \<Rightarrow> u32 \<Rightarrow> bool" where
  "evaluateParameterCondition pc value =
     (if pcn_op pc = OP_LESS_THAN then f32_lt value (pcn_thresholdMax pc)
      else if pcn_op pc = OP_MORE_THAN then f32_gt value (pcn_thresholdMin pc)
      else if pcn_op pc = OP_BETWEEN
        then f32_ge value (pcn_thresholdMin pc) \<and> f32_le value (pcn_thresholdMax pc)
      else False)"

definition evaluateParameterDeltaCondition :: "ParameterDeltaCondition \<Rightarrow> u32 \<Rightarrow> u32 \<Rightarrow> bool" where
  "evaluateParameterDeltaCondition pdc v1 v2 =
     (let delta = f32_sub v1 v2 in
      if pdc_deltaOp pdc = OP_LESS_THAN then f32_lt delta (pdc_deltaMax pdc)
      else if pdc_deltaOp pdc = OP_MORE_THAN then f32_gt delta (pdc_deltaMin pdc)
      else if pdc_deltaOp pdc = OP_BETWEEN
        then f32_ge delta (pdc_deltaMin pdc) \<and> f32_le delta (pdc_deltaMax pdc)
      else False)"

subsection \<open>Evaluation of the ruleset\<close>

datatype EngineEvalScope = ENGINE_EVAL_TIME | ENGINE_EVAL_NODE

text \<open>Reading past the three conditions of a rule is undefined in C.\<close>

datatype engine_fault = ConditionOutOfBounds

definition rule_matches_scope :: "AutomationRule \<Rightarrow> EngineEvalScope \<Rightarrow> engine_fault + bool" where
  "rule_matches_scope rule scope =
     (let n = unat (r_conditionCount rule); cs = take n (r_conditions rule);
          has_time = list_ex (\<lambda>rc. rc_conditionType rc = COND_TIME) cs;
          has_data = list_ex (\<lambda>rc. rc_conditionType rc \<noteq> COND_TIME) cs
      in if length (r_conditions rule) < n then Inl ConditionOutOfBounds
         else Inr (case scope of ENGINE_EVAL_TIME \<Rightarrow> has_time \<or> r_conditionCount rule = 0
                   | ENGINE_EVAL_NODE \<Rightarrow> has_data))"

definition cond_ok :: "Engine \<Rightarrow> u64 \<Rightarrow> RuleCondition \<Rightarrow> bool" where
  "cond_ok e now rc =
     (if rc_conditionType rc = COND_TIME then evaluateTimeCondition e now (rc_time rc)
      else if rc_conditionType rc = COND_PARAMETER then
        let pc = rc_parameter rc in
        if nr_inUse (g_node e (pcn_nodeAddr pc)) = 0 then False
        else evaluateParameterCondition pc (getNodeParam e (pcn_nodeAddr pc) (pcn_parameter pc))
      else if rc_conditionType rc = COND_PARAMETER_DELTA then
        let pdc = rc_parameterDelta rc in
        if nr_inUse (g_node e (pdc_nodeAddr1 pdc)) = 0 \<or> nr_inUse (g_node e (pdc_nodeAddr2 pdc)) = 0
        then False
        else evaluateParameterDeltaCondition pdc
               (getNodeParam e (pdc_nodeAddr1 pdc) (pdc_parameter1 pdc))
               (getNodeParam e (pdc_nodeAddr2 pdc) (pdc_parameter2 pdc))
      else False)"

text \<open>The AND over the conditions stops at the first that fails; \<open>clk c\<close> is the clock as read for condition \<open>c\<close>.\<close>

fun conds_met :: "Engine \<Rightarrow> (nat \<Rightarrow> u64) \<Rightarrow> nat \<Rightarrow> RuleCondition list \<Rightarrow> bool" where
  "conds_met e clk c [] = True"
| "conds_met e clk c (rc # rcs) = (if \<not> cond_ok e (clk c) rc then False else conds_met e clk (Suc c) rcs)"

definition relay_want :: "RuleAction \<Rightarrow> u8" where
  "relay_want a = (if f32_ge (ra_value a) f32_half then 1 else 0)"

definition relay_dedup :: "Engine \<Rightarrow> AutomationRule \<Rightarrow> bool" where
  "relay_dedup e rule \<longleftrightarrow>
     ra_actionType (r_action rule) = ACTION_SET_RELAY \<and>
     nr_type (g_node e (ra_nodeAddr (r_action rule))) = NODE_SOLAR_CONTROLLER \<and>
     solar_pumpState (g_node e (ra_nodeAddr (r_action rule))) = relay_want (r_action rule)"

definition c_strlen :: "u8 list \<Rightarrow> nat" where
  "c_strlen s = length (takeWhile (\<lambda>ch. ch \<noteq> 0) s)"

definition c_strncpy :: "nat \<Rightarrow> u8 list \<Rightarrow> u8 list" where
  "c_strncpy n src = (let s = takeWhile (\<lambda>ch. ch \<noteq> 0) (take n src) in s @ replicate (n - length s) 0)"

definition build_action :: "Engine \<Rightarrow> RuleAction \<Rightarrow> MessageStruct option" where
  "build_action e a =
     (let msg = msg_zero\<lparr> m_id := ra_nodeAddr a, m_type := nr_type (g_node e (ra_nodeAddr a)) \<rparr> in
      if ra_actionType a = ACTION_SET_RELAY then
        Some (put_payload 0 [relay_want a] (msg\<lparr> m_cmd := CMD_TURN_PUMP_ON_OFF, m_length := 1 + 4 \<rparr>))
      else if ra_actionType a = ACTION_SEND_MESSAGE then
        let m1 = put_payload 0 (c_strncpy (NODE_TEXT_MAX - 1) (ra_message a)) (msg\<lparr> m_cmd := CMD_SEND_TEXT_MSG \<rparr>);
            m2 = put_payload (NODE_TEXT_MAX - 1) [0] m1
        in Some (m2\<lparr> m_length := word_of_nat (4 + c_strlen (textData_text m2) + 1) \<rparr>)
      else None)"

definition eval_rule ::
  "Engine \<Rightarrow> (nat \<Rightarrow> u64) \<Rightarrow> EngineEvalScope \<Rightarrow> AutomationRule \<Rightarrow> engine_fault + MessageStruct option" where
  "eval_rule e clk scope rule = (case rule_matches_scope rule scope of
     Inl err \<Rightarrow> Inl err
   | Inr False \<Rightarrow> Inr None
   | Inr True \<Rightarrow>
       if relay_dedup e rule then Inr None
       else if \<not> conds_met e clk 0 (take (unat (r_conditionCount rule)) (r_conditions rule)) then Inr None
       else Inr (build_action e (r_action rule)))"

text \<open>What the action sink is called with: the message, the rule's index and its action.\<close>

type_synonym fired = "MessageStruct \<times> u16 \<times> RuleAction"

fun eval_rules ::
  "Engine \<Rightarrow> (nat \<Rightarrow> nat \<Rightarrow> u64) \<Rightarrow> EngineEvalScope \<Rightarrow> nat \<Rightarrow> AutomationRule list \<Rightarrow> engine_fault + fired list" where
  "eval_rules e clk scope i [] = Inr []"
| "eval_rules e clk scope i (rule # rules) = (case eval_rule e (clk i) scope rule of
     Inl err \<Rightarrow> Inl err
   | Inr r \<Rightarrow> (case eval_rules e clk scope (Suc i) rules of
       Inl err \<Rightarrow> Inl err
     | Inr fs \<Rightarrow> Inr ((case r of
           Some msg \<Rightarrow> if g_action_fn e then [(msg, word_of_nat i, r_action rule)] else []
         | None \<Rightarrow> []) @ fs)))"

definition active_rules :: "Engine \<Rightarrow> AutomationRule list" where
  "active_rules e = take (unat (g_count e (g_active e))) (g_rules e (g_active e))"

definition engine_evaluate ::
  "EngineEvalScope \<Rightarrow> u64 \<Rightarrow> (nat \<Rightarrow> nat \<Rightarrow> u64) \<Rightarrow> Engine \<Rightarrow> engine_fault + Engine \<times> fired list" where
  "engine_evaluate scope now clk e =
     (let run = (\<lambda>e'. case eval_rules e' clk scope 0 (active_rules e') of
            Inl err \<Rightarrow> Inl err | Inr fs \<Rightarrow> Inr (e', fs)) in
      case scope of
        ENGINE_EVAL_NODE \<Rightarrow> run e
      | ENGINE_EVAL_TIME \<Rightarrow> (case wall_now_rounded e now of
            None \<Rightarrow> run e
          | Some (h, m) \<Rightarrow>
              let curMin = uint h * 60 + uint m in
              if curMin = g_last_time_min e then Inr (e, [])
              else run (e\<lparr> g_last_time_min := curMin \<rparr>)))"

subsection \<open>Ruleset upload\<close>

definition engine_rules_begin :: "u16 \<Rightarrow> Engine \<Rightarrow> bool \<times> Engine" where
  "engine_rules_begin count e =
     (if unat count > MAX_RULES then (False, e)
      else (True, e\<lparr> g_shadow := g_active e XOR 1, g_shadow_expected := count, g_shadow_filled := 0,
                     g_building := True \<rparr>))"

definition engine_rules_item :: "u16 \<Rightarrow> AutomationRule option \<Rightarrow> Engine \<Rightarrow> bool \<times> Engine" where
  "engine_rules_item index rule e = (case rule of None \<Rightarrow> (False, e)
   | Some r \<Rightarrow>
     if \<not> g_building e then (False, e)
     else if index \<ge> g_shadow_expected e then (False, e)
     else (True, e\<lparr> g_rules := (g_rules e)(g_shadow e := (g_rules e (g_shadow e))[unat index := r]),
                    g_shadow_filled := g_shadow_filled e + 1 \<rparr>))"

definition ruleset_bytes :: "AutomationRule list \<Rightarrow> u8 list" where
  "ruleset_bytes rs = concat (map rule_bytes rs)"

definition engine_rules_commit :: "u16 \<Rightarrow> u32 \<Rightarrow> Engine \<Rightarrow> bool \<times> Engine" where
  "engine_rules_commit expectedCount crc32 e =
     (if \<not> g_building e then (False, e)
      else
        let e1 = e\<lparr> g_building := False \<rparr> in
        if expectedCount \<noteq> g_shadow_expected e \<or> g_shadow_filled e \<noteq> expectedCount then (False, e1)
        else if crc32_calc (ruleset_bytes (take (unat expectedCount) (g_rules e (g_shadow e)))) \<noteq> crc32
          then (False, e1)
        else (True, e1\<lparr> g_count := (g_count e)(g_shadow e := expectedCount), g_active := g_shadow e,
                        g_last_time_min := -1 \<rparr>))"

definition engine_rules_active_count :: "Engine \<Rightarrow> u16" where
  "engine_rules_active_count e = g_count e (g_active e)"


subsection \<open>The invariant of the engine's state\<close>

definition wf_engine :: "Engine \<Rightarrow> bool" where
  "wf_engine e \<longleftrightarrow>
     (\<forall>a. length (nr_d (g_node e a)) = NODEREC_UNION_SIZE) \<and>
     (\<forall>i. length (g_rules e i) = MAX_RULES \<and> list_all wf_rule (g_rules e i)) \<and>
     (\<forall>i. unat (g_count e i) \<le> MAX_RULES) \<and> (g_active e = 0 \<or> g_active e = 1) \<and>
     unat (g_shadow_expected e) \<le> MAX_RULES \<and> (g_building e \<longrightarrow> g_shadow e = g_active e XOR 1)"

lemma wf_engine_node: "wf_engine e \<Longrightarrow> length (nr_d (g_node e a)) = 32"
  by (simp add: wf_engine_def)

lemma put_d_fields [simp]:
  "nr_inUse (put_d off bs nd) = nr_inUse nd" "nr_type (put_d off bs nd) = nr_type nd"
  "nr_d (put_d off bs nd) = blit (nr_d nd) off bs"
  by (simp_all add: put_d_def)

lemma shadow_not_active [simp]: "x XOR 1 \<noteq> (x :: u8)"
  using xor_cancel(2) [of x 1 0] by simp

lemma wf_engine_init [wf_intros]:
  "wf_engine e \<Longrightarrow> wf_engine (engine_init act clk e)"
  by (simp add: wf_engine_def engine_init_def)

lemma wf_engine_update_node [wf_intros]: "wf_engine e \<Longrightarrow> wf_engine (snd (engine_update_node msg e))"
  by (simp add: wf_engine_def engine_update_node_def Let_def split: option.split)

lemma wf_engine_time [wf_intros]:
  "wf_engine e \<Longrightarrow> wf_engine (engine_set_time h m s now e)"
  "wf_engine e \<Longrightarrow> wf_engine (engine_clear_time e)"
  by (simp_all add: wf_engine_def engine_set_time_def engine_clear_time_def)

lemma wf_engine_begin [wf_intros]: "wf_engine e \<Longrightarrow> wf_engine (snd (engine_rules_begin n e))"
  by (simp add: wf_engine_def engine_rules_begin_def)

lemma wf_engine_item [wf_intros]:
  assumes "wf_engine e" "\<And>r'. r = Some r' \<Longrightarrow> wf_rule r'"
  shows "wf_engine (snd (engine_rules_item i r e))"
proof (cases r)
  case (Some r')
  then have "list_all wf_rule ((g_rules e j)[unat i := r'])" for j
    using assms set_update_subset_insert [of "g_rules e j" "unat i" r']
    by (auto simp: wf_engine_def list_all_iff)
  then show ?thesis using assms Some by (simp add: wf_engine_def engine_rules_item_def)
qed (use assms in \<open>simp add: engine_rules_item_def\<close>)

lemma wf_engine_commit [wf_intros]: "wf_engine e \<Longrightarrow> wf_engine (snd (engine_rules_commit n c e))"
  by (auto simp: wf_engine_def engine_rules_commit_def Let_def)

lemma engine_evaluate_state:
  "engine_evaluate scope now clk e = Inr (e', fs) \<Longrightarrow> e' = e \<or> (\<exists>k. e' = e\<lparr> g_last_time_min := k \<rparr>)"
  by (auto simp: engine_evaluate_def Let_def split: EngineEvalScope.splits option.splits sum.splits
      if_splits)

lemma wf_engine_evaluate [wf_intros]:
  "wf_engine e \<Longrightarrow> engine_evaluate scope now clk e = Inr (e', fs) \<Longrightarrow> wf_engine e'"
  by (auto dest!: engine_evaluate_state simp: wf_engine_def)

text \<open>The operations as a step relation: what can happen to the engine between two observations.\<close>

inductive engine_step :: "Engine \<Rightarrow> Engine \<Rightarrow> bool" where
  update: "engine_step e (snd (engine_update_node msg e))"
| set_time: "engine_step e (engine_set_time h m s now e)"
| clear_time: "engine_step e (engine_clear_time e)"
| begin_upload: "engine_step e (snd (engine_rules_begin n e))"
| item: "(\<And>r'. r = Some r' \<Longrightarrow> wf_rule r') \<Longrightarrow> engine_step e (snd (engine_rules_item i r e))"
| commit: "engine_step e (snd (engine_rules_commit n c e))"
| evaluate: "engine_evaluate scope now clk e = Inr (e', fs) \<Longrightarrow> engine_step e e'"

inductive_cases engine_stepE: "engine_step e e'"

abbreviation engine_steps :: "Engine \<Rightarrow> Engine \<Rightarrow> bool" where
  "engine_steps \<equiv> engine_step\<^sup>*\<^sup>*"

lemma engine_step_wf: "engine_step e e' \<Longrightarrow> wf_engine e \<Longrightarrow> wf_engine e'"
  by (induction rule: engine_step.induct) (auto intro: wf_intros)

lemma engine_steps_wf: "engine_steps e e' \<Longrightarrow> wf_engine e \<Longrightarrow> wf_engine e'"
  by (induction rule: rtranclp_induct) (auto intro: engine_step_wf)

end
