(* ===== verification/EngineClock.thy ===== *)
theory EngineClock
  imports Engine
begin

text \<open>
  The wall clock of the engine: the time it shows after a synchronisation, the sleep until the
  next minute and the minute a tick evaluates, time windows, and the once-per-minute rule.
\<close>

subsection \<open>Exact wall time\<close>

text \<open>The wall time in microseconds since the midnight before the last synchronisation.\<close>

definition wall_us :: "Engine \<Rightarrow> u64 \<Rightarrow> nat" where
  "wall_us e now = unat (wall_base_secs e) * 1000000 + unat (now - wall_anchor_us e)"

definition clock_ok :: "Engine \<Rightarrow> bool" where
  "clock_ok e \<longleftrightarrow> wall_valid e \<and> g_clock_fn e"

lemma unat_byte: "n < 256 \<Longrightarrow> unat (word_of_nat n :: u8) = n"
  by (simp add: unat_of_nat take_bit_eq_mod)

lemma wall_secs: "(unat (wall_base_secs e) + unat (now - wall_anchor_us e) div 1000000) mod 86400 =
    wall_us e now div 1000000 mod 86400"
  by (simp add: wall_us_def)

definition time_of_secs :: "nat \<Rightarrow> u8 \<times> u8 \<times> u8 \<Rightarrow> bool" where
  "time_of_secs n t \<longleftrightarrow> (case t of (h, m, s) \<Rightarrow>
     unat h < 24 \<and> unat m < 60 \<and> unat s < 60 \<and> unat h * 3600 + unat m * 60 + unat s = n)"

lemma split_secs:
  assumes "(n :: nat) < 86400"
  shows "n div 3600 < 24" "n div 3600 * 3600 + n div 60 mod 60 * 60 + n mod 60 = n"
proof -
  show "n div 3600 < 24" using assms by linarith
  have "n div 3600 = n div 60 div 60" by (simp add: div_mult2_eq [symmetric])
  then show "n div 3600 * 3600 + n div 60 mod 60 * 60 + n mod 60 = n"
    using div_mult_mod_eq [of "n div 60" 60] div_mult_mod_eq [of n 60] by linarith
qed

lemma wall_now_exact:
  assumes "clock_ok e"
  shows "\<exists>t. wall_now e now = Some t \<and> time_of_secs (wall_us e now div 1000000 mod 86400) t"
proof -
  define n where "n = wall_us e now div 1000000 mod 86400"
  have n: "n < 86400" by (simp add: n_def)
  have "n div 60 mod 60 < 256" "n mod 60 < 256" "n div 3600 < 256"
    using split_secs(1) [OF n] mod_less_divisor [of 60 "n div 60"] mod_less_divisor [of 60 n] by linarith+
  then have "time_of_secs n (word_of_nat (n div 3600), word_of_nat (n div 60 mod 60), word_of_nat (n mod 60))"
    using split_secs [OF n] by (simp add: time_of_secs_def unat_byte)
  then show ?thesis
    using assms by (simp add: wall_now_def clock_ok_def Let_def wall_secs n_def)
qed

lemma wall_now_None: "wall_now e now = None \<longleftrightarrow> \<not> clock_ok e"
  by (simp add: wall_now_def clock_ok_def Let_def)

definition tick_minute :: "Engine \<Rightarrow> u64 \<Rightarrow> nat" where
  "tick_minute e now = (wall_us e now + 4000000) div 60000000 mod 1440"

lemma mod_div_minutes: "(x :: nat) mod 86400 div 60 = x div 60 mod 1440"
  using mod_mult2_eq [of x 60 1440] by simp

lemma wall_now_rounded_exact:
  assumes "clock_ok e"
  shows "\<exists>h m. wall_now_rounded e now = Some (h, m) \<and> unat h < 24 \<and> unat m < 60 \<and>
    unat h * 60 + unat m = tick_minute e now"
proof -
  obtain h m s where t: "wall_now e now = Some (h, m, s)"
    and ts: "time_of_secs (wall_us e now div 1000000 mod 86400) (h, m, s)"
    using wall_now_exact [OF assms] by (metis prod_cases3)
  define n where "n = (wall_us e now div 1000000 mod 86400 + 4) mod 86400"
  have n: "n < 86400" by (simp add: n_def)
  have small: "n div 60 mod 60 < 60" "n div 3600 < 24" using split_secs [OF n] by simp_all
  have "n div 3600 = n div 60 div 60" by (simp flip: div_mult2_eq)
  then have "n div 3600 * 60 + n div 60 mod 60 = n div 60"
    using div_mult_mod_eq [of "n div 60" 60] by linarith
  moreover have "n = (wall_us e now + 4000000) div 1000000 mod 86400"
  proof -
    have "(wall_us e now + 4000000) div 1000000 = wall_us e now div 1000000 + 4" by linarith
    then show ?thesis by (simp add: n_def mod_simps)
  qed
  then have "n div 60 = tick_minute e now"
    by (simp add: tick_minute_def mod_div_minutes div_mult2_eq [symmetric])
  moreover have "wall_now_rounded e now = Some (word_of_nat (n div 3600), word_of_nat (n div 60 mod 60))"
    using ts by (simp add: wall_now_rounded_def t time_of_secs_def Let_def WALL_TICK_BIAS_S_def n_def)
  ultimately show ?thesis using small by (auto simp: unat_byte)
qed

lemma wall_now_rounded_None: "wall_now_rounded e now = None \<longleftrightarrow> \<not> clock_ok e"
  using wall_now_None [of e now] by (auto simp: wall_now_rounded_def Let_def split: option.split)


subsection \<open>Synchronisation and sleep\<close>

lemma unat_ucast_byte [simp]: "unat (ucast (b :: u8) :: u32) = unat b"
proof -
  have "unat b < 2 ^ LENGTH(8)" by (rule unsigned_less)
  then have "unat b < 2 ^ LENGTH(32)" by simp
  then show ?thesis by (simp only: unsigned_ucast_eq take_bit_nat_eq_self)
qed

lemma unat_base_secs:
  "unat (wall_base_secs (engine_set_time h m s now e)) = unat h * 3600 + unat m * 60 + unat s"
proof -
  have "unat h < 256" "unat m < 256" "unat s < 256" using unsigned_less [of h] unsigned_less [of m] unsigned_less [of s]
    by simp_all
  then show ?thesis
    by (simp add: engine_set_time_def unat_word_ariths)
qed

lemma wall_us_set_time:
  "g_clock_fn e \<Longrightarrow> wall_us (engine_set_time h m s t0 e) now =
     (unat h * 3600 + unat m * 60 + unat s) * 1000000 + unat (now - t0)"
  using unat_base_secs [of h m s t0 e] by (simp add: wall_us_def engine_set_time_def)

lemma clock_ok_set_time [simp]: "clock_ok (engine_set_time h m s t0 e) \<longleftrightarrow> g_clock_fn e"
  by (simp add: clock_ok_def engine_set_time_def)

text \<open>
  After a synchronisation to h:m:s the clock shows, d microseconds later, exactly that time
  of day advanced by the whole seconds elapsed, modulo one day; the hours, minutes and seconds are
  in range. The monotonic counter may wrap around in between.
\<close>

theorem wall_clock_advances:
  assumes "g_clock_fn e" and "d < 2 ^ 64"
  shows "\<exists>h' m' s'. wall_now (engine_set_time h m s t0 e) (t0 + word_of_nat d) = Some (h', m', s') \<and>
    unat h' < 24 \<and> unat m' < 60 \<and> unat s' < 60 \<and>
    unat h' * 3600 + unat m' * 60 + unat s' =
      (unat h * 3600 + unat m * 60 + unat s + d div 1000000) mod 86400"
proof -
  have "unat (word_of_nat d :: u64) = d"
    using assms(2) by (simp add: unat_of_nat take_bit_eq_mod)
  then have "wall_us (engine_set_time h m s t0 e) (t0 + word_of_nat d) div 1000000 =
      unat h * 3600 + unat m * 60 + unat s + d div 1000000"
    using assms(1) by (simp add: wall_us_set_time)
  then show ?thesis
    using wall_now_exact [of "engine_set_time h m s t0 e" "t0 + word_of_nat d"] assms(1)
    by (auto simp: time_of_secs_def)
qed

definition engine_blank :: Engine where
  "engine_blank = \<lparr> g_node = (\<lambda>_. \<lparr> nr_inUse = 0, nr_type = 0, nr_d = replicate 32 0 \<rparr>),
     g_action_fn = True, g_clock_fn = True, wall_base_secs = 0, wall_anchor_us = 0, wall_valid = False,
     g_rules = (\<lambda>_. replicate 100 (rule_of_bytes (replicate 196 0))), g_count = (\<lambda>_. 0), g_active = 0,
     g_last_time_min = -1, g_building = False, g_shadow = 1, g_shadow_expected = 0, g_shadow_filled = 0 \<rparr>"

lemma wf_engine_blank [simp, wf_intros]: "wf_engine engine_blank"
  by (simp add: engine_blank_def wf_engine_def list_all_iff)

theorem wall_clock_advances_witness:
  "\<exists>h' m' s'. wall_now (engine_set_time 23 59 58 (-1) engine_blank) (-1 + word_of_nat 3000000) = Some (h', m', s') \<and>
    unat h' * 3600 + unat m' * 60 + unat s' = 1"
  using wall_clock_advances [of engine_blank 3000000 23 59 58 "-1"] by (auto simp: engine_blank_def)

lemma ms_to_next_minute_exact:
  assumes "clock_ok e"
  shows "engine_ms_to_next_minute e now = 60000 - wall_us e now div 1000 mod 60000"
proof -
  have "unat (wall_base_secs e) * 1000 + unat (now - wall_anchor_us e) div 1000 = wall_us e now div 1000"
    by (simp add: wall_us_def)
  then show ?thesis using assms by (simp add: engine_ms_to_next_minute_def clock_ok_def)
qed

text \<open>
  C23. The sleep computed for the minute tick is between 1 and 60000 ms and ends on a minute
  boundary of the wall clock (to the millisecond). A tick that wakes from 4 s before that boundary
  to 56 s after it evaluates as exactly that minute: never the one before, never one late.
\<close>

theorem tick_lands_on_minute:
  assumes "clock_ok e" and "boundary = wall_us e now div 1000 + engine_ms_to_next_minute e now"
    and "boundary * 1000 \<le> wall_us e woken + 4000000"
    and "wall_us e woken < boundary * 1000 + 56000000"
  shows "1 \<le> engine_ms_to_next_minute e now \<and> engine_ms_to_next_minute e now \<le> 60000 \<and>
    boundary mod 60000 = 0 \<and>
    (\<exists>h m. wall_now_rounded e woken = Some (h, m) \<and>
       unat h * 60 + unat m = boundary div 60000 mod 1440)"
proof -
  define w where "w = wall_us e now div 1000"
  have r: "engine_ms_to_next_minute e now = 60000 - w mod 60000" "w mod 60000 < 60000"
    using ms_to_next_minute_exact [OF assms(1)] by (simp_all add: w_def)
  obtain q t where qt: "w div 60000 = q" "w mod 60000 = t" "w = q * 60000 + t"
    using div_mult_mod_eq [of w 60000] by metis
  have b: "boundary = (w div 60000 + 1) * 60000"
    using assms(2) [folded w_def] r unfolding qt(1,2) by (simp add: qt(3))
  have "(wall_us e woken + 4000000) div 60000000 = w div 60000 + 1"
    using assms(3,4) unfolding b qt(1) by (intro div_nat_eqI) simp_all
  then have "tick_minute e woken = boundary div 60000 mod 1440"
    by (simp only: tick_minute_def b) simp
  then show ?thesis
    using wall_now_rounded_exact [OF assms(1), of woken] r b by auto
qed

theorem tick_lands_on_minute_witness:
  "engine_ms_to_next_minute (engine_set_time 22 44 30 0 engine_blank) 500000 = 29500 \<and>
   (\<exists>h m. wall_now_rounded (engine_set_time 22 44 30 0 engine_blank) 29990000 = Some (h, m) \<and>
     unat h * 60 + unat m = 22 * 60 + 45)"
proof -
  let ?e = "engine_set_time 22 44 30 0 engine_blank"
  have ok: "clock_ok ?e" by (simp add: engine_blank_def)
  have us: "wall_us ?e now = 81870 * 1000000 + unat now" for now
    using wall_us_set_time [of engine_blank 22 44 30 0 now] by (simp add: engine_blank_def)
  have ms: "engine_ms_to_next_minute ?e 500000 = 29500"
    using ms_to_next_minute_exact [OF ok, of 500000] by (simp add: us)
  show ?thesis
    using tick_lands_on_minute [OF ok refl, of 500000 29990000] by (simp add: us ms)
qed

text \<open>
  A time window matches exactly when the tick's minute of the day lies between the start and
  the end, both included (so a window that crosses midnight never matches); without a valid clock it
  never matches.
\<close>

theorem time_window_exact:
  assumes "unat (tc_minStart tc) < 60" and "unat (tc_minEnd tc) < 60"
  shows "evaluateTimeCondition e now tc \<longleftrightarrow> clock_ok e \<and>
    tick_minute e now \<in> {unat (tc_hourStart tc) * 60 + unat (tc_minStart tc) ..
                         unat (tc_hourEnd tc) * 60 + unat (tc_minEnd tc)}"
proof (cases "clock_ok e")
  case True
  obtain h m where hm: "wall_now_rounded e now = Some (h, m)" "unat h < 24" "unat m < 60"
    "unat h * 60 + unat m = tick_minute e now"
    using wall_now_rounded_exact [OF True] by blast
  have "(unat (tc_hourStart tc) < unat h \<or> unat h = unat (tc_hourStart tc) \<and> unat (tc_minStart tc) \<le> unat m)
      \<longleftrightarrow> unat (tc_hourStart tc) * 60 + unat (tc_minStart tc) \<le> tick_minute e now"
    using assms(1) hm(3,4) by linarith
  moreover have "(unat h < unat (tc_hourEnd tc) \<or> unat h = unat (tc_hourEnd tc) \<and> unat m \<le> unat (tc_minEnd tc))
      \<longleftrightarrow> tick_minute e now \<le> unat (tc_hourEnd tc) * 60 + unat (tc_minEnd tc)"
    using assms(2) hm(3,4) by linarith
  ultimately show ?thesis
    using True by (simp add: evaluateTimeCondition_def hm(1) word_less_nat_alt word_le_nat_alt word_unat_eq_iff)
next
  case False
  then have "wall_now_rounded e now = None" by (simp add: wall_now_rounded_None)
  with False show ?thesis by (simp add: evaluateTimeCondition_def)
qed

theorem time_window_exact_witness:
  "evaluateTimeCondition (engine_set_time 22 44 57 0 engine_blank) 0
     \<lparr> tc_hourStart = 22, tc_minStart = 45, tc_hourEnd = 23, tc_minEnd = 0 \<rparr>"
proof -
  let ?e = "engine_set_time 22 44 57 0 engine_blank"
  have "clock_ok ?e" by (simp add: engine_blank_def)
  moreover have "tick_minute ?e 0 = 22 * 60 + 45"
    using wall_us_set_time [of engine_blank 22 44 57 0 0] by (simp add: tick_minute_def engine_blank_def)
  ultimately show ?thesis
    using time_window_exact [of "\<lparr> tc_hourStart = 22, tc_minStart = 45, tc_hourEnd = 23, tc_minEnd = 0 \<rparr>" ?e 0]
    by simp
qed

end
