(* ===== verification/EngineEval.thy ===== *)
theory EngineEval
  imports EngineClock
begin

text \<open>
  The evaluation of rules: what a node's report changes, the declarative specification of a pass
  over the ruleset and the guarantees of every message a pass emits.
\<close>

subsection \<open>Node reports\<close>

text \<open>
  A recognised report is folded into the record of its sender only, and reading it back gives
  the reported values: all eight solar fields, the buffer temperature, or the three ambient readings; the
  node counts as reporting from then on. A report of another type or command is
  refused and changes nothing.
\<close>

theorem node_report_reads_back:
  assumes "wf_engine e" and "wf_msg m" and "engine_update_node (Some m) e = (applied, e')"
  shows "(\<forall>a. a \<noteq> m_id m \<longrightarrow> g_node e' a = g_node e a) \<and> e'\<lparr> g_node := g_node e \<rparr> = e \<and>
    (if m_type m = NODE_SOLAR_CONTROLLER \<and> m_cmd m = CMD_SEND_DATA_TO_DB then
       applied \<and> nr_inUse (g_node e' (m_id m)) = 1 \<and>
       map (getNodeParam e' (m_id m)) [PARAM_T1, PARAM_T2, PARAM_T3, PARAM_T4, PARAM_TCOL] =
         [solarData_T1 m, solarData_T2 m, solarData_T3 m, solarData_T4 m, solarData_Tcol m] \<and>
       map (getNodeParam e' (m_id m)) [PARAM_ENERGY_GAIN, PARAM_FLOW_RATE, PARAM_PUMP_STATE] =
         [f32_of_int (sint (solarData_energyGain m)), f32_of_int (sint (solarData_flowRate m)),
          f32_of_int (uint (solarData_pumpState m))]
     else if m_type m = NODE_SOLAR_CONTROLLER \<and> m_cmd m = CMD_SEND_PUMP_STATUS then
       applied \<and> nr_inUse (g_node e' (m_id m)) = 1 \<and>
       getNodeParam e' (m_id m) PARAM_PUMP_STATE = f32_of_int (uint (pumpData_pumpState m))
     else if m_type m = NODE_BUFOR_CONTROLLER then
       applied \<and> nr_inUse (g_node e' (m_id m)) = 1 \<and>
       getNodeParam e' (m_id m) PARAM_SBUF_TEMP = buforData_sBuforTemp m
     else if m_type m = NODE_TH_SENSOR then
       applied \<and> nr_inUse (g_node e' (m_id m)) = 1 \<and>
       map (getNodeParam e' (m_id m)) [PARAM_TEMPERATURE, PARAM_HUMIDITY, PARAM_BATT_MV] =
         [thData_temperature m, thData_humidity m, f32_of_int (uint (thData_batt_mv m))]
     else \<not> applied \<and> e' = e)"
  using assms(3) wf_engine_node [OF assms(1), of "m_id m"]
  by (auto simp: engine_update_node_def Let_def getNodeParam_def noderec_views layout split: if_splits)

text \<open>A room sensor at address 0x10 that reports 21 degrees, 45 percent and 3600 mV.\<close>

definition th_report :: MessageStruct where
  "th_report = put_payload 8 (le16_bytes 3600) (put_payload 4 (le32_bytes (f32_of_int 45))
     (put_payload 0 (le32_bytes (f32_of_int 21))
       (msg_zero\<lparr> m_id := 0x10, m_type := NODE_TH_SENSOR, m_cmd := CMD_SEND_DATA_TO_DB \<rparr>)))"

theorem node_report_reads_back_witness:
  "getNodeParam (snd (engine_update_node (Some th_report) engine_blank)) 0x10 PARAM_TEMPERATURE = f32_of_int 21"
proof -
  have wf: "wf_msg th_report" by (simp add: th_report_def wf_msg_def msg_zero_def put_payload_def)
  have "thData_temperature th_report = f32_of_int 21"
    by (simp add: th_report_def thData_temperature_def put_payload_def msg_zero_def layout)
  moreover have "m_id th_report = 0x10" "m_type th_report = NODE_TH_SENSOR"
    by (simp_all add: th_report_def)
  ultimately show ?thesis
    using node_report_reads_back [OF wf_engine_blank wf surjective_pairing] by simp
qed


subsection \<open>The specification of a pass\<close>

definition rule_ok :: "AutomationRule \<Rightarrow> bool" where
  "rule_ok r \<longleftrightarrow> unat (r_conditionCount r) \<le> length (r_conditions r)"

definition rule_conds :: "AutomationRule \<Rightarrow> RuleCondition list" where
  "rule_conds r = take (unat (r_conditionCount r)) (r_conditions r)"

definition in_scope :: "EngineEvalScope \<Rightarrow> AutomationRule \<Rightarrow> bool" where
  "in_scope scope r = (case scope of
     ENGINE_EVAL_TIME \<Rightarrow> rule_conds r = [] \<or> (\<exists>rc \<in> set (rule_conds r). rc_conditionType rc = COND_TIME)
   | ENGINE_EVAL_NODE \<Rightarrow> (\<exists>rc \<in> set (rule_conds r). rc_conditionType rc \<noteq> COND_TIME))"

definition rule_fires :: "Engine \<Rightarrow> (nat \<Rightarrow> u64) \<Rightarrow> EngineEvalScope \<Rightarrow> AutomationRule \<Rightarrow> bool" where
  "rule_fires e clk scope r \<longleftrightarrow> in_scope scope r \<and> \<not> relay_dedup e r \<and>
     (\<forall>k < length (rule_conds r). cond_ok e (clk k) (rule_conds r ! k))"

definition fired_of :: "Engine \<Rightarrow> nat \<Rightarrow> AutomationRule \<Rightarrow> fired list" where
  "fired_of e i r = (case build_action e (r_action r) of
     Some msg \<Rightarrow> if g_action_fn e then [(msg, word_of_nat i, r_action r)] else [] | None \<Rightarrow> [])"

definition pass_spec ::
  "Engine \<Rightarrow> (nat \<Rightarrow> nat \<Rightarrow> u64) \<Rightarrow> EngineEvalScope \<Rightarrow> nat \<Rightarrow> AutomationRule list \<Rightarrow> fired list" where
  "pass_spec e clk scope i rs =
     concat (map (\<lambda>(j, r). if rule_fires e (clk j) scope r then fired_of e j r else []) (enumerate i rs))"

lemma conds_met_iff:
  "conds_met e clk c rcs \<longleftrightarrow> (\<forall>k < length rcs. cond_ok e (clk (c + k)) (rcs ! k))"
proof (induction rcs arbitrary: c)
  case (Cons rc rcs)
  show ?case by (auto simp: Cons.IH nth_Cons less_Suc_eq_0_disj split: nat.split)
qed simp

lemma rule_conds_Nil: "rule_ok r \<Longrightarrow> rule_conds r = [] \<longleftrightarrow> r_conditionCount r = 0"
  by (auto simp: rule_conds_def rule_ok_def unat_eq_0)

lemma rule_matches_scope_ok:
  "rule_ok r \<Longrightarrow> rule_matches_scope r scope = Inr (in_scope scope r)"
  using rule_conds_Nil [of r]
  by (auto simp: rule_matches_scope_def in_scope_def rule_ok_def rule_conds_def list_ex_iff Let_def
      split: EngineEvalScope.split)

lemma rule_matches_scope_fault:
  "(\<exists>f. rule_matches_scope r scope = Inl f) \<longleftrightarrow> \<not> rule_ok r"
  by (auto simp: rule_matches_scope_def rule_ok_def Let_def)

lemma eval_rule_ok:
  "rule_ok r \<Longrightarrow> eval_rule e clk scope r =
     Inr (if rule_fires e clk scope r then build_action e (r_action r) else None)"
  by (auto simp: eval_rule_def rule_matches_scope_ok rule_fires_def conds_met_iff
      simp flip: rule_conds_def split: bool.split)

lemma eval_rules_pass:
  "list_all rule_ok rs \<Longrightarrow> eval_rules e clk scope i rs = Inr (pass_spec e clk scope i rs)"
proof (induction rs arbitrary: i)
  case (Cons r rs)
  then show ?case
    by (auto simp: eval_rule_ok pass_spec_def fired_of_def split: option.split)
qed (simp add: pass_spec_def)

lemma eval_rules_fault: "(\<exists>f. eval_rules e clk scope i rs = Inl f) \<longleftrightarrow> \<not> list_all rule_ok rs"
proof (induction rs arbitrary: i)
  case (Cons r rs)
  show ?case
  proof (cases "rule_ok r")
    case True
    then show ?thesis using Cons.IH [of "Suc i"] by (auto simp: eval_rule_ok split: sum.splits)
  next
    case False
    then obtain f where "rule_matches_scope r scope = Inl f" using rule_matches_scope_fault by blast
    then show ?thesis using False by (simp add: eval_rule_def)
  qed
qed simp

lemma wall_last_min [simp]:
  "wall_now (e\<lparr> g_last_time_min := k \<rparr>) now = wall_now e now"
  "wall_now_rounded (e\<lparr> g_last_time_min := k \<rparr>) now = wall_now_rounded e now"
  by (simp_all add: wall_now_def wall_now_rounded_def)

lemma cond_ok_last_min [simp]: "cond_ok (e\<lparr> g_last_time_min := k \<rparr>) now rc = cond_ok e now rc"
proof -
  have "getNodeParam (e\<lparr> g_last_time_min := k \<rparr>) = getNodeParam e"
    by (intro ext) (simp add: getNodeParam_def)
  moreover have "evaluateTimeCondition (e\<lparr> g_last_time_min := k \<rparr>) now tc = evaluateTimeCondition e now tc" for tc
    by (simp add: evaluateTimeCondition_def)
  ultimately show ?thesis by (simp add: cond_ok_def)
qed

lemma pass_last_min [simp]:
  "pass_spec (e\<lparr> g_last_time_min := k \<rparr>) clk scope i rs = pass_spec e clk scope i rs"
  "active_rules (e\<lparr> g_last_time_min := k \<rparr>) = active_rules e"
proof -
  have "rule_fires (e\<lparr> g_last_time_min := k \<rparr>) = rule_fires e"
    by (simp add: fun_eq_iff rule_fires_def relay_dedup_def)
  moreover have "build_action (e\<lparr> g_last_time_min := k \<rparr>) = build_action e"
    by (simp add: fun_eq_iff build_action_def)
  then have "fired_of (e\<lparr> g_last_time_min := k \<rparr>) = fired_of e"
    by (intro ext) (simp add: fired_of_def split: option.split)
  ultimately show "pass_spec (e\<lparr> g_last_time_min := k \<rparr>) clk scope i rs = pass_spec e clk scope i rs"
    unfolding pass_spec_def by (simp only:)
qed (simp add: active_rules_def)

definition repeated_minute :: "EngineEvalScope \<Rightarrow> u64 \<Rightarrow> Engine \<Rightarrow> bool" where
  "repeated_minute scope now e \<longleftrightarrow> scope = ENGINE_EVAL_TIME \<and> clock_ok e \<and>
     int (tick_minute e now) = g_last_time_min e"

lemma rounded_minute:
  assumes "wall_now_rounded e now = Some (h, m)"
  shows "uint h * 60 + uint m = int (tick_minute e now) \<and> clock_ok e"
proof -
  have ok: "clock_ok e"
    using assms by (metis option.distinct(1) wall_now_rounded_None)
  obtain h' m' where "wall_now_rounded e now = Some (h', m')" "unat h' * 60 + unat m' = tick_minute e now"
    using wall_now_rounded_exact [OF ok] by blast
  with assms have "unat h * 60 + unat m = tick_minute e now" by simp
  then have "int (unat h) * 60 + int (unat m) = int (tick_minute e now)" by linarith
  with ok show ?thesis by (simp only: uint_nat simp_thms)
qed

lemma evaluate_pass:
  "engine_evaluate scope now clk e =
     (if repeated_minute scope now e then Inr (e, [])
      else if list_all rule_ok (active_rules e) then
        Inr (if scope = ENGINE_EVAL_TIME \<and> clock_ok e
             then e\<lparr> g_last_time_min := int (tick_minute e now) \<rparr> else e,
             pass_spec e clk scope 0 (active_rules e))
      else Inl ConditionOutOfBounds)"
proof -
  let ?rs = "active_rules e"
  have fault: "eval_rules e' clk sc 0 ?rs = Inl ConditionOutOfBounds"
    if "\<not> list_all rule_ok ?rs" for e' sc
    using that eval_rules_fault by (metis engine_fault.exhaust)
  have run: "(case eval_rules e' clk sc 0 ?rs of Inl err \<Rightarrow> Inl err | Inr fs \<Rightarrow> Inr (e', fs)) =
      (if list_all rule_ok ?rs then Inr (e', pass_spec e' clk sc 0 ?rs) else Inl ConditionOutOfBounds)"
    for e' sc
    by (simp add: fault eval_rules_pass)
  show ?thesis
  proof (cases "wall_now_rounded e now")
    case None
    then have "\<not> clock_ok e" by (simp add: wall_now_rounded_None)
    then show ?thesis
      by (simp add: engine_evaluate_def Let_def None run repeated_minute_def split: EngineEvalScope.split)
  next
    case (Some t)
    obtain h m where t: "t = (h, m)" by (cases t)
    have "uint h * 60 + uint m = int (tick_minute e now)" "clock_ok e"
      using rounded_minute Some t by simp_all
    then show ?thesis
      by (cases scope; cases "list_all rule_ok ?rs")
        (simp_all add: engine_evaluate_def Let_def Some t repeated_minute_def fault eval_rules_pass)
  qed
qed

text \<open>
  C19. A pass over the ruleset never reads outside a rule when every active rule declares at
  most its three conditions, and it then emits, in the order of the rules, exactly one message for each rule
  that is in scope, whose relay is not already in the wanted state and all of whose conditions hold; a
  repeated tick of the same minute emits nothing. When some active rule declares more
  conditions than it has, a pass that is not such a repetition runs out of bounds.
\<close>

theorem evaluate_is_pass_spec:
  "engine_evaluate scope now clk e =
     (if repeated_minute scope now e then Inr (e, [])
      else if list_all rule_ok (active_rules e) then
        Inr (if scope = ENGINE_EVAL_TIME \<and> clock_ok e
             then e\<lparr> g_last_time_min := int (tick_minute e now) \<rparr> else e,
             pass_spec e clk scope 0 (active_rules e))
      else Inl ConditionOutOfBounds)"
  by (rule evaluate_pass)

end
