(* ===== verification/EngineFire.thy ===== *)
theory EngineFire
  imports EngineEval
begin

text \<open>
  What a fired rule implies: the safety of every message the evaluator hands to its action
  sink, the fail-safe conditions, and the once-per-minute rule over a whole run.
\<close>

subsection \<open>Members of a pass\<close>

lemma pass_spec_mem:
  "x \<in> set (pass_spec e clk scope 0 rs) \<longleftrightarrow>
     (\<exists>i < length rs. rule_fires e (clk i) scope (rs ! i) \<and> x \<in> set (fired_of e i (rs ! i)))"
  by (force simp: pass_spec_def in_set_enumerate_eq split: if_splits)

lemma evaluate_fired:
  assumes "engine_evaluate scope now clk e = Inr (e', fs)" and "x \<in> set fs"
  shows "\<exists>i < length (active_rules e). rule_fires e (clk i) scope (active_rules e ! i) \<and>
     x \<in> set (fired_of e i (active_rules e ! i))"
  using assms by (auto simp: evaluate_pass pass_spec_mem split: if_splits)

lemma fired_of_mem:
  "x \<in> set (fired_of e i r) \<longleftrightarrow>
     g_action_fn e \<and> (\<exists>msg. build_action e (r_action r) = Some msg \<and> x = (msg, word_of_nat i, r_action r))"
  by (auto simp: fired_of_def split: option.splits if_splits)

subsection \<open>The messages\<close>

lemma length_c_strncpy [simp]: "length (c_strncpy n s) = n"
  using length_takeWhile_le [of "\<lambda>ch. ch \<noteq> 0" "take n s"] by (simp add: c_strncpy_def Let_def)

lemma strlen_pad: "c_strlen (takeWhile (\<lambda>ch. ch \<noteq> 0) s @ replicate k 0) = c_strlen s"
proof -
  have "takeWhile (\<lambda>ch. ch \<noteq> 0) (takeWhile (\<lambda>ch. ch \<noteq> 0) s @ replicate k (0 :: u8)) = takeWhile (\<lambda>ch. ch \<noteq> 0) s"
    by (cases k) (auto simp: takeWhile_append dest: set_takeWhileD)
  then show ?thesis by (simp add: c_strlen_def)
qed

lemma take_replicate_pad: "take n (xs @ replicate k z) = (if n \<le> length xs then take n xs
    else xs @ replicate (min (n - length xs) k) z)"
  by (simp add: min_def)

text \<open>The text field after the copy: the first 29 characters of the string, zeros up to the end.\<close>

lemma text_field:
  assumes "a = ra_message act"
  shows "textData_text (put_payload 29 [0] (put_payload 0 (c_strncpy 29 a) (msg_zero\<lparr> m_cmd := c, m_id := i, m_type := t \<rparr>)))
     = c_strncpy 29 a @ [0]"
  by (simp add: textData_text_def put_payload_def blit_def msg_zero_def)

definition c_string :: "u8 list \<Rightarrow> u8 list" where
  "c_string s = takeWhile (\<lambda>ch. ch \<noteq> 0) s"

lemma c_string_strncpy: "c_string (c_strncpy n s @ [0]) = take n (c_string s)"
proof -
  have t: "takeWhile (\<lambda>ch. ch \<noteq> 0) (take n s) = take n (takeWhile (\<lambda>ch. ch \<noteq> (0 :: u8)) s)"
    by (induction s arbitrary: n) (auto simp: take_Cons split: nat.split)
  have "c_string (c_strncpy n s @ [0]) = takeWhile (\<lambda>ch. ch \<noteq> 0) (take n s)"
    by (cases "n - length (takeWhile (\<lambda>ch. ch \<noteq> 0) (take n s))")
      (auto simp: c_string_def c_strncpy_def Let_def takeWhile_append dest: set_takeWhileD)
  then show ?thesis by (simp add: c_string_def t)
qed

lemma build_text:
  assumes "ra_actionType a = ACTION_SEND_MESSAGE"
  shows "\<exists>msg. build_action e a = Some msg \<and> wf_msg msg \<and> m_id msg = ra_nodeAddr a \<and>
    m_cmd msg = CMD_SEND_TEXT_MSG \<and> textData_text msg ! 29 = 0 \<and>
    c_string (textData_text msg) = take 29 (c_string (ra_message a)) \<and>
    unat (m_length msg) = length (c_string (textData_text msg)) + 5"
proof -
  define m where "m = put_payload 29 [0] (put_payload 0 (c_strncpy 29 (ra_message a))
      (msg_zero\<lparr> m_id := ra_nodeAddr a, m_type := nr_type (g_node e (ra_nodeAddr a)), m_cmd := CMD_SEND_TEXT_MSG \<rparr>))"
  have tx: "textData_text m = c_strncpy 29 (ra_message a) @ [0]"
    by (simp add: m_def textData_text_def put_payload_def blit_def msg_zero_def)
  have cs: "c_string (textData_text m) = take 29 (c_string (ra_message a))"
    by (simp add: tx c_string_strncpy)
  then have len: "c_strlen (textData_text m) \<le> 29"
    by (simp add: c_strlen_def flip: c_string_def)
  let ?n = "word_of_nat (4 + c_strlen (textData_text m) + 1) :: u8"
  have "build_action e a = Some (m\<lparr> m_length := ?n \<rparr>)"
    using assms by (simp add: build_action_def Let_def m_def)
  moreover have "unat ?n = c_strlen (textData_text m) + 5"
    using len by (subst unat_byte) simp_all
  moreover have "textData_text (m\<lparr> m_length := ?n \<rparr>) = textData_text m"
    by (simp add: textData_text_def)
  moreover have "wf_msg (m\<lparr> m_length := ?n \<rparr>)"
    by (simp add: wf_msg_def m_def put_payload_def msg_zero_def)
  ultimately show ?thesis
    using cs tx by (auto simp: m_def c_strlen_def nth_append simp flip: c_string_def)
qed

lemma build_relay:
  assumes "ra_actionType a = ACTION_SET_RELAY"
  shows "\<exists>msg. build_action e a = Some msg \<and> wf_msg msg \<and> m_id msg = ra_nodeAddr a \<and>
    m_type msg = nr_type (g_node e (ra_nodeAddr a)) \<and> m_cmd msg = CMD_TURN_PUMP_ON_OFF \<and>
    pumpData_pumpState msg = relay_want a \<and> m_length msg = 5"
  using assms
  by (simp add: build_action_def pumpData_pumpState_def put_payload_def wf_msg_def msg_zero_def layout)

lemma build_known: "build_action e a = Some msg \<Longrightarrow> ra_actionType a = ACTION_SET_RELAY \<or> ra_actionType a = ACTION_SEND_MESSAGE"
  by (auto simp: build_action_def Let_def split: if_splits)


subsection \<open>An example ruleset\<close>

text \<open>Above 20 degrees at node 0x10, switch on the relay of node 0x20.\<close>

definition rule_heat :: AutomationRule where
  "rule_heat = \<lparr> r_name = replicate 64 0, r_conditionCount = 1, r_pad = [0, 0, 0],
     r_conditions =
       \<lparr> rc_conditionType = COND_PARAMETER, rc_pad = [0, 0, 0],
         rc_u = [0x10, PARAM_TEMPERATURE, OP_MORE_THAN, 0] @ le32_bytes (f32_of_int 20) @ replicate 8 0 \<rparr> #
       replicate 2 \<lparr> rc_conditionType = 0, rc_pad = [0, 0, 0], rc_u = replicate 16 0 \<rparr>,
     r_action = \<lparr> ra_actionType = ACTION_SET_RELAY, ra_nodeAddr = 0x20, ra_pad = [0, 0],
       ra_data = le32_bytes (f32_of_int 1) @ replicate 60 0 \<rparr> \<rparr>"

definition engine_heat :: Engine where
  "engine_heat = (snd (engine_update_node (Some th_report) engine_blank))
     \<lparr> g_rules := (\<lambda>_. replicate 100 rule_heat), g_count := (\<lambda>_. 1) \<rparr>"

lemma f32_examples:
  "f32_lt (f32_of_int 20) (f32_of_int 21)" "f32_le f32_half (f32_of_int 1)"
  by (simp_all add: f32_half_def f32_eval)

lemma engine_heat_nodes:
  "nr_inUse (g_node engine_heat 0x10) = 1"
  "getNodeParam engine_heat 0x10 PARAM_TEMPERATURE = f32_of_int 21"
  "nr_type (g_node engine_heat 0x20) = 0" "solar_pumpState (g_node engine_heat 0x20) = 0"
  "g_action_fn engine_heat" "active_rules engine_heat = [rule_heat]"
proof -
  have n: "g_node engine_heat = g_node (snd (engine_update_node (Some th_report) engine_blank))"
    by (simp add: engine_heat_def)
  have t: "m_id th_report = 0x10" "m_type th_report = 6" "thData_temperature th_report = f32_of_int 21"
    by (simp_all add: th_report_def thData_temperature_def put_payload_def msg_zero_def layout)
  show "nr_inUse (g_node engine_heat 0x10) = 1" "nr_type (g_node engine_heat 0x20) = 0"
    "solar_pumpState (g_node engine_heat 0x20) = 0"
    "getNodeParam engine_heat 0x10 PARAM_TEMPERATURE = f32_of_int 21"
    unfolding n getNodeParam_def
    by (simp_all add: engine_update_node_def Let_def t engine_blank_def solar_pumpState_def
        th_temperature_def layout)
  show "g_action_fn engine_heat"
    by (simp add: engine_heat_def engine_update_node_def Let_def t engine_blank_def)
  show "active_rules engine_heat = [rule_heat]"
    by (simp add: active_rules_def engine_heat_def take_replicate numeral_eq_Suc)
qed

lemma engine_heat_fires:
  "\<exists>msg. engine_evaluate ENGINE_EVAL_NODE now clk engine_heat = Inr (engine_heat, [(msg, 0, r_action rule_heat)])"
proof -
  obtain msg where msg: "build_action engine_heat (r_action rule_heat) = Some msg"
    using build_relay [of "r_action rule_heat"] by (auto simp: rule_heat_def)
  have "cond_ok engine_heat now' (rule_conds rule_heat ! 0)" for now'
    by (simp add: rule_conds_def rule_heat_def cond_ok_def rc_parameter_def Let_def engine_heat_nodes
        evaluateParameterCondition_def le32_at_def le32_bytes_def le32_join f32_examples)
  moreover have "length (rule_conds rule_heat) = 1" "rule_ok rule_heat"
    by (simp_all add: rule_conds_def rule_ok_def rule_heat_def)
  moreover have "in_scope ENGINE_EVAL_NODE rule_heat"
    by (simp add: in_scope_def rule_conds_def rule_heat_def)
  moreover have "relay_want (r_action rule_heat) = 1"
    by (simp add: relay_want_def ra_value_def rule_heat_def le32_at_def le32_bytes_def le32_join f32_examples)
  then have "\<not> relay_dedup engine_heat rule_heat"
    using engine_heat_nodes(4) by (simp add: relay_dedup_def rule_heat_def)
  ultimately have "rule_fires engine_heat (clk 0) ENGINE_EVAL_NODE rule_heat" "rule_ok rule_heat"
    by (simp_all add: rule_fires_def)
  then show ?thesis
    using msg engine_heat_nodes(5,6)
    by (simp add: evaluate_pass repeated_minute_def pass_spec_def fired_of_def)
qed


subsection \<open>Properties\<close>

text \<open>
  A history of the engine: its operations in order. \<open>reported\<close> are the addresses whose reports were taken in,
  \<open>clock_known\<close> says that the clock was set since it was last cleared.
\<close>

datatype engine_op =
    Op_init bool bool
  | Op_update "MessageStruct option"
  | Op_set_time u8 u8 u8 u64
  | Op_clear_time
  | Op_begin u16
  | Op_item u16 "AutomationRule option"
  | Op_commit u16 u32
  | Op_evaluate EngineEvalScope u64 "nat \<Rightarrow> nat \<Rightarrow> u64"

fun engine_do :: "engine_op \<Rightarrow> Engine \<Rightarrow> Engine" where
  "engine_do (Op_init act clk) e = engine_init act clk e"
| "engine_do (Op_update m) e = snd (engine_update_node m e)"
| "engine_do (Op_set_time hh mm ss now) e = engine_set_time hh mm ss now e"
| "engine_do Op_clear_time e = engine_clear_time e"
| "engine_do (Op_begin n) e = snd (engine_rules_begin n e)"
| "engine_do (Op_item i r) e = snd (engine_rules_item i r e)"
| "engine_do (Op_commit n crc) e = snd (engine_rules_commit n crc e)"
| "engine_do (Op_evaluate scope now clk) e = (case engine_evaluate scope now clk e of Inl err \<Rightarrow> e | Inr (e', fs) \<Rightarrow> e')"

definition engine_run :: "engine_op list \<Rightarrow> Engine \<Rightarrow> Engine" where
  "engine_run ops e = fold engine_do ops e"

fun taken_in :: "engine_op \<Rightarrow> u8 set" where
  "taken_in (Op_update (Some m)) =
     (if m_type m = NODE_SOLAR_CONTROLLER \<and> m_cmd m \<in> {CMD_SEND_DATA_TO_DB, CMD_SEND_PUMP_STATUS} \<or>
         m_type m \<in> {NODE_BUFOR_CONTROLLER, NODE_TH_SENSOR} then {m_id m} else {})"
| "taken_in op = {}"

definition reported :: "engine_op list \<Rightarrow> u8 set" where
  "reported ops = (\<Union>op\<in>set ops. taken_in op)"

fun clock_after :: "engine_op \<Rightarrow> bool \<Rightarrow> bool" where
  "clock_after (Op_set_time hh mm ss now) known = True"
| "clock_after Op_clear_time known = False"
| "clock_after (Op_init act clk) known = False"
| "clock_after op known = known"

definition clock_known :: "engine_op list \<Rightarrow> bool" where
  "clock_known ops = fold clock_after ops False"

lemma do_nodes: "nr_inUse (g_node (engine_do op e) a) \<noteq> 0 \<Longrightarrow> nr_inUse (g_node e a) \<noteq> 0 \<or> a \<in> taken_in op"
  by (cases op rule: taken_in.cases)
    (auto simp: engine_init_def engine_update_node_def engine_set_time_def engine_clear_time_def engine_rules_begin_def
      engine_rules_item_def engine_rules_commit_def Let_def evaluate_pass split: option.splits if_splits sum.splits prod.splits)

lemma do_clock: "wall_valid (engine_do op e) = clock_after op (wall_valid e)"
  by (cases op)
    (auto simp: engine_init_def engine_update_node_def engine_set_time_def engine_clear_time_def engine_rules_begin_def
      engine_rules_item_def engine_rules_commit_def Let_def evaluate_pass split: option.splits if_splits sum.splits prod.splits)

lemma run_nodes: "nr_inUse (g_node (engine_run ops e) a) \<noteq> 0 \<Longrightarrow> nr_inUse (g_node e a) \<noteq> 0 \<or> a \<in> reported ops"
  unfolding engine_run_def reported_def by (induction ops arbitrary: e) (auto dest: do_nodes)

lemma run_clock: "wall_valid (engine_run ops e) = fold clock_after ops (wall_valid e)"
  unfolding engine_run_def by (induction ops arbitrary: e) (simp_all add: do_clock)

text \<open>
  C20. Fail-safe evaluation. Started with node records that are marked unused, whatever operations the engine has seen, it
  emits a message only for an active rule all of whose conditions held, and a condition holds only on live data: every
  time condition had a clock that was set since it was last cleared, and every parameter condition a node whose report
  was taken in since (both nodes for a difference); a rule never fires on an unknown condition type. The marks are a
  hypothesis because the records lie in memory that neither the start-up code nor \<open>engine_init\<close> clears.
\<close>

theorem fired_only_on_live_data:
  assumes "\<And>addr. nr_inUse (g_node e0 addr) = 0" and "\<not> wall_valid e0" and "e = engine_run ops e0"
    and "wf_engine e" and "engine_evaluate scope now clk e = Inr (e', fs)" and "(msg, i, a) \<in> set fs"
  shows "unat i < length (active_rules e) \<and> r_action (active_rules e ! unat i) = a \<and>
    (\<forall>k. k < length (rule_conds (active_rules e ! unat i)) \<longrightarrow>
      (let rc = rule_conds (active_rules e ! unat i) ! k in
       if rc_conditionType rc = COND_TIME then clock_known ops
       else if rc_conditionType rc = COND_PARAMETER then pcn_nodeAddr (rc_parameter rc) \<in> reported ops
       else rc_conditionType rc = COND_PARAMETER_DELTA \<and>
         pdc_nodeAddr1 (rc_parameterDelta rc) \<in> reported ops \<and> pdc_nodeAddr2 (rc_parameterDelta rc) \<in> reported ops))"
proof -
  obtain j where j: "j < length (active_rules e)" "rule_fires e (clk j) scope (active_rules e ! j)"
    and mem: "i = word_of_nat j" "r_action (active_rules e ! j) = a"
    using evaluate_fired [OF assms(5,6)] by (auto simp: fired_of_mem)
  have "length (active_rules e) \<le> 100"
    using assms(4) by (simp add: active_rules_def wf_engine_def min.coboundedI2)
  then have i: "unat i = j" using j(1) mem(1) by (simp add: unat_of_nat take_bit_eq_mod)
  have known: "wall_valid e \<Longrightarrow> clock_known ops" using assms(2,3) by (simp add: run_clock clock_known_def)
  have node: "nr_inUse (g_node e addr) \<noteq> 0 \<Longrightarrow> addr \<in> reported ops" for addr
    using run_nodes [of ops e0 addr] assms(1,3) by simp
  have live: "if rc_conditionType rc = COND_TIME then clock_known ops
       else if rc_conditionType rc = COND_PARAMETER then pcn_nodeAddr (rc_parameter rc) \<in> reported ops
       else rc_conditionType rc = COND_PARAMETER_DELTA \<and>
         pdc_nodeAddr1 (rc_parameterDelta rc) \<in> reported ops \<and> pdc_nodeAddr2 (rc_parameterDelta rc) \<in> reported ops"
    if "cond_ok e now' rc" for now' rc
    using that wall_now_rounded_None [of e now'] known node
    by (auto simp: cond_ok_def Let_def evaluateTimeCondition_def clock_ok_def split: if_splits option.splits)
  show ?thesis
    using j mem(2) live unfolding i rule_fires_def Let_def by blast
qed

text \<open>The example engine as it comes from one with unused records by one report.\<close>

lemma engine_heat_run:
  "engine_run [Op_update (Some th_report)] (engine_blank\<lparr> g_rules := (\<lambda>_. replicate 100 rule_heat), g_count := (\<lambda>_. 1) \<rparr>) =
     engine_heat"
  by (simp add: engine_run_def engine_heat_def engine_update_node_def Let_def engine_blank_def)

theorem fired_only_on_live_data_witness:
  "\<exists>msg. engine_evaluate ENGINE_EVAL_NODE 0 (\<lambda>_ _. 0) (engine_run [Op_update (Some th_report)]
       (engine_blank\<lparr> g_rules := (\<lambda>_. replicate 100 rule_heat), g_count := (\<lambda>_. 1) \<rparr>)) =
         Inr (engine_heat, [(msg, 0, r_action rule_heat)]) \<and>
     pcn_nodeAddr (rc_parameter (rule_conds rule_heat ! 0)) \<in> reported [Op_update (Some th_report)]"
proof -
  let ?e0 = "engine_blank\<lparr> g_rules := (\<lambda>_. replicate 100 rule_heat), g_count := (\<lambda>_. 1) \<rparr>"
  have wf: "wf_engine engine_heat"
    using wf_engine_update_node [OF wf_engine_blank, of "Some th_report"]
    by (simp add: wf_engine_def engine_heat_def rule_heat_def wf_rule_def wf_cond_def wf_action_def list_all_iff)
  obtain msg where ev: "engine_evaluate ENGINE_EVAL_NODE 0 (\<lambda>_ _. 0) engine_heat
      = Inr (engine_heat, [(msg, 0, r_action rule_heat)])"
    using engine_heat_fires by blast
  have c: "length (rule_conds rule_heat) = 1" "rc_conditionType (rule_conds rule_heat ! 0) = COND_PARAMETER"
    by (simp_all add: rule_conds_def rule_heat_def)
  have e0: "nr_inUse (g_node ?e0 addr) = 0" "\<not> wall_valid ?e0" for addr by (simp_all add: engine_blank_def)
  have "pcn_nodeAddr (rc_parameter (rule_conds rule_heat ! 0)) \<in> reported [Op_update (Some th_report)]"
    using fired_only_on_live_data [OF e0 engine_heat_run [symmetric] wf ev, of msg 0 "r_action rule_heat"] c
    by (simp add: engine_heat_nodes Let_def)
  with ev show ?thesis unfolding engine_heat_run by blast
qed

text \<open>
  C21. Every emitted message is one of two well-formed commands addressed to the rule's target. A relay
  command carries 0 or 1 and is suppressed exactly while a solar target already reports that pump
  state. A text is always NUL-terminated within its 30 bytes, is the first 29 characters of the rule's message
  string and the length byte counts the header, the characters and the terminator.
\<close>

theorem fired_messages_well_formed:
  assumes "engine_evaluate scope now clk e = Inr (e', fs)" and "(msg, i, a) \<in> set fs"
  shows "wf_msg msg \<and> m_id msg = ra_nodeAddr a \<and>
    (if ra_actionType a = ACTION_SET_RELAY then
       m_cmd msg = CMD_TURN_PUMP_ON_OFF \<and> m_length msg = 5 \<and>
       pumpData_pumpState msg = (if f32_le f32_half (ra_value a) then 1 else 0) \<and>
       \<not> (nr_type (g_node e (ra_nodeAddr a)) = NODE_SOLAR_CONTROLLER \<and>
          solar_pumpState (g_node e (ra_nodeAddr a)) = pumpData_pumpState msg)
     else
       ra_actionType a = ACTION_SEND_MESSAGE \<and> m_cmd msg = CMD_SEND_TEXT_MSG \<and>
       textData_text msg ! 29 = 0 \<and> c_string (textData_text msg) = take 29 (c_string (ra_message a)) \<and>
       unat (m_length msg) = length (c_string (textData_text msg)) + 5)"
proof -
  obtain j where "rule_fires e (clk j) scope (active_rules e ! j)"
    and a: "r_action (active_rules e ! j) = a" and b: "build_action e a = Some msg"
    using evaluate_fired [OF assms] by (auto simp: fired_of_mem)
  then have nd: "\<not> relay_dedup e (active_rules e ! j)" by (simp add: rule_fires_def)
  show ?thesis
    using build_known [OF b] build_relay [of a e] build_text [of a e] b nd a
    by (auto simp: relay_dedup_def relay_want_def)
qed

theorem fired_messages_well_formed_witness:
  "\<exists>msg. build_action engine_heat (r_action rule_heat) = Some msg \<and> wf_msg msg \<and> m_id msg = 0x20"
proof -
  obtain msg where ev: "engine_evaluate ENGINE_EVAL_NODE 0 (\<lambda>_ _. 0) engine_heat
      = Inr (engine_heat, [(msg, 0, r_action rule_heat)])"
    using engine_heat_fires by blast
  have "wf_msg msg \<and> m_id msg = 0x20"
    using fired_messages_well_formed [OF ev, of msg 0 "r_action rule_heat"] by (simp add: rule_heat_def)
  moreover have "build_action engine_heat (r_action rule_heat) = Some msg"
    using evaluate_fired [OF ev] by (auto simp: fired_of_mem)
  ultimately show ?thesis by blast
qed

subsection \<open>Once per minute\<close>

text \<open>
  The operations that do not make minute \<open>m\<close> evaluable again: all of them except a tick of another minute with a valid
  clock, a commit that is accepted and \<open>engine_init\<close>.
\<close>

inductive quiet_step :: "nat \<Rightarrow> Engine \<Rightarrow> Engine \<Rightarrow> bool" for m where
  quiet_update: "quiet_step m e (snd (engine_update_node msg e))"
| quiet_set_time: "quiet_step m e (engine_set_time hh mm ss now e)"
| quiet_clear_time: "quiet_step m e (engine_clear_time e)"
| quiet_begin: "quiet_step m e (snd (engine_rules_begin n e))"
| quiet_item: "quiet_step m e (snd (engine_rules_item i r e))"
| quiet_commit: "engine_rules_commit n crc e = (False, e') \<Longrightarrow> quiet_step m e e'"
| quiet_node: "engine_evaluate ENGINE_EVAL_NODE now clk e = Inr (e', fs) \<Longrightarrow> quiet_step m e e'"
| quiet_tick: "engine_evaluate ENGINE_EVAL_TIME now clk e = Inr (e', fs) \<Longrightarrow>
    \<not> clock_ok e \<or> tick_minute e now = m \<Longrightarrow> quiet_step m e e'"

lemma quiet_step_last_min: "quiet_step m e e' \<Longrightarrow> g_last_time_min e = int m \<Longrightarrow> g_last_time_min e' = int m"
  by (induction rule: quiet_step.induct)
    (auto simp: engine_update_node_def engine_set_time_def engine_clear_time_def engine_rules_begin_def
      engine_rules_item_def engine_rules_commit_def Let_def evaluate_pass split: option.splits if_splits)

lemma quiet_steps_last_min:
  "(quiet_step m)\<^sup>*\<^sup>* e e' \<Longrightarrow> g_last_time_min e = int m \<Longrightarrow> g_last_time_min e' = int m"
  by (induction rule: rtranclp_induct) (auto dest: quiet_step_last_min)

text \<open>
  C22. A minute of the day is evaluated at most once until something makes it evaluable again: after a tick that had a
  valid clock, whatever node reports, node-data evaluations, clock synchronisations, uploads in progress, rejected
  commits, ticks of the same minute and ticks without a valid clock follow, a further tick of that minute emits nothing
  and changes nothing. What ends this is a tick of another minute (so also a clock that is set forward and back), an
  accepted commit or a new start of the engine.
\<close>

theorem time_rules_once_per_minute:
  assumes "engine_evaluate ENGINE_EVAL_TIME now clk e = Inr (e1, fs)" and "clock_ok e"
    and "(quiet_step (tick_minute e now))\<^sup>*\<^sup>* e1 e2" and "clock_ok e2" and "tick_minute e2 now2 = tick_minute e now"
  shows "engine_evaluate ENGINE_EVAL_TIME now2 clk2 e2 = Inr (e2, [])"
proof -
  have "g_last_time_min e1 = int (tick_minute e now)"
    using assms(1,2) by (auto simp: evaluate_pass repeated_minute_def split: if_splits)
  then have "repeated_minute ENGINE_EVAL_TIME now2 e2"
    using quiet_steps_last_min [OF assms(3)] assms(4,5) \<open>g_last_time_min e1 = int (tick_minute e now)\<close> by (simp add: repeated_minute_def)
  then show ?thesis by (simp add: evaluate_pass)
qed

theorem time_rules_once_per_minute_witness:
  "\<exists>e1 fs. engine_evaluate ENGINE_EVAL_TIME 0 (\<lambda>_ _. 0) (engine_set_time 6 30 0 0 engine_blank) = Inr (e1, fs) \<and>
     engine_evaluate ENGINE_EVAL_TIME 9000000 (\<lambda>_ _. 0) (snd (engine_rules_begin 3 e1)) =
       Inr (snd (engine_rules_begin 3 e1), [])"
proof -
  let ?e = "engine_set_time 6 30 0 0 engine_blank"
  have ok: "clock_ok ?e" by (simp add: engine_blank_def)
  have ars: "active_rules ?e = []" by (simp add: active_rules_def engine_set_time_def engine_blank_def)
  define e1 where "e1 = ?e\<lparr> g_last_time_min := int (tick_minute ?e 0) \<rparr>"
  have us: "wall_us ?e now = 23400 * 1000000 + unat now" for now
    using wall_us_set_time [of engine_blank 6 30 0 0 now] by (simp add: engine_blank_def)
  have "engine_evaluate ENGINE_EVAL_TIME 0 (\<lambda>_ _. 0) ?e = Inr (e1, [])"
    if "\<not> repeated_minute ENGINE_EVAL_TIME 0 ?e"
    using that ok by (simp add: evaluate_pass ars e1_def pass_spec_def)
  moreover have "\<not> repeated_minute ENGINE_EVAL_TIME 0 ?e"
    by (simp add: repeated_minute_def engine_set_time_def engine_blank_def)
  ultimately have ev: "engine_evaluate ENGINE_EVAL_TIME 0 (\<lambda>_ _. 0) ?e = Inr (e1, [])" by blast
  let ?e2 = "snd (engine_rules_begin 3 e1)"
  have q: "(quiet_step (tick_minute ?e 0))\<^sup>*\<^sup>* e1 ?e2" by (intro r_into_rtranclp quiet_begin)
  have ok2: "clock_ok ?e2" and us2: "wall_us ?e2 9000000 = wall_us ?e 9000000"
    using ok by (simp_all add: clock_ok_def wall_us_def engine_rules_begin_def e1_def)
  have "tick_minute ?e2 9000000 = tick_minute ?e 0"
    by (simp add: tick_minute_def us2 us)
  from time_rules_once_per_minute [OF ev ok q ok2 this] ev show ?thesis by blast
qed

end
