(* ===== verification/EngineUpload.thy ===== *)
theory EngineUpload
  imports EngineFire
begin

text \<open>
  The ruleset upload: \<open>begin\<close>, the items in any order, \<open>commit\<close>. The active set only ever changes
  in one step, to the whole uploaded set, and only when count and checksum agree.
\<close>

subsection \<open>The active set is stable\<close>

lemma active_rules_cong:
  "g_active e' = g_active e \<Longrightarrow> g_count e' (g_active e) = g_count e (g_active e) \<Longrightarrow>
   g_rules e' (g_active e) = g_rules e (g_active e) \<Longrightarrow> active_rules e' = active_rules e"
  by (simp add: active_rules_def)

lemma active_update_node [simp]: "active_rules (snd (engine_update_node msg e)) = active_rules e"
  by (rule active_rules_cong) (simp_all add: engine_update_node_def Let_def split: option.split)

lemma active_time [simp]:
  "active_rules (engine_set_time h m s now e) = active_rules e"
  "active_rules (engine_clear_time e) = active_rules e"
  by (simp_all add: active_rules_def engine_set_time_def engine_clear_time_def)

lemma active_begin [simp]: "active_rules (snd (engine_rules_begin n e)) = active_rules e"
  by (simp add: active_rules_def engine_rules_begin_def)

lemma active_item [simp]:
  "wf_engine e \<Longrightarrow> active_rules (snd (engine_rules_item i r e)) = active_rules e"
  by (rule active_rules_cong)
    (auto simp: engine_rules_item_def wf_engine_def shadow_not_active split: option.split)

lemma active_evaluate:
  "engine_evaluate scope now clk e = Inr (e', fs) \<Longrightarrow> active_rules e' = active_rules e"
  by (auto dest!: engine_evaluate_state)

lemma commit_True:
  assumes "engine_rules_commit n crc e = (True, e')" and "wf_engine e"
  shows "g_building e \<and> g_shadow_expected e = n \<and> g_shadow_filled e = n \<and>
    active_rules e' = take (unat n) (g_rules e (g_shadow e)) \<and> length (active_rules e') = unat n \<and>
    crc32_calc (ruleset_bytes (active_rules e')) = crc \<and> \<not> g_building e' \<and> g_node e' = g_node e \<and>
    engine_rules_active_count e' = n"
  using assms
  by (auto simp: engine_rules_commit_def Let_def active_rules_def wf_engine_def
      engine_rules_active_count_def min_def split: if_splits)

lemma commit_False:
  "engine_rules_commit n crc e = (False, e') \<Longrightarrow> e' = e\<lparr> g_building := False \<rparr> \<or> (e' = e \<and> \<not> g_building e)"
  by (auto simp: engine_rules_commit_def Let_def split: if_splits)

text \<open>
  C15. Atomic swap: whatever single operation the engine performs, either the active rules are what they
  were, or the operation is an accepted commit, and then the active rules are, all at once, the
  shadow set that was announced, filled and checksummed: exactly the announced number of rules, whose
  memory image has the CRC32 the commit names.
\<close>

theorem active_set_changes_only_by_commit:
  assumes "wf_engine e" and "engine_step e e'" and "active_rules e' \<noteq> active_rules e"
  shows "\<exists>n crc. engine_rules_commit n crc e = (True, e') \<and> g_building e \<and>
    g_shadow_expected e = n \<and> g_shadow_filled e = n \<and>
    active_rules e' = take (unat n) (g_rules e (g_shadow e)) \<and> length (active_rules e') = unat n \<and>
    crc32_calc (ruleset_bytes (active_rules e')) = crc"
  using assms(2)
proof (cases rule: engine_step.cases)
  case (commit n crc)
  show ?thesis
  proof (cases "engine_rules_commit n crc e")
    case (Pair ok e'')
    have "e'' = e'" using commit Pair by simp
    moreover have ok
    proof (rule ccontr)
      assume "\<not> ok"
      then have "active_rules e'' = active_rules e"
        using commit_False [of n crc e e''] Pair by (auto simp: active_rules_def)
      then show False using assms(3) \<open>e'' = e'\<close> by simp
    qed
    ultimately show ?thesis using commit_True [of n crc e e'] assms(1) Pair by auto
  qed
qed (use assms in \<open>auto dest: active_evaluate\<close>)

subsection \<open>A whole upload\<close>

definition put_item :: "AutomationRule list \<Rightarrow> nat \<Rightarrow> Engine \<Rightarrow> Engine" where
  "put_item rs i e = snd (engine_rules_item (word_of_nat i) (Some (rs ! i)) e)"

definition upload :: "AutomationRule list \<Rightarrow> nat list \<Rightarrow> Engine \<Rightarrow> Engine" where
  "upload rs is e = fold (put_item rs) is (snd (engine_rules_begin (word_of_nat (length rs)) e))"

text \<open>The state of an upload when the items \<open>is\<close> have arrived.\<close>

definition uploading :: "Engine \<Rightarrow> AutomationRule list \<Rightarrow> nat list \<Rightarrow> Engine \<Rightarrow> bool" where
  "uploading e0 rs is e \<longleftrightarrow> g_building e \<and> g_active e = g_active e0 \<and> g_shadow e = g_active e0 XOR 1 \<and>
     g_shadow_expected e = word_of_nat (length rs) \<and> g_shadow_filled e = word_of_nat (length is) \<and>
     length (g_rules e (g_shadow e)) = MAX_RULES \<and> (\<forall>i \<in> set is. g_rules e (g_shadow e) ! i = rs ! i) \<and>
     g_node e = g_node e0"

lemma word16_of_nat: "n < 65536 \<Longrightarrow> unat (word_of_nat n :: u16) = n"
  by (simp add: unat_of_nat take_bit_eq_mod)

lemma begin_uploading:
  "wf_engine e \<Longrightarrow> length rs \<le> 100 \<Longrightarrow>
   fst (engine_rules_begin (word_of_nat (length rs)) e) \<and>
   uploading e rs [] (snd (engine_rules_begin (word_of_nat (length rs)) e))"
  by (simp add: uploading_def engine_rules_begin_def word16_of_nat wf_engine_def)

lemma item_accepted:
  assumes "uploading e0 rs is e" and "i < length rs" and "length rs \<le> 100"
  shows "fst (engine_rules_item (word_of_nat i) (Some r) e)"
  using assms
  by (simp add: uploading_def engine_rules_item_def word_le_nat_alt word16_of_nat)

lemma put_item_uploading:
  assumes "uploading e0 rs is e" and "i < length rs" and "length rs \<le> 100"
  shows "uploading e0 rs (is @ [i]) (put_item rs i e)"
proof -
  have "\<not> (word_of_nat (length rs) \<le> (word_of_nat i :: u16))" "unat (word_of_nat i :: u16) = i"
    using assms(2,3) by (simp_all add: word_le_nat_alt word16_of_nat)
  then show ?thesis
    using assms by (auto simp: uploading_def put_item_def engine_rules_item_def nth_list_update add.commute)
qed

lemma fold_uploading:
  assumes "uploading e0 rs js e" and "set is \<subseteq> {..< length rs}" and "length rs \<le> 100"
  shows "uploading e0 rs (js @ is) (fold (put_item rs) is e)"
  using assms
proof (induction "is" arbitrary: js e)
  case (Cons i "is")
  then have "uploading e0 rs (js @ [i]) (put_item rs i e)" by (intro put_item_uploading) auto
  from Cons.IH [OF this] Cons.prems show ?case by simp
qed simp

lemma upload_uploading:
  assumes "wf_engine e" and "length rs \<le> 100" and "set is \<subseteq> {..< length rs}"
  shows "uploading e rs is (upload rs is e)"
  using fold_uploading [of e rs "[]" _ "is"] begin_uploading [of e rs] assms by (simp add: upload_def)

lemma uploaded_rules:
  assumes "uploading e0 rs is e" and "set is = {..< length rs}" and "length rs \<le> 100"
  shows "take (length rs) (g_rules e (g_shadow e)) = rs"
  using assms by (intro nth_equalityI) (auto simp: uploading_def)

lemma upload_commit:
  assumes "wf_engine e" and "length rs \<le> MAX_RULES" and "distinct is" and "set is = {..< length rs}"
  shows "active_rules (upload rs is e) = active_rules e \<and>
    (\<exists>e'. engine_rules_commit (word_of_nat (length rs)) (crc32_calc (ruleset_bytes rs)) (upload rs is e) = (True, e') \<and>
       active_rules e' = rs \<and> g_node e' = g_node e)"
proof -
  let ?u = "upload rs is e"
  have rs: "length rs \<le> 100" using assms(2) by simp
  have up: "uploading e rs is ?u" using upload_uploading [OF assms(1) rs] assms(4) by simp
  have cnt: "length is = length rs" using assms(3,4) distinct_card [of "is"] by simp
  have tk: "take (length rs) (g_rules ?u (g_shadow ?u)) = rs"
    using uploaded_rules [OF up assms(4) rs] .
  have "fst (engine_rules_commit (word_of_nat (length rs)) (crc32_calc (ruleset_bytes rs)) ?u)"
    using up tk cnt rs by (simp add: uploading_def engine_rules_commit_def Let_def word16_of_nat)
  then obtain e' where c: "engine_rules_commit (word_of_nat (length rs)) (crc32_calc (ruleset_bytes rs)) ?u = (True, e')"
    by (metis (full_types) prod.collapse)
  have wfu: "active_rules ?u = active_rules e"
  proof -
    have "g_active ?u = g_active e" using up by (simp add: uploading_def)
    have step: "active_rules (put_item rs i x) = active_rules x \<and> g_active (put_item rs i x) = g_active x \<and>
        g_shadow (put_item rs i x) = g_shadow x" if "g_shadow x \<noteq> g_active x" for i x
      using that by (auto simp: put_item_def engine_rules_item_def active_rules_def)
    have "g_shadow x \<noteq> g_active x \<Longrightarrow> active_rules (fold (put_item rs) js x) = active_rules x" for js x
      by (induction js arbitrary: x) (simp_all add: step)
    then show ?thesis
      using rs by (simp add: upload_def engine_rules_begin_def word16_of_nat active_rules_def)
  qed
  have "active_rules e' = rs \<and> g_node e' = g_node e"
    using c up tk rs
    by (auto simp: engine_rules_commit_def Let_def active_rules_def uploading_def word16_of_nat split: if_splits)
  with c wfu show ?thesis by blast
qed

text \<open>
  C16. Complete upload: when a ruleset of at most 100 rules is announced and every rule is delivered exactly
  once, in any order, then the commit with the CRC32 of the ruleset's image is accepted, the active rules
  are exactly the uploaded ones, in their order, and the node states are untouched; up to the commit
  the old rules stay active.
\<close>

theorem complete_upload_becomes_active:
  assumes "wf_engine e" and "length rs \<le> MAX_RULES" and "distinct is" and "set is = {..< length rs}"
  shows "active_rules (upload rs is e) = active_rules e \<and>
    (\<exists>e'. engine_rules_commit (word_of_nat (length rs)) (crc32_calc (ruleset_bytes rs)) (upload rs is e) = (True, e') \<and>
       active_rules e' = rs \<and> g_node e' = g_node e)"
  using assms by (rule upload_commit)

theorem complete_upload_becomes_active_witness:
  "\<exists>e'. engine_rules_commit 2 (crc32_calc (ruleset_bytes [rule_heat, rule_heat]))
     (upload [rule_heat, rule_heat] [1, 0] engine_heat) = (True, e') \<and> active_rules e' = [rule_heat, rule_heat]"
proof -
  have "set [1, 0] = {..< length [rule_heat, rule_heat]}" by auto
  moreover have "wf_engine engine_heat"
    using wf_engine_update_node [OF wf_engine_blank, of "Some th_report"]
    by (simp add: wf_engine_def engine_heat_def rule_heat_def wf_rule_def wf_cond_def wf_action_def list_all_iff)
  ultimately show ?thesis
    using complete_upload_becomes_active [of engine_heat "[rule_heat, rule_heat]" "[1, 0]"] by auto
qed

theorem active_set_changes_only_by_commit_witness:
  "\<exists>n crc e'. engine_rules_commit n crc (upload [rule_heat] [0] engine_blank) = (True, e') \<and>
     active_rules e' = [rule_heat] \<and> length (active_rules e') = unat n"
proof -
  have is0: "set [0] = {..< length [rule_heat]}" by auto
  let ?u = "upload [rule_heat] [0] engine_blank"
  obtain e' where c: "engine_rules_commit 1 (crc32_calc (ruleset_bytes [rule_heat])) ?u = (True, e')"
    and act: "active_rules e' = [rule_heat]" "active_rules ?u = active_rules engine_blank"
    using upload_commit [OF wf_engine_blank _ _ is0] by auto
  have "active_rules e' \<noteq> active_rules ?u"
    by (simp add: act) (simp add: active_rules_def engine_blank_def)
  moreover have "wf_engine ?u"
  proof -
    have "wf_rule rule_heat"
      by (simp add: rule_heat_def wf_rule_def wf_cond_def wf_action_def list_all_iff)
    then show ?thesis by (auto simp: upload_def put_item_def intro!: wf_engine_item wf_engine_begin)
  qed
  moreover have "engine_step ?u e'" using engine_step.commit [of ?u] c by (metis snd_conv)
  ultimately obtain n crc where "engine_rules_commit n crc ?u = (True, e')" "length (active_rules e') = unat n"
    using active_set_changes_only_by_commit by blast
  with act show ?thesis by blast
qed

text \<open>
  A corrupted upload is rejected: when the memory image of the shadow set differs in a single byte from the
  ruleset the commit's checksum was computed over, the commit fails and the old rules stay active.
\<close>

theorem corrupted_upload_rejected:
  assumes "ruleset_bytes (take (unat n) (g_rules e (g_shadow e))) = (ruleset_bytes rs)[k := b]"
    and "k < length (ruleset_bytes rs)" and "b \<noteq> ruleset_bytes rs ! k"
  shows "\<exists>e'. engine_rules_commit n (crc32_calc (ruleset_bytes rs)) e = (False, e') \<and>
    active_rules e' = active_rules e"
  using assms crc32_one_byte [of k "ruleset_bytes rs" b]
  by (auto simp: engine_rules_commit_def Let_def active_rules_def)

theorem corrupted_upload_rejected_witness:
  "\<not> fst (engine_rules_commit 1 (crc32_calc (ruleset_bytes [rule_heat\<lparr> r_conditionCount := 2 \<rparr>]))
     (engine_heat\<lparr> g_building := True, g_shadow_expected := 1, g_shadow_filled := 1 \<rparr>))"
proof -
  let ?e = "engine_heat\<lparr> g_building := True, g_shadow_expected := 1, g_shadow_filled := 1 \<rparr>"
  have img: "ruleset_bytes [rule_heat] = (ruleset_bytes [rule_heat\<lparr> r_conditionCount := 2 \<rparr>])[64 := 1]"
    "64 < length (ruleset_bytes [rule_heat\<lparr> r_conditionCount := 2 \<rparr>])"
    "ruleset_bytes [rule_heat\<lparr> r_conditionCount := 2 \<rparr>] ! 64 = 2"
    by (simp_all add: ruleset_bytes_def rule_bytes_def rule_heat_def list_update_append nth_append)
  have "take (unat (1 :: u16)) (g_rules ?e (g_shadow ?e)) = [rule_heat]"
    by (simp add: engine_heat_def take_replicate numeral_eq_Suc)
  then show ?thesis
    using corrupted_upload_rejected [of 1 ?e "[rule_heat\<lparr> r_conditionCount := 2 \<rparr>]" 64 1] img by auto
qed

text \<open>
  A repeated item is accepted and counted again, so an upload in which one item was delivered twice can no
  longer be committed.
\<close>

lemma repeated_item_blocks_commit:
  assumes "g_building e" and "g_shadow_filled e = g_shadow_expected e" and "i < g_shadow_expected e"
  shows "fst (engine_rules_item i (Some r) e) \<and>
    \<not> fst (engine_rules_commit n crc (snd (engine_rules_item i (Some r) e)))"
  using assms by (auto simp: engine_rules_item_def engine_rules_commit_def Let_def)

text \<open>
  The initialisation keeps whatever the uninitialised memory of the node records holds, including the
  flag that a node has reported.
\<close>

lemma init_keeps_node_records: "g_node (engine_init a c e) = g_node e"
  by (simp add: engine_init_def)

end
