(* ===== verification/EngineRpmsg.thy ===== *)
theory EngineRpmsg
  imports EngineUpload
begin

text \<open>
  The glue between the Linux messages and the engine (\<open>src/Gateway/Firmware/M4F/engine_rpmsg.c\<close>):
  the dispatch of the control messages and the reports to Linux. The calls that leave through the
  four registered function pointers are the list of effects a function returns, in order.
\<close>

record EngineCallbacks =
  g_tx_event :: bool
  g_reply :: bool
  g_tx_node :: bool
  g_tx_ctrl :: bool

datatype engine_effect =
    Reply u8 u16
  | TxNode NodeFrame
  | TxCtrl PendingCtrl
  | TxEvent u8 "u8 list"

definition engine_rpmsg_init :: "bool \<Rightarrow> bool \<Rightarrow> bool \<Rightarrow> bool \<Rightarrow> EngineCallbacks" where
  "engine_rpmsg_init tx_event reply tx_node tx_ctrl =
     \<lparr> g_tx_event = tx_event, g_reply = reply, g_tx_node = tx_node, g_tx_ctrl = tx_ctrl \<rparr>"

definition ackIf :: "EngineCallbacks \<Rightarrow> u16 \<Rightarrow> engine_effect list" where
  "ackIf cb sq = (if g_reply cb then [Reply MSG_ACK sq] else [])"

definition sendError :: "EngineCallbacks \<Rightarrow> u16 \<Rightarrow> engine_effect list" where
  "sendError cb sq = (if g_reply cb then [Reply MSG_ERROR sq] else [])"

definition get_u32_be :: "u8 list \<Rightarrow> nat \<Rightarrow> u32" where
  "get_u32_be p i = push_bit 24 (ucast (p ! i)) OR push_bit 16 (ucast (p ! (i + 1))) OR
     push_bit 8 (ucast (p ! (i + 2))) OR ucast (p ! (i + 3))"

text \<open>Whether the message was ours, what it sent, and the engine after it.\<close>

definition engine_rpmsg_dispatch ::
  "EngineCallbacks \<Rightarrow> u64 \<Rightarrow> u8 \<Rightarrow> u16 \<Rightarrow> u8 list \<Rightarrow> Engine \<Rightarrow> bool \<times> engine_effect list \<times> Engine" where
  "engine_rpmsg_dispatch cb now msg_type sq payload e =
     (let payload_len = length payload; err = (True, sendError cb sq, e) in
      if msg_type = MSG_RULE_BEGIN then
        (if payload_len < 2 then err
         else let (ok, e') = engine_rules_begin (protocol_get_u16_be payload 0) e in
           if ok then (True, ackIf cb sq, e') else (True, sendError cb sq, e'))
      else if msg_type = MSG_RULE_ITEM then
        (if payload_len \<noteq> 2 + RULE_SIZE then err
         else let (ok, e') = engine_rules_item (protocol_get_u16_be payload 0)
                               (Some (rule_of_bytes (drop 2 payload))) e in
           if ok then (True, ackIf cb sq, e') else (True, sendError cb sq, e'))
      else if msg_type = MSG_RULE_COMMIT then
        (if payload_len \<noteq> 6 then err
         else let (ok, e') = engine_rules_commit (protocol_get_u16_be payload 0) (get_u32_be payload 2) e in
           if ok then (True, ackIf cb sq, e') else (True, sendError cb sq, e'))
      else if msg_type = MSG_NODE_CMD then
        (let relay = (\<lambda>frame. (True, (if g_tx_node cb then [TxNode frame] else []) @ ackIf cb sq, e)) in
         if payload_len = NODEFRAME_SIZE then relay (frame_of_bytes payload)
         else if payload_len = MESSAGE_SIZE then
           relay \<lparr> nf_factory_id = replicate NODE_FACTORY_ID_LEN 0, nf_msg = msg_of_bytes payload \<rparr>
         else err)
      else if msg_type = MSG_TIME_SYNC then
        (if payload_len < 2 then err
         else let sec = (if payload_len \<ge> 3 then payload ! 2 else 0) in
           (True, ackIf cb sq, engine_set_time (payload ! 0) (payload ! 1) sec now e))
      else if msg_type = MSG_ARM_PENDING then
        (if payload_len \<noteq> PENDINGCTRL_SIZE then err
         else (True, (if g_tx_ctrl cb then [TxCtrl (ctrl_of_bytes payload)] else []) @ ackIf cb sq, e))
      else (False, [], e))"

definition engine_rpmsg_report_telemetry :: "EngineCallbacks \<Rightarrow> NodeFrame option \<Rightarrow> engine_effect list" where
  "engine_rpmsg_report_telemetry cb frame = (case frame of None \<Rightarrow> []
   | Some f \<Rightarrow> if g_tx_event cb then [TxEvent MSG_NODE_TELEMETRY (frame_bytes f)] else [])"

definition NODESDATA_SIZE :: nat where "NODESDATA_SIZE = 44"

text \<open>The state snapshot is the zeroed stub of the engine.\<close>

definition engine_rpmsg_report_state :: "EngineCallbacks \<Rightarrow> engine_effect list" where
  "engine_rpmsg_report_state cb =
     (if g_tx_event cb then [TxEvent MSG_NODE_STATE (replicate NODESDATA_SIZE 0)] else [])"

definition engine_rpmsg_report_rule_fired ::
  "EngineCallbacks \<Rightarrow> u16 \<Rightarrow> RuleAction option \<Rightarrow> engine_effect list" where
  "engine_rpmsg_report_rule_fired cb ruleIndex action = (case action of None \<Rightarrow> []
   | Some a \<Rightarrow> if g_tx_event cb
       then [TxEvent MSG_RULE_FIRED (protocol_put_u16_be [0, 0] 0 ruleIndex @ action_bytes a)] else [])"

subsection \<open>Replies\<close>

lemmas dispatch_def = engine_rpmsg_dispatch_def Let_def

definition replies :: "engine_effect list \<Rightarrow> (u8 \<times> u16) list" where
  "replies fx = concat (map (\<lambda>f. case f of Reply t s \<Rightarrow> [(t, s)] | _ \<Rightarrow> []) fx)"

lemma replies_simps [simp]:
  "replies [] = []" "replies (f # fx) = (case f of Reply t s \<Rightarrow> [(t, s)] | _ \<Rightarrow> []) @ replies fx"
  "replies (fx @ gx) = replies fx @ replies gx"
  by (simp_all add: replies_def)

lemma replies_ack [simp]:
  "g_reply cb \<Longrightarrow> replies (ackIf cb sq) = [(MSG_ACK, sq)]"
  "g_reply cb \<Longrightarrow> replies (sendError cb sq) = [(MSG_ERROR, sq)]"
  by (simp_all add: ackIf_def sendError_def)

lemma begin_False: "engine_rules_begin n e = (False, e') \<Longrightarrow> e' = e"
  by (auto simp: engine_rules_begin_def split: if_splits)

lemma item_False: "engine_rules_item i r e = (False, e') \<Longrightarrow> e' = e"
  by (auto simp: engine_rules_item_def split: if_splits option.splits)

lemma dispatch_step:
  assumes "engine_rpmsg_dispatch cb now t sq p e = (ours, fx, e')"
  shows "engine_steps e e'"
proof -
  have b: "engine_steps e e'" if "engine_rules_begin n e = (ok, e')" for n ok
    using engine_step.begin_upload [of e n] that by auto
  have i: "engine_steps e e'" if "engine_rules_item n (Some r) e = (ok, e')" "wf_rule r" for n r ok
    using engine_step.item [of "Some r" e n] that by auto
  have c: "engine_steps e e'" if "engine_rules_commit n crc e = (ok, e')" for n crc ok
    using engine_step.commit [of e n crc] that by auto
  show ?thesis
    using assms
    by (auto simp: dispatch_def split: if_splits prod.splits
        intro: b i c r_into_rtranclp engine_step.set_time)
qed

lemma dispatch_shape:
  assumes "g_reply cb" and "engine_rpmsg_dispatch cb now t sq p e = (True, fx, e')"
  shows "\<exists>r pre. r \<in> {MSG_ACK, MSG_ERROR} \<and> fx = pre @ [Reply r sq] \<and>
    (pre = [] \<or> (\<exists>f. pre = [TxNode f]) \<or> (\<exists>k. pre = [TxCtrl k]))"
  using assms
  by (auto simp: dispatch_def ackIf_def sendError_def split: if_splits prod.splits)

text \<open>
  C18. Every control message is answered exactly once: a consumed message gets one reply, which echoes its
  sequence number and is an ACK or an ERROR; a message of another type is not consumed, has no effect and
  leaves the engine as it was. A message that is answered with ERROR is never relayed to a node or to
  the concentrator, and leaves the active rules, the node records and the clock as they were.
\<close>

theorem dispatch_answers_once:
  assumes "g_reply cb" and "engine_rpmsg_dispatch cb now t sq p e = (ours, fx, e')"
  shows "(ours \<longleftrightarrow> t \<in> {MSG_RULE_BEGIN, MSG_RULE_ITEM, MSG_RULE_COMMIT, MSG_NODE_CMD, MSG_TIME_SYNC, MSG_ARM_PENDING}) \<and>
    (if \<not> ours then fx = [] \<and> e' = e
     else if replies fx = [(MSG_ACK, sq)] then True
     else fx = [Reply MSG_ERROR sq] \<and> active_rules e' = active_rules e \<and> g_node e' = g_node e \<and>
       wall_valid e' = wall_valid e \<and> wall_base_secs e' = wall_base_secs e \<and> wall_anchor_us e' = wall_anchor_us e)"
proof -
  have c: "active_rules e1 = active_rules e \<and> g_node e1 = g_node e \<and> wall_valid e1 = wall_valid e \<and>
      wall_base_secs e1 = wall_base_secs e \<and> wall_anchor_us e1 = wall_anchor_us e"
    if "engine_rules_commit n crc e = (False, e1)" for n crc e1
    using commit_False [OF that] by (auto simp: active_rules_def)
  show ?thesis
    using assms
    by (auto simp: dispatch_def sendError_def split: if_splits prod.splits
        dest: begin_False item_False c)
qed

theorem dispatch_answers_once_witness:
  "\<exists>fx e'. engine_rpmsg_dispatch (engine_rpmsg_init True True True True) 0 MSG_RULE_BEGIN 9 [0, 101] engine_blank
     = (True, fx, e') \<and> fx = [Reply MSG_ERROR 9] \<and> active_rules e' = active_rules engine_blank"
proof -
  obtain ours fx e' where d: "engine_rpmsg_dispatch (engine_rpmsg_init True True True True) 0 MSG_RULE_BEGIN 9
      [0, 101] engine_blank = (ours, fx, e')" by (metis prod_cases3)
  have "unat (protocol_get_u16_be [0, 101] 0) = 101" by (simp add: protocol_get_u16_be_def)
  then have "replies fx \<noteq> [(MSG_ACK, 9)]"
    using d by (auto simp: dispatch_def engine_rules_begin_def sendError_def engine_rpmsg_init_def)
  then show ?thesis
    using d dispatch_answers_once [OF _ d] by (simp add: engine_rpmsg_init_def)
qed


subsection \<open>The upload over the link\<close>

text \<open>The messages the Linux service sends to replace the ruleset.\<close>

definition be32 :: "u32 \<Rightarrow> u8 list" where
  "be32 w = [ucast (drop_bit 24 w), ucast (drop_bit 16 w), ucast (drop_bit 8 w), ucast w]"

definition linux_upload :: "AutomationRule list \<Rightarrow> (u8 \<times> u8 list) list" where
  "linux_upload rs =
     (MSG_RULE_BEGIN, be16 (word_of_nat (length rs))) #
     map (\<lambda>i. (MSG_RULE_ITEM, be16 (word_of_nat i) @ rule_bytes (rs ! i))) [0 ..< length rs] @
     [(MSG_RULE_COMMIT, be16 (word_of_nat (length rs)) @ be32 (crc32_calc (ruleset_bytes rs)))]"

fun dispatch_all ::
  "EngineCallbacks \<Rightarrow> u64 \<Rightarrow> u16 \<Rightarrow> (u8 \<times> u8 list) list \<Rightarrow> Engine \<Rightarrow> engine_effect list \<times> Engine" where
  "dispatch_all cb now sq [] e = ([], e)"
| "dispatch_all cb now sq ((t, p) # ms) e =
     (case engine_rpmsg_dispatch cb now t sq p e of (_, fx, e') \<Rightarrow>
        (case dispatch_all cb now (sq + 1) ms e' of (fx', e'') \<Rightarrow> (fx @ fx', e'')))"

lemma dispatch_all_append:
  "dispatch_all cb now sq (ms @ ns) e =
     (case dispatch_all cb now sq ms e of (fx, e') \<Rightarrow>
        (case dispatch_all cb now (sq + word_of_nat (length ms)) ns e' of (fx', e'') \<Rightarrow> (fx @ fx', e'')))"
  by (induction ms arbitrary: sq e) (auto split: prod.splits simp: add.assoc)

lemma get_be16 [simp]: "protocol_get_u16_be (be16 w @ p) 0 = w"
  by (simp add: get_u16_be_pair be16_list pair_be16)

lemma get_be32: "get_u32_be (be16 v @ be32 w) 2 = w"
  using le32_join [of w] by (simp add: get_u32_be_def be16_list be32_def ac_simps numeral_eq_Suc)

lemma dispatch_item:
  assumes "g_reply cb" "uploading e0 rs is e" "i < length rs" "length rs \<le> 100" "wf_rule (rs ! i)"
  shows "engine_rpmsg_dispatch cb now MSG_RULE_ITEM sq (be16 (word_of_nat i) @ rule_bytes (rs ! i)) e =
    (True, [Reply MSG_ACK sq], put_item rs i e)"
proof -
  have "fst (engine_rules_item (word_of_nat i) (Some (rs ! i)) e)"
    using item_accepted [OF assms(2-4)] .
  then have "engine_rules_item (word_of_nat i) (Some (rs ! i)) e = (True, put_item rs i e)"
    by (metis put_item_def prod.collapse)
  then show ?thesis
    using assms(1,5) by (simp add: dispatch_def ackIf_def rule_of_bytes_bytes)
qed

lemma dispatch_items:
  assumes "g_reply cb" "uploading e0 rs [0 ..< k] e" "k \<le> n" "n \<le> length rs" "length rs \<le> 100" "list_all wf_rule rs"
  shows "dispatch_all cb now sq (map (\<lambda>i. (MSG_RULE_ITEM, be16 (word_of_nat i) @ rule_bytes (rs ! i))) [k ..< n]) e =
    (map (\<lambda>j. Reply MSG_ACK (sq + word_of_nat j)) [0 ..< n - k], fold (put_item rs) [k ..< n] e)"
  using assms
proof (induction "n - k" arbitrary: k e sq)
  case (Suc d)
  then have k: "k < n" by simp
  then have split: "[k ..< n] = k # [Suc k ..< n]" by (simp add: upt_conv_Cons)
  have up: "uploading e0 rs [0 ..< Suc k] (put_item rs k e)"
    using put_item_uploading [OF Suc.prems(2)] Suc.prems k by simp
  have "wf_rule (rs ! k)" using Suc.prems k by (simp add: list_all_length)
  then have it: "engine_rpmsg_dispatch cb now MSG_RULE_ITEM sq (be16 (word_of_nat k) @ rule_bytes (rs ! k)) e =
    (True, [Reply MSG_ACK sq], put_item rs k e)"
    using dispatch_item [OF Suc.prems(1,2)] Suc.prems k by simp
  have "[0 ..< n - k] = 0 # map Suc [0 ..< n - Suc k]"
  proof -
    have "n - k = Suc (n - Suc k)" using k by simp
    then show ?thesis by (simp only: upt_conv_Cons zero_less_Suc map_Suc_upt)
  qed
  moreover have "d = n - Suc k" "Suc k \<le> n" using Suc.hyps(2) k by simp_all
  ultimately show ?case
    using Suc.hyps(1) [of "Suc k" "put_item rs k e" "sq + 1"] Suc.prems up it
    by (simp add: split comp_def add.assoc)
qed simp

text \<open>
  C17. The upload of a ruleset over the link: when the service sends the announcement, every rule as one item
  and the commit with the checksum it computed itself, the engine acknowledges each of the messages under
  its own sequence number, and at the end exactly the rules that were sent are active.
\<close>

theorem link_upload_activates_rules:
  assumes "g_reply cb" and "wf_engine e" and "list_all wf_rule rs" and "length rs \<le> MAX_RULES"
    and "dispatch_all cb now sq (linux_upload rs) e = (fx, e')"
  shows "fx = map (\<lambda>j. Reply MSG_ACK (sq + word_of_nat j)) [0 ..< length rs + 2] \<and>
    active_rules e' = rs \<and> g_node e' = g_node e"
proof -
  let ?n = "length rs" and ?e1 = "snd (engine_rules_begin (word_of_nat (length rs)) e)"
  have n: "?n \<le> 100" using assms(4) by simp
  have up: "uploading e rs [] ?e1" and b: "fst (engine_rules_begin (word_of_nat ?n) e)"
    using begin_uploading [OF assms(2) n] by simp_all
  then have beg: "engine_rpmsg_dispatch cb now MSG_RULE_BEGIN sq (be16 (word_of_nat ?n)) e =
      (True, [Reply MSG_ACK sq], ?e1)"
    using assms(1) get_be16 [of "word_of_nat ?n" "[]"]
    by (auto simp: dispatch_def ackIf_def split: prod.split)
  have its: "dispatch_all cb now (sq + 1) (map (\<lambda>i. (MSG_RULE_ITEM, be16 (word_of_nat i) @ rule_bytes (rs ! i))) [0 ..< ?n]) ?e1
      = (map (\<lambda>j. Reply MSG_ACK (sq + 1 + word_of_nat j)) [0 ..< ?n], upload rs [0 ..< ?n] e)"
    using dispatch_items [OF assms(1), of e rs 0 ?e1 ?n now "sq + 1"] up n assms(3)
    by (simp add: upload_def)
  obtain e2 where c: "engine_rules_commit (word_of_nat ?n) (crc32_calc (ruleset_bytes rs)) (upload rs [0 ..< ?n] e) = (True, e2)"
    and a: "active_rules e2 = rs" "g_node e2 = g_node e"
    using upload_commit [OF assms(2,4), of "[0 ..< ?n]"] by (auto simp: lessThan_atLeast0)
  have com: "engine_rpmsg_dispatch cb now MSG_RULE_COMMIT sq' (be16 (word_of_nat ?n) @ be32 (crc32_calc (ruleset_bytes rs)))
      (upload rs [0 ..< ?n] e) = (True, [Reply MSG_ACK sq'], e2)" for sq'
    using assms(1) c by (simp add: dispatch_def get_be32) (simp add: be32_def ackIf_def)
  have ups: "[0 ..< ?n + 2] = 0 # map Suc [0 ..< ?n] @ [Suc ?n]"
  proof -
    have "[0 ..< ?n + 2] = [0 ..< Suc ?n] @ [Suc ?n]" by simp
    also have "[0 ..< Suc ?n] = 0 # map Suc [0 ..< ?n]"
      by (simp only: upt_conv_Cons zero_less_Suc map_Suc_upt)
    finally show ?thesis by simp
  qed
  have "(map (\<lambda>j. Reply MSG_ACK (sq + word_of_nat j)) [0 ..< ?n + 2], e2) =
      dispatch_all cb now sq (linux_upload rs) e"
    unfolding ups
    by (simp add: linux_upload_def beg its com dispatch_all_append comp_def add.assoc)
  then show ?thesis using a assms(5) by simp
qed


theorem link_upload_activates_rules_witness:
  "active_rules (snd (dispatch_all (engine_rpmsg_init True True True True) 0 40 (linux_upload [rule_heat]) engine_blank))
     = [rule_heat]"
proof -
  have "list_all wf_rule [rule_heat]"
    by (simp add: rule_heat_def wf_rule_def wf_cond_def wf_action_def list_all_iff)
  then show ?thesis
    using link_upload_activates_rules [of "engine_rpmsg_init True True True True" engine_blank "[rule_heat]",
        OF _ wf_engine_blank _ _ surjective_pairing]
    by (simp add: engine_rpmsg_init_def)
qed

end
