(* ===== verification/Ipc.thy ===== *)
theory Ipc
  imports RxRing EngineRpmsg
begin

text \<open>
  The communication task of the M4F (\<open>src/Gateway/Firmware/M4F/ipc_rpmsg_echo.c\<close>): the reliable
  sender with its table of unacknowledged messages, the dispatch of the messages from Linux, the
  drain of the engine's outbox, the periodic work and the loop, and beside it the engine task and the
  liveness monitor. RPMsg, the RTOS queues, the SPI task and the clock are outside: what is handed to
  them is an effect, what they answer (the status of a send, an item received from a queue, a clock
  reading) is an argument.
\<close>

record pending_ack =
  pa_in_use :: bool
  pa_seq :: u16
  pa_msg_type :: u8
  pa_retry_count :: u8
  pa_sent_at_us :: u64
  pa_payload_len :: u16
  pa_payload :: "u8 list"

record Comms =
  c_ring :: RxRing
  gTickCount :: u32
  gLastTickTime :: u64
  gLinuxEndpoint :: u16
  gTheirLastSeq :: u16
  gMySeq :: u16
  gPendingAcks :: "pending_ack list"
  gbShutdown :: bool
  gbShutdownRemotecoreID :: u8
  gCommsLive :: u32
  gCommsStage :: u8
  c_halted :: bool
  c_callbacks :: EngineCallbacks
  c_engine :: Engine

text \<open>
  \<open>RpSend\<close> is a call of \<open>RPMessage_send\<close> with the endpoint, the bytes and the status it returned;
  \<open>WakeEngine\<close> the sentinel posted to the engine task's queue; \<open>HardFault\<close> and \<open>HangForever\<close> end
  the core's work.
\<close>

datatype comms_effect =
    RpSend u16 "u8 list" bool
  | PostCmd NodeFrame
  | PostCtrl PendingCtrl
  | WakeEngine NodeFrame
  | HardFault
  | HangForever

definition MSG_MAX_TOTAL :: nat where "MSG_MAX_TOTAL = MAX_PAYLOAD_SIZE + MSG_OVERHEAD"

subsection \<open>Pending table\<close>

fun find_index :: "('a \<Rightarrow> bool) \<Rightarrow> 'a list \<Rightarrow> nat option" where
  "find_index P [] = None"
| "find_index P (x # xs) = (if P x then Some 0 else map_option Suc (find_index P xs))"

definition findFreePendingSlot :: "Comms \<Rightarrow> nat option" where
  "findFreePendingSlot c = find_index (\<lambda>pa. \<not> pa_in_use pa) (gPendingAcks c)"

definition findPendingBySeq :: "u16 \<Rightarrow> Comms \<Rightarrow> nat option" where
  "findPendingBySeq sq c = find_index (\<lambda>pa. pa_in_use pa \<and> pa_seq pa = sq) (gPendingAcks c)"

subsection \<open>Callbacks\<close>

definition linuxMsgCallback :: "u8 list \<Rightarrow> u16 \<Rightarrow> Comms \<Rightarrow> Comms" where
  "linuxMsgCallback data remoteEndPt c = (case ring_push data (c_ring c) of
     None \<Rightarrow> c
   | Some r \<Rightarrow> c\<lparr> c_ring := r, gLinuxEndpoint := remoteEndPt \<rparr>)"

definition ipc_rp_mbox_callback :: "u16 \<Rightarrow> bool \<Rightarrow> bool \<Rightarrow> Comms \<Rightarrow> Comms" where
  "ipc_rp_mbox_callback remoteCoreId is_rp_mbox is_shutdown c =
     (if is_rp_mbox then
        if is_shutdown then c\<lparr> gbShutdown := True, gbShutdownRemotecoreID := ucast remoteCoreId \<rparr> else c
      else c)"

subsection \<open>Sending\<close>

definition sendProtocolMsg ::
  "bool \<Rightarrow> u8 \<Rightarrow> u16 \<Rightarrow> u8 list option \<Rightarrow> u16 \<Rightarrow> Comms \<Rightarrow> bool \<times> comms_effect list" where
  "sendProtocolMsg st msg_type sq payload payload_len c =
     (if gLinuxEndpoint c = 0 then (False, [])
      else case protocol_encode (replicate MSG_MAX_TOTAL 0) msg_type sq payload payload_len of
        (enc_buf, enc_len) \<Rightarrow>
          if enc_len = 0 then (False, [])
          else (st, [RpSend (gLinuxEndpoint c) (take enc_len enc_buf) st]))"

definition sendAck :: "bool \<Rightarrow> u16 \<Rightarrow> Comms \<Rightarrow> comms_effect list" where
  "sendAck st sq c = snd (sendProtocolMsg st MSG_ACK sq None 0 c)"

definition sendReply :: "bool \<Rightarrow> u8 \<Rightarrow> u16 \<Rightarrow> Comms \<Rightarrow> comms_effect list" where
  "sendReply st ty sq c = snd (sendProtocolMsg st ty sq None 0 c)"

text \<open>The result code 0, -1 or -2, the state after it and the effects.\<close>

definition sendReliable ::
  "bool \<Rightarrow> u64 \<Rightarrow> u8 \<Rightarrow> u8 list \<Rightarrow> Comms \<Rightarrow> int \<times> Comms \<times> comms_effect list" where
  "sendReliable st now msg_type payload c =
     (if gLinuxEndpoint c = 0 then (-1, c, [])
      else if length payload > 128 then (-2, c, [])
      else case findFreePendingSlot c of
        None \<Rightarrow> (-1, c, [])
      | Some i \<Rightarrow>
          let s1 = gMySeq c + 1; sq = (if s1 = 0 then 1 else s1);
              pa = gPendingAcks c ! i;
              pa' = pa\<lparr> pa_in_use := True, pa_seq := sq, pa_msg_type := msg_type, pa_retry_count := 0,
                pa_sent_at_us := now, pa_payload_len := word_of_nat (length payload),
                pa_payload := blit (pa_payload pa) 0 payload \<rparr>;
              c1 = c\<lparr> gMySeq := sq, gPendingAcks := (gPendingAcks c)[i := pa'] \<rparr>
          in case sendProtocolMsg st msg_type sq (Some payload) (word_of_nat (length payload)) c1 of
               (ok, fx) \<Rightarrow>
                 if \<not> ok then (-2, c1\<lparr> gPendingAcks := (gPendingAcks c1)[i := pa'\<lparr> pa_in_use := False \<rparr>] \<rparr>, fx)
                 else (0, c1, fx))"

definition sendEvent :: "bool \<Rightarrow> u64 \<Rightarrow> u8 list \<Rightarrow> Comms \<Rightarrow> int \<times> Comms \<times> comms_effect list" where
  "sendEvent st now payload c = sendReliable st now MSG_EVENT payload c"

subsection \<open>The engine's effects\<close>

definition run_effect :: "bool \<Rightarrow> u64 \<Rightarrow> engine_effect \<Rightarrow> Comms \<Rightarrow> Comms \<times> comms_effect list" where
  "run_effect st now f c = (case f of
     Reply ty sq \<Rightarrow> (c, sendReply st ty sq c)
   | TxNode frame \<Rightarrow> (c, [PostCmd frame])
   | TxCtrl ctrl \<Rightarrow> (c, [PostCtrl ctrl])
   | TxEvent ty p \<Rightarrow> snd (sendReliable st now ty p c))"

fun run_effects :: "bool \<Rightarrow> u64 \<Rightarrow> engine_effect list \<Rightarrow> Comms \<Rightarrow> Comms \<times> comms_effect list" where
  "run_effects st now [] c = (c, [])"
| "run_effects st now (f # fs) c = (case run_effect st now f c of
     (c', fx) \<Rightarrow> (case run_effects st now fs c' of (c'', fx') \<Rightarrow> (c'', fx @ fx')))"

subsection \<open>Messages from Linux\<close>

definition ENGINE_NODEIN_TIME_RESYNC :: u8 where "ENGINE_NODEIN_TIME_RESYNC = 0xEE"

definition wake_frame :: NodeFrame where
  "wake_frame = \<lparr> nf_factory_id = replicate NODE_FACTORY_ID_LEN 0,
     nf_msg = msg_zero\<lparr> m_type := ENGINE_NODEIN_TIME_RESYNC \<rparr> \<rparr>"

definition hello_reply :: "u8 list" where
  "hello_reply = [0x4D, 0x34, 0x46, 0x20, 0x76, 0x31, 0x20, 0x72, 0x65, 0x61, 0x64, 0x79]"

definition control_types :: "u8 list" where
  "control_types = [MSG_RULE_BEGIN, MSG_RULE_ITEM, MSG_RULE_COMMIT, MSG_NODE_CMD, MSG_ARM_PENDING, MSG_TIME_SYNC]"

definition handleLinuxMessage ::
  "bool \<Rightarrow> u64 \<Rightarrow> u8 list \<Rightarrow> Comms \<Rightarrow> Comms \<times> comms_effect list" where
  "handleLinuxMessage st now rxData c = (case protocol_decode rxData of
     Inl err \<Rightarrow> (c, [])
   | Inr (msg_type, msg_seq, payload) \<Rightarrow>
       if msg_type = MSG_HELLO then
         let c1 = c\<lparr> gTheirLastSeq := 0, gMySeq := 0 \<rparr>
         in (c1, snd (sendProtocolMsg st MSG_HELLO_ACK msg_seq (Some hello_reply) 12 c1))
       else if msg_type = MSG_DATA then
         if gTheirLastSeq c \<noteq> 0 \<and> msg_seq \<le> gTheirLastSeq c then (c, sendAck st msg_seq c)
         else let c1 = c\<lparr> gTheirLastSeq := msg_seq \<rparr> in (c1, sendAck st msg_seq c1)
       else if msg_type = MSG_ACK then
         (case findPendingBySeq msg_seq c of
            Some i \<Rightarrow> (c\<lparr> gPendingAcks := (gPendingAcks c)[i := (gPendingAcks c ! i)\<lparr> pa_in_use := False \<rparr>] \<rparr>, [])
          | None \<Rightarrow> (c, []))
       else if msg_type = MSG_PING then (c, sendAck st msg_seq c)
       else if msg_type \<in> set control_types then
         (case engine_rpmsg_dispatch (c_callbacks c) now msg_type msg_seq payload (c_engine c) of
            (_, efx, e') \<Rightarrow>
              (case run_effects st now efx (c\<lparr> c_engine := e' \<rparr>) of
                 (c1, fx) \<Rightarrow> (c1, fx @ (if msg_type = MSG_TIME_SYNC then [WakeEngine wake_frame] else []))))
       else if msg_type = MSG_DEBUG_CRASH then (c\<lparr> c_halted := True \<rparr>, [HardFault])
       else if msg_type = MSG_DEBUG_HANG then (c\<lparr> c_halted := True \<rparr>, [HangForever])
       else (c, []))"

text \<open>The receive loop of one iteration; a core that crashed or hangs in a handler does not go on.\<close>

definition rx_step :: "bool \<Rightarrow> u64 \<Rightarrow> Comms \<Rightarrow> (Comms \<times> comms_effect list) option" where
  "rx_step st now c =
     (if c_halted c then None
      else case ring_peek (c_ring c) of
        None \<Rightarrow> None
      | Some d \<Rightarrow> (case handleLinuxMessage st now d c of
          (c1, fx) \<Rightarrow> Some (if c_halted c1 then c1 else c1\<lparr> c_ring := ring_advance (c_ring c1) \<rparr>, fx)))"


text \<open>The outcome of the \<open>k\<close>-th send of a phase and the clock as read for it.\<close>

type_synonym call_env = "nat \<Rightarrow> bool \<times> u64"

fun rx_drain :: "nat \<Rightarrow> call_env \<Rightarrow> Comms \<Rightarrow> Comms \<times> comms_effect list" where
  "rx_drain 0 env c = (c, [])"
| "rx_drain (Suc fuel) env c = (case rx_step (fst (env 0)) (snd (env 0)) c of
     None \<Rightarrow> (c, [])
   | Some (c1, fx) \<Rightarrow> (case rx_drain fuel (env \<circ> Suc) c1 of (c2, fx') \<Rightarrow> (c2, fx @ fx')))"

subsection \<open>The engine's outbox\<close>

datatype outbox_item =
    OUTBOX_RULE_FIRED NodeFrame u16 RuleAction
  | OUTBOX_TELEMETRY NodeFrame

definition engineActionSink :: "fired \<Rightarrow> outbox_item" where
  "engineActionSink f = (case f of (msg, ruleIndex, action) \<Rightarrow>
     OUTBOX_RULE_FIRED \<lparr> nf_factory_id = replicate NODE_FACTORY_ID_LEN 0, nf_msg = msg \<rparr> ruleIndex action)"

text \<open>One wake-up of the engine task: the frame it received or the timeout; the items it posts.\<close>

definition engineTask ::
  "NodeFrame option \<Rightarrow> u64 \<Rightarrow> (nat \<Rightarrow> nat \<Rightarrow> u64) \<Rightarrow> Engine \<Rightarrow> engine_fault + Engine \<times> outbox_item list" where
  "engineTask received now clk e = (case received of
     Some nodeMsg \<Rightarrow>
       if m_type (nf_msg nodeMsg) = ENGINE_NODEIN_TIME_RESYNC then Inr (e, [])
       else let e1 = snd (engine_update_node (Some (nf_msg nodeMsg)) e) in
         (case engine_evaluate ENGINE_EVAL_NODE now clk e1 of
            Inl err \<Rightarrow> Inl err
          | Inr (e2, fs) \<Rightarrow> Inr (e2, OUTBOX_TELEMETRY nodeMsg # map engineActionSink fs))
   | None \<Rightarrow> (case engine_evaluate ENGINE_EVAL_TIME now clk e of
       Inl err \<Rightarrow> Inl err | Inr (e2, fs) \<Rightarrow> Inr (e2, map engineActionSink fs)))"

fun drainEngineOutbox :: "call_env \<Rightarrow> outbox_item list \<Rightarrow> Comms \<Rightarrow> Comms \<times> comms_effect list" where
  "drainEngineOutbox env [] c = (c, [])"
| "drainEngineOutbox env (out # items) c =
     (case (case out of
          OUTBOX_RULE_FIRED frame ruleIndex action \<Rightarrow>
            (case run_effects (fst (env 0)) (snd (env 0))
                (engine_rpmsg_report_rule_fired (c_callbacks c) ruleIndex (Some action)) c of
               (c1, fx) \<Rightarrow> (c1, fx @ (if ra_nodeAddr action \<noteq> 0 then [PostCmd frame] else [])))
        | OUTBOX_TELEMETRY frame \<Rightarrow>
            run_effects (fst (env 0)) (snd (env 0))
              (engine_rpmsg_report_telemetry (c_callbacks c) (Some frame)) c) of
        (c1, fx) \<Rightarrow> (case drainEngineOutbox (env \<circ> Suc) items c1 of (c2, fx') \<Rightarrow> (c2, fx @ fx')))"

subsection \<open>Retries and periodic work\<close>

text \<open>One entry of the table: what becomes of it and whether it is sent again.\<close>

definition retry_entry :: "u64 \<Rightarrow> pending_ack \<Rightarrow> pending_ack \<times> bool" where
  "retry_entry now pa =
     (if \<not> pa_in_use pa then (pa, False)
      else if unat (now - pa_sent_at_us pa) < ACK_TIMEOUT_MS * 1000 then (pa, False)
      else if unat (pa_retry_count pa) \<ge> MAX_RETRIES then (pa\<lparr> pa_in_use := False \<rparr>, False)
      else (pa\<lparr> pa_retry_count := pa_retry_count pa + 1, pa_sent_at_us := now \<rparr>, True))"

fun retry_slots :: "u64 \<Rightarrow> (nat \<Rightarrow> bool) \<Rightarrow> Comms \<Rightarrow> nat \<Rightarrow> pending_ack list \<Rightarrow> pending_ack list \<times> comms_effect list" where
  "retry_slots now st c i [] = ([], [])"
| "retry_slots now st c i (pa # pas) = (case retry_entry now pa of
     (pa', again) \<Rightarrow> (case retry_slots now st c (Suc i) pas of
       (pas', fx) \<Rightarrow> (pa' # pas',
         (if again then snd (sendProtocolMsg (st i) (pa_msg_type pa') (pa_seq pa')
            (Some (pa_payload pa')) (pa_payload_len pa') c) else []) @ fx)))"

definition processEventRetries :: "u64 \<Rightarrow> (nat \<Rightarrow> bool) \<Rightarrow> Comms \<Rightarrow> Comms \<times> comms_effect list" where
  "processEventRetries now st c = (case retry_slots now st c 0 (gPendingAcks c) of
     (pas, fx) \<Rightarrow> (c\<lparr> gPendingAcks := pas \<rparr>, fx))"

definition doPeriodicTick :: "u64 \<Rightarrow> Comms \<Rightarrow> Comms" where
  "doPeriodicTick now c =
     (if unat (now - gLastTickTime c) \<ge> 1000000
      then c\<lparr> gTickCount := gTickCount c + 1, gLastTickTime := now \<rparr> else c)"

definition stack_hwm_words :: "u32 list \<Rightarrow> nat" where
  "stack_hwm_words base = length (takeWhile (\<lambda>w. w = 0xA5A5A5A5) base)"

subsection \<open>The loop\<close>

record CommsInput =
  in_rx :: call_env
  in_items :: "outbox_item list"
  in_outbox :: call_env
  in_tick_now :: u64
  in_retry_now :: u64
  in_retry_status :: "nat \<Rightarrow> bool"

definition comms_iteration :: "CommsInput \<Rightarrow> Comms \<Rightarrow> Comms \<times> comms_effect list" where
  "comms_iteration inp c =
     (let c0 = c\<lparr> gCommsLive := gCommsLive c + 1, gCommsStage := 1 \<rparr> in
      case rx_drain RX_RING_SLOTS (in_rx inp) c0 of (c1, fx1) \<Rightarrow>
      if c_halted c1 then (c1, fx1)
      else case drainEngineOutbox (in_outbox inp) (in_items inp) (c1\<lparr> gCommsStage := 2 \<rparr>) of (c2, fx2) \<Rightarrow>
        let c3 = doPeriodicTick (in_tick_now inp) (c2\<lparr> gCommsStage := 3 \<rparr>) in
        case processEventRetries (in_retry_now inp) (in_retry_status inp) (c3\<lparr> gCommsStage := 4 \<rparr>) of
          (c4, fx4) \<Rightarrow> (c4\<lparr> gCommsStage := 5 \<rparr>, fx1 @ fx2 @ fx4))"

text \<open>At start: engine and callbacks initialised, the ring empty; the rest is zeroed memory.\<close>

definition ipc_rpmsg_echo_init :: "u64 \<Rightarrow> Comms \<Rightarrow> Comms" where
  "ipc_rpmsg_echo_init now c = c\<lparr> c_ring := rx_init (c_ring c), c_engine := engine_init True True (c_engine c),
     c_callbacks := engine_rpmsg_init True True True True, gLastTickTime := now \<rparr>"

subsection \<open>Shutdown and the liveness monitor\<close>

datatype shutdown_action = StopSpi nat | NotifyShutdownAck u8 | HaltWfi

definition doShutdown :: "Comms \<Rightarrow> shutdown_action list" where
  "doShutdown c = [StopSpi 1000] @
     (if gbShutdownRemotecoreID c \<noteq> 0 then [NotifyShutdownAck (gbShutdownRemotecoreID c)] else []) @ [HaltWfi]"

definition COMMS_STALL_CHECKS :: nat where "COMMS_STALL_CHECKS = 3"

record Monitor =
  mon_lastLive :: u32
  mon_stalls :: nat

definition monitor_init :: Monitor where
  "monitor_init = \<lparr> mon_lastLive = 0, mon_stalls = 0 \<rparr>"

text \<open>One check: the monitor after it and whether it raises the alarm.\<close>

definition monitorTask :: "u32 \<Rightarrow> Monitor \<Rightarrow> Monitor \<times> bool" where
  "monitorTask live m =
     (if live = mon_lastLive m
      then (m\<lparr> mon_stalls := mon_stalls m + 1, mon_lastLive := live \<rparr>, mon_stalls m + 1 \<ge> COMMS_STALL_CHECKS)
      else (m\<lparr> mon_stalls := 0, mon_lastLive := live \<rparr>, False))"

end
