(* ===== verification/IpcSend.thy ===== *)
theory IpcSend
  imports Ipc
begin

text \<open>
  The communication task: what it puts on the wire, its answers to Linux and the accounting of
  unacknowledged messages.
\<close>

subsection \<open>Well-formed state\<close>

definition wf_pending :: "pending_ack \<Rightarrow> bool" where
  "wf_pending pa \<longleftrightarrow> length (pa_payload pa) = 128 \<and> unat (pa_payload_len pa) \<le> 128 \<and> unat (pa_retry_count pa) \<le> MAX_RETRIES"

definition wf_comms :: "Comms \<Rightarrow> bool" where
  "wf_comms c \<longleftrightarrow> ring_inv (c_ring c) \<and> length (gPendingAcks c) = MAX_PENDING_ACKS \<and>
     list_all wf_pending (gPendingAcks c) \<and> wf_engine (c_engine c)"

lemma find_index_Some:
  "find_index P xs = Some i \<Longrightarrow> i < length xs \<and> P (xs ! i) \<and> (\<forall>j < i. \<not> P (xs ! j))"
proof (induction xs arbitrary: i)
  case (Cons x xs)
  then show ?case by (auto simp: less_Suc_eq_0_disj split: if_splits option.splits)
qed simp

lemma find_index_None: "find_index P xs = None \<longleftrightarrow> (\<forall>x \<in> set xs. \<not> P x)"
  by (induction xs) auto

subsection \<open>The bytes on the wire\<close>

lemma encode_payload:
  "length p \<le> 480 \<Longrightarrow>
   protocol_encode (replicate MSG_MAX_TOTAL 0) ty sq (Some p) (word_of_nat (length p)) =
     (protocol_wire ty sq p @ replicate (480 - length p) 0, length p + 7)"
  using protocol_encode_wire [of "word_of_nat (length p)" "replicate MSG_MAX_TOTAL 0" p ty sq]
  by (simp add: word16_of_nat MSG_MAX_TOTAL_def protocol_sizes)

lemma encode_none: "protocol_encode buf ty sq None 0 = protocol_encode buf ty sq (Some []) 0"
  by (simp add: protocol_encode_def Let_def)

lemma send_payload:
  "gLinuxEndpoint c \<noteq> 0 \<Longrightarrow> length p \<le> 480 \<Longrightarrow>
   sendProtocolMsg st ty sq (Some p) (word_of_nat (length p)) c =
     (st, [RpSend (gLinuxEndpoint c) (protocol_wire ty sq p) st])"
  by (simp add: sendProtocolMsg_def encode_payload)

lemma send_prefix:
  assumes "gLinuxEndpoint c \<noteq> 0" "unat n \<le> 480" "unat n \<le> length p"
  shows "sendProtocolMsg st ty sq (Some p) n c =
     (st, [RpSend (gLinuxEndpoint c) (protocol_wire ty sq (take (unat n) p)) st])"
  using protocol_encode_wire [of n "replicate MSG_MAX_TOTAL 0" p ty sq] assms
  by (simp add: sendProtocolMsg_def MSG_MAX_TOTAL_def protocol_sizes)

lemma send_bare:
  "gLinuxEndpoint c \<noteq> 0 \<Longrightarrow>
   sendProtocolMsg st ty sq None 0 c = (st, [RpSend (gLinuxEndpoint c) (protocol_wire ty sq []) st])"
  using send_payload [of c "[]" st ty sq] by (simp add: sendProtocolMsg_def encode_none)

lemma send_no_endpoint: "gLinuxEndpoint c = 0 \<Longrightarrow> sendProtocolMsg st ty sq p n c = (False, [])"
  by (simp add: sendProtocolMsg_def)

text \<open>The messages Linux decodes from what was sent.\<close>

definition on_wire :: "comms_effect list \<Rightarrow> (decode_error + u8 \<times> u16 \<times> u8 list) list" where
  "on_wire fx = concat (map (\<lambda>f. case f of RpSend ep bs st \<Rightarrow> [protocol_decode bs] | _ \<Rightarrow> []) fx)"

lemma on_wire_simps [simp]:
  "on_wire [] = []" "on_wire (fx @ gx) = on_wire fx @ on_wire gx"
  "on_wire (f # fx) = (case f of RpSend ep bs st \<Rightarrow> [protocol_decode bs] | _ \<Rightarrow> []) @ on_wire fx"
  by (simp_all add: on_wire_def)

lemma on_wire_bare [simp]:
  "gLinuxEndpoint c \<noteq> 0 \<Longrightarrow> on_wire (sendAck st sq c) = [Inr (MSG_ACK, sq, [])]"
  "gLinuxEndpoint c \<noteq> 0 \<Longrightarrow> on_wire (sendReply st ty sq c) = [Inr (ty, sq, [])]"
  by (simp_all add: sendAck_def sendReply_def send_bare decode_wire)

subsection \<open>Answers\<close>

lemma run_effects_reply:
  assumes "pre = [] \<or> (\<exists>f. pre = [TxNode f]) \<or> (\<exists>k. pre = [TxCtrl k])"
  shows "fst (run_effects st now (pre @ [Reply r sq]) c) = c"
    and "gLinuxEndpoint c \<noteq> 0 \<Longrightarrow> on_wire (snd (run_effects st now (pre @ [Reply r sq]) c)) = [Inr (r, sq, [])]"
  using assms by (auto simp: run_effect_def)

lemma dispatch_ours:
  "t \<in> set control_types \<Longrightarrow> fst (engine_rpmsg_dispatch cb now t sq p e)"
  by (auto simp: control_types_def dispatch_def split: prod.split)

lemma hello_reply_length: "length hello_reply = 12"
  by (simp add: hello_reply_def)

text \<open>
  C24. The answer to each message from Linux, as the peer decodes it from the bytes sent: HELLO is answered
  with HELLO_ACK and the greeting, DATA (new or repeated) and PING with ACK, every control message with exactly
  one ACK or ERROR, all under the sequence number of the message; ACK and unknown types are not
  answered. A frame that does not decode has no effect at all. The answer to PING is the one \<open>protocol.h\<close> intends, which
  calls PONG deprecated; the table of \<open>PROTOCOL.md\<close> still has PING unacknowledged and PONG as its reply.
\<close>

theorem each_message_answered:
  assumes "gLinuxEndpoint c \<noteq> 0" and "g_reply (c_callbacks c)"
  shows "case protocol_decode rx of
      Inl err \<Rightarrow> handleLinuxMessage st now rx c = (c, [])
    | Inr (t, sq, p) \<Rightarrow>
        let sent = on_wire (snd (handleLinuxMessage st now rx c)) in
        if t = MSG_HELLO then sent = [Inr (MSG_HELLO_ACK, sq, hello_reply)]
        else if t \<in> {MSG_DATA, MSG_PING} then sent = [Inr (MSG_ACK, sq, [])]
        else if t \<in> set control_types then sent = [Inr (MSG_ACK, sq, [])] \<or> sent = [Inr (MSG_ERROR, sq, [])]
        else sent = []"
proof (cases "protocol_decode rx")
  case (Inr m)
  obtain t sq p where m: "m = (t, sq, p)" by (cases m)
  have hello: "on_wire (snd (sendProtocolMsg st MSG_HELLO_ACK sq (Some hello_reply) 12 c')) =
      [Inr (MSG_HELLO_ACK, sq, hello_reply)]" if "gLinuxEndpoint c' = gLinuxEndpoint c" for c'
    using send_payload [of c' hello_reply st MSG_HELLO_ACK sq] that assms(1)
    by (simp add: hello_reply_length decode_wire)
  show ?thesis
  proof (cases "t \<in> set control_types")
    case True
    obtain fx e' where d: "engine_rpmsg_dispatch (c_callbacks c) now t sq p (c_engine c) = (True, fx, e')"
      using dispatch_ours [OF True] by (metis prod.collapse)
    obtain r pre where r: "r \<in> {MSG_ACK, MSG_ERROR}" "fx = pre @ [Reply r sq]"
      and pre: "pre = [] \<or> (\<exists>f. pre = [TxNode f]) \<or> (\<exists>k. pre = [TxCtrl k])"
      using dispatch_shape [OF assms(2) d] by blast
    have "on_wire (snd (run_effects st now fx (c\<lparr> c_engine := e' \<rparr>))) = [Inr (r, sq, [])]"
      unfolding r(2) using assms(1) by (intro run_effects_reply(2) [OF pre]) simp
    then have "on_wire (snd (handleLinuxMessage st now rx c)) = [Inr (r, sq, [])]"
      using True Inr m d
      by (auto simp: handleLinuxMessage_def control_types_def split: prod.splits)
    moreover have "t \<noteq> MSG_HELLO" "t \<notin> {MSG_DATA, MSG_PING}" using True by (auto simp: control_types_def)
    ultimately show ?thesis using True Inr m r(1) by auto
  next
    case False
    then show ?thesis
      using Inr m assms(1) hello
      by (auto simp: handleLinuxMessage_def Let_def split: option.split)
  qed
qed (simp add: handleLinuxMessage_def)


text \<open>A connected communication task with empty tables.\<close>

definition comms_blank :: Comms where
  "comms_blank = \<lparr>
     c_ring = \<lparr> gRxRing = replicate 4 \<lparr> rs_data = replicate 256 0, rs_dataLen = 0 \<rparr>, gRxHead = 0, gRxTail = 0 \<rparr>,
     gTickCount = 0, gLastTickTime = 0, gLinuxEndpoint = 1024, gTheirLastSeq = 0, gMySeq = 0,
     gPendingAcks = replicate 8 \<lparr> pa_in_use = False, pa_seq = 0, pa_msg_type = 0, pa_retry_count = 0,
       pa_sent_at_us = 0, pa_payload_len = 0, pa_payload = replicate 128 0 \<rparr>,
     gbShutdown = False, gbShutdownRemotecoreID = 0, gCommsLive = 0, gCommsStage = 0, c_halted = False,
     c_callbacks = engine_rpmsg_init True True True True, c_engine = engine_blank \<rparr>"

lemma wf_comms_blank: "wf_comms comms_blank"
  by (simp add: wf_comms_def comms_blank_def ring_inv_def wf_pending_def MAX_PENDING_ACKS_def list_all_iff)

lemma comms_blank_simps [simp]:
  "gLinuxEndpoint comms_blank = 1024" "g_reply (c_callbacks comms_blank)" "c_engine comms_blank = engine_blank"
  "g_tx_event (c_callbacks comms_blank)"
  by (simp_all add: comms_blank_def engine_rpmsg_init_def)

theorem each_message_answered_witness:
  "on_wire (snd (handleLinuxMessage True 0 (protocol_wire MSG_PING 5 []) comms_blank)) = [Inr (MSG_ACK, 5, [])]"
  using each_message_answered [of comms_blank True 0 "protocol_wire MSG_PING 5 []"] by (simp add: decode_wire)

subsection \<open>Reliable messages\<close>

definition active_entries :: "Comms \<Rightarrow> pending_ack list" where
  "active_entries c = filter pa_in_use (gPendingAcks c)"

lemma filter_update_out:
  "i < length xs \<Longrightarrow> \<not> P (xs ! i) \<Longrightarrow> \<not> P y \<Longrightarrow> filter P (xs[i := y]) = filter P xs"
proof -
  assume i: "i < length xs" and P: "\<not> P (xs ! i)" "\<not> P y"
  have "xs[i := y] = take i xs @ y # drop (Suc i) xs" using i by (rule upd_conv_take_nth_drop)
  moreover have "filter P xs = filter P (take i xs @ xs ! i # drop (Suc i) xs)"
    using i by (simp only: id_take_nth_drop [symmetric])
  ultimately show ?thesis using P by simp
qed

lemma sendReliable_sends:
  assumes "gLinuxEndpoint c \<noteq> 0" and "findFreePendingSlot c = Some i" and "length p \<le> 128"
  shows "\<exists>sq c'. snd (sendReliable st now ty p c) = (c', [RpSend (gLinuxEndpoint c) (protocol_wire ty sq p) st])"
proof -
  have send: "sendProtocolMsg st ty sq (Some p) (word_of_nat (length p)) x =
      (st, [RpSend (gLinuxEndpoint c) (protocol_wire ty sq p) st])" if "gLinuxEndpoint x = gLinuxEndpoint c" for sq x
    using send_payload [of x p st ty sq] that assms(1,3) by simp
  show ?thesis
    using assms by (auto simp: sendReliable_def Let_def send)
qed

text \<open>
  A reliable message occupies exactly one slot: when the call succeeds, one free slot now holds the message
  under the fresh, non-zero sequence number, with no retry counted, every other slot is unchanged and exactly that
  message went out; when it fails (no endpoint, no slot, payload over 128 bytes, or the send failed) the messages that
  wait for an acknowledgement are unchanged, so no slot leaks.
\<close>

theorem reliable_send_occupies_one_slot:
  assumes "wf_comms c" and "sendReliable st now ty p c = (rc, c', fx)"
  shows "wf_comms c' \<and>
    (if rc = 0 then
       \<exists>i e. i < MAX_PENDING_ACKS \<and> \<not> pa_in_use (gPendingAcks c ! i) \<and> gPendingAcks c' = (gPendingAcks c)[i := e] \<and>
         pa_in_use e \<and> pa_seq e = gMySeq c' \<and> gMySeq c' \<noteq> 0 \<and> pa_msg_type e = ty \<and> pa_retry_count e = 0 \<and>
         take (unat (pa_payload_len e)) (pa_payload e) = p \<and> on_wire fx = [Inr (ty, gMySeq c', p)]
     else active_entries c' = active_entries c)"
proof (cases "gLinuxEndpoint c = 0 \<or> length p > 128 \<or> findFreePendingSlot c = None")
  case True
  then have "\<exists>k. k \<noteq> 0 \<and> sendReliable st now ty p c = (k, c, [])"
    by (elim disjE) (simp_all add: sendReliable_def)
  then show ?thesis using assms by auto
next
  case False
  then obtain i where i: "findFreePendingSlot c = Some i" and ep: "gLinuxEndpoint c \<noteq> 0" and len: "length p \<le> 128"
    by auto
  have free: "i < length (gPendingAcks c)" "\<not> pa_in_use (gPendingAcks c ! i)"
    using find_index_Some [OF i [unfolded findFreePendingSlot_def]] by auto
  have wfp: "length (pa_payload (gPendingAcks c ! i)) = 128" and eight: "length (gPendingAcks c) = 8"
    using assms(1) free by (auto simp: wf_comms_def wf_pending_def list_all_length MAX_PENDING_ACKS_def)
  define sq where "sq = (if gMySeq c + 1 = 0 then 1 else gMySeq c + 1)"
  define e where "e = (gPendingAcks c ! i)\<lparr> pa_in_use := True, pa_seq := sq, pa_msg_type := ty, pa_retry_count := 0,
    pa_sent_at_us := now, pa_payload_len := word_of_nat (length p),
    pa_payload := blit (pa_payload (gPendingAcks c ! i)) 0 p \<rparr>"
  define c1 where "c1 = c\<lparr> gMySeq := sq, gPendingAcks := (gPendingAcks c)[i := e] \<rparr>"
  have send: "sendProtocolMsg st ty sq (Some p) (word_of_nat (length p)) c1 = (st, [RpSend (gLinuxEndpoint c) (protocol_wire ty sq p) st])"
    using send_payload [of c1 p st ty sq] ep len by (simp add: c1_def)
  have res: "sendReliable st now ty p c =
      (if \<not> st then (-2, c1\<lparr> gPendingAcks := (gPendingAcks c)[i := e\<lparr> pa_in_use := False \<rparr>] \<rparr>,
          [RpSend (gLinuxEndpoint c) (protocol_wire ty sq p) st])
       else (0, c1, [RpSend (gLinuxEndpoint c) (protocol_wire ty sq p) st]))"
  proof -
    have *: "sendReliable st now ty p c = (case sendProtocolMsg st ty sq (Some p) (word_of_nat (length p)) c1 of
        (ok, fx) \<Rightarrow> if \<not> ok then (-2, c1\<lparr> gPendingAcks := (gPendingAcks c1)[i := e\<lparr> pa_in_use := False \<rparr>] \<rparr>, fx)
          else (0, c1, fx))"
      using ep len
      by (simp only: sendReliable_def i option.case Let_def c1_def e_def sq_def not_less [symmetric] if_False)
    show ?thesis unfolding * send by (simp add: c1_def)
  qed
  have sq: "sq \<noteq> 0" by (simp add: sq_def)
  have e: "pa_in_use e" "pa_seq e = sq" "pa_msg_type e = ty" "pa_retry_count e = 0"
    "take (unat (pa_payload_len e)) (pa_payload e) = p" "wf_pending e" "wf_pending (e\<lparr> pa_in_use := False \<rparr>)"
    using wfp len by (simp_all add: e_def word16_of_nat blit_def wf_pending_def)
  have upd: "list_all wf_pending ((gPendingAcks c)[i := x])" if "wf_pending x" for x
    using assms(1) that set_update_subset_insert [of "gPendingAcks c" i x] by (auto simp: wf_comms_def list_all_iff)
  show ?thesis
  proof (cases st)
    case True
    then have r: "rc = 0" "c' = c1" "fx = [RpSend (gLinuxEndpoint c) (protocol_wire ty sq p) st]"
      using assms(2) res by auto
    have "wf_comms c1" using assms(1) upd [OF e(6)] by (simp add: c1_def wf_comms_def)
    moreover have "on_wire fx = [Inr (ty, sq, p)]" using len by (simp add: r(3) decode_wire)
    ultimately show ?thesis using r free eight e sq by (auto simp: c1_def MAX_PENDING_ACKS_def)
  next
    case False
    then have r: "rc = -2" "c' = c1\<lparr> gPendingAcks := (gPendingAcks c)[i := e\<lparr> pa_in_use := False \<rparr>] \<rparr>"
      using assms(2) res by auto
    have "wf_comms c'" using assms(1) upd [OF e(7)] by (simp add: r(2) c1_def wf_comms_def)
    then show ?thesis using r free by (simp add: active_entries_def filter_update_out)
  qed
qed


theorem reliable_send_occupies_one_slot_witness:
  "\<exists>c' fx. sendReliable True 5 MSG_EVENT [1, 2, 3] comms_blank = (0, c', fx) \<and>
     on_wire fx = [Inr (MSG_EVENT, gMySeq c', [1, 2, 3])]"
proof -
  have free: "findFreePendingSlot comms_blank = Some 0"
    by (simp add: findFreePendingSlot_def comms_blank_def numeral_eq_Suc)
  obtain rc c' fx where r: "sendReliable True 5 MSG_EVENT [1, 2, 3] comms_blank = (rc, c', fx)"
    by (metis prod_cases3)
  have "sendProtocolMsg True ty sq (Some [1, 2, 3]) 3 x =
      (True, [RpSend (gLinuxEndpoint x) (protocol_wire ty sq [1, 2, 3]) True])" if "gLinuxEndpoint x \<noteq> 0" for ty sq x
    using send_payload [of x "[1, 2, 3]" True ty sq] that by simp
  then have "rc = 0" using r by (simp add: sendReliable_def Let_def free)
  then show ?thesis using reliable_send_occupies_one_slot [OF wf_comms_blank r] r by auto
qed

end
