(* ===== verification/IpcLoop.thy ===== *)
theory IpcLoop
  imports IpcSend "HOL-Library.Multiset"
begin

text \<open>
  Retransmission, the receive loop, the liveness monitor and the path of a node's report to Linux.
\<close>

subsection \<open>Retransmission\<close>

lemma MAX_RETRIES_3 [simp]: "MAX_RETRIES = 3"
  by (simp add: MAX_RETRIES_def)

lemma unat_Suc_small: "unat (w :: u8) < 255 \<Longrightarrow> unat (w + 1) = Suc (unat w)"
  by (simp add: unat_word_ariths)

lemma retry_entry_wf: "wf_pending pa \<Longrightarrow> wf_pending (fst (retry_entry now pa))"
  by (auto simp: retry_entry_def wf_pending_def unat_Suc_small)

lemma retry_slots_pas: "fst (retry_slots now st c i pas) = map (fst \<circ> retry_entry now) pas"
  by (induction pas arbitrary: i) (simp_all add: case_prod_unfold)

text \<open>The retry pass at a sequence of times.\<close>

fun retry_run :: "(u64 \<times> (nat \<Rightarrow> bool)) list \<Rightarrow> Comms \<Rightarrow> Comms \<times> comms_effect list" where
  "retry_run [] c = (c, [])"
| "retry_run ((now, st) # ts) c = (case processEventRetries now st c of
     (c1, fx) \<Rightarrow> (case retry_run ts c1 of (c2, fx') \<Rightarrow> (c2, fx @ fx')))"

lemma processEventRetries_pas:
  "gPendingAcks (fst (processEventRetries now st c)) = map (fst \<circ> retry_entry now) (gPendingAcks c)"
  using retry_slots_pas [of now st c 0 "gPendingAcks c"]
  by (simp add: processEventRetries_def case_prod_unfold)

text \<open>
  What one slot of the table sends in these passes, with the times: the pass sends for each slot in turn.
\<close>

definition slot_pass :: "u64 \<Rightarrow> bool \<Rightarrow> Comms \<Rightarrow> pending_ack \<Rightarrow> comms_effect list" where
  "slot_pass now st c pa = (case retry_entry now pa of (pa', again) \<Rightarrow>
     if again then snd (sendProtocolMsg st (pa_msg_type pa') (pa_seq pa') (Some (pa_payload pa')) (pa_payload_len pa') c)
     else [])"

fun slot_sends :: "(u64 \<times> (nat \<Rightarrow> bool)) list \<Rightarrow> nat \<Rightarrow> Comms \<Rightarrow> (u64 \<times> comms_effect) list" where
  "slot_sends [] i c = []"
| "slot_sends ((now, st) # ps) i c =
     map (Pair now) (slot_pass now (st i) c (gPendingAcks c ! i)) @ slot_sends ps i (fst (processEventRetries now st c))"

lemma slots_shift:
  "concat (map f [k..<k + Suc n]) = f k @ concat (map (\<lambda>i. f (Suc i)) [k..<k + n])"
proof -
  have "[k..<k + Suc n] = k # map Suc [k..<k + n]" by (simp add: upt_conv_Cons map_Suc_upt)
  then show ?thesis by (simp add: comp_def del: upt_Suc)
qed

lemma retry_slots_slots:
  "snd (retry_slots now st c k pas) = concat (map (\<lambda>i. slot_pass now (st (k + i)) c (pas ! i)) [0..<length pas])"
proof (induction pas arbitrary: k)
  case (Cons pa pas)
  show ?case
    using Cons.IH [of "Suc k"] slots_shift [of "\<lambda>i. slot_pass now (st (k + i)) c ((pa # pas) ! i)" 0 "length pas"]
    by (simp add: slot_pass_def case_prod_unfold del: upt_Suc)
qed simp

lemma pass_slots:
  "mset (snd (processEventRetries now st c)) =
     (\<Sum>i<length (gPendingAcks c). mset (slot_pass now (st i) c (gPendingAcks c ! i)))"
proof -
  have "mset (concat (map f [0..<n])) = (\<Sum>i<n. mset (f i))" for f :: "nat \<Rightarrow> comms_effect list" and n
    by (induction n) auto
  then show ?thesis
    using retry_slots_slots [of now st c 0 "gPendingAcks c"] by (simp add: processEventRetries_def case_prod_unfold)
qed

lemma pass_kept [simp]:
  "gLinuxEndpoint (fst (processEventRetries now st c)) = gLinuxEndpoint c"
  "length (gPendingAcks (fst (processEventRetries now st c))) = length (gPendingAcks c)"
  "i < length (gPendingAcks c) \<Longrightarrow>
     gPendingAcks (fst (processEventRetries now st c)) ! i = fst (retry_entry now (gPendingAcks c ! i))"
  by (simp_all add: processEventRetries_pas) (simp add: processEventRetries_def case_prod_unfold)

lemma run_slots:
  "mset (snd (retry_run ps c)) = (\<Sum>i<length (gPendingAcks c). mset (map snd (slot_sends ps i c)))"
proof (induction ps c rule: retry_run.induct)
  case (2 now st ps c)
  show ?case
    using 2 [of "fst (processEventRetries now st c)" "snd (processEventRetries now st c)"]
    by (simp add: case_prod_unfold pass_slots sum.distrib comp_def)
qed simp

text \<open>A pass over one entry, by its age and count.\<close>

lemma slot_pass_cases:
  assumes "wf_pending pa" and "gLinuxEndpoint c \<noteq> 0"
  shows "slot_pass now st c pa = (if pa_in_use pa \<and> 1000000 \<le> unat (now - pa_sent_at_us pa) \<and> unat (pa_retry_count pa) < 3
      then [RpSend (gLinuxEndpoint c) (protocol_wire (pa_msg_type pa) (pa_seq pa)
        (take (unat (pa_payload_len pa)) (pa_payload pa))) st] else [])"
  using assms send_prefix [of c "pa_payload_len pa" "pa_payload pa" st "pa_msg_type pa" "pa_seq pa"]
  by (auto simp: slot_pass_def retry_entry_def wf_pending_def ACK_TIMEOUT_MS_def)

lemma retry_entry_cases:
  assumes "wf_pending pa"
  shows "\<not> pa_in_use pa \<Longrightarrow> fst (retry_entry now pa) = pa"
    and "pa_in_use pa \<Longrightarrow> unat (now - pa_sent_at_us pa) < 1000000 \<Longrightarrow> fst (retry_entry now pa) = pa"
    and "pa_in_use pa \<Longrightarrow> 1000000 \<le> unat (now - pa_sent_at_us pa) \<Longrightarrow> unat (pa_retry_count pa) = 3 \<Longrightarrow>
      \<not> pa_in_use (fst (retry_entry now pa))"
    and "pa_in_use pa \<Longrightarrow> 1000000 \<le> unat (now - pa_sent_at_us pa) \<Longrightarrow> unat (pa_retry_count pa) < 3 \<Longrightarrow>
      pa_in_use (fst (retry_entry now pa)) \<and> pa_sent_at_us (fst (retry_entry now pa)) = now \<and>
      unat (pa_retry_count (fst (retry_entry now pa))) = Suc (unat (pa_retry_count pa))"
  using assms by (auto simp: retry_entry_def wf_pending_def ACK_TIMEOUT_MS_def unat_Suc_small)

lemma retry_entry_message:
  "pa_msg_type (fst (retry_entry now pa)) = pa_msg_type pa \<and> pa_seq (fst (retry_entry now pa)) = pa_seq pa \<and>
     pa_payload (fst (retry_entry now pa)) = pa_payload pa \<and> pa_payload_len (fst (retry_entry now pa)) = pa_payload_len pa"
  by (simp add: retry_entry_def)

text \<open>Times, each at least the acknowledgement timeout after the one before, in the arithmetic of the clock.\<close>

fun spaced :: "u64 \<Rightarrow> u64 list \<Rightarrow> bool" where
  "spaced t [] \<longleftrightarrow> True"
| "spaced t (u # us) \<longleftrightarrow> 1000000 \<le> unat (u - t) \<and> spaced u us"

text \<open>Passes in the order of time with no gap longer than \<open>g\<close>.\<close>

fun paced :: "nat \<Rightarrow> nat \<Rightarrow> nat list \<Rightarrow> bool" where
  "paced g t [] \<longleftrightarrow> True"
| "paced g t (u # us) \<longleftrightarrow> t \<le> u \<and> u \<le> t + g \<and> paced g u us"

lemma free_slot_silent:
  assumes "i < length (gPendingAcks c)" and "\<not> pa_in_use (gPendingAcks c ! i)"
  shows "slot_sends ps i c = [] \<and> \<not> pa_in_use (gPendingAcks (fst (retry_run ps c)) ! i)"
  using assms
proof (induction ps i c rule: slot_sends.induct)
  case (2 now st ps i c)
  have "retry_entry now (gPendingAcks c ! i) = (gPendingAcks c ! i, False)" using 2(3) by (simp add: retry_entry_def)
  then show ?case using 2 by (simp add: slot_pass_def case_prod_unfold)
qed simp

lemma slot_safe:
  assumes "i < length (gPendingAcks c)" and "wf_pending (gPendingAcks c ! i)" and "gLinuxEndpoint c \<noteq> 0"
    and "pa_in_use (gPendingAcks c ! i)"
  defines "pa \<equiv> gPendingAcks c ! i"
  shows "(\<forall>f\<in>set (map snd (slot_sends ps i c)). \<exists>st. f = RpSend (gLinuxEndpoint c)
      (protocol_wire (pa_msg_type pa) (pa_seq pa) (take (unat (pa_payload_len pa)) (pa_payload pa))) st) \<and>
    length (slot_sends ps i c) + unat (pa_retry_count pa) \<le> 3 \<and> spaced (pa_sent_at_us pa) (map fst (slot_sends ps i c))"
  unfolding pa_def using assms(1-4)
proof (induction ps i c rule: slot_sends.induct)
  case (1 i c)
  then show ?case by (simp add: wf_pending_def)
next
  case (2 now st ps i c)
  let ?pa = "gPendingAcks c ! i" and ?c = "fst (processEventRetries now st c)"
  let ?pa' = "fst (retry_entry now ?pa)"
  have at: "gPendingAcks ?c ! i = ?pa'" using 2(2) by simp
  note msg = retry_entry_message [of now ?pa]
  consider (young) "unat (now - pa_sent_at_us ?pa) < 1000000"
    | (last) "1000000 \<le> unat (now - pa_sent_at_us ?pa)" "unat (pa_retry_count ?pa) = 3"
    | (again) "1000000 \<le> unat (now - pa_sent_at_us ?pa)" "unat (pa_retry_count ?pa) < 3"
    using 2(3) by (fastforce simp: wf_pending_def)
  then show ?case
  proof cases
    case young
    then have "?pa' = ?pa" using retry_entry_cases(2) [OF 2(3,5)] by simp
    then show ?thesis using 2 at young by (simp add: slot_pass_cases)
  next
    case last
    then have "\<not> pa_in_use ?pa'" using retry_entry_cases(3) [OF 2(3,5)] by simp
    then have "slot_sends ps i ?c = []" using free_slot_silent [of i ?c ps] 2(2) at by simp
    then show ?thesis using 2(3,4) last by (simp add: slot_pass_cases)
  next
    case again
    then have p: "pa_in_use ?pa'" "pa_sent_at_us ?pa' = now" "unat (pa_retry_count ?pa') = Suc (unat (pa_retry_count ?pa))"
      using retry_entry_cases(4) [OF 2(3,5)] by simp_all
    have "wf_pending ?pa'" using 2(3) by (rule retry_entry_wf)
    then show ?thesis using 2 at p again msg by (simp add: slot_pass_cases)
  qed
qed

lemma slot_ends:
  assumes "i < length (gPendingAcks c)" and "wf_pending (gPendingAcks c ! i)" and "gLinuxEndpoint c \<noteq> 0"
    and "pa_in_use (gPendingAcks c ! i)"
    and "unat (pa_sent_at_us (gPendingAcks c ! i)) \<le> cur" and "cur < unat (pa_sent_at_us (gPendingAcks c ! i)) + 1000000"
    and "paced g cur (map (\<lambda>p. unat (fst p)) ps)"
    and "unat (pa_sent_at_us (gPendingAcks c ! i)) + (4 - unat (pa_retry_count (gPendingAcks c ! i))) * (1000000 + g)
      \<le> last (cur # map (\<lambda>p. unat (fst p)) ps)"
  shows "\<not> pa_in_use (gPendingAcks (fst (retry_run ps c)) ! i) \<and>
    length (slot_sends ps i c) + unat (pa_retry_count (gPendingAcks c ! i)) = 3"
  using assms
proof (induction ps i c arbitrary: cur rule: slot_sends.induct)
  case (1 i c)
  have "1 \<le> 4 - unat (pa_retry_count (gPendingAcks c ! i))" using 1(2) unfolding wf_pending_def MAX_RETRIES_3 by linarith
  then have le: "1 * (1000000 + g) \<le> (4 - unat (pa_retry_count (gPendingAcks c ! i))) * (1000000 + g)"
    by (rule mult_le_mono1)
  define m where "m = (4 - unat (pa_retry_count (gPendingAcks c ! i))) * (1000000 + g)"
  have "unat (pa_sent_at_us (gPendingAcks c ! i)) + m \<le> cur" using 1(8) by (simp add: m_def)
  moreover have "False" if "s + m \<le> t" "t < s + 1000000" "1 * (1000000 + g) \<le> m" for s t :: nat using that by simp
  ultimately have False using 1(6) le unfolding m_def [symmetric] by blast
  then show ?case ..
next
  case (2 now st ps i c)
  let ?pa = "gPendingAcks c ! i" and ?c = "fst (processEventRetries now st c)"
  let ?pa' = "fst (retry_entry now ?pa)"
  have at: "gPendingAcks ?c ! i = ?pa'" using 2(2) by simp
  have step: "cur \<le> unat now" "unat now \<le> cur + g" "paced g (unat now) (map (\<lambda>p. unat (fst p)) ps)"
    using 2(8) by (simp_all add: comp_def)
  have diff: "unat (now - pa_sent_at_us ?pa) = unat now - unat (pa_sent_at_us ?pa)"
    using step(1) 2(6) by (simp add: unat_sub word_le_nat_alt)
  have run: "fst (retry_run ((now, st) # ps) c) = fst (retry_run ps ?c)" by (simp add: case_prod_unfold)
  have lst: "unat (pa_sent_at_us ?pa) + (4 - unat (pa_retry_count ?pa)) * (1000000 + g) \<le> last (unat now # map (\<lambda>p. unat (fst p)) ps)"
    using 2(9) by simp
  have w: "wf_pending ?pa'" using 2(3) by (rule retry_entry_wf)
  consider (young) "unat now < unat (pa_sent_at_us ?pa) + 1000000"
    | (last) "unat (pa_sent_at_us ?pa) + 1000000 \<le> unat now" "unat (pa_retry_count ?pa) = 3"
    | (again) "unat (pa_sent_at_us ?pa) + 1000000 \<le> unat now" "unat (pa_retry_count ?pa) < 3"
    using 2(3) by (fastforce simp: wf_pending_def)
  then show ?case
  proof cases
    case young
    then have age: "unat (now - pa_sent_at_us ?pa) < 1000000" using diff step(1) 2(6) by simp
    then have same: "?pa' = ?pa" using retry_entry_cases(2) [OF 2(3,5)] by simp
    have "\<not> pa_in_use (gPendingAcks (fst (retry_run ps ?c)) ! i) \<and>
        length (slot_sends ps i ?c) + unat (pa_retry_count ?pa) = 3"
      using "2.IH" [of "unat now"] 2(2-6) step(1,3) young lst same at by simp
    then show ?thesis using run age 2(3,4) by (simp add: slot_pass_cases)
  next
    case last
    then have age: "1000000 \<le> unat (now - pa_sent_at_us ?pa)" using diff by simp
    then have "\<not> pa_in_use ?pa'" using retry_entry_cases(3) [OF 2(3,5)] last(2) by simp
    then show ?thesis using free_slot_silent [of i ?c ps] 2(2-4) at run age last(2) by (simp add: slot_pass_cases)
  next
    case again
    then have age: "1000000 \<le> unat (now - pa_sent_at_us ?pa)" using diff by simp
    then have p: "pa_in_use ?pa'" "pa_sent_at_us ?pa' = now" "unat (pa_retry_count ?pa') = Suc (unat (pa_retry_count ?pa))"
      using retry_entry_cases(4) [OF 2(3,5)] again(2) by simp_all
    have "unat now + (3 - unat (pa_retry_count ?pa)) * (1000000 + g) \<le>
        unat (pa_sent_at_us ?pa) + (4 - unat (pa_retry_count ?pa)) * (1000000 + g)"
    proof -
      have "4 - unat (pa_retry_count ?pa) = Suc (3 - unat (pa_retry_count ?pa))" using again(2) by simp
      then show ?thesis using step(2) 2(7) by simp
    qed
    then have "unat now + (4 - Suc (unat (pa_retry_count ?pa))) * (1000000 + g) \<le> last (unat now # map (\<lambda>p. unat (fst p)) ps)"
      using lst by simp
    then have "\<not> pa_in_use (gPendingAcks (fst (retry_run ps ?c)) ! i) \<and>
        length (slot_sends ps i ?c) + unat (pa_retry_count ?pa') = 3"
      using "2.IH" [of "unat now"] 2(2,4) step(3) at p w by simp
    then show ?thesis using run age again(2) p 2(3,4,5) by (simp add: slot_pass_cases)
  qed
qed

text \<open>
  C25. Retransmission is bounded, spaced and ends. Whenever the retry pass runs, and however often, what it sends is what
  the slots of the table send; a slot that waits for an acknowledgement sends again only its own message, at most three
  times less those it has had, and each time at least the acknowledgement timeout after the time before; a free slot
  sends nothing. When the passes follow one another without a gap longer than \<open>g\<close>, an unacknowledged slot has had all
  three and is free again after at most four times the timeout and the gap.
\<close>

theorem retransmission_bounded_and_ends:
  assumes "gLinuxEndpoint c \<noteq> 0" and "list_all wf_pending (gPendingAcks c)"
  shows "mset (snd (retry_run ps c)) = (\<Sum>i<length (gPendingAcks c). mset (map snd (slot_sends ps i c))) \<and>
    (\<forall>i<length (gPendingAcks c).
      let pa = gPendingAcks c ! i; sends = slot_sends ps i c; sent = unat (pa_sent_at_us pa);
          n = (if pa_in_use pa then MAX_RETRIES - unat (pa_retry_count pa) else 0) in
      (\<forall>f\<in>set (map snd sends). \<exists>st. f = RpSend (gLinuxEndpoint c)
        (protocol_wire (pa_msg_type pa) (pa_seq pa) (take (unat (pa_payload_len pa)) (pa_payload pa))) st) \<and>
      length sends \<le> n \<and> spaced (pa_sent_at_us pa) (map fst sends) \<and>
      (paced g sent (map (\<lambda>p. unat (fst p)) ps) \<and> sent + (n + 1) * (1000000 + g) \<le> last (sent # map (\<lambda>p. unat (fst p)) ps) \<longrightarrow>
        length sends = n \<and> \<not> pa_in_use (gPendingAcks (fst (retry_run ps c)) ! i)))"
proof (intro conjI allI impI run_slots)
  fix i assume i: "i < length (gPendingAcks c)"
  let ?pa = "gPendingAcks c ! i"
  have wf: "wf_pending ?pa" using assms(2) i by (simp add: list_all_length)
  then have n: "3 - unat (pa_retry_count ?pa) + 1 = 4 - unat (pa_retry_count ?pa)" unfolding wf_pending_def MAX_RETRIES_3 by linarith
  show "let pa = gPendingAcks c ! i; sends = slot_sends ps i c; sent = unat (pa_sent_at_us pa);
          n = (if pa_in_use pa then MAX_RETRIES - unat (pa_retry_count pa) else 0) in
      (\<forall>f\<in>set (map snd sends). \<exists>st. f = RpSend (gLinuxEndpoint c)
        (protocol_wire (pa_msg_type pa) (pa_seq pa) (take (unat (pa_payload_len pa)) (pa_payload pa))) st) \<and>
      length sends \<le> n \<and> spaced (pa_sent_at_us pa) (map fst sends) \<and>
      (paced g sent (map (\<lambda>p. unat (fst p)) ps) \<and> sent + (n + 1) * (1000000 + g) \<le> last (sent # map (\<lambda>p. unat (fst p)) ps) \<longrightarrow>
        length sends = n \<and> \<not> pa_in_use (gPendingAcks (fst (retry_run ps c)) ! i))"
  proof (cases "pa_in_use ?pa")
    case True
    note safe = slot_safe [OF i wf assms(1) True, of ps]
    have "length (slot_sends ps i c) = 3 - unat (pa_retry_count ?pa) \<and>
        \<not> pa_in_use (gPendingAcks (fst (retry_run ps c)) ! i)"
      if "paced g (unat (pa_sent_at_us ?pa)) (map (\<lambda>p. unat (fst p)) ps)"
        "unat (pa_sent_at_us ?pa) + (4 - unat (pa_retry_count ?pa)) * (1000000 + g)
          \<le> last (unat (pa_sent_at_us ?pa) # map (\<lambda>p. unat (fst p)) ps)"
    proof -
      note e = slot_ends [OF i wf assms(1) True _ _ that]
      then show ?thesis by simp linarith
    qed
    moreover have "length (slot_sends ps i c) \<le> 3 - unat (pa_retry_count ?pa)" using safe by linarith
    ultimately show ?thesis using safe unfolding Let_def MAX_RETRIES_3 if_P [OF True] n by blast
  next
    case False
    then show ?thesis using free_slot_silent [OF i False, of ps] by simp
  qed
qed

text \<open>Eight messages sent at time 0, none acknowledged, and a pass every quarter of a second.\<close>

definition waiting_entry :: pending_ack where
  "waiting_entry = \<lparr> pa_in_use = True, pa_seq = 1, pa_msg_type = MSG_EVENT, pa_retry_count = 0,
     pa_sent_at_us = 0, pa_payload_len = 1, pa_payload = replicate 128 0 \<rparr>"

definition quarter_passes :: "(u64 \<times> (nat \<Rightarrow> bool)) list" where
  "quarter_passes = map (\<lambda>k. (word_of_nat (250000 * k), \<lambda>_. True)) [1..<21]"

theorem retransmission_bounded_and_ends_witness:
  "length (slot_sends quarter_passes 7 (comms_blank\<lparr> gLinuxEndpoint := 14, gPendingAcks := replicate 8 waiting_entry \<rparr>)) = 3 \<and>
   \<not> pa_in_use (gPendingAcks (fst (retry_run quarter_passes
     (comms_blank\<lparr> gLinuxEndpoint := 14, gPendingAcks := replicate 8 waiting_entry \<rparr>))) ! 7)"
proof -
  let ?c = "comms_blank\<lparr> gLinuxEndpoint := 14, gPendingAcks := replicate 8 waiting_entry \<rparr>"
  have wf: "list_all wf_pending (gPendingAcks ?c)" by (simp add: wf_pending_def waiting_entry_def list_all_iff)
  have p: "map (\<lambda>p. unat (fst p)) quarter_passes = [250000, 500000, 750000, 1000000, 1250000, 1500000, 1750000, 2000000,
      2250000, 2500000, 2750000, 3000000, 3250000, 3500000, 3750000, 4000000, 4250000, 4500000, 4750000, 5000000]"
    by (simp add: quarter_passes_def upt_rec)
  have at: "gPendingAcks ?c ! 7 = waiting_entry" by simp
  show ?thesis
    using retransmission_bounded_and_ends [OF _ wf, of quarter_passes 250000, THEN conjunct2, THEN spec [of _ 7]]
    unfolding Let_def at p by (simp add: waiting_entry_def)
qed

subsection \<open>The receive loop\<close>

text \<open>The messages handled one after another, without the ring.\<close>

fun handle_all :: "call_env \<Rightarrow> u8 list list \<Rightarrow> Comms \<Rightarrow> Comms \<times> comms_effect list" where
  "handle_all env [] c = (c, [])"
| "handle_all env (d # ds) c = (case handleLinuxMessage (fst (env 0)) (snd (env 0)) d c of
     (c1, fx) \<Rightarrow> if c_halted c1 then (c1, fx)
       else (case handle_all (env \<circ> Suc) ds c1 of (c2, fx') \<Rightarrow> (c2, fx @ fx')))"

lemma sends_ignore_ring [simp]:
  "sendProtocolMsg st ty sq p n (c\<lparr> c_ring := r \<rparr>) = sendProtocolMsg st ty sq p n c"
  "sendAck st sq (c\<lparr> c_ring := r \<rparr>) = sendAck st sq c"
  "sendReply st ty sq (c\<lparr> c_ring := r \<rparr>) = sendReply st ty sq c"
  "sendAck st sq (c\<lparr> gTheirLastSeq := s \<rparr>) = sendAck st sq c"
  "sendProtocolMsg st ty sq p n (c\<lparr> gTheirLastSeq := s \<rparr>) = sendProtocolMsg st ty sq p n c"
  "sendProtocolMsg st ty sq p n (c\<lparr> gMySeq := s \<rparr>) = sendProtocolMsg st ty sq p n c"
  "findPendingBySeq sq (c\<lparr> c_ring := r \<rparr>) = findPendingBySeq sq c"
  "findFreePendingSlot (c\<lparr> c_ring := r \<rparr>) = findFreePendingSlot c"
  by (simp_all add: sendProtocolMsg_def sendAck_def sendReply_def findPendingBySeq_def findFreePendingSlot_def
      split: prod.split)

lemma run_effects_ignore_ring:
  assumes "pre = [] \<or> (\<exists>f. pre = [TxNode f]) \<or> (\<exists>k. pre = [TxCtrl k])"
  shows "run_effects st now (pre @ [Reply t sq]) (c\<lparr> c_ring := r \<rparr>) =
    (c\<lparr> c_ring := r \<rparr>, snd (run_effects st now (pre @ [Reply t sq]) c))"
  using assms by (auto simp: run_effect_def)

lemma handle_ignores_ring:
  assumes "g_reply (c_callbacks c)"
  shows "handleLinuxMessage st now d (c\<lparr> c_ring := r \<rparr>) =
    (case handleLinuxMessage st now d c of (c1, fx) \<Rightarrow> (c1\<lparr> c_ring := r \<rparr>, fx))"
    and "c_ring (fst (handleLinuxMessage st now d c)) = c_ring c"
    and "c_callbacks (fst (handleLinuxMessage st now d c)) = c_callbacks c"
proof -
  have "handleLinuxMessage st now d (c\<lparr> c_ring := r \<rparr>) =
      (case handleLinuxMessage st now d c of (c1, fx) \<Rightarrow> (c1\<lparr> c_ring := r \<rparr>, fx)) \<and>
      c_ring (fst (handleLinuxMessage st now d c)) = c_ring c \<and>
      c_callbacks (fst (handleLinuxMessage st now d c)) = c_callbacks c"
  proof (cases "protocol_decode d")
    case (Inr m)
    obtain t sq p where m: "m = (t, sq, p)" by (cases m)
    show ?thesis
    proof (cases "t \<in> set control_types")
      case True
      obtain fx e' where dis: "engine_rpmsg_dispatch (c_callbacks c) now t sq p (c_engine c) = (True, fx, e')"
        using dispatch_ours [OF True] by (metis prod.collapse)
      obtain q pre where q: "fx = pre @ [Reply q sq]"
        and pre: "pre = [] \<or> (\<exists>f. pre = [TxNode f]) \<or> (\<exists>k. pre = [TxCtrl k])"
        using dispatch_shape [OF assms dis] by blast
      obtain gx where gx: "run_effects st now fx (c\<lparr> c_engine := e' \<rparr>) = (c\<lparr> c_engine := e' \<rparr>, gx)"
        "run_effects st now fx (c\<lparr> c_engine := e', c_ring := r \<rparr>) = (c\<lparr> c_engine := e', c_ring := r \<rparr>, gx)"
        using run_effects_ignore_ring [OF pre, where st = st and now = now and t = q and sq = sq and r = r and c = "c\<lparr> c_engine := e' \<rparr>"]
          run_effects_reply(1) [OF pre, where st = st and now = now and r = q and sq = sq and c = "c\<lparr> c_engine := e' \<rparr>"] unfolding q
        by (metis prod.collapse)
      have sw: "c\<lparr> c_ring := r, c_engine := e' \<rparr> = c\<lparr> c_engine := e', c_ring := r \<rparr>" by simp
      have "t \<notin> {MSG_HELLO, MSG_DATA, MSG_ACK, MSG_PING}" using True by (auto simp: control_types_def)
      then show ?thesis using True Inr m dis gx by (simp add: handleLinuxMessage_def sw)
    next
      case False
      then show ?thesis
        using Inr m by (auto simp: handleLinuxMessage_def Let_def split: option.split)
    qed
  qed (simp add: handleLinuxMessage_def)
  then show "handleLinuxMessage st now d (c\<lparr> c_ring := r \<rparr>) =
      (case handleLinuxMessage st now d c of (c1, fx) \<Rightarrow> (c1\<lparr> c_ring := r \<rparr>, fx))"
    "c_ring (fst (handleLinuxMessage st now d c)) = c_ring c"
    "c_callbacks (fst (handleLinuxMessage st now d c)) = c_callbacks c" by blast+
qed


lemma ring_peek_items: "ring_inv r \<Longrightarrow> ring_peek r = (case ring_items r of [] \<Rightarrow> None | d # ds \<Rightarrow> Some d)"
  using rx_ring.pop_None_iff [of r] rx_ring.pop_first [of r]
  by (cases "ring_items r") (auto simp: ring_pop_def split: option.splits)

lemma ring_advance_items:
  "ring_inv r \<Longrightarrow> ring_items r = d # ds \<Longrightarrow> ring_items (ring_advance r) = ds \<and> ring_inv (ring_advance r)"
  using rx_ring.pop_first [of r d ds] by (auto simp: ring_pop_def split: option.splits)

lemma handle_all_ignores_ring:
  assumes "g_reply (c_callbacks x)"
  shows "handle_all e ds (x\<lparr> c_ring := q \<rparr>) = (case handle_all e ds x of (y, gx) \<Rightarrow> (y\<lparr> c_ring := q \<rparr>, gx))"
  using assms
proof (induction ds arbitrary: e x)
  case (Cons d ds)
  obtain y gx where y: "handleLinuxMessage (fst (e 0)) (snd (e 0)) d x = (y, gx)" by fastforce
  have "c_callbacks y = c_callbacks x"
    using handle_ignores_ring(3) [OF Cons.prems, of "fst (e 0)" "snd (e 0)" d] y by simp
  moreover have "handleLinuxMessage (fst (e 0)) (snd (e 0)) d (x\<lparr> c_ring := q \<rparr>) = (y\<lparr> c_ring := q \<rparr>, gx)"
    using handle_ignores_ring(1) [OF Cons.prems, of "fst (e 0)" "snd (e 0)" d q] y by simp
  ultimately show ?case using Cons y by (simp add: case_prod_unfold)
qed simp

lemma rx_drain_handle_all:
  assumes "ring_inv (c_ring c)" and "g_reply (c_callbacks c)" and "\<not> c_halted c"
    and "ring_count (c_ring c) < fuel"
  shows "case handle_all env (ring_items (c_ring c)) c of (c1, fx) \<Rightarrow>
    (\<exists>r. rx_drain fuel env c = (c1\<lparr> c_ring := r \<rparr>, fx) \<and> ring_inv r \<and> (\<not> c_halted c1 \<longrightarrow> ring_items r = []))"
  using assms
proof (induction fuel arbitrary: env c)
  case (Suc fuel)
  show ?case
  proof (cases "ring_items (c_ring c)")
    case Nil
    then show ?thesis
      using Suc.prems ring_peek_items [of "c_ring c"]
      by (auto simp: rx_step_def intro!: exI [of _ "c_ring c"])
  next
    case (Cons d ds)
    obtain c1 fx where h: "handleLinuxMessage (fst (env 0)) (snd (env 0)) d c = (c1, fx)" by fastforce
    have fr: "c_ring c1 = c_ring c" "c_callbacks c1 = c_callbacks c"
      using handle_ignores_ring(2,3) [OF Suc.prems(2), of "fst (env 0)" "snd (env 0)" d] h by simp_all
    have step: "rx_step (fst (env 0)) (snd (env 0)) c =
        Some (if c_halted c1 then c1 else c1\<lparr> c_ring := ring_advance (c_ring c1) \<rparr>, fx)"
      using Suc.prems(1,3) Cons h by (simp add: rx_step_def ring_peek_items)
    show ?thesis
    proof (cases "c_halted c1")
      case True
      have "rx_step st now c1 = None" for st now using True by (simp add: rx_step_def)
      then have "rx_drain fuel env' c1 = (c1, [])" for env' by (cases fuel) simp_all
      then show ?thesis using True Cons h step Suc.prems(1) fr by (auto intro!: exI [of _ "c_ring c"])
    next
      case False
      let ?r = "ring_advance (c_ring c)"
      have adv: "ring_items ?r = ds" "ring_inv ?r" using ring_advance_items [OF Suc.prems(1) Cons] by simp_all
      let ?c = "c1\<lparr> c_ring := ?r \<rparr>"
      have lt: "ring_count (c_ring ?c) < fuel"
        using Suc.prems(4) Cons adv(1) length_ring_items [of "c_ring c"] length_ring_items [of ?r] by simp
      have ih: "case handle_all (env \<circ> Suc) ds ?c of (c2, gx) \<Rightarrow>
          \<exists>r. rx_drain fuel (env \<circ> Suc) ?c = (c2\<lparr> c_ring := r \<rparr>, gx) \<and> ring_inv r \<and> (\<not> c_halted c2 \<longrightarrow> ring_items r = [])"
        using Suc.IH [of ?c "env \<circ> Suc"] adv lt False fr Suc.prems(2) by (simp add: comp_def)
      obtain c2 gx where c2: "handle_all (env \<circ> Suc) ds c1 = (c2, gx)" by fastforce
      then have "handle_all (env \<circ> Suc) ds ?c = (c2\<lparr> c_ring := ?r \<rparr>, gx)"
        using handle_all_ignores_ring [of c1 "env \<circ> Suc" ds ?r] fr Suc.prems(2) by simp
      then show ?thesis using ih c2 Cons h step False fr by auto
    qed
  qed
qed simp

lemma callbacks_push_all:
  assumes "ring_inv (c_ring c)" and "ring_count (c_ring c) + length ds \<le> 3" and "ds \<noteq> [] \<or> gLinuxEndpoint c = ep"
  shows "fold (\<lambda>d. linuxMsgCallback d ep) ds c = c\<lparr> c_ring := rx_ring.push_all ds (c_ring c), gLinuxEndpoint := ep \<rparr>"
  using assms
proof (induction ds arbitrary: c)
  case (Cons d ds)
  obtain r where r: "ring_push d (c_ring c) = Some r" "ring_items r = ring_items (c_ring c) @ [rx_clip d]" "ring_inv r"
    using rx_ring.push_room [OF Cons.prems(1), of d] Cons.prems(2) by auto
  then have "ring_count r = Suc (ring_count (c_ring c))"
    by (metis length_append_singleton length_ring_items)
  then show ?case
    using Cons.IH [of "c\<lparr> c_ring := r, gLinuxEndpoint := ep \<rparr>"] Cons.prems(2) r
    by (simp add: linuxMsgCallback_def)
qed simp

text \<open>
  C26. Bursts are served completely: when up to three messages arrive at an empty ring before the loop runs, one
  pass of the receive loop handles all of them, in the order of arrival, each exactly as if it had come alone (cut to
  255 bytes), answers to the endpoint they came from, and leaves the ring empty, unless a debug message
  stopped the core.
\<close>

theorem burst_served_in_order:
  assumes "ring_inv (c_ring c)" and "ring_items (c_ring c) = []" and "ds \<noteq> []" and "length ds \<le> 3"
    and "g_reply (c_callbacks c)" and "\<not> c_halted c"
    and "handle_all env (map rx_clip ds) (c\<lparr> gLinuxEndpoint := ep \<rparr>) = (c1, fx)"
  shows "\<exists>q. rx_drain RX_RING_SLOTS env (fold (\<lambda>d. linuxMsgCallback d ep) ds c) = (c1\<lparr> c_ring := q \<rparr>, fx) \<and>
    (\<not> c_halted c1 \<longrightarrow> ring_items q = [])"
proof -
  let ?p = "rx_ring.push_all ds (c_ring c)"
  let ?c = "c\<lparr> c_ring := ?p, gLinuxEndpoint := ep \<rparr>"
  have fold: "fold (\<lambda>d. linuxMsgCallback d ep) ds c = ?c"
    using callbacks_push_all [of c ds ep] assms(1-4) by (simp add: ring_items_Nil)
  have p: "ring_inv ?p" "ring_items ?p = map rx_clip ds"
    using rx_ring.push_all_items [OF assms(1), of ds] assms(2,4) by (simp_all add: ring_items_Nil)
  obtain c2 gx where h: "handle_all env (ring_items (c_ring ?c)) ?c = (c2, gx)" by fastforce
  then obtain q where q: "rx_drain 4 env ?c = (c2\<lparr> c_ring := q \<rparr>, gx)" "\<not> c_halted c2 \<longrightarrow> ring_items q = []"
    using rx_drain_handle_all [of ?c 4 env] p(1) assms(5,6) count_bound [OF p(1)] by auto
  have sw: "?c = c\<lparr> gLinuxEndpoint := ep, c_ring := ?p \<rparr>" by simp
  have "handle_all env (map rx_clip ds) (c\<lparr> gLinuxEndpoint := ep, c_ring := ?p \<rparr>) = (c2, gx)"
    using h p(2) by (simp add: sw)
  then have "c2 = c1\<lparr> c_ring := ?p \<rparr> \<and> gx = fx"
    using handle_all_ignores_ring [of "c\<lparr> gLinuxEndpoint := ep \<rparr>" env "map rx_clip ds" ?p] assms(5,7) by simp
  then show ?thesis using q by (auto simp: fold)
qed

theorem burst_served_in_order_witness:
  "\<exists>c. on_wire (snd (rx_drain RX_RING_SLOTS (\<lambda>_. (True, 0))
     (fold (\<lambda>d. linuxMsgCallback d 1024) [protocol_wire MSG_PING 5 [], protocol_wire MSG_PING 6 []] c)))
     = [Inr (MSG_ACK, 5, []), Inr (MSG_ACK, 6, [])]"
proof -
  let ?ds = "[protocol_wire MSG_PING 5 [], protocol_wire MSG_PING 6 []]"
  have clip: "map rx_clip ?ds = ?ds" by (simp add: rx_clip_def)
  have ping: "handleLinuxMessage True 0 (protocol_wire MSG_PING sq []) comms_blank = (comms_blank, sendAck True sq comms_blank)" for sq
    by (simp add: handleLinuxMessage_def decode_wire)
  have ep: "comms_blank\<lparr> gLinuxEndpoint := 1024 \<rparr> = comms_blank" by (simp add: comms_blank_def)
  have h: "handle_all (\<lambda>_. (True, 0)) (map rx_clip ?ds) (comms_blank\<lparr> gLinuxEndpoint := 1024 \<rparr>)
      = (comms_blank, sendAck True 5 comms_blank @ sendAck True 6 comms_blank)"
    unfolding clip ep by (simp add: ping comp_def) (simp add: comms_blank_def)
  have st: "ring_inv (c_ring comms_blank)" "ring_items (c_ring comms_blank) = []" "\<not> c_halted comms_blank"
    using wf_comms_blank by (simp_all add: wf_comms_def ring_items_Nil ring_count_def) (simp_all add: comms_blank_def)
  show ?thesis
    using burst_served_in_order [OF st(1,2) _ _ _ st(3) h] by (intro exI [of _ comms_blank]) fastforce
qed

subsection \<open>The liveness monitor\<close>

definition monitor_run :: "u32 list \<Rightarrow> Monitor \<Rightarrow> Monitor" where
  "monitor_run xs m = fold (\<lambda>x m. fst (monitorTask x m)) xs m"

text \<open>
  The liveness alarm is exact: a check raises it if and only if the counter of the communication loop has the same
  value in this and the three preceding checks, that is, stood still for at least six seconds.
\<close>

theorem monitor_alarm_exact:
  "snd (monitorTask d (monitor_run (xs @ [a, b, c]) monitor_init)) \<longleftrightarrow> a = b \<and> b = c \<and> c = d"
proof -
  define m where "m = monitor_run (xs @ [a]) monitor_init"
  have m: "mon_lastLive m = a"
    by (simp add: m_def monitor_run_def monitorTask_def)
  have "monitor_run (xs @ [a, b, c]) monitor_init = fst (monitorTask c (fst (monitorTask b m)))"
    by (simp add: m_def monitor_run_def)
  then show ?thesis using m by (auto simp: monitorTask_def COMMS_STALL_CHECKS_def)
qed

subsection \<open>From a node's report to Linux\<close>

text \<open>
  Every report of a node reaches Linux unchanged: a frame the engine task receives, of whatever type (the wake-up sentinel
  apart), is posted for telemetry before any rule it fires, and when the communication task, connected and with a free
  slot, drains it, the first message on the wire decodes to \<open>MSG_NODE_TELEMETRY\<close> with exactly the 52 bytes of the
  frame, identity included.
\<close>

theorem report_reaches_linux:
  assumes "m_type (nf_msg frame) \<noteq> ENGINE_NODEIN_TIME_RESYNC" and "wf_frame frame"
    and "engineTask (Some frame) now clk e = Inr (e', items)"
    and "gLinuxEndpoint c \<noteq> 0" and "g_tx_event (c_callbacks c)" and "findFreePendingSlot c = Some i"
    and "drainEngineOutbox env items c = (c', fx)"
  shows "\<exists>sq rest. on_wire fx = Inr (MSG_NODE_TELEMETRY, sq, frame_bytes frame) # rest"
proof -
  obtain fs where items: "items = OUTBOX_TELEMETRY frame # fs"
    using assms(1,3) by (auto simp: engineTask_def Let_def split: sum.splits)
  let ?st = "fst (env 0)" and ?now = "snd (env 0)"
  have len: "length (frame_bytes frame) = 52" using assms(2) by simp
  obtain sq c1 where s: "snd (sendReliable ?st ?now MSG_NODE_TELEMETRY (frame_bytes frame) c) =
      (c1, [RpSend (gLinuxEndpoint c) (protocol_wire MSG_NODE_TELEMETRY sq (frame_bytes frame)) ?st])"
    using sendReliable_sends [OF assms(4,6), of "frame_bytes frame" ?st ?now MSG_NODE_TELEMETRY] len by auto
  have "fx = RpSend (gLinuxEndpoint c) (protocol_wire MSG_NODE_TELEMETRY sq (frame_bytes frame)) ?st #
      snd (drainEngineOutbox (env \<circ> Suc) fs c1)"
    using assms(5,7) s
    by (simp add: items engine_rpmsg_report_telemetry_def run_effect_def case_prod_unfold)
  then show ?thesis using len by (simp add: decode_wire)
qed


theorem report_reaches_linux_witness:
  "\<exists>e' items sq rest.
     engineTask (Some \<lparr> nf_factory_id = [1, 2, 3, 4, 5, 6, 7, 8], nf_msg = th_report \<rparr>) 0 (\<lambda>_ _. 0) engine_blank = Inr (e', items) \<and>
     on_wire (snd (drainEngineOutbox (\<lambda>_. (True, 0)) items comms_blank)) =
       Inr (MSG_NODE_TELEMETRY, sq, [1, 2, 3, 4, 5, 6, 7, 8] @ msg_bytes th_report) # rest"
proof -
  let ?f = "\<lparr> nf_factory_id = [1, 2, 3, 4, 5, 6, 7, 8], nf_msg = th_report \<rparr>"
  have t: "m_type th_report \<noteq> ENGINE_NODEIN_TIME_RESYNC" "wf_msg th_report"
    by (simp_all add: th_report_def ENGINE_NODEIN_TIME_RESYNC_def wf_msg_def msg_zero_def put_payload_def)
  then have wf: "wf_frame ?f" by (simp add: wf_frame_def)
  have "active_rules engine_blank = []" by (simp add: active_rules_def engine_blank_def)
  then obtain e' items where e: "engineTask (Some ?f) 0 (\<lambda>_ _. 0) engine_blank = Inr (e', items)"
    using t(1) by (simp add: engineTask_def Let_def evaluate_pass repeated_minute_def)
  obtain c' fx where d: "drainEngineOutbox (\<lambda>_. (True, 0)) items comms_blank = (c', fx)" by fastforce
  have free: "findFreePendingSlot comms_blank = Some 0"
    by (simp add: findFreePendingSlot_def comms_blank_def numeral_eq_Suc)
  have "\<exists>sq rest. on_wire fx = Inr (MSG_NODE_TELEMETRY, sq, frame_bytes ?f) # rest"
    using report_reaches_linux [OF _ wf e _ _ free d] t(1) by simp
  then show ?thesis using e d by (auto simp: frame_bytes_def)
qed

subsection \<open>Limits of the protocol state\<close>

text \<open>A HELLO restarts the numbering but not the table: a new message can carry the number of an old one, and its
  acknowledgement then frees the old entry.\<close>

lemma ack_frees_stale_entry:
  "let c = comms_blank\<lparr> gPendingAcks := waiting_entry # tl (gPendingAcks comms_blank) \<rparr>;
       c' = fst (snd (sendReliable True 0 MSG_EVENT [] c))
   in gMySeq c' = 1 \<and> pa_seq (gPendingAcks c' ! 1) = 1 \<and> pa_in_use (gPendingAcks c' ! 1) \<and> findPendingBySeq 1 c' = Some 0"
proof -
  let ?c = "comms_blank\<lparr> gPendingAcks := waiting_entry # tl (gPendingAcks comms_blank) \<rparr>"
  have free: "findFreePendingSlot ?c = Some 1"
    by (simp add: findFreePendingSlot_def comms_blank_def numeral_eq_Suc waiting_entry_def)
  have send: "sendProtocolMsg True ty sq (Some []) 0 x = (True, [RpSend (gLinuxEndpoint x) (protocol_wire ty sq []) True])"
    if "gLinuxEndpoint x \<noteq> 0" for ty sq x
    using send_payload [of x "[]" True ty sq] that by simp
  have my: "gMySeq comms_blank = 0" by (simp add: comms_blank_def)
  have we: "pa_in_use waiting_entry" "pa_seq waiting_entry = 1" by (simp_all add: waiting_entry_def)
  have len: "length (tl (gPendingAcks comms_blank)) = 7" by (simp add: comms_blank_def)
  show ?thesis
    using len we by (simp add: sendReliable_def Let_def free send my findPendingBySeq_def nth_Cons')
qed

text \<open>Once DATA number 65535 was received, every further DATA message is taken for a repetition until the next HELLO.\<close>

lemma data_after_last_number_is_duplicate:
  assumes "gTheirLastSeq c = 65535" and "protocol_decode d = Inr (MSG_DATA, sq, p)"
  shows "handleLinuxMessage st now d c = (c, sendAck st sq c)"
proof -
  have "unat sq < 2 ^ LENGTH(16)" by (rule unsigned_less)
  then have "sq \<le> 65535" by (simp add: word_le_nat_alt)
  then show ?thesis using assms by (simp add: handleLinuxMessage_def)
qed

text \<open>A valid frame of more than 255 bytes is cut by the ring and then refused.\<close>

lemma long_frame_refused:
  assumes "protocol_decode d = Inr m" and "255 < length d"
  shows "protocol_decode (rx_clip d) = Inl BadLength"
proof -
  obtain t sq p where m: "m = (t, sq, p)" by (cases m)
  have p: "length p \<le> 480" "d = protocol_wire t sq p" using decode_InrD assms(1) m by auto
  define r where "r = take 250 (p @ be16 (protocol_crc16 (protocol_body t sq p)))"
  have "248 < length p" using p assms(2) by simp
  then have r: "length r = 250" by (cases "length p \<le> 250") (auto simp: r_def min_def)
  have "rx_clip d = t # (be16 sq ! 0) # (be16 sq ! 1) # (be16 (word_of_nat (length p)) ! 0) #
      (be16 (word_of_nat (length p)) ! 1) # r"
    by (simp add: p(2) rx_clip_def protocol_wire_def protocol_body_def be16_list numeral_eq_Suc r_def)
  moreover have "crc16_pair (be16 (word_of_nat (length p)) ! 0) (be16 (word_of_nat (length p)) ! 1) = word_of_nat (length p)"
    by (simp add: be16_list pair_be16)
  ultimately show ?thesis
    using r p assms(2) by (simp add: decode_five word16_of_nat_unat Let_def)
qed

end
