(* ===== verification/SpiFrame.thy ===== *)
theory SpiFrame
  imports NodeProtocol
begin

text \<open>
  The 128-byte frame of the SPI link between the M4F and the CC1310 (\<open>src/Shared/Protocol/spi_frame.h\<close>)
  with the helpers each side has for it: the master's (\<open>src/Gateway/Firmware/M4F/spi_master.c\<close>) and the
  slave's (\<open>src/Gateway/Firmware/CC1310/spi_slave_task.c\<close>), which computes the checksum with a routine of its own.
\<close>

definition SPI_FRAME_SIZE :: nat where [simp]: "SPI_FRAME_SIZE = 128"
definition SPI_FRAME_PAYLOAD_MAX :: nat where [simp]: "SPI_FRAME_PAYLOAD_MAX = 118"
definition SPI_FRAME_CRC_OFFSET :: nat where [simp]: "SPI_FRAME_CRC_OFFSET = 126"

abbreviation (input) "SPI_FRAME_MAGIC \<equiv> 0xA5 :: u8"
abbreviation (input) "SPI_FRAME_NOP \<equiv> 0x00 :: u8"
abbreviation (input) "SPI_FRAME_NODE_DATA \<equiv> 0x01 :: u8"
abbreviation (input) "SPI_FRAME_NODE_CMD \<equiv> 0x02 :: u8"
abbreviation (input) "SPI_FRAME_CTRL \<equiv> 0x04 :: u8"

record SpiFrame =
  sf_magic :: u8
  sf_type :: u8
  sf_seq :: u8
  sf_pending :: u8
  sf_len :: u8
  sf_flags :: u8
  sf_reserved0 :: u8
  sf_reserved1 :: u8
  sf_payload :: "u8 list"
  sf_crc_be :: "u8 list"

definition wf_spi :: "SpiFrame \<Rightarrow> bool" where
  "wf_spi f \<longleftrightarrow> length (sf_payload f) = SPI_FRAME_PAYLOAD_MAX \<and> length (sf_crc_be f) = 2"

definition spi_head :: "SpiFrame \<Rightarrow> u8 list" where
  "spi_head f = [sf_magic f, sf_type f, sf_seq f, sf_pending f, sf_len f, sf_flags f, sf_reserved0 f, sf_reserved1 f]
     @ sf_payload f"

definition spi_bytes :: "SpiFrame \<Rightarrow> u8 list" where
  "spi_bytes f = spi_head f @ sf_crc_be f"

definition spi_of_bytes :: "u8 list \<Rightarrow> SpiFrame" where
  "spi_of_bytes bs = \<lparr> sf_magic = bs ! 0, sf_type = bs ! 1, sf_seq = bs ! 2, sf_pending = bs ! 3, sf_len = bs ! 4,
     sf_flags = bs ! 5, sf_reserved0 = bs ! 6, sf_reserved1 = bs ! 7,
     sf_payload = take SPI_FRAME_PAYLOAD_MAX (drop 8 bs), sf_crc_be = take 2 (drop SPI_FRAME_CRC_OFFSET bs) \<rparr>"

definition spi_zero :: SpiFrame where
  "spi_zero = \<lparr> sf_magic = 0, sf_type = 0, sf_seq = 0, sf_pending = 0, sf_len = 0, sf_flags = 0, sf_reserved0 = 0,
     sf_reserved1 = 0, sf_payload = replicate SPI_FRAME_PAYLOAD_MAX 0, sf_crc_be = [0, 0] \<rparr>"

subsection \<open>The master's helpers\<close>

definition frame_finalize :: "SpiFrame \<Rightarrow> SpiFrame" where
  "frame_finalize f =
     (let f1 = f\<lparr> sf_magic := SPI_FRAME_MAGIC \<rparr>;
          c = protocol_crc16 (take SPI_FRAME_CRC_OFFSET (spi_bytes f1))
      in f1\<lparr> sf_crc_be := [ucast (drop_bit 8 c), ucast (c AND 0xFF)] \<rparr>)"

definition frame_valid :: "SpiFrame \<Rightarrow> bool" where
  "frame_valid f =
     (if sf_magic f \<noteq> SPI_FRAME_MAGIC then False
      else let c = protocol_crc16 (take SPI_FRAME_CRC_OFFSET (spi_bytes f)) in
        sf_crc_be f ! 0 = ucast (drop_bit 8 c) \<and> sf_crc_be f ! 1 = ucast (c AND 0xFF))"

definition frame_make_nop :: SpiFrame where
  "frame_make_nop = frame_finalize (spi_zero\<lparr> sf_type := SPI_FRAME_NOP \<rparr>)"

definition frame_make_node_cmd :: "NodeFrame \<Rightarrow> u8 \<Rightarrow> u8 \<Rightarrow> SpiFrame" where
  "frame_make_node_cmd nf sq pending =
     (let len = min NODEFRAME_SIZE SPI_FRAME_PAYLOAD_MAX in
      frame_finalize (spi_zero\<lparr> sf_type := SPI_FRAME_NODE_CMD, sf_seq := sq, sf_pending := pending,
        sf_len := word_of_nat len, sf_payload := blit (sf_payload spi_zero) 0 (take len (frame_bytes nf)) \<rparr>))"

definition frame_make_ctrl :: "PendingCtrl \<Rightarrow> u8 \<Rightarrow> u8 \<Rightarrow> SpiFrame" where
  "frame_make_ctrl pc sq pending =
     frame_finalize (spi_zero\<lparr> sf_type := SPI_FRAME_CTRL, sf_seq := sq, sf_pending := pending,
       sf_len := word_of_nat PENDINGCTRL_SIZE, sf_payload := blit (sf_payload spi_zero) 0 (ctrl_bytes pc) \<rparr>)"

text \<open>The frame the master hands to the engine, if it is valid node data.\<close>

definition route_rx_frame :: "SpiFrame \<Rightarrow> NodeFrame option" where
  "route_rx_frame f =
     (if \<not> frame_valid f then None
      else if sf_type f = SPI_FRAME_NODE_DATA then
        (if unat (sf_len f) \<ge> NODEFRAME_SIZE then Some (frame_of_bytes (take NODEFRAME_SIZE (sf_payload f)))
         else if unat (sf_len f) \<ge> MESSAGE_SIZE then
           Some \<lparr> nf_factory_id = replicate NODE_FACTORY_ID_LEN 0, nf_msg = msg_of_bytes (take MESSAGE_SIZE (sf_payload f)) \<rparr>
         else None)
      else None)"

subsection \<open>The slave's helpers\<close>

definition spi_crc16_step :: "u16 \<Rightarrow> u8 \<Rightarrow> u16" where
  "spi_crc16_step crc b =
     ((\<lambda>c. if c AND 0x8000 \<noteq> 0 then push_bit 1 c XOR 0x1021 else push_bit 1 c) ^^ 8) (crc XOR push_bit 8 (ucast b))"

definition spi_crc16 :: "u8 list \<Rightarrow> u16" where
  "spi_crc16 data = foldl spi_crc16_step 0xFFFF data"

definition slave_frame_finalize :: "SpiFrame \<Rightarrow> SpiFrame" where
  "slave_frame_finalize f =
     (let f1 = f\<lparr> sf_magic := SPI_FRAME_MAGIC \<rparr>; c = spi_crc16 (take SPI_FRAME_CRC_OFFSET (spi_bytes f1))
      in f1\<lparr> sf_crc_be := [ucast (drop_bit 8 c), ucast (c AND 0xFF)] \<rparr>)"

definition slave_frame_valid :: "SpiFrame \<Rightarrow> bool" where
  "slave_frame_valid f =
     (if sf_magic f \<noteq> SPI_FRAME_MAGIC then False
      else let c = spi_crc16 (take SPI_FRAME_CRC_OFFSET (spi_bytes f)) in
        sf_crc_be f ! 0 = ucast (drop_bit 8 c) \<and> sf_crc_be f ! 1 = ucast (c AND 0xFF))"

definition slave_frame_make_nop :: SpiFrame where
  "slave_frame_make_nop = slave_frame_finalize (spi_zero\<lparr> sf_type := SPI_FRAME_NOP \<rparr>)"

definition frame_make_node_data :: "NodeFrame \<Rightarrow> u8 \<Rightarrow> u8 \<Rightarrow> SpiFrame" where
  "frame_make_node_data nf sq pending =
     (let len = min NODEFRAME_SIZE SPI_FRAME_PAYLOAD_MAX in
      slave_frame_finalize (spi_zero\<lparr> sf_type := SPI_FRAME_NODE_DATA, sf_seq := sq, sf_pending := pending,
        sf_len := word_of_nat len, sf_payload := blit (sf_payload spi_zero) 0 (take len (frame_bytes nf)) \<rparr>))"

lemma spi_crc16_same: "spi_crc16 = protocol_crc16"
proof -
  have "(\<lambda>c. if c AND 0x8000 \<noteq> 0 then push_bit 1 c XOR 0x1021 else push_bit 1 c) = crc16_bit"
    by (simp add: fun_eq_iff crc16_bit_def)
  then have eq: "spi_crc16_step = crc16_step"
    by (intro ext) (simp only: spi_crc16_step_def crc16_step_def)
  show ?thesis by (intro ext) (simp only: spi_crc16_def protocol_crc16_def eq)
qed

lemma slave_same: "slave_frame_finalize = frame_finalize" "slave_frame_valid = frame_valid"
  by (simp_all add: fun_eq_iff slave_frame_finalize_def frame_finalize_def slave_frame_valid_def frame_valid_def
      spi_crc16_same)

subsection \<open>Validity as residue\<close>

lemma length_spi_head: "wf_spi f \<Longrightarrow> length (spi_head f) = 126"
  by (simp add: spi_head_def wf_spi_def)

lemma length_spi_bytes: "wf_spi f \<Longrightarrow> length (spi_bytes f) = 128"
  by (simp add: spi_bytes_def length_spi_head) (simp add: wf_spi_def)

lemma spi_crc_part: "wf_spi f \<Longrightarrow> take 126 (spi_bytes f) = spi_head f"
  by (simp add: spi_bytes_def length_spi_head)

lemma byte_eq_iff: "[a, b] = be16 c \<longleftrightarrow> c = crc16_pair a b"
  using be16_pair [of a b] pair_be16 [of c] by (auto simp: be16_def)

lemma frame_valid_iff:
  assumes "wf_spi f"
  shows "frame_valid f \<longleftrightarrow> sf_magic f = 0xA5 \<and> foldl crc16_step 0xFFFF (spi_bytes f) = 0"
proof -
  obtain a b where crc: "sf_crc_be f = [a, b]"
    using assms by (auto simp: wf_spi_def numeral_eq_Suc length_Suc_conv)
  have "foldl crc16_step 0xFFFF (spi_bytes f) = 0 \<longleftrightarrow> protocol_crc16 (spi_head f) = crc16_pair a b"
    by (simp add: spi_bytes_def crc crc16_residue protocol_crc16_def)
  moreover have "frame_valid f \<longleftrightarrow> sf_magic f = 0xA5 \<and> [a, b] = be16 (protocol_crc16 (spi_head f))"
    using spi_crc_part [OF assms] by (simp add: frame_valid_def Let_def crc be16_def)
  ultimately show ?thesis by (simp add: byte_eq_iff)
qed

lemma wf_finalize: "length (sf_payload f) = 118 \<Longrightarrow> wf_spi (frame_finalize f)"
  by (simp add: wf_spi_def frame_finalize_def Let_def)

lemma finalize_fields [simp]:
  "sf_type (frame_finalize f) = sf_type f" "sf_len (frame_finalize f) = sf_len f"
  "sf_payload (frame_finalize f) = sf_payload f" "sf_magic (frame_finalize f) = 0xA5"
  "sf_seq (frame_finalize f) = sf_seq f" "sf_pending (frame_finalize f) = sf_pending f"
  by (simp_all add: frame_finalize_def Let_def)

lemma finalize_valid: "length (sf_payload f) = 118 \<Longrightarrow> frame_valid (frame_finalize f)"
proof -
  assume p: "length (sf_payload f) = 118"
  let ?f1 = "f\<lparr> sf_magic := 0xA5 \<rparr>"
  have t: "take 126 (spi_bytes (?f1\<lparr> sf_crc_be := x \<rparr>)) = spi_head ?f1" for x
    using p by (simp add: spi_bytes_def spi_head_def)
  have "take 126 (spi_bytes ?f1) = spi_head ?f1"
    using t [of "sf_crc_be f"] by (simp add: spi_bytes_def spi_head_def)
  then have "frame_finalize f = ?f1\<lparr> sf_crc_be := be16 (protocol_crc16 (spi_head ?f1)) \<rparr>"
    by (simp add: frame_finalize_def Let_def be16_def)
  then show ?thesis by (simp add: frame_valid_def t Let_def be16_def)
qed

lemma spi_of_bytes_bytes: "wf_spi f \<Longrightarrow> spi_of_bytes (spi_bytes f) = f"
  by (simp add: spi_of_bytes_def spi_bytes_def spi_head_def wf_spi_def)

lemma eight_split:
  "8 \<le> length bs \<Longrightarrow> [bs ! 0, bs ! 1, bs ! 2, bs ! 3, bs ! 4, bs ! 5, bs ! 6, bs ! 7] @ drop 8 bs = bs"
  by (simp add: numeral_eq_Suc Suc_le_length_iff) auto

lemma spi_bytes_of_bytes: "length bs = 128 \<Longrightarrow> spi_bytes (spi_of_bytes bs) = bs"
proof -
  assume l: "length bs = 128"
  have "take 118 (drop 8 bs) @ take 2 (drop 126 bs) = drop 8 bs"
    using l append_take_drop_id [of 118 "drop 8 bs"] by simp
  then show ?thesis using eight_split [of bs] l by (simp add: spi_bytes_def spi_head_def spi_of_bytes_def)
qed

lemma wf_spi_of_bytes [simp]: "length bs = 128 \<Longrightarrow> wf_spi (spi_of_bytes bs)"
  by (simp add: wf_spi_def spi_of_bytes_def)

subsection \<open>The link as a checked codec\<close>

definition spi_receive :: "u8 list \<Rightarrow> unit + SpiFrame" where
  "spi_receive bs = (if length bs = SPI_FRAME_SIZE \<and> frame_valid (spi_of_bytes bs) then Inr (spi_of_bytes bs) else Inl ())"

definition spi_frame_ok :: "SpiFrame \<Rightarrow> bool" where
  "spi_frame_ok f \<longleftrightarrow> wf_spi f \<and> frame_valid f"

lemma spi_receive_residue: "spi_receive bs = Inr f \<Longrightarrow> foldl crc16_step 0xFFFF bs = 0"
  using frame_valid_iff [of "spi_of_bytes bs"] spi_bytes_of_bytes [of bs]
  by (auto simp: spi_receive_def split: if_splits)

interpretation spi_link: checked_codec spi_bytes spi_receive spi_frame_ok
proof
  show "spi_receive (spi_bytes f) = Inr f" if "spi_frame_ok f" for f
    using that by (simp add: spi_frame_ok_def spi_receive_def length_spi_bytes spi_of_bytes_bytes)
  show "spi_frame_ok f \<and> spi_bytes f = bs" if "spi_receive bs = Inr f" for bs f
    using that by (auto simp: spi_receive_def spi_frame_ok_def spi_bytes_of_bytes split: if_splits)
  show "\<exists>e. spi_receive ((spi_bytes f)[i := b]) = Inl e"
    if f: "spi_frame_ok f" and i: "i < length (spi_bytes f)" "b \<noteq> spi_bytes f ! i" for f i b
  proof (rule ccontr)
    assume "\<nexists>e. spi_receive ((spi_bytes f)[i := b]) = Inl e"
    then obtain g where "spi_receive ((spi_bytes f)[i := b]) = Inr g" by (metis sum.exhaust)
    then have "foldl crc16_step 0xFFFF ((spi_bytes f)[i := b]) = foldl crc16_step 0xFFFF (spi_bytes f)"
      using spi_receive_residue frame_valid_iff [of f] f by (simp add: spi_frame_ok_def)
    with i show False by (simp add: crc16.foldl_update)
  qed
qed

end
