(* ===== verification/PendingTable.thy ===== *)
theory PendingTable
  imports NodeProtocol
begin

text \<open>
  The table of pending commands of the concentrator (\<open>src/Gateway/Firmware/CC1310/radio_task.c\<close>): for up
  to eight chips the command that is to be delivered in the reply to the chip's next uplink. It is an
  array of slots searched from the front; seen through its lookup it is a finite map. The C functions
  take a pointer to the eight bytes of a factory id; here the id is the list of these bytes.
\<close>

definition PENDING_MAX :: nat where [simp]: "PENDING_MAX = 8"

record PendSlot =
  pd_fid :: "u8 list"
  pd_cmd :: u8
  pd_used :: bool

type_synonym Pending = "PendSlot list"

definition pending_boot :: Pending where
  "pending_boot = replicate PENDING_MAX \<lparr> pd_fid = replicate 8 0, pd_cmd = 0, pd_used = False \<rparr>"

text \<open>The first slot with a property; the C loops count up to the end of the array.\<close>

fun first_slot :: "(PendSlot \<Rightarrow> bool) \<Rightarrow> Pending \<Rightarrow> nat option" where
  "first_slot P [] = None"
| "first_slot P (x # xs) = (if P x then Some 0 else map_option Suc (first_slot P xs))"

definition pending_find_locked :: "u8 list \<Rightarrow> Pending \<Rightarrow> nat option" where
  "pending_find_locked fid g = first_slot (\<lambda>s. pd_used s \<and> pd_fid s = fid) g"

definition pending_lookup :: "u8 list \<Rightarrow> Pending \<Rightarrow> u8" where
  "pending_lookup fid g = (case pending_find_locked fid g of Some i \<Rightarrow> pd_cmd (g ! i) | None \<Rightarrow> 0)"

definition pending_arm :: "u8 list \<Rightarrow> u8 \<Rightarrow> Pending \<Rightarrow> Pending" where
  "pending_arm fid cmd g =
     (let i = (case pending_find_locked fid g of Some i \<Rightarrow> Some i | None \<Rightarrow> first_slot (\<lambda>s. \<not> pd_used s) g)
      in case i of
           None \<Rightarrow> g
         | Some i \<Rightarrow> g[i := (g ! i)\<lparr> pd_fid := fid, pd_cmd := cmd, pd_used := True \<rparr>])"

definition pending_disarm :: "u8 list \<Rightarrow> Pending \<Rightarrow> Pending" where
  "pending_disarm fid g = (case pending_find_locked fid g of
     Some i \<Rightarrow> g[i := (g ! i)\<lparr> pd_used := False \<rparr>] | None \<Rightarrow> g)"

subsection \<open>The table as a map\<close>

text \<open>The command armed for a chip, the spare room, and the invariant: no chip has two used slots.\<close>

definition pend_map :: "Pending \<Rightarrow> u8 list \<Rightarrow> u8 option" where
  "pend_map g fid = map_option (\<lambda>i. pd_cmd (g ! i)) (pending_find_locked fid g)"

definition pend_room :: "Pending \<Rightarrow> bool" where
  "pend_room g \<longleftrightarrow> (\<exists>s \<in> set g. \<not> pd_used s)"

definition pend_inv :: "Pending \<Rightarrow> bool" where
  "pend_inv g \<longleftrightarrow> length g = PENDING_MAX \<and> (\<forall>i < length g. \<forall>j < length g. i \<noteq> j \<longrightarrow>
     pd_used (g ! i) \<longrightarrow> pd_used (g ! j) \<longrightarrow> pd_fid (g ! i) \<noteq> pd_fid (g ! j))"

lemma first_slot_Some: "first_slot P g = Some i \<Longrightarrow> i < length g \<and> P (g ! i)"
  by (induction P g arbitrary: i rule: first_slot.induct) (auto split: if_splits)

lemma first_slot_None: "first_slot P g = None \<longleftrightarrow> (\<forall>s \<in> set g. \<not> P s)"
  by (induction P g rule: first_slot.induct) auto

lemma find_Some_iff:
  assumes "pend_inv g"
  shows "pending_find_locked fid g = Some i \<longleftrightarrow> i < length g \<and> pd_used (g ! i) \<and> pd_fid (g ! i) = fid"
proof
  assume "pending_find_locked fid g = Some i"
  then show "i < length g \<and> pd_used (g ! i) \<and> pd_fid (g ! i) = fid"
    using first_slot_Some unfolding pending_find_locked_def by blast
next
  assume i: "i < length g \<and> pd_used (g ! i) \<and> pd_fid (g ! i) = fid"
  then obtain j where j: "pending_find_locked fid g = Some j"
    unfolding pending_find_locked_def by (metis (mono_tags, lifting) first_slot_None not_Some_eq nth_mem)
  then have "j < length g \<and> pd_used (g ! j) \<and> pd_fid (g ! j) = fid"
    using first_slot_Some unfolding pending_find_locked_def by blast
  then have "j = i" using i assms unfolding pend_inv_def by metis
  with j show "pending_find_locked fid g = Some i" by simp
qed

lemma pend_map_Some:
  assumes "pend_inv g"
  shows "pend_map g fid = Some c \<longleftrightarrow>
    (\<exists>i < length g. pd_used (g ! i) \<and> pd_fid (g ! i) = fid \<and> pd_cmd (g ! i) = c)"
  unfolding pend_map_def using find_Some_iff [OF assms, of fid] by auto

lemma pend_map_eqI:
  assumes "\<And>c. pend_map g k = Some c \<longleftrightarrow> m = Some c"
  shows "pend_map g k = m"
  using assms by (metis not_Some_eq)

text \<open>Writing one slot so that the chip it names has no other.\<close>

lemma update_inv:
  assumes "pend_inv g" "i < length g" "\<And>j. j < length g \<Longrightarrow> j \<noteq> i \<Longrightarrow> pd_used (g ! j) \<Longrightarrow> pd_used s \<Longrightarrow> pd_fid (g ! j) \<noteq> pd_fid s"
  shows "pend_inv (g[i := s])"
  using assms unfolding pend_inv_def by (simp add: nth_list_update) metis

lemma pend_map_update:
  assumes g: "pend_inv g" and i: "i < length g"
    and own: "\<And>j. j < length g \<Longrightarrow> j \<noteq> i \<Longrightarrow> pd_used (g ! j) \<Longrightarrow> pd_fid (g ! j) \<noteq> f"
    and was: "pd_used (g ! i) \<Longrightarrow> pd_fid (g ! i) = f"
    and s: "pd_fid s = f"
  shows "pend_map (g[i := s]) k = (if k = f then (if pd_used s then Some (pd_cmd s) else None) else pend_map g k)"
proof (rule pend_map_eqI)
  have "pend_inv (g[i := s])" using update_inv [OF g i] own s by simp
  then show "pend_map (g[i := s]) k = Some c \<longleftrightarrow>
      (if k = f then (if pd_used s then Some (pd_cmd s) else None) else pend_map g k) = Some c" for c
    using own was s i by (cases "k = f") (auto simp: pend_map_Some g nth_list_update, metis)
qed


lemma arm_step:
  assumes g: "pend_inv g" and room: "pend_map g k \<noteq> None \<or> pend_room g"
  shows "\<exists>i. pending_arm k v g = g[i := (g ! i)\<lparr> pd_fid := k, pd_cmd := v, pd_used := True \<rparr>] \<and> i < length g \<and>
    (\<forall>j < length g. j \<noteq> i \<longrightarrow> pd_used (g ! j) \<longrightarrow> pd_fid (g ! j) \<noteq> k) \<and> (pd_used (g ! i) \<longrightarrow> pd_fid (g ! i) = k)"
proof (cases "pending_find_locked k g")
  case None
  then have free: "\<forall>j < length g. pd_used (g ! j) \<longrightarrow> pd_fid (g ! j) \<noteq> k"
    using find_Some_iff [OF g, of k] by auto
  from None room have "pend_room g" by (simp add: pend_map_def)
  then obtain i where i: "first_slot (\<lambda>s. \<not> pd_used s) g = Some i"
    unfolding pend_room_def by (metis first_slot_None not_Some_eq)
  then show ?thesis using None free first_slot_Some [OF i]
    by (intro exI [of _ i]) (simp add: pending_arm_def)
next
  case (Some i)
  then have "i < length g" "pd_used (g ! i)" "pd_fid (g ! i) = k" using find_Some_iff [OF g] by blast+
  then show ?thesis using Some g by (intro exI [of _ i]) (auto simp: pending_arm_def pend_inv_def)
qed

lemma arm_full: "pend_map g k = None \<Longrightarrow> \<not> pend_room g \<Longrightarrow> pending_arm k v g = g"
  using first_slot_None [of "\<lambda>s. \<not> pd_used s" g]
  by (auto simp: pending_arm_def pend_map_def pend_room_def)

lemma disarm_step:
  assumes g: "pend_inv g"
  shows "pend_map g k = None \<and> pending_disarm k g = g \<or>
    (\<exists>i < length g. pending_disarm k g = g[i := (g ! i)\<lparr> pd_used := False \<rparr>] \<and> pd_fid (g ! i) = k \<and>
      (\<forall>j < length g. j \<noteq> i \<longrightarrow> pd_used (g ! j) \<longrightarrow> pd_fid (g ! j) \<noteq> k))"
proof (cases "pending_find_locked k g")
  case None
  then show ?thesis by (simp add: pending_disarm_def pend_map_def)
next
  case (Some i)
  then have "i < length g" "pd_used (g ! i)" "pd_fid (g ! i) = k" using find_Some_iff [OF g] by blast+
  then show ?thesis using Some g by (intro disjI2 exI [of _ i]) (auto simp: pending_disarm_def pend_inv_def)
qed

interpretation pend_table: keyed_table pend_map pending_arm pending_disarm pend_room pend_inv
proof
  fix t k v
  assume t: "pend_inv t"
  show "pend_inv (pending_arm k v t)"
  proof (cases "pend_map t k \<noteq> None \<or> pend_room t")
    case True
    from arm_step [OF t this, of v] show ?thesis by (auto intro!: update_inv [OF t])
  next
    case False
    then show ?thesis using t arm_full [of t k v] by simp
  qed
  show "pend_map (pending_arm k v t) = (pend_map t)(k \<mapsto> v)" if "pend_map t k \<noteq> None \<or> pend_room t"
  proof -
    from arm_step [OF t that, of v] obtain i where
      i: "pending_arm k v t = t[i := (t ! i)\<lparr> pd_fid := k, pd_cmd := v, pd_used := True \<rparr>]" "i < length t"
        "\<And>j. j < length t \<Longrightarrow> j \<noteq> i \<Longrightarrow> pd_used (t ! j) \<Longrightarrow> pd_fid (t ! j) \<noteq> k" "pd_used (t ! i) \<Longrightarrow> pd_fid (t ! i) = k"
      by blast
    show ?thesis unfolding i(1) by (rule ext) (simp add: pend_map_update [OF t i(2-4)])
  qed
  show "pend_map (pending_arm k v t) = pend_map t" if "pend_map t k = None" "\<not> pend_room t"
    using arm_full [OF that, of v] by simp
  show "pend_inv (pending_disarm k t)"
    using disarm_step [OF t, of k] t by (auto intro!: update_inv [OF t])
  show "pend_map (pending_disarm k t) = (pend_map t)(k := None)"
    using disarm_step [OF t, of k]
  proof
    assume "\<exists>i < length t. pending_disarm k t = t[i := (t ! i)\<lparr> pd_used := False \<rparr>] \<and> pd_fid (t ! i) = k \<and>
      (\<forall>j < length t. j \<noteq> i \<longrightarrow> pd_used (t ! j) \<longrightarrow> pd_fid (t ! j) \<noteq> k)"
    then obtain i where i: "pending_disarm k t = t[i := (t ! i)\<lparr> pd_used := False \<rparr>]" "i < length t"
        "\<And>j. j < length t \<Longrightarrow> j \<noteq> i \<Longrightarrow> pd_used (t ! j) \<Longrightarrow> pd_fid (t ! j) \<noteq> k" "pd_fid (t ! i) = k"
      by blast
    show ?thesis unfolding i(1) by (rule ext) (simp add: pend_map_update [OF t i(2,3) i(4)] i(4))
  qed auto
qed

lemma lookup_map: "pending_lookup k g = (case pend_map g k of None \<Rightarrow> 0 | Some c \<Rightarrow> c)"
  by (simp add: pending_lookup_def pend_map_def split: option.split)

lemma boot_inv: "pend_inv pending_boot" "pend_room pending_boot" "pend_map pending_boot k = None"
  by (auto simp: pend_inv_def pend_room_def pending_boot_def pend_map_def pending_find_locked_def first_slot_None)

subsection \<open>Sequences of operations\<close>

text \<open>What the table answers after any sequence of arms and disarms is what a map with eight entries would hold.\<close>

datatype pend_op = Arm "u8 list" u8 | Disarm "u8 list"

primrec pend_do :: "pend_op \<Rightarrow> Pending \<Rightarrow> Pending" where
  "pend_do (Arm k v) g = pending_arm k v g"
| "pend_do (Disarm k) g = pending_disarm k g"

primrec spec_do :: "pend_op \<Rightarrow> (u8 list \<rightharpoonup> u8) \<Rightarrow> (u8 list \<rightharpoonup> u8)" where
  "spec_do (Arm k v) m = (if k \<in> dom m \<or> card (dom m) < PENDING_MAX then m(k \<mapsto> v) else m)"
| "spec_do (Disarm k) m = m(k := None)"

lemma dom_card:
  assumes "pend_inv g"
  shows "card (dom (pend_map g)) = length (filter pd_used g)" "finite (dom (pend_map g))"
proof -
  let ?U = "{i. i < length g \<and> pd_used (g ! i)}"
  have dom: "dom (pend_map g) = (\<lambda>i. pd_fid (g ! i)) ` ?U"
    using pend_map_Some [OF assms] by (force simp: dom_def)
  moreover have "inj_on (\<lambda>i. pd_fid (g ! i)) ?U"
    using assms unfolding inj_on_def pend_inv_def by blast
  ultimately show "card (dom (pend_map g)) = length (filter pd_used g)"
    by (simp add: card_image length_filter_conv_card)
  show "finite (dom (pend_map g))" using dom by simp
qed

lemma room_card: "pend_inv g \<Longrightarrow> pend_room g \<longleftrightarrow> card (dom (pend_map g)) < 8"
proof -
  assume g: "pend_inv g"
  have "pend_room g \<longleftrightarrow> length (filter pd_used g) < length g"
    by (auto simp: pend_room_def length_filter_less) (metis filter_True nat_less_le)
  then show ?thesis using dom_card(1) [OF g] g by (simp add: pend_inv_def)
qed

lemma pend_do_spec:
  assumes "pend_inv g"
  shows "pend_inv (pend_do op g) \<and> pend_map (pend_do op g) = spec_do op (pend_map g)"
proof (cases op)
  case (Arm k v)
  have "k \<in> dom (pend_map g) \<longleftrightarrow> pend_map g k \<noteq> None" by blast
  then show ?thesis
    using assms Arm room_card [OF assms] pend_table.find_arm [OF assms, of k v]
      pend_table.find_arm_full [OF assms, of k v] pend_table.inv_arm [OF assms, of k v]
    by auto
next
  case (Disarm k)
  then show ?thesis using assms by (simp add: pend_table.inv_disarm pend_table.find_disarm)
qed

lemma pend_fold_spec:
  "pend_inv g \<Longrightarrow> pend_inv (fold pend_do ops g) \<and> pend_map (fold pend_do ops g) = fold spec_do ops (pend_map g)"
  by (induction ops arbitrary: g) (simp_all add: pend_do_spec)

text \<open>
  C27. From its cleared state on, after any sequence of arm and disarm requests, looking a chip up in the
  pending-command table gives exactly the command that a map of at most eight chips would hold (the last
  one armed and not disarmed, an arm of a ninth chip ignored), or 0 for a chip that has none.
\<close>

theorem pending_table_is_map:
  "pending_lookup fid (fold pend_do ops pending_boot) =
     (case fold spec_do ops Map.empty fid of None \<Rightarrow> 0 | Some cmd \<Rightarrow> cmd)"
proof -
  have "pend_map pending_boot = Map.empty" using boot_inv by blast
  then show ?thesis using pend_fold_spec [of pending_boot ops] boot_inv by (simp add: lookup_map)
qed

end
