(* ===== verification/RadioTask.thy ===== *)
theory RadioTask
  imports PendingTable
begin

text \<open>
  The radio task of the concentrator (\<open>src/Gateway/Firmware/CC1310/radio_task.c\<close>). The RF core is outside:
  the packets it has received are an argument, the packets handed to it are effects. The C code works on
  fixed buffers with lengths taken from the packet; an access outside a buffer is the fault \<open>None\<close>.
\<close>

definition RF_MAX_MSG_SIZE :: nat where [simp]: "RF_MAX_MSG_SIZE = 70"
definition PAYLOAD_LENGTH :: nat where [simp]: "PAYLOAD_LENGTH = 64"
definition RADIO_QUEUE_MAX :: nat where [simp]: "RADIO_QUEUE_MAX = 10"
definition SPI_QUEUE_MAX :: nat where [simp]: "SPI_QUEUE_MAX = 10"

abbreviation (input) "CONCENTRATOR_ADDRESS \<equiv> 0x00 :: u8"
abbreviation (input) "GEN1_CONCENTRATOR_ADDRESS \<equiv> 0xF0 :: u8"
abbreviation (input) "RF_MAX_RETRIES \<equiv> 2 :: u8"

record RadioMessageStruct =
  rm_frame :: NodeFrame
  rm_retryCounter :: u8

record Radio =
  gPending :: Pending
  radioQueue :: "RadioMessageStruct list"
  spiQueue :: "NodeFrame list"
  txSequenceNumber :: u8
  rxMsg :: "u8 list"

text \<open>\<open>RfTx\<close> is a packet handed to the radio, \<open>RetryClock\<close> the start of the one-shot timer that wakes the
  task for the next attempt, \<open>UplinkEvent\<close> the wake-up of the SPI task.\<close>

datatype radio_effect = RfTx "u8 list" | RetryClock | UplinkEvent

subsection \<open>The checksum\<close>

definition checksum_step :: "u8 \<Rightarrow> u8 \<Rightarrow> u8" where
  "checksum_step crc b = crc XOR b"

definition calcChecksum :: "u8 list \<Rightarrow> u8" where
  "calcChecksum msg = foldl checksum_step 0 msg"

interpretation xor8: byte_hash checksum_step
proof
  show "checksum_step s b = checksum_step t b \<Longrightarrow> s = t" for s t b
    by (auto simp: checksum_step_def bit_eq_iff bit_xor_iff)
  show "checksum_step s a = checksum_step s b \<Longrightarrow> a = b" for s a b
    by (auto simp: checksum_step_def bit_eq_iff bit_xor_iff)
qed

lemma calcChecksum_snoc [simp]: "calcChecksum (xs @ [b]) = calcChecksum xs XOR b"
  by (simp add: calcChecksum_def checksum_step_def)

subsection \<open>Sending to a node\<close>

text \<open>
  The packet of a message, built in the 70-byte buffer \<open>buf\<close> the way the code does. The length byte of the
  message counts the bytes that go on air; more than the struct has is a fault.
\<close>

definition has_factory :: "u8 list \<Rightarrow> bool" where
  "has_factory fid \<longleftrightarrow> (\<exists>b \<in> set (take 8 fid). b \<noteq> 0)"

definition radio_frame :: "u8 list \<Rightarrow> NodeFrame \<Rightarrow> u8 \<Rightarrow> u8 list option" where
  "radio_frame buf nf sq =
     (let m = nf_msg nf; len = unat (m_length m); hasFactory = has_factory (nf_factory_id nf);
          f1 = buf[0 := m_id m, 2 := CONCENTRATOR_ADDRESS];
          hdr = (if hasFactory then 11 else 3);
          f2 = (if hasFactory then blit (f1[1 := RF_FRAME_TAG_V2]) 3 (nf_factory_id nf) else f1[1 := RF_FRAME_TAG_LEGACY])
      in if len > MESSAGE_SIZE \<or> hdr + len + 2 > RF_MAX_MSG_SIZE then None
         else
           let f3 = blit f2 hdr (take len (msg_bytes m));
               seqIdx = hdr + len; crcIdx = seqIdx + 1;
               f4 = f3[seqIdx := sq];
               f5 = f4[crcIdx := calcChecksum (take (hdr - 2 + len + 1) (drop 2 f4))]
           in Some (take (crcIdx + 1) f5))"

text \<open>A received packet is copied over the buffer \<open>rxMsg\<close>, which keeps what earlier packets left behind it.\<close>

definition rx_copy :: "u8 list \<Rightarrow> u8 list \<Rightarrow> u8 list option" where
  "rx_copy p buf = (if length p > RF_MAX_MSG_SIZE then None else Some (blit buf 0 p))"

text \<open>
  The reply window of one transmission: an ACK for the sender's address \<open>own\<close> from the addressed node with the
  packet's checksum.
\<close>

fun scan_ack :: "u8 \<Rightarrow> u8 \<Rightarrow> u8 \<Rightarrow> u8 list list \<Rightarrow> bool \<Rightarrow> u8 list \<Rightarrow> (bool \<times> u8 list) option" where
  "scan_ack own dest crc [] acked buf = Some (acked, buf)"
| "scan_ack own dest crc (p # ps) acked buf = (case rx_copy p buf of
     None \<Rightarrow> None
   | Some b \<Rightarrow>
       if length p \<ge> RF_MAX_MSG_SIZE then None
       else
         let b1 = b[length p := 0];
             hit = (b1 ! 0 = own \<and> b1 ! 1 = RF_REPLY_ACK \<and> b1 ! 2 = dest \<and> b1 ! 3 = crc)
         in scan_ack own dest crc ps (acked \<or> hit) b1)"

text \<open>
  One pass of the loop over the queue: the job, and the packets \<open>ps\<close> received in its reply window. The
  result says whether the loop goes on; an unanswered job goes back to the queue while it has retries left,
  which ends the loop until the timer fires.
\<close>

definition send_job :: "u8 list \<Rightarrow> u8 list list \<Rightarrow> RadioMessageStruct \<Rightarrow> Radio \<Rightarrow> (bool \<times> Radio \<times> radio_effect list) option" where
  "send_job buf ps job s =
     (let s1 = s\<lparr> txSequenceNumber := txSequenceNumber s + 1 \<rparr> in
      case radio_frame buf (rm_frame job) (txSequenceNumber s1) of
        None \<Rightarrow> None
      | Some pkt \<Rightarrow> (case scan_ack CONCENTRATOR_ADDRESS (pkt ! 0) (last pkt) ps False (rxMsg s1) of
          None \<Rightarrow> None
        | Some (acked, b) \<Rightarrow>
            let s2 = s1\<lparr> rxMsg := b \<rparr> in
            if \<not> acked \<and> rm_retryCounter job \<le> RF_MAX_RETRIES then
              let job' = job\<lparr> rm_retryCounter := rm_retryCounter job + 1 \<rparr>;
                  s3 = (if length (radioQueue s2) < RADIO_QUEUE_MAX
                        then s2\<lparr> radioQueue := radioQueue s2 @ [job'] \<rparr> else s2)
              in Some (False, s3, [RfTx pkt, RetryClock])
            else Some (True, s2, [RfTx pkt])))"

lemma send_job_queue:
  "send_job buf ps job s = Some (True, s1, fx) \<Longrightarrow> radioQueue s1 = radioQueue s"
  by (auto simp: send_job_def Let_def split: option.splits prod.splits if_splits)

text \<open>The whole event: \<open>air k\<close> are the packets of the k-th reply window.\<close>

function radio_send_event :: "u8 list \<Rightarrow> (nat \<Rightarrow> u8 list list) \<Rightarrow> nat \<Rightarrow> Radio \<Rightarrow> (Radio \<times> radio_effect list) option" where
  "radio_send_event buf air k s = (case radioQueue s of
     [] \<Rightarrow> Some (s, [])
   | job # rest \<Rightarrow> (case send_job buf (air k) job (s\<lparr> radioQueue := rest \<rparr>) of
       None \<Rightarrow> None
     | Some (go_on, s1, fx) \<Rightarrow>
         if go_on then
           (case radio_send_event buf air (Suc k) s1 of
              None \<Rightarrow> None | Some (s2, fx') \<Rightarrow> Some (s2, fx @ fx'))
         else Some (s1, fx)))"
  by pat_completeness auto
termination by (relation "measure (\<lambda>(buf, air, k, s). length (radioQueue s))") (auto dest: send_job_queue)

declare radio_send_event.simps [simp del]

subsection \<open>Receiving from a node\<close>

text \<open>The reply to an accepted packet that is addressed to this gateway, and the pending table after it.\<close>

definition choose_reply :: "u8 list \<Rightarrow> nat \<Rightarrow> Pending \<Rightarrow> u8 list \<times> Pending" where
  "choose_reply b packetLength g =
     (let ack = [b ! 2, RF_REPLY_ACK, b ! 0, b ! (packetLength - 1)] in
      if b ! 1 = RF_FRAME_TAG_V2 \<and> packetLength \<ge> 14 then
        let fid = take 8 (drop 3 b); pend = pending_lookup fid g in
        if pend \<noteq> 0 then
          if b ! 13 = pend then (ack, pending_disarm fid g)
          else ([b ! 2, RF_REPLY_NACK, b ! 0, pend], g)
        else (ack, g)
      else (ack, g))"

definition deframe :: "u8 list \<Rightarrow> nat \<Rightarrow> NodeFrame option" where
  "deframe b packetLength =
     (let zero = \<lparr> nf_factory_id = replicate 8 0, nf_msg = msg_zero \<rparr> in
      if b ! 1 = RF_FRAME_TAG_V2 \<and> packetLength \<ge> 13 then
        if packetLength - 13 > MESSAGE_SIZE then None
        else Some (zero\<lparr> nf_factory_id := take 8 (drop 3 b),
          nf_msg := msg_of_bytes (blit (msg_bytes msg_zero) 0 (take (packetLength - 13) (drop 11 b))) \<rparr>)
      else if packetLength < 5 \<or> packetLength - 5 > MESSAGE_SIZE then None
      else Some (zero\<lparr> nf_msg := msg_of_bytes (blit (msg_bytes msg_zero) 0 (take (packetLength - 5) (drop 3 b))) \<rparr>))"

text \<open>
  The lengths passed to the checksum and to the copies are computed in \<open>int\<close> and converted to an unsigned
  size, so a negative one is an access far outside the buffer.
\<close>

definition radio_rx_packet :: "u8 list \<Rightarrow> Radio \<Rightarrow> (Radio \<times> radio_effect list) option" where
  "radio_rx_packet p s = (case rx_copy p (rxMsg s) of
     None \<Rightarrow> None
   | Some b \<Rightarrow>
       let s1 = s\<lparr> rxMsg := b \<rparr>; packetLength = length p;
           addressedToUs = (b ! 0 = CONCENTRATOR_ADDRESS); sniffGen1 = (b ! 0 = GEN1_CONCENTRATOR_ADDRESS)
       in if (addressedToUs \<or> sniffGen1) \<and> (b ! 1 = RF_FRAME_TAG_LEGACY \<or> b ! 1 = RF_FRAME_TAG_V2) then
            if packetLength < 3 then None
            else if b ! (packetLength - 1) = calcChecksum (take (packetLength - 3) (drop 2 b)) then
              let (s2, fx) = (if addressedToUs then
                    (case choose_reply b packetLength (gPending s1) of
                       (reply, g) \<Rightarrow> (s1\<lparr> gPending := g \<rparr>, [RfTx reply]))
                  else (s1, []))
              in case deframe b packetLength of
                   None \<Rightarrow> None
                 | Some nf \<Rightarrow>
                     let s3 = (if length (spiQueue s2) < SPI_QUEUE_MAX then s2\<lparr> spiQueue := spiQueue s2 @ [nf] \<rparr> else s2)
                     in Some (s3, fx @ [UplinkEvent])
            else Some (s1, [])
          else Some (s1, []))"

primrec radio_rx_event :: "u8 list list \<Rightarrow> Radio \<Rightarrow> (Radio \<times> radio_effect list) option" where
  "radio_rx_event [] s = Some (s, [])"
| "radio_rx_event (p # ps) s = (case radio_rx_packet p s of
     None \<Rightarrow> None
   | Some (s1, fx) \<Rightarrow> (case radio_rx_event ps s1 of
       None \<Rightarrow> None | Some (s2, fx') \<Rightarrow> Some (s2, fx @ fx')))"

subsection \<open>Events\<close>

abbreviation (input) "RADIO_EVENT_SEND_PACKET \<equiv> 1 :: u32"
abbreviation (input) "RADIO_EVENT_RADIO_RX \<equiv> 2 :: u32"
abbreviation (input) "RADIO_EVENT_ACK_SENT \<equiv> 4 :: u32"
abbreviation (input) "RADIO_EVENT_RESTART_RADIO \<equiv> 16 :: u32"

text \<open>The callbacks of the RF driver and of the timer, as the event bits they post.\<close>

definition echoCallback :: "bool \<Rightarrow> bool \<Rightarrow> u32" where
  "echoCallback rx_entry_done rx_nok =
     (if rx_entry_done then RADIO_EVENT_RADIO_RX else if rx_nok then RADIO_EVENT_RESTART_RADIO else 0)"

definition echoCallbackACK :: "bool \<Rightarrow> u32" where
  "echoCallbackACK last_cmd_done = (if last_cmd_done then RADIO_EVENT_ACK_SENT else 0)"

definition timeoutClockFxn :: u32 where "timeoutClockFxn = RADIO_EVENT_SEND_PACKET"

text \<open>
  One turn of the task: a send event is served before, and instead of, a receive event that is pending with
  it; the packets that wait in the RF queue are then looked at only for an ACK.
\<close>

definition radio_turn ::
  "u32 \<Rightarrow> u8 list \<Rightarrow> (nat \<Rightarrow> u8 list list) \<Rightarrow> u8 list list \<Rightarrow> Radio \<Rightarrow> (Radio \<times> radio_effect list) option" where
  "radio_turn events buf air received s =
     (if events AND RADIO_EVENT_SEND_PACKET \<noteq> 0 then radio_send_event buf air 0 s
      else if events AND RADIO_EVENT_RADIO_RX \<noteq> 0 then radio_rx_event received s
      else Some (s, []))"

end
