(* ===== verification/SpiSlave.thy ===== *)
theory SpiSlave
  imports SpiFrame RadioTask
begin

text \<open>
  The SPI slave task of the concentrator (\<open>src/Gateway/Firmware/CC1310/spi_slave_task.c\<close>): it ships the
  frames of its queue to the M4F, three tries each, and routes what comes in with each transfer to the radio
  task's queue or to the pending-command table. The driver is outside: whether a transfer can be armed,
  whether the master clocks it in time and what comes in are arguments.
\<close>

record SpiSlave =
  sv_radio :: Radio
  sv_txSeq :: u8
  sv_txFrame :: SpiFrame
  sv_rxFrame :: SpiFrame
  sv_slaveReady :: bool

text \<open>\<open>Shipped\<close> is a transfer the master clocked, with the frame it took; \<open>SendEvent\<close> wakes the radio task.\<close>

datatype slave_effect = Shipped SpiFrame | SendEvent

record SXfer =
  sx_arms :: bool
  sx_done :: bool
  sx_rx :: "u8 list"

definition SPI_SLAVE_MAX_RETRIES :: nat where [simp]: "SPI_SLAVE_MAX_RETRIES = 3"

definition slave_job :: "SpiFrame \<Rightarrow> RadioMessageStruct option" where
  "slave_job f =
     (if unat (sf_len f) \<ge> NODEFRAME_SIZE then
        Some \<lparr> rm_frame = frame_of_bytes (take NODEFRAME_SIZE (sf_payload f)), rm_retryCounter = 0 \<rparr>
      else if unat (sf_len f) \<ge> MESSAGE_SIZE then
        Some \<lparr> rm_frame = \<lparr> nf_factory_id = replicate NODE_FACTORY_ID_LEN 0,
          nf_msg = msg_of_bytes (take MESSAGE_SIZE (sf_payload f)) \<rparr>, rm_retryCounter = 0 \<rparr>
      else None)"

definition slave_route_rx_frame :: "SpiFrame \<Rightarrow> Radio \<Rightarrow> Radio \<times> slave_effect list" where
  "slave_route_rx_frame f r =
     (if \<not> slave_frame_valid f then (r, [])
      else if sf_type f = SPI_FRAME_NODE_CMD then
        (case slave_job f of
           None \<Rightarrow> (r, [])
         | Some job \<Rightarrow>
             if length (radioQueue r) < RADIO_QUEUE_MAX
             then (r\<lparr> radioQueue := radioQueue r @ [job] \<rparr>, [SendEvent]) else (r, []))
      else if sf_type f = SPI_FRAME_CTRL then
        (if unat (sf_len f) \<ge> 10 then
           let op = sf_payload f ! 0; cmd = sf_payload f ! 1; fid = take 8 (drop 2 (sf_payload f)) in
           if op = 1 then (r\<lparr> gPending := pending_arm fid cmd (gPending r) \<rparr>, [])
           else if op = 2 then (r\<lparr> gPending := pending_disarm fid (gPending r) \<rparr>, [])
           else (r, [])
         else (r, []))
      else (r, []))"

definition slave_do_transfer :: "SXfer \<Rightarrow> SpiSlave \<Rightarrow> bool \<times> SpiSlave \<times> slave_effect list" where
  "slave_do_transfer x s =
     (if \<not> sx_arms x then (False, s, [])
      else
        let s1 = s\<lparr> sv_slaveReady := True \<rparr>;
            s2 = (if sx_done x then s1\<lparr> sv_rxFrame := spi_of_bytes (sx_rx x) \<rparr> else s1);
            s3 = s2\<lparr> sv_slaveReady := False \<rparr>
        in if \<not> sx_done x then (False, s3, []) else (True, s3, [Shipped (sv_txFrame s)]))"

definition slave_route :: "SpiSlave \<Rightarrow> SpiSlave \<times> slave_effect list" where
  "slave_route s = (case slave_route_rx_frame (sv_rxFrame s) (sv_radio s) of (r, fx) \<Rightarrow> (s\<lparr> sv_radio := r \<rparr>, fx))"

text \<open>The tries of one frame, \<open>n\<close> of them left; \<open>air k\<close> is what happens on try \<open>k\<close>.\<close>

primrec slave_tries :: "nat \<Rightarrow> (nat \<Rightarrow> SXfer) \<Rightarrow> nat \<Rightarrow> SpiSlave \<Rightarrow> SpiSlave \<times> slave_effect list" where
  "slave_tries 0 air k s = (s, [])"
| "slave_tries (Suc n) air k s =
     (case slave_do_transfer (air k) (s\<lparr> sv_rxFrame := spi_zero \<rparr>) of
        (ok, s1, fx) \<Rightarrow>
          if ok then (case slave_route s1 of (s2, fx') \<Rightarrow> (s2, fx @ fx'))
          else (case slave_tries n air (Suc k) s1 of (s2, fx') \<Rightarrow> (s2, fx @ fx')))"

lemma slave_tries_queue: "slave_tries n air k s = (t, fx) \<Longrightarrow> spiQueue (sv_radio t) = spiQueue (sv_radio s)"
  by (induction n arbitrary: k s t fx)
    (auto simp: slave_do_transfer_def slave_route_def slave_route_rx_frame_def Let_def
      split: prod.splits if_splits option.splits)

text \<open>The drain of the uplink queue; \<open>air j\<close> serves the j-th frame.\<close>

function slave_drain :: "(nat \<Rightarrow> nat \<Rightarrow> SXfer) \<Rightarrow> nat \<Rightarrow> SpiSlave \<Rightarrow> SpiSlave \<times> slave_effect list" where
  "slave_drain air j s = (case spiQueue (sv_radio s) of
     [] \<Rightarrow> (s, [])
   | nf # rest \<Rightarrow>
       let s1 = s\<lparr> sv_radio := (sv_radio s)\<lparr> spiQueue := rest \<rparr>, sv_txFrame := frame_make_node_data nf (sv_txSeq s) 0,
                   sv_txSeq := sv_txSeq s + 1 \<rparr>
       in case slave_tries SPI_SLAVE_MAX_RETRIES (air j) 0 s1 of (s2, fx) \<Rightarrow>
          (case slave_drain air (Suc j) s2 of (s3, fx') \<Rightarrow> (s3, fx @ fx')))"
  by pat_completeness auto
termination by (relation "measure (\<lambda>(air, j, s). length (spiQueue (sv_radio s)))")
  (auto dest!: slave_tries_queue [OF sym])

declare slave_drain.simps [simp del]

text \<open>One turn of the task: the drain, or one empty transfer when the master asked and nothing was queued.\<close>

definition slave_turn :: "bool \<Rightarrow> (nat \<Rightarrow> nat \<Rightarrow> SXfer) \<Rightarrow> SpiSlave \<Rightarrow> SpiSlave \<times> slave_effect list" where
  "slave_turn master_initiate air s =
     (let didXfer = (spiQueue (sv_radio s) \<noteq> []) in
      case slave_drain air 0 s of (s1, fx) \<Rightarrow>
        if master_initiate \<and> \<not> didXfer then
          (case slave_tries SPI_SLAVE_MAX_RETRIES (air 0) 0 (s1\<lparr> sv_txFrame := slave_frame_make_nop \<rparr>) of
             (s2, fx') \<Rightarrow> (s2, fx @ fx'))
        else (s1, fx))"

end
