(* ===== verification/SpiMaster.thy ===== *)
theory SpiMaster
  imports SpiFrame
begin

text \<open>
  The SPI master task of the M4F (\<open>src/Gateway/Firmware/M4F/spi_master.c\<close>). The hardware and the RTOS
  are outside: whether a transfer starts, completes in time and what it clocks in is an argument
  (\<open>Xfer\<close>), as are the samples of the SLAVE_READY pin (\<open>Slot\<close>); every frame handed to the driver is an
  effect. One step of the task is one queued command, or one look at the pin, so that posts from the
  other tasks and the interrupt may fall between any two transfers.
\<close>

definition SPI_OUT_DEPTH :: nat where [simp]: "SPI_OUT_DEPTH = 8"
definition SPI_CTRL_DEPTH :: nat where [simp]: "SPI_CTRL_DEPTH = 4"
definition NODEIN_DEPTH :: nat where [simp]: "NODEIN_DEPTH = 8"
definition SPI_POLL_MS :: nat where [simp]: "SPI_POLL_MS = 2"
definition SPI_ARM_TIMEOUT_MS :: nat where [simp]: "SPI_ARM_TIMEOUT_MS = 500"
definition SPI_TASK_STACK_WORDS :: nat where [simp]: "SPI_TASK_STACK_WORDS = 1024"

text \<open>What the interrupt of the pin holds of the chip: router outputs, the bank enable, the edge trigger, the handler.\<close>

record SrHw =
  hw_routes :: "nat list"
  hw_bank :: bool
  hw_trig :: bool
  hw_hwi :: "int option"

definition hw_idle :: "SrHw \<Rightarrow> bool" where
  "hw_idle h \<longleftrightarrow> hw_routes h = [] \<and> \<not> hw_bank h \<and> \<not> hw_trig h \<and> hw_hwi h = None"

datatype SpiPc = SpWait | SpCtrl | SpOut | SpSlave | SpStopped

record SpiMaster =
  sp_ready :: bool
  gNodeInQueue :: "NodeFrame list"
  gSpiOutQueue :: "NodeFrame list"
  gSpiCtrlQueue :: "PendingCtrl list"
  gXferDoneSem :: bool
  gSrSem :: bool
  gIrqActive :: bool
  gIrqOutp :: int
  gSrIrqCount :: u32
  gSpiStopped :: bool
  gTxSeq :: u8
  gSpiStarted :: u32
  gSpiDone :: u32
  gSpiTimeout :: u32
  gTxFrame :: SpiFrame
  gRxFrame :: SpiFrame
  sp_mr :: bool
  sp_hw :: SrHw
  sp_pc :: SpiPc

datatype spi_effect = Clocked SpiFrame

text \<open>
  A transfer as the driver answers it: whether it starts, whether its callback comes within the wait or
  after it, what the receive buffer holds then, and the status of the transaction.
\<close>

record Xfer =
  x_starts :: bool
  x_callback :: bool
  x_late :: bool
  x_rx :: "u8 list"
  x_completed :: bool

record Slot =
  sl_sr :: "nat \<Rightarrow> bool"
  sl_sem :: bool
  sl_xfer :: Xfer

subsection \<open>Transfer primitives\<close>

definition spiMcspiCallback :: "SpiMaster \<Rightarrow> SpiMaster" where
  "spiMcspiCallback s = s\<lparr> gXferDoneSem := True \<rparr>"

definition mr_assert :: "SpiMaster \<Rightarrow> SpiMaster" where "mr_assert s = s\<lparr> sp_mr := True \<rparr>"
definition mr_release :: "SpiMaster \<Rightarrow> SpiMaster" where "mr_release s = s\<lparr> sp_mr := False \<rparr>"

text \<open>The callback that comes within the wait posts the semaphore before it is taken; a late one leaves it posted.\<close>

definition spi_do_transfer :: "Xfer \<Rightarrow> SpiMaster \<Rightarrow> bool \<times> SpiMaster \<times> spi_effect list" where
  "spi_do_transfer x s =
     (let s1 = s\<lparr> gSpiStarted := gSpiStarted s + 1 \<rparr> in
      if \<not> x_starts x then (False, s1\<lparr> gSpiTimeout := gSpiTimeout s1 + 1 \<rparr>, [])
      else
        let s2 = s1\<lparr> gRxFrame := spi_of_bytes (x_rx x) \<rparr>;
            s3 = (if x_callback x then spiMcspiCallback s2 else s2);
            s4 = s3\<lparr> gXferDoneSem := x_late x \<rparr>
        in if \<not> gXferDoneSem s3 then (False, s4\<lparr> gSpiTimeout := gSpiTimeout s4 + 1 \<rparr>, [Clocked (gTxFrame s)])
           else (x_completed x, s4\<lparr> gSpiDone := gSpiDone s4 + 1 \<rparr>, [Clocked (gTxFrame s)]))"

text \<open>The queue of the engine takes the frame that \<open>route_rx_frame\<close> finds, or it is dropped.\<close>

definition route_rx :: "SpiMaster \<Rightarrow> SpiMaster" where
  "route_rx s = (case route_rx_frame (gRxFrame s) of
     None \<Rightarrow> s
   | Some nf \<Rightarrow> if length (gNodeInQueue s) < NODEIN_DEPTH
       then s\<lparr> gNodeInQueue := gNodeInQueue s @ [nf] \<rparr> else s)"

definition spi_rx_from_slave :: "Xfer \<Rightarrow> SpiMaster \<Rightarrow> SpiMaster \<times> spi_effect list" where
  "spi_rx_from_slave x s =
     (case spi_do_transfer x (s\<lparr> gTxFrame := frame_make_nop, gRxFrame := spi_zero \<rparr>) of
        (ok, s1, fx) \<Rightarrow> (if ok then route_rx s1 else s1, fx))"

definition spi_tx_clock_now :: "Xfer \<Rightarrow> SpiMaster \<Rightarrow> bool \<times> SpiMaster \<times> spi_effect list" where
  "spi_tx_clock_now x s =
     (case spi_do_transfer x (s\<lparr> gRxFrame := spi_zero \<rparr>) of
        (ok, s1, fx) \<Rightarrow> let s2 = mr_release s1 in if ok then (True, route_rx s2, fx) else (False, s2, fx))"

text \<open>The polling loop samples the pin every 2 ms for up to 500 ms.\<close>

function poll_ready :: "nat \<Rightarrow> (nat \<Rightarrow> bool) \<Rightarrow> bool" where
  "poll_ready waited sr =
     (if waited < SPI_ARM_TIMEOUT_MS then
        (if sr (waited div SPI_POLL_MS) then True else poll_ready (waited + SPI_POLL_MS) sr)
      else False)"
  by pat_completeness auto
termination by (relation "measure (\<lambda>(waited, sr). 500 - waited)") auto

declare poll_ready.simps [simp del]

definition spi_tx_current :: "Slot \<Rightarrow> SpiMaster \<Rightarrow> bool \<times> SpiMaster \<times> spi_effect list" where
  "spi_tx_current sl s =
     (if gIrqActive s then
        let s1 = mr_assert (s\<lparr> gSrSem := False \<rparr>) in
        if sl_sr sl 0 then spi_tx_clock_now (sl_xfer sl) s1
        else
          let s2 = s1\<lparr> gSrSem := sl_sem sl \<rparr> in
          if sl_sr sl 1 then spi_tx_clock_now (sl_xfer sl) s2
          else (False, mr_release s2, [])
      else
        let s1 = mr_assert s in
        if poll_ready 0 (sl_sr sl) then spi_tx_clock_now (sl_xfer sl) s1
        else (False, mr_release s1, []))"

definition spi_tx_cmd :: "NodeFrame \<Rightarrow> u8 \<Rightarrow> u8 \<Rightarrow> Slot \<Rightarrow> SpiMaster \<Rightarrow> bool \<times> SpiMaster \<times> spi_effect list" where
  "spi_tx_cmd nf sq pending sl s = spi_tx_current sl (s\<lparr> gTxFrame := frame_make_node_cmd nf sq pending \<rparr>)"

definition spi_tx_ctrl :: "PendingCtrl \<Rightarrow> u8 \<Rightarrow> u8 \<Rightarrow> Slot \<Rightarrow> SpiMaster \<Rightarrow> bool \<times> SpiMaster \<times> spi_effect list" where
  "spi_tx_ctrl pc sq pending sl s = spi_tx_current sl (s\<lparr> gTxFrame := frame_make_ctrl pc sq pending \<rparr>)"

subsection \<open>The pin interrupt\<close>

definition SR_OUTP_FIRST :: nat where [simp]: "SR_OUTP_FIRST = 4"
definition SR_OUTP_LAST :: nat where [simp]: "SR_OUTP_LAST = 7"

definition spi_irq_route_set :: "(nat \<Rightarrow> bool) \<Rightarrow> nat \<Rightarrow> SpiMaster \<Rightarrow> bool \<times> SpiMaster" where
  "spi_irq_route_set grant outp s =
     (if grant outp then (True, s\<lparr> sp_hw := (sp_hw s)\<lparr> hw_routes := outp # hw_routes (sp_hw s) \<rparr> \<rparr>) else (False, s))"

definition spi_irq_route_release :: "nat \<Rightarrow> SpiMaster \<Rightarrow> SpiMaster" where
  "spi_irq_route_release outp s = s\<lparr> sp_hw := (sp_hw s)\<lparr> hw_routes := remove1 outp (hw_routes (sp_hw s)) \<rparr> \<rparr>"

text \<open>The search for a granted router output; \<open>n\<close> outputs are left to try.\<close>

primrec claim_route :: "(nat \<Rightarrow> bool) \<Rightarrow> nat \<Rightarrow> nat \<Rightarrow> SpiMaster \<Rightarrow> nat option \<times> SpiMaster" where
  "claim_route grant outp 0 s = (None, s)"
| "claim_route grant outp (Suc n) s = (case spi_irq_route_set grant outp s of
     (ok, s1) \<Rightarrow> if ok then (Some outp, s1) else claim_route grant (Suc outp) n s1)"

definition spi_setup_slave_ready_irq :: "(nat \<Rightarrow> bool) \<Rightarrow> bool \<Rightarrow> SpiMaster \<Rightarrow> SpiMaster" where
  "spi_setup_slave_ready_irq grant hwi_ok s =
     (case claim_route grant SR_OUTP_FIRST (SR_OUTP_LAST + 1 - SR_OUTP_FIRST) s of
        (None, s1) \<Rightarrow> s1\<lparr> gIrqActive := False \<rparr>
      | (Some routed, s1) \<Rightarrow>
          let s2 = s1\<lparr> sp_hw := (sp_hw s1)\<lparr> hw_trig := True, hw_bank := True \<rparr> \<rparr> in
          if hwi_ok then
            s2\<lparr> sp_hw := (sp_hw s2)\<lparr> hw_hwi := Some (int routed - int SR_OUTP_FIRST + 16) \<rparr>,
                gIrqOutp := int routed, gIrqActive := True \<rparr>
          else
            (spi_irq_route_release routed (s2\<lparr> sp_hw := (sp_hw s2)\<lparr> hw_bank := False, hw_trig := False \<rparr> \<rparr>))
              \<lparr> gIrqActive := False \<rparr>)"

definition sr_bank_isr :: "bool \<Rightarrow> SpiMaster \<Rightarrow> SpiMaster" where
  "sr_bank_isr pin_pending s =
     (if pin_pending then s\<lparr> gSrIrqCount := gSrIrqCount s + 1, gSrSem := True \<rparr> else s)"

subsection \<open>The task\<close>

definition spi_teardown :: "SpiMaster \<Rightarrow> SpiMaster" where
  "spi_teardown s =
     (let s1 = mr_release s;
          s2 = (if gIrqActive s1 then
                  let s3 = s1\<lparr> sp_hw := (sp_hw s1)\<lparr> hw_bank := False, hw_trig := False, hw_hwi := None \<rparr> \<rparr>;
                      s4 = (if gIrqOutp s3 \<ge> 0 then spi_irq_route_release (nat (gIrqOutp s3)) s3 else s3)
                  in s4\<lparr> gIrqActive := False \<rparr>
                else s1)
      in s2\<lparr> gSpiStopped := True, sp_pc := SpStopped \<rparr>)"

definition spiTask :: "bool \<Rightarrow> Slot \<Rightarrow> SpiMaster \<Rightarrow> SpiMaster \<times> spi_effect list" where
  "spiTask shutdown sl s = (case sp_pc s of
     SpWait \<Rightarrow> if shutdown then (spi_teardown s, []) else (s\<lparr> gSrSem := False, sp_pc := SpCtrl \<rparr>, [])
   | SpCtrl \<Rightarrow> (case gSpiCtrlQueue s of
       [] \<Rightarrow> (s\<lparr> sp_pc := SpOut \<rparr>, [])
     | pc # rest \<Rightarrow> (case spi_tx_ctrl pc (gTxSeq s) (word_of_nat (length rest)) sl
           (s\<lparr> gSpiCtrlQueue := rest, gTxSeq := gTxSeq s + 1 \<rparr>) of (ok, s1, fx) \<Rightarrow> (s1, fx)))
   | SpOut \<Rightarrow> (case gSpiOutQueue s of
       [] \<Rightarrow> (s\<lparr> sp_pc := SpSlave \<rparr>, [])
     | cmd # rest \<Rightarrow> (case spi_tx_cmd cmd (gTxSeq s) (word_of_nat (length rest)) sl
           (s\<lparr> gSpiOutQueue := rest, gTxSeq := gTxSeq s + 1 \<rparr>) of (ok, s1, fx) \<Rightarrow> (s1, fx)))
   | SpSlave \<Rightarrow> (case (if sl_sr sl 0 then spi_rx_from_slave (sl_xfer sl) s else (s, [])) of
       (s1, fx) \<Rightarrow> (s1\<lparr> sp_pc := SpWait \<rparr>, fx))
   | SpStopped \<Rightarrow> (s, []))"

primrec spi_run :: "Slot list \<Rightarrow> SpiMaster \<Rightarrow> SpiMaster \<times> spi_effect list" where
  "spi_run [] s = (s, [])"
| "spi_run (sl # sls) s = (case spiTask False sl s of
     (s1, fx) \<Rightarrow> case spi_run sls s1 of (s2, fx') \<Rightarrow> (s2, fx @ fx'))"

subsection \<open>Public operations\<close>

primrec spi_master_stack_hwm :: "u32 list \<Rightarrow> nat" where
  "spi_master_stack_hwm [] = 0"
| "spi_master_stack_hwm (w # ws) = (if w = 0xA5A5A5A5 then Suc (spi_master_stack_hwm ws) else 0)"

definition spi_master_counters :: "SpiMaster \<Rightarrow> u32 \<times> u32 \<times> u32" where
  "spi_master_counters s = (gSpiStarted s, gSpiDone s, gSpiTimeout s)"

definition spi_master_post_cmd :: "NodeFrame option \<Rightarrow> SpiMaster \<Rightarrow> bool \<times> SpiMaster" where
  "spi_master_post_cmd frame s = (case frame of
     None \<Rightarrow> (False, s)
   | Some f \<Rightarrow>
       if \<not> sp_ready s then (False, s)
       else if length (gSpiOutQueue s) = SPI_OUT_DEPTH then (False, s)
       else (True, s\<lparr> gSpiOutQueue := gSpiOutQueue s @ [f], gSrSem := True \<rparr>))"

definition spi_master_post_ctrl :: "PendingCtrl option \<Rightarrow> SpiMaster \<Rightarrow> bool \<times> SpiMaster" where
  "spi_master_post_ctrl ctrl s = (case ctrl of
     None \<Rightarrow> (False, s)
   | Some c \<Rightarrow>
       if \<not> sp_ready s then (False, s)
       else if length (gSpiCtrlQueue s) = SPI_CTRL_DEPTH then (False, s)
       else (True, s\<lparr> gSpiCtrlQueue := gSpiCtrlQueue s @ [c], gSrSem := True \<rparr>))"

definition spi_master_init :: "(nat \<Rightarrow> bool) \<Rightarrow> bool \<Rightarrow> SpiMaster \<Rightarrow> SpiMaster" where
  "spi_master_init grant hwi_ok s =
     (let s1 = s\<lparr> sp_ready := True, gSpiOutQueue := [], gSpiCtrlQueue := [], gXferDoneSem := False, gSrSem := False \<rparr>;
          s2 = spi_setup_slave_ready_irq grant hwi_ok (mr_release s1)
      in s2\<lparr> sp_pc := SpWait \<rparr>)"

text \<open>
  The wait for the task's end looks at \<open>gSpiStopped\<close> every 10 ms; \<open>stopped k\<close> is its value after \<open>k\<close>
  sleeps. The result is whether the task stopped and the time waited.
\<close>

function shutdown_wait :: "(nat \<Rightarrow> bool) \<Rightarrow> nat \<Rightarrow> nat \<Rightarrow> bool \<times> nat" where
  "shutdown_wait stopped timeoutMs waited =
     (if \<not> stopped (waited div 10) \<and> waited < timeoutMs then shutdown_wait stopped timeoutMs (waited + 10)
      else (stopped (waited div 10), waited))"
  by pat_completeness auto
termination by (relation "measure (\<lambda>(st, timeoutMs, waited). timeoutMs - waited)") auto

declare shutdown_wait.simps [simp del]

definition spi_master_shutdown :: "bool \<Rightarrow> (nat \<Rightarrow> bool) \<Rightarrow> nat \<Rightarrow> SpiMaster \<Rightarrow> (bool \<times> nat) option \<times> SpiMaster" where
  "spi_master_shutdown task_exists stopped timeoutMs s =
     (if \<not> task_exists \<or> gSpiStopped s then (None, s)
      else (Some (shutdown_wait stopped timeoutMs 0), s\<lparr> gSrSem := True \<rparr>))"

end
