(* ===== verification/SpiLink.thy ===== *)
theory SpiLink
  imports SpiMaster
begin

text \<open>
  What the SPI master task keeps and in which order it sends: the invariant of every interleaving of its
  steps with the posts of the other tasks, and the frames of one round.
\<close>

text \<open>The state at power-up: the static initialisers of the file.\<close>

definition spi_boot :: SpiMaster where
  "spi_boot = \<lparr> sp_ready = False, gNodeInQueue = [], gSpiOutQueue = [], gSpiCtrlQueue = [], gXferDoneSem = False,
     gSrSem = False, gIrqActive = False, gIrqOutp = -1, gSrIrqCount = 0, gSpiStopped = False, gTxSeq = 1,
     gSpiStarted = 0, gSpiDone = 0, gSpiTimeout = 0, gTxFrame = spi_zero, gRxFrame = spi_zero, sp_mr = False,
     sp_hw = \<lparr> hw_routes = [], hw_bank = False, hw_trig = False, hw_hwi = None \<rparr>, sp_pc = SpWait \<rparr>"

inductive spi_step :: "SpiMaster \<Rightarrow> SpiMaster \<Rightarrow> bool" where
  task: "spi_step s (fst (spiTask sd sl s))"
| cmd: "spi_step s (snd (spi_master_post_cmd f s))"
| ctrl: "spi_step s (snd (spi_master_post_ctrl c s))"
| isr: "spi_step s (sr_bank_isr p s)"
| callback: "spi_step s (spiMcspiCallback s)"
| stop: "spi_step s (snd (spi_master_shutdown True st ms s))"
| consume: "gNodeInQueue s = f # rest \<Longrightarrow> spi_step s (s\<lparr> gNodeInQueue := rest \<rparr>)"
| wake: "length (gNodeInQueue s) < NODEIN_DEPTH \<Longrightarrow> spi_step s (s\<lparr> gNodeInQueue := gNodeInQueue s @ [f] \<rparr>)"

text \<open>
  A slot of the task is one step although other tasks and the pin's interrupt can run within it: what they change, the
  queues and the interrupt counter, the transfer neither reads nor writes (what becomes of the semaphore is an argument
  of the slot), so that a step of theirs within a slot has the effect of the same step after it.
\<close>

lemma transfer_ignores_posts:
  "spi_tx_current sl (s\<lparr> gSpiOutQueue := q, gSpiCtrlQueue := q', gSrIrqCount := n \<rparr>) =
     (case spi_tx_current sl s of (ok, t, fx) \<Rightarrow> (ok, t\<lparr> gSpiOutQueue := q, gSpiCtrlQueue := q', gSrIrqCount := n \<rparr>, fx))"
  by (auto simp: spi_tx_current_def spi_tx_clock_now_def spi_do_transfer_def spiMcspiCallback_def route_rx_def mr_assert_def mr_release_def
      Let_def split: option.splits prod.splits if_splits)

lemma reception_ignores_posts:
  "spi_rx_from_slave x (s\<lparr> gSpiOutQueue := q, gSpiCtrlQueue := q', gSrIrqCount := n \<rparr>) =
     (case spi_rx_from_slave x s of (t, fx) \<Rightarrow> (t\<lparr> gSpiOutQueue := q, gSpiCtrlQueue := q', gSrIrqCount := n \<rparr>, fx))"
  by (auto simp: spi_rx_from_slave_def spi_do_transfer_def spiMcspiCallback_def route_rx_def
      Let_def split: option.splits prod.splits if_splits)

inductive_cases spi_stepE: "spi_step s t"

subsection \<open>The invariant\<close>

definition irq_hw :: "SpiMaster \<Rightarrow> bool" where
  "irq_hw s \<longleftrightarrow> (if gIrqActive s
     then 4 \<le> gIrqOutp s \<and> gIrqOutp s \<le> 7 \<and> hw_routes (sp_hw s) = [nat (gIrqOutp s)] \<and> hw_bank (sp_hw s) \<and>
       hw_trig (sp_hw s) \<and> hw_hwi (sp_hw s) = Some (gIrqOutp s + 12)
     else hw_idle (sp_hw s))"

definition spi_kept :: "SpiMaster \<Rightarrow> bool" where
  "spi_kept s \<longleftrightarrow> gSpiStarted s = gSpiDone s + gSpiTimeout s \<and>
     length (gSpiOutQueue s) \<le> SPI_OUT_DEPTH \<and> length (gSpiCtrlQueue s) \<le> SPI_CTRL_DEPTH \<and>
     length (gNodeInQueue s) \<le> NODEIN_DEPTH \<and> irq_hw s \<and> (gSpiStopped s \<longleftrightarrow> sp_pc s = SpStopped) \<and> (gSpiStopped s \<longrightarrow> \<not> gIrqActive s)"

definition spi_inv :: "SpiMaster \<Rightarrow> bool" where
  "spi_inv s \<longleftrightarrow> spi_kept s \<and> \<not> sp_mr s"

lemma irq_hw_cong [simp]:
  "irq_hw (s\<lparr> gNodeInQueue := a \<rparr>) = irq_hw s" "irq_hw (s\<lparr> gSpiOutQueue := a' \<rparr>) = irq_hw s"
  "irq_hw (s\<lparr> gSpiCtrlQueue := b \<rparr>) = irq_hw s" "irq_hw (s\<lparr> gXferDoneSem := c \<rparr>) = irq_hw s"
  "irq_hw (s\<lparr> gSrSem := d \<rparr>) = irq_hw s" "irq_hw (s\<lparr> gSrIrqCount := e \<rparr>) = irq_hw s"
  "irq_hw (s\<lparr> gTxSeq := f \<rparr>) = irq_hw s" "irq_hw (s\<lparr> gSpiStarted := g \<rparr>) = irq_hw s"
  "irq_hw (s\<lparr> gSpiDone := h \<rparr>) = irq_hw s" "irq_hw (s\<lparr> gSpiTimeout := h' \<rparr>) = irq_hw s"
  "irq_hw (s\<lparr> gTxFrame := i \<rparr>) = irq_hw s" "irq_hw (s\<lparr> gRxFrame := j \<rparr>) = irq_hw s"
  "irq_hw (s\<lparr> sp_mr := k \<rparr>) = irq_hw s" "irq_hw (s\<lparr> sp_pc := l \<rparr>) = irq_hw s"
  "irq_hw (s\<lparr> gSpiStopped := m \<rparr>) = irq_hw s" "irq_hw (s\<lparr> sp_ready := n \<rparr>) = irq_hw s"
  by (simp_all add: irq_hw_def)

text \<open>The outcome of a transfer, as the fields it may change.\<close>

lemma do_transfer_shape:
  assumes "spi_do_transfer x s = (ok, t, fx)"
  obtains d to rx sem where
    "t = s\<lparr> gSpiStarted := gSpiStarted s + 1, gSpiDone := gSpiDone s + d, gSpiTimeout := gSpiTimeout s + to,
       gRxFrame := rx, gXferDoneSem := sem \<rparr>"
    "d + to = 1" "fx = (if x_starts x then [Clocked (gTxFrame s)] else [])"
proof -
  have "\<exists>d to rx sem. t = s\<lparr> gSpiStarted := gSpiStarted s + 1, gSpiDone := gSpiDone s + d,
       gSpiTimeout := gSpiTimeout s + to, gRxFrame := rx, gXferDoneSem := sem \<rparr> \<and> d + to = 1"
    using assms unfolding spi_do_transfer_def Let_def spiMcspiCallback_def
    by (cases s, cases "x_starts x"; cases "x_callback x"; cases "gXferDoneSem s")
      (force split: if_splits)+
  moreover have "fx = (if x_starts x then [Clocked (gTxFrame s)] else [])"
    using assms by (auto simp: spi_do_transfer_def Let_def split: if_splits)
  ultimately show thesis using that by blast
qed


text \<open>What a transfer leaves alone of the task's own state.\<close>

definition same_task :: "SpiMaster \<Rightarrow> SpiMaster \<Rightarrow> bool" where
  "same_task s t \<longleftrightarrow> gSpiOutQueue t = gSpiOutQueue s \<and> gSpiCtrlQueue t = gSpiCtrlQueue s \<and> gTxSeq t = gTxSeq s \<and>
     gIrqActive t = gIrqActive s \<and> sp_pc t = sp_pc s \<and> gSpiStopped t = gSpiStopped s"

lemma same_task_trans [trans]: "same_task s t \<Longrightarrow> same_task t u \<Longrightarrow> same_task s u"
  by (simp add: same_task_def)

lemma do_transfer_keeps:
  assumes "spi_do_transfer x s = (ok, t, fx)"
  shows "same_task s t" "spi_kept s \<Longrightarrow> spi_kept t" "sp_mr t = sp_mr s" "gSpiStarted t = gSpiStarted s + 1"
proof -
  obtain d to rx sem where t: "t = s\<lparr> gSpiStarted := gSpiStarted s + 1, gSpiDone := gSpiDone s + d,
      gSpiTimeout := gSpiTimeout s + to, gRxFrame := rx, gXferDoneSem := sem \<rparr>" and one: "d + to = 1"
    using assms by (rule do_transfer_shape)
  show "same_task s t" "sp_mr t = sp_mr s" "gSpiStarted t = gSpiStarted s + 1" by (simp_all add: same_task_def t)
  have "gSpiStarted s + 1 = gSpiDone s + d + (gSpiTimeout s + to)" if "gSpiStarted s = gSpiDone s + gSpiTimeout s"
    unfolding that one [symmetric] by (simp only: ac_simps)
  then show "spi_kept t" if "spi_kept s" using that unfolding spi_kept_def t by (simp del: add.assoc)
qed

lemma route_rx_keeps:
  "same_task s (route_rx s)" "spi_kept s \<Longrightarrow> spi_kept (route_rx s)" "sp_mr (route_rx s) = sp_mr s"
  "gSpiStarted (route_rx s) = gSpiStarted s"
  by (auto simp: route_rx_def same_task_def spi_kept_def split: option.split)

lemma clock_now_keeps:
  assumes "spi_tx_clock_now x s = (ok, t, fx)"
  shows "same_task s t" "spi_kept s \<Longrightarrow> spi_kept t" "\<not> sp_mr t" "gSpiStarted t = gSpiStarted s + 1"
    "fx = (if x_starts x then [Clocked (gTxFrame s)] else [])"
proof -
  obtain ok1 t1 where x: "spi_do_transfer x (s\<lparr> gRxFrame := spi_zero \<rparr>) = (ok1, t1, fx)"
    and t: "t = (if ok1 then route_rx (mr_release t1) else mr_release t1)"
    using assms by (cases "spi_do_transfer x (s\<lparr> gRxFrame := spi_zero \<rparr>)")
      (auto simp: spi_tx_clock_now_def Let_def split: if_splits)
  note k = do_transfer_keeps [OF x]
  have r: "same_task t1 (mr_release t1)" "spi_kept t1 \<Longrightarrow> spi_kept (mr_release t1)" "\<not> sp_mr (mr_release t1)"
    "gSpiStarted (mr_release t1) = gSpiStarted t1"
    by (simp_all add: same_task_def spi_kept_def mr_release_def)
  have 0: "same_task s (s\<lparr> gRxFrame := spi_zero \<rparr>)" "spi_kept s \<Longrightarrow> spi_kept (s\<lparr> gRxFrame := spi_zero \<rparr>)"
    by (simp_all add: same_task_def spi_kept_def)
  have 1: "same_task s (mr_release t1)" "spi_kept s \<Longrightarrow> spi_kept (mr_release t1)"
    "gSpiStarted (mr_release t1) = gSpiStarted s + 1"
    using 0 k r by (auto intro: same_task_trans)
  then show "same_task s t" using route_rx_keeps(1) [of "mr_release t1"] unfolding t by (auto intro: same_task_trans)
  from 1 show "spi_kept s \<Longrightarrow> spi_kept t" "gSpiStarted t = gSpiStarted s + 1"
    by (simp_all add: t route_rx_keeps)
  show "\<not> sp_mr t" by (simp add: t route_rx_keeps r(3))
  show "fx = (if x_starts x then [Clocked (gTxFrame s)] else [])"
    using x by (rule do_transfer_shape) auto
qed

text \<open>Whether the slave arms in time, and the frames of a transmission.\<close>

definition slave_arms :: "Slot \<Rightarrow> bool \<Rightarrow> bool" where
  "slave_arms sl irq \<longleftrightarrow> (if irq then sl_sr sl 0 \<or> sl_sr sl 1 else poll_ready 0 (sl_sr sl))"

lemma tx_current_keeps:
  assumes "spi_tx_current sl s = (ok, t, fx)"
  shows "same_task s t" "spi_kept s \<Longrightarrow> spi_kept t" "\<not> sp_mr t"
    "gSpiStarted t = gSpiStarted s + (if slave_arms sl (gIrqActive s) then 1 else 0)"
    "fx = (if slave_arms sl (gIrqActive s) \<and> x_starts (sl_xfer sl) then [Clocked (gTxFrame s)] else [])"
proof -
  have swap: "s\<lparr> sp_mr := a, gSrSem := b \<rparr> = s\<lparr> gSrSem := b, sp_mr := a \<rparr>" for a b by simp
  have "\<exists>sem. if slave_arms sl (gIrqActive s)
      then spi_tx_clock_now (sl_xfer sl) (s\<lparr> gSrSem := sem, sp_mr := True \<rparr>) = (ok, t, fx)
      else t = s\<lparr> gSrSem := sem, sp_mr := False \<rparr> \<and> fx = []"
  proof (cases "gIrqActive s")
    case True
    then show ?thesis using assms
      by (cases "sl_sr sl 0"; cases "sl_sr sl 1")
        (auto simp: spi_tx_current_def slave_arms_def mr_assert_def mr_release_def Let_def
          swap intro: exI [of _ False] exI [of _ "sl_sem sl"])
  next
    case False
    then show ?thesis using assms
      by (cases "poll_ready 0 (sl_sr sl)") (auto simp: spi_tx_current_def slave_arms_def mr_assert_def mr_release_def Let_def
          intro: exI [of _ "gSrSem s"])
  qed
  then obtain sem where *: "if slave_arms sl (gIrqActive s)
      then spi_tx_clock_now (sl_xfer sl) (s\<lparr> gSrSem := sem, sp_mr := True \<rparr>) = (ok, t, fx)
      else t = s\<lparr> gSrSem := sem, sp_mr := False \<rparr> \<and> fx = []" ..
  have all: "same_task s t \<and> (spi_kept s \<longrightarrow> spi_kept t) \<and> \<not> sp_mr t \<and>
    gSpiStarted t = gSpiStarted s + (if slave_arms sl (gIrqActive s) then 1 else 0) \<and>
    fx = (if slave_arms sl (gIrqActive s) \<and> x_starts (sl_xfer sl) then [Clocked (gTxFrame s)] else [])"
  proof (cases "slave_arms sl (gIrqActive s)")
    case True
    with * have "spi_tx_clock_now (sl_xfer sl) (s\<lparr> gSrSem := sem, sp_mr := True \<rparr>) = (ok, t, fx)" by simp
    note c = clock_now_keeps [OF this]
    from c True show ?thesis by (simp add: same_task_def spi_kept_def)
  next
    case False
    with * show ?thesis by (simp add: same_task_def spi_kept_def)
  qed
  then show "same_task s t" "spi_kept s \<Longrightarrow> spi_kept t" "\<not> sp_mr t"
    "gSpiStarted t = gSpiStarted s + (if slave_arms sl (gIrqActive s) then 1 else 0)"
    "fx = (if slave_arms sl (gIrqActive s) \<and> x_starts (sl_xfer sl) then [Clocked (gTxFrame s)] else [])"
    by blast+
qed

lemma rx_from_slave_keeps:
  assumes "spi_rx_from_slave x s = (t, fx)"
  shows "spi_kept s \<Longrightarrow> spi_kept t" "sp_mr t = sp_mr s" "same_task s t"
proof -
  obtain ok t1 where x: "spi_do_transfer x (s\<lparr> gTxFrame := frame_make_nop, gRxFrame := spi_zero \<rparr>) = (ok, t1, fx)"
    and t: "t = (if ok then route_rx t1 else t1)"
    using assms by (cases "spi_do_transfer x (s\<lparr> gTxFrame := frame_make_nop, gRxFrame := spi_zero \<rparr>)")
      (auto simp: spi_rx_from_slave_def)
  note k = do_transfer_keeps [OF x]
  show "spi_kept s \<Longrightarrow> spi_kept t" "sp_mr t = sp_mr s" "same_task s t"
    using k route_rx_keeps [of t1] by (simp_all add: t spi_kept_def same_task_def)
qed

lemma teardown_keeps: "spi_inv s \<Longrightarrow> sp_pc s \<noteq> SpStopped \<Longrightarrow> spi_inv (spi_teardown s) \<and> hw_idle (sp_hw (spi_teardown s))"
  by (auto simp: spi_teardown_def spi_inv_def spi_kept_def irq_hw_def hw_idle_def mr_release_def Let_def
      spi_irq_route_release_def)

lemma setup_irq_hw:
  assumes "hw_idle (sp_hw s)"
  shows "irq_hw (spi_setup_slave_ready_irq grant hwi_ok s)"
  using assms
  by (auto simp: spi_setup_slave_ready_irq_def numeral_eq_Suc spi_irq_route_set_def irq_hw_def hw_idle_def
      spi_irq_route_release_def Let_def)

lemma task_keeps: "spi_inv s \<Longrightarrow> spi_inv (fst (spiTask sd sl s))"
proof -
  assume s: "spi_inv s"
  then have st: "sp_pc s \<noteq> SpStopped \<Longrightarrow> \<not> gSpiStopped s" by (auto simp: spi_inv_def spi_kept_def)
  show ?thesis
  proof (cases "sp_pc s")
    case SpWait
    then show ?thesis using s teardown_keeps [OF s]
      by (auto simp: spiTask_def spi_inv_def spi_kept_def)
  next
    case SpCtrl
    show ?thesis
    proof (cases "gSpiCtrlQueue s")
      case Nil
      then show ?thesis using s SpCtrl by (auto simp: spiTask_def spi_inv_def spi_kept_def)
    next
      case (Cons pc rest)
      define s0 where "s0 = s\<lparr> gSpiCtrlQueue := rest, gTxSeq := gTxSeq s + 1,
        gTxFrame := frame_make_ctrl pc (gTxSeq s) (word_of_nat (length rest)) \<rparr>"
      have "spi_kept s0" using s Cons by (simp add: spi_inv_def spi_kept_def s0_def)
      moreover obtain ok t fx where t: "spi_tx_current sl s0 = (ok, t, fx)" by (cases "spi_tx_current sl s0")
      ultimately show ?thesis using tx_current_keeps(2,3) [OF t] SpCtrl Cons t
        by (simp add: spiTask_def spi_tx_ctrl_def s0_def spi_inv_def)
    qed
  next
    case SpOut
    show ?thesis
    proof (cases "gSpiOutQueue s")
      case Nil
      then show ?thesis using s SpOut by (auto simp: spiTask_def spi_inv_def spi_kept_def)
    next
      case (Cons cmd rest)
      define s0 where "s0 = s\<lparr> gSpiOutQueue := rest, gTxSeq := gTxSeq s + 1,
        gTxFrame := frame_make_node_cmd cmd (gTxSeq s) (word_of_nat (length rest)) \<rparr>"
      have "spi_kept s0" using s Cons by (simp add: spi_inv_def spi_kept_def s0_def)
      moreover obtain ok t fx where t: "spi_tx_current sl s0 = (ok, t, fx)" by (cases "spi_tx_current sl s0")
      ultimately show ?thesis using tx_current_keeps(2,3) [OF t] SpOut Cons t
        by (simp add: spiTask_def spi_tx_cmd_def s0_def spi_inv_def)
    qed
  next
    case SpSlave
    obtain t fx where t: "(if sl_sr sl 0 then spi_rx_from_slave (sl_xfer sl) s else (s, [])) = (t, fx)"
      by (meson surj_pair)
    then have "spi_kept t \<and> \<not> sp_mr t \<and> same_task s t"
      using s rx_from_slave_keeps [of "sl_xfer sl" s t fx]
      by (auto simp: spi_inv_def same_task_def split: if_splits)
    then show ?thesis using t SpSlave st by (auto simp: spiTask_def spi_inv_def spi_kept_def same_task_def)
  next
    case SpStopped
    then show ?thesis using s by (simp add: spiTask_def)
  qed
qed

lemma step_keeps: "spi_step s t \<Longrightarrow> spi_inv s \<Longrightarrow> spi_inv t"
proof (induction rule: spi_step.induct)
  case (task s sd sl)
  then show ?case by (rule task_keeps)
qed (auto simp: spi_inv_def spi_kept_def spi_master_post_cmd_def spi_master_post_ctrl_def sr_bank_isr_def
    spiMcspiCallback_def spi_master_shutdown_def split: option.split)

lemma init_inv: "spi_inv (spi_master_init grant hwi_ok spi_boot)"
proof -
  define s1 where "s1 = mr_release (spi_boot\<lparr> sp_ready := True, gSpiOutQueue := [], gSpiCtrlQueue := [],
    gXferDoneSem := False, gSrSem := False \<rparr>)"
  have "hw_idle (sp_hw s1)" by (simp add: s1_def spi_boot_def mr_release_def hw_idle_def)
  then have "irq_hw (spi_setup_slave_ready_irq grant hwi_ok s1)" by (rule setup_irq_hw)
  then show ?thesis
    unfolding spi_master_init_def Let_def s1_def [symmetric] spi_inv_def spi_kept_def
    by (auto simp: spi_setup_slave_ready_irq_def numeral_eq_Suc spi_irq_route_set_def Let_def s1_def
        mr_release_def spi_boot_def spi_irq_route_release_def split: option.split)
qed

lemma reachable_inv: "spi_step\<^sup>*\<^sup>* (spi_master_init grant hwi_ok spi_boot) s \<Longrightarrow> spi_inv s"
  by (induction rule: rtranclp_induct) (auto intro: init_inv step_keeps)


subsection \<open>One round of the task\<close>

text \<open>The frames built for a queue: consecutive sequence numbers, and how many of the queue are still to come.\<close>

fun numbered :: "('a \<Rightarrow> u8 \<Rightarrow> u8 \<Rightarrow> SpiFrame) \<Rightarrow> u8 \<Rightarrow> 'a list \<Rightarrow> SpiFrame list" where
  "numbered mk sq [] = []"
| "numbered mk sq (x # xs) = mk x sq (word_of_nat (length xs)) # numbered mk (sq + 1) xs"

text \<open>Those of the frames that are handed to the driver.\<close>

definition clocked :: "bool \<Rightarrow> Slot list \<Rightarrow> SpiFrame list \<Rightarrow> spi_effect list" where
  "clocked irq sls fs = map (Clocked \<circ> snd) (filter (\<lambda>(sl, f). slave_arms sl irq \<and> x_starts (sl_xfer sl)) (zip sls fs))"

lemma clocked_simps:
  "clocked irq [] fs = []" "clocked irq (sl # sls) (f # fs) =
    (if slave_arms sl irq \<and> x_starts (sl_xfer sl) then [Clocked f] else []) @ clocked irq sls fs"
  by (simp_all add: clocked_def)

lemma clocked_append:
  "length as = length fs \<Longrightarrow> clocked irq (as @ bs) (fs @ gs) = clocked irq as fs @ clocked irq bs gs"
  by (simp add: clocked_def)

lemma length_numbered [simp]: "length (numbered mk sq xs) = length xs"
  by (induction mk sq xs rule: numbered.induct) simp_all

lemma spi_run_append:
  "spi_run (as @ bs) s = (case spi_run as s of (s1, fx) \<Rightarrow> case spi_run bs s1 of (s2, fx') \<Rightarrow> (s2, fx @ fx'))"
  by (induction as arbitrary: s) (auto split: prod.split)

lemma ctrl_drain:
  assumes "sp_pc s = SpCtrl" "gSpiCtrlQueue s = cs" "length as = length cs"
  shows "\<exists>t. spi_run as s = (t, clocked (gIrqActive s) as (numbered frame_make_ctrl (gTxSeq s) cs)) \<and>
    sp_pc t = SpCtrl \<and> gSpiCtrlQueue t = [] \<and> gSpiOutQueue t = gSpiOutQueue s \<and> gIrqActive t = gIrqActive s \<and>
    gTxSeq t = gTxSeq s + of_nat (length cs)"
  using assms
proof (induction cs arbitrary: s as)
  case Nil
  then show ?case by (simp add: clocked_simps)
next
  case (Cons c cs)
  then obtain a as' where as: "as = a # as'" by (cases as) simp_all
  define s0 where "s0 = s\<lparr> gSpiCtrlQueue := cs, gTxSeq := gTxSeq s + 1,
    gTxFrame := frame_make_ctrl c (gTxSeq s) (word_of_nat (length cs)) \<rparr>"
  obtain ok t fx where t: "spi_tx_current a s0 = (ok, t, fx)" by (cases "spi_tx_current a s0")
  note k = tx_current_keeps [OF t]
  have step: "spiTask False a s = (t, fx)"
    using Cons.prems t by (simp add: spiTask_def spi_tx_ctrl_def s0_def)
  have "sp_pc t = SpCtrl" "gSpiCtrlQueue t = cs" "length as' = length cs"
    using k(1) Cons.prems as by (simp_all add: same_task_def s0_def)
  from Cons.IH [OF this] show ?case
    using k(1,5) by (auto simp: as step same_task_def s0_def clocked_simps algebra_simps)
qed

lemma out_drain:
  assumes "sp_pc s = SpOut" "gSpiOutQueue s = cs" "length as = length cs"
  shows "\<exists>t. spi_run as s = (t, clocked (gIrqActive s) as (numbered frame_make_node_cmd (gTxSeq s) cs)) \<and>
    sp_pc t = SpOut \<and> gSpiOutQueue t = [] \<and> gSpiCtrlQueue t = gSpiCtrlQueue s \<and>
    gTxSeq t = gTxSeq s + of_nat (length cs)"
  using assms
proof (induction cs arbitrary: s as)
  case Nil
  then show ?case by (simp add: clocked_simps)
next
  case (Cons c cs)
  then obtain a as' where as: "as = a # as'" by (cases as) simp_all
  define s0 where "s0 = s\<lparr> gSpiOutQueue := cs, gTxSeq := gTxSeq s + 1,
    gTxFrame := frame_make_node_cmd c (gTxSeq s) (word_of_nat (length cs)) \<rparr>"
  obtain ok t fx where t: "spi_tx_current a s0 = (ok, t, fx)" by (cases "spi_tx_current a s0")
  note k = tx_current_keeps [OF t]
  have step: "spiTask False a s = (t, fx)"
    using Cons.prems t by (simp add: spiTask_def spi_tx_cmd_def s0_def)
  have "sp_pc t = SpOut" "gSpiOutQueue t = cs" "length as' = length cs"
    using k(1) Cons.prems as by (simp_all add: same_task_def s0_def)
  from Cons.IH [OF this] show ?case
    using k(1,5) by (auto simp: as step same_task_def s0_def clocked_simps algebra_simps)
qed

text \<open>
  C35. One round of the SPI task sends the control frames that are queued before the node commands that are
  queued, each queue in order, with consecutive sequence numbers and the count of frames still to come;
  a transfer for which the slave does not arm or the driver does not start is skipped and holds nothing up:
  both queues end empty.
\<close>

theorem round_sends_ctrl_before_cmd:
  assumes "sp_pc s = SpCtrl"
    and "length as = length (gSpiCtrlQueue s)" "length bs = length (gSpiOutQueue s)"
  shows "\<exists>t. spi_run (as @ [x] @ bs @ [y]) s = (t, clocked (gIrqActive s) (as @ bs)
      (numbered frame_make_ctrl (gTxSeq s) (gSpiCtrlQueue s) @
       numbered frame_make_node_cmd (gTxSeq s + of_nat (length (gSpiCtrlQueue s))) (gSpiOutQueue s))) \<and>
    sp_pc t = SpSlave \<and> gSpiCtrlQueue t = [] \<and> gSpiOutQueue t = []"
proof -
  obtain t1 where t1: "spi_run as s = (t1, clocked (gIrqActive s) as (numbered frame_make_ctrl (gTxSeq s) (gSpiCtrlQueue s)))"
    "sp_pc t1 = SpCtrl" "gSpiCtrlQueue t1 = []" "gSpiOutQueue t1 = gSpiOutQueue s" "gIrqActive t1 = gIrqActive s"
    "gTxSeq t1 = gTxSeq s + of_nat (length (gSpiCtrlQueue s))"
    using ctrl_drain [OF assms(1) refl assms(2)] by blast
  define t2 where "t2 = t1\<lparr> sp_pc := SpOut \<rparr>"
  have s2: "spi_run [x] t1 = (t2, [])" using t1 by (simp add: spiTask_def t2_def)
  have "length bs = length (gSpiOutQueue t2)" using assms(3) t1 by (simp add: t2_def)
  then obtain t3 where t3: "spi_run bs t2 = (t3, clocked (gIrqActive t2) bs (numbered frame_make_node_cmd (gTxSeq t2) (gSpiOutQueue t2)))"
    "sp_pc t3 = SpOut" "gSpiOutQueue t3 = []" "gSpiCtrlQueue t3 = gSpiCtrlQueue t2"
    using out_drain [of t2, OF _ refl, of bs] by (auto simp: t2_def)
  have s4: "spi_run [y] t3 = (t3\<lparr> sp_pc := SpSlave \<rparr>, [])" using t3 by (simp add: spiTask_def)
  show ?thesis
    using t1 s2 t3 s4 assms(2)
    by (simp only: spi_run_append clocked_append length_numbered) (simp add: t2_def)
qed

text \<open>A control frame and a node command, both sent: the control frame is number 1, the command number 2.\<close>

definition prompt_slot :: Slot where
  "prompt_slot = \<lparr> sl_sr = (\<lambda>n. n < 2), sl_sem = False,
     sl_xfer = \<lparr> x_starts = True, x_callback = True, x_late = False, x_rx = replicate 128 0, x_completed = True \<rparr> \<rparr>"

definition busy_spi :: SpiMaster where
  "busy_spi = spi_boot\<lparr> sp_ready := True, gIrqActive := True, gIrqOutp := 4, sp_pc := SpCtrl,
     gSpiCtrlQueue := [\<lparr> pc_op = 2, pc_cmd = 6, pc_factory_id = replicate 8 9 \<rparr>],
     gSpiOutQueue := [\<lparr> nf_factory_id = replicate 8 9, nf_msg = msg_zero \<rparr>] \<rparr>"

theorem round_sends_ctrl_before_cmd_witness:
  "\<exists>t. spi_run [prompt_slot, prompt_slot, prompt_slot, prompt_slot] busy_spi = (t,
     [Clocked (frame_make_ctrl \<lparr> pc_op = 2, pc_cmd = 6, pc_factory_id = replicate 8 9 \<rparr> 1 0),
      Clocked (frame_make_node_cmd \<lparr> nf_factory_id = replicate 8 9, nf_msg = msg_zero \<rparr> 2 0)]) \<and>
     sp_pc t = SpSlave \<and> gSpiCtrlQueue t = [] \<and> gSpiOutQueue t = []"
  using round_sends_ctrl_before_cmd [of busy_spi "[prompt_slot]" "[prompt_slot]" prompt_slot prompt_slot]
  by (simp add: busy_spi_def spi_boot_def prompt_slot_def clocked_simps slave_arms_def)

text \<open>
  C36. In every state that the SPI link reaches from power-up, whatever the slave, the driver and the other
  tasks do between two slots of the master's task, MASTER_READY is released, every started transfer is counted as
  done or timed out, no queue holds more than its depth, and the interrupt is either wired to exactly one router output
  with its matching vector or owns nothing; a stopped task owns nothing.
\<close>

theorem spi_master_sound:
  assumes "spi_step\<^sup>*\<^sup>* (spi_master_init grant hwi_ok spi_boot) s"
  shows "\<not> sp_mr s \<and> gSpiStarted s = gSpiDone s + gSpiTimeout s \<and>
    length (gSpiOutQueue s) \<le> 8 \<and> length (gSpiCtrlQueue s) \<le> 4 \<and> length (gNodeInQueue s) \<le> 8 \<and>
    (if gIrqActive s
     then hw_routes (sp_hw s) = [nat (gIrqOutp s)] \<and> hw_hwi (sp_hw s) = Some (gIrqOutp s - 4 + 16) \<and> \<not> gSpiStopped s
     else hw_idle (sp_hw s))"
  using reachable_inv [OF assms] by (auto simp: spi_inv_def spi_kept_def irq_hw_def)

text \<open>Router output 5 is the first one granted; a command is queued, then the task is stopped.\<close>

definition started_spi :: SpiMaster where
  "started_spi = spi_master_init (\<lambda>n. n = 5 \<or> n = 6) True spi_boot"

theorem spi_master_sound_witness:
  "\<exists>s t. spi_step\<^sup>*\<^sup>* (spi_master_init (\<lambda>n. n = 5 \<or> n = 6) True spi_boot) s \<and> spi_step\<^sup>*\<^sup>* s t \<and>
     gIrqActive s \<and> gSpiOutQueue s = [\<lparr> nf_factory_id = replicate 8 9, nf_msg = msg_zero \<rparr>] \<and>
     \<not> sp_mr s \<and> hw_routes (sp_hw s) = [5] \<and> hw_hwi (sp_hw s) = Some 17 \<and>
     gSpiStopped t \<and> \<not> sp_mr t \<and> hw_idle (sp_hw t)"
proof -
  define a where "a = snd (spi_master_post_cmd (Some \<lparr> nf_factory_id = replicate 8 9, nf_msg = msg_zero \<rparr>) started_spi)"
  define b where "b = fst (spiTask True prompt_slot a)"
  have ra: "spi_step\<^sup>*\<^sup>* (spi_master_init (\<lambda>n. n = 5 \<or> n = 6) True spi_boot) a"
    unfolding a_def started_spi_def by (intro r_into_rtranclp spi_step.cmd)
  then have rb: "spi_step\<^sup>*\<^sup>* (spi_master_init (\<lambda>n. n = 5 \<or> n = 6) True spi_boot) b"
    unfolding b_def by (rule rtranclp.rtrancl_into_rtrancl) (rule spi_step.task)
  have 0: "gIrqActive started_spi" "gIrqOutp started_spi = 5" "sp_ready started_spi" "gSpiOutQueue started_spi = []"
    "sp_pc started_spi = SpWait"
    by (simp_all add: started_spi_def spi_master_init_def spi_setup_slave_ready_irq_def numeral_eq_Suc
        spi_irq_route_set_def Let_def mr_release_def spi_boot_def)
  have A: "gIrqActive a" "gIrqOutp a = 5" "gSpiOutQueue a = [\<lparr> nf_factory_id = replicate 8 9, nf_msg = msg_zero \<rparr>]" "sp_pc a = SpWait"
    using 0 by (simp_all add: a_def spi_master_post_cmd_def)
  have B: "gSpiStopped b" "\<not> gIrqActive b"
    using A(1,4) by (simp_all add: b_def spiTask_def spi_teardown_def Let_def mr_release_def)
  have "spi_step\<^sup>*\<^sup>* a b" unfolding b_def by (intro r_into_rtranclp spi_step.task)
  then show ?thesis
    using ra A B spi_master_sound [OF ra] spi_master_sound [OF rb] by - (rule exI [of _ a], rule exI [of _ b], simp)
qed

subsection \<open>Waiting ends\<close>

lemma poll_from: "poll_ready waited sr \<longleftrightarrow> (\<exists>k. waited + 2 * k < 500 \<and> sr (waited div 2 + k))"
proof (induction waited sr rule: poll_ready.induct)
  case (1 waited sr)
  have step: "(\<exists>k. waited + 2 * k < 500 \<and> sr (waited div 2 + k)) \<longleftrightarrow>
      waited < 500 \<and> (sr (waited div 2) \<or> (\<exists>k. (waited + 2) + 2 * k < 500 \<and> sr ((waited + 2) div 2 + k)))"
    (is "?L \<longleftrightarrow> ?R")
  proof
    assume ?L
    then obtain k where k: "waited + 2 * k < 500" "sr (waited div 2 + k)" by blast
    then show ?R by (cases k) (auto intro: exI [of _ "k - 1"])
  next
    assume ?R
    then show ?L
    proof (elim conjE disjE exE)
      assume "waited < 500" "sr (waited div 2)"
      then show ?L by (intro exI [of _ 0]) simp
    next
      fix k
      assume "waited + 2 + 2 * k < 500" "sr ((waited + 2) div 2 + k)"
      then show ?L by (intro exI [of _ "Suc k"]) simp
    qed
  qed
  show ?case
    by (subst poll_ready.simps, subst step) (use "1.IH" in auto)
qed

lemma shutdown_from:
  "shutdown_wait stopped ms (10 * k) = (b, w) \<Longrightarrow>
     w < max (10 * k + 1) (ms + 10) \<and> 10 dvd w \<and> (b \<longleftrightarrow> stopped (w div 10)) \<and>
     (\<forall>j. k \<le> j \<and> j < w div 10 \<longrightarrow> \<not> stopped j) \<and> k \<le> w div 10 \<and> (\<not> b \<longrightarrow> ms \<le> w)"
proof (induction "ms - 10 * k" arbitrary: k rule: less_induct)
  case less
  show ?case
  proof (cases "\<not> stopped k \<and> 10 * k < ms")
    case True
    then have "shutdown_wait stopped ms (10 * Suc k) = (b, w)"
      using less.prems by (simp add: shutdown_wait.simps [of stopped ms "10 * k"] add.commute)
    moreover have "ms - 10 * Suc k < ms - 10 * k" using True by (intro diff_less_mono2) auto
    ultimately have *: "w < max (10 * Suc k + 1) (ms + 10) \<and> 10 dvd w \<and> (b \<longleftrightarrow> stopped (w div 10)) \<and>
     (\<forall>j. Suc k \<le> j \<and> j < w div 10 \<longrightarrow> \<not> stopped j) \<and> Suc k \<le> w div 10 \<and> (\<not> b \<longrightarrow> ms \<le> w)"
      using less.hyps by blast
    then have "\<not> stopped j" if "k \<le> j" "j < w div 10" for j
      using True that by (cases "j = k") auto
    then show ?thesis using * True by auto
  next
    case False
    then show ?thesis using less.prems by (auto simp: shutdown_wait.simps [of stopped ms "10 * k"])
  qed
qed

text \<open>
  The two waits of the module end: polling for the slave to arm takes at most 250 samples and succeeds
  exactly when one of them finds the line low; the wait for the task to stop ends less than 10 ms after its
  limit, at the first look that finds the task stopped, or not before the limit.
\<close>

theorem waits_end:
  "(poll_ready 0 sr \<longleftrightarrow> (\<exists>k < 250. sr k)) \<and>
   (\<exists>b w. shutdown_wait stopped ms 0 = (b, w) \<and> w < ms + 10 \<and> b = stopped (w div 10) \<and>
     {j. j < w div 10 \<and> stopped j} = {} \<and> (b \<or> ms \<le> w))"
proof
  show "poll_ready 0 sr \<longleftrightarrow> (\<exists>k < 250. sr k)" using poll_from [of 0 sr] by auto
  obtain b w where r: "shutdown_wait stopped ms (10 * 0) = (b, w)" by (meson surj_pair)
  show "\<exists>b w. shutdown_wait stopped ms 0 = (b, w) \<and> w < ms + 10 \<and> b = stopped (w div 10) \<and>
     {j. j < w div 10 \<and> stopped j} = {} \<and> (b \<or> ms \<le> w)"
    using shutdown_from [OF r] r by (intro exI [of _ b] exI [of _ w]) auto
qed

subsection \<open>A late callback\<close>

text \<open>
  The semaphore of the completion callback is not emptied before a transfer: when a transfer times out and
  its callback comes after that, the wait of the next transfer ends at once, before that transfer is done.
\<close>

lemma late_callback_ends_next_wait:
  assumes "\<not> gXferDoneSem s" "x_starts x" "\<not> x_callback x" "x_late x" "spi_do_transfer x s = (ok, t, fx)"
    and "x_starts y" "\<not> x_callback y" "spi_do_transfer y t = (ok', u, fx')"
  shows "\<not> ok \<and> ok' = x_completed y \<and> gSpiDone u = gSpiDone s + 1"
  using assms by (auto simp: spi_do_transfer_def spiMcspiCallback_def Let_def)

end
