(* ===== verification/RadioLink.thy ===== *)
theory RadioLink
  imports RadioTask
begin

text \<open>
  What the radio task does with the packets of the RF protocol, which sends
  \<open>[dest][tag][src]([factory id])[message][seq][checksum]\<close>: the packet it builds, the frame and the reply it
  makes of one, and the retries.
\<close>

text \<open>An RF packet with the factory id \<open>fid\<close> (eight bytes, or none in the legacy form) and the message bytes \<open>mb\<close>.\<close>

definition rf_body :: "u8 \<Rightarrow> u8 list \<Rightarrow> u8 list \<Rightarrow> u8 \<Rightarrow> u8 list" where
  "rf_body src fid mb sq = [src] @ fid @ mb @ [sq]"

definition rf_pkt :: "u8 \<Rightarrow> u8 \<Rightarrow> u8 list \<Rightarrow> u8 list \<Rightarrow> u8 \<Rightarrow> u8 list" where
  "rf_pkt dest src fid mb sq =
     [dest, if fid = [] then RF_FRAME_TAG_LEGACY else RF_FRAME_TAG_V2] @ rf_body src fid mb sq @
     [calcChecksum (rf_body src fid mb sq)]"

definition rf_ok :: "u8 list \<Rightarrow> u8 list \<Rightarrow> bool" where
  "rf_ok fid mb \<longleftrightarrow> (fid = [] \<or> length fid = 8) \<and> 4 \<le> length mb \<and> length mb \<le> 44"

lemma length_rf_pkt [simp]: "length (rf_pkt d src fid mb sq) = 5 + length fid + length mb"
  by (simp add: rf_pkt_def rf_body_def)

subsection \<open>The packet sent\<close>

lemma take_len: "length xs = n \<Longrightarrow> take n (xs @ ys) = xs"
  by simp

lemma update_at: "length xs + length ys = n \<Longrightarrow> (xs @ ys @ a # zs)[n := b] = xs @ ys @ b # zs"
  by (metis append.assoc length_append list_update_length)

lemma blit_at: "length pre = n \<Longrightarrow> length mid = length bs \<Longrightarrow> blit (pre @ mid @ post) n bs = pre @ bs @ post"
  by (simp add: blit_def)

text \<open>The steps that both ends build a packet with: message, sequence number and checksum behind a header.\<close>

lemma frame_build:
  fixes sq :: u8
  assumes pre: "length pre = hdr" "2 \<le> hdr" and mb: "length mb = L" and rest: "L + 2 \<le> length rest"
  defines "f4 \<equiv> (blit (pre @ rest) hdr mb)[hdr + L := sq]"
  shows "take (hdr + L + 1 + 1) (f4[hdr + L + 1 := calcChecksum (take (hdr - 2 + L + 1) (drop 2 f4))]) =
    pre @ mb @ [sq, calcChecksum (drop 2 pre @ mb @ [sq])]"
proof -
  define rest2 where "rest2 = drop (L + 2) rest"
  obtain x y where "drop L rest = x # y # rest2"
  proof -
    have "2 \<le> length (drop L rest)" using rest by simp
    then obtain x y r where "drop L rest = x # y # r"
      unfolding numeral_2_eq_2 by (metis Suc_le_length_iff)
    moreover from this have "r = rest2" unfolding rest2_def by (metis add.commute drop_drop drop_Suc_Cons drop0 numeral_2_eq_2)
    ultimately show thesis using that by blast
  qed
  then have "rest = take L rest @ x # y # rest2" by (metis append_take_drop_id)
  moreover have "length (take L rest) = length mb" using rest mb by simp
  ultimately have "blit (pre @ rest) hdr mb = pre @ mb @ x # y # rest2"
    using blit_at [OF pre(1), of "take L rest" mb] by metis
  then have f4: "f4 = pre @ mb @ sq # y # rest2"
    unfolding f4_def by (simp only:) (rule update_at, simp only: pre mb)
  have "drop 2 f4 = (drop 2 pre @ mb @ [sq]) @ y # rest2" using pre by (simp add: f4)
  moreover have "length (drop 2 pre @ mb @ [sq]) = hdr - 2 + L + 1" using pre mb by simp
  ultimately have body: "take (hdr - 2 + L + 1) (drop 2 f4) = drop 2 pre @ mb @ [sq]" by (metis take_len)
  have "f4[hdr + L + 1 := c] = (pre @ mb @ [sq, c]) @ rest2" for c
    using update_at [of pre "mb @ [sq]" "hdr + L + 1" y rest2 c] pre mb by (simp add: f4)
  moreover have "length (pre @ mb @ [sq, c]) = hdr + L + 1 + 1" for c using pre mb by simp
  ultimately show ?thesis unfolding body by (metis take_len)
qed

lemma radio_frame_packet:
  assumes buf: "length buf = 70" and nf: "wf_frame nf" and len: "unat (m_length (nf_msg nf)) \<le> 44"
  shows "radio_frame buf nf sq = Some (rf_pkt (m_id (nf_msg nf)) 0
    (if has_factory (nf_factory_id nf) then nf_factory_id nf else [])
    (take (unat (m_length (nf_msg nf))) (msg_bytes (nf_msg nf))) sq)"
proof -
  define L where "L = unat (m_length (nf_msg nf))"
  define mb where "mb = take L (msg_bytes (nf_msg nf))"
  have mb: "length mb = L" using nf len by (simp add: mb_def L_def wf_frame_def wf_msg_def)
  define fid where "fid = (if has_factory (nf_factory_id nf) then nf_factory_id nf else [])"
  define hdr where "hdr = (if has_factory (nf_factory_id nf) then 11 else 3 :: nat)"
  have fid: "length fid = hdr - 3" "3 \<le> hdr" "hdr \<le> 11" "fid \<noteq> [] \<longleftrightarrow> has_factory (nf_factory_id nf)"
    using nf by (auto simp: fid_def hdr_def wf_frame_def)
  define tag where "tag = (if fid = [] then RF_FRAME_TAG_LEGACY else RF_FRAME_TAG_V2)"
  let ?pre = "[m_id (nf_msg nf), tag, 0] @ fid"
  have head: "(if has_factory (nf_factory_id nf)
      then blit ((buf[0 := m_id (nf_msg nf), 2 := 0])[1 := RF_FRAME_TAG_V2]) 3 (nf_factory_id nf)
      else (buf[0 := m_id (nf_msg nf), 2 := 0])[1 := RF_FRAME_TAG_LEGACY]) = ?pre @ drop hdr buf"
  proof -
    obtain a b c r where r: "buf = a # b # c # r" "length r = 67"
      using buf by (auto simp: numeral_eq_Suc length_Suc_conv)
    show ?thesis using nf r
      by (auto simp: tag_def fid_def hdr_def blit_def wf_frame_def numeral_eq_Suc)
  qed
  have pre: "length ?pre = hdr" "2 \<le> hdr" using fid by auto
  have rest: "L + 2 \<le> length (drop hdr buf)" "\<not> (44 < L \<or> 70 < hdr + L + 2)" using buf fid(3) len by (simp_all add: L_def)
  have "radio_frame buf nf sq = Some (?pre @ mb @ [sq, calcChecksum (drop 2 ?pre @ mb @ [sq])])"
    unfolding radio_frame_def Let_def head L_def [symmetric] mb_def [symmetric] hdr_def [symmetric]
      fid_def [symmetric] MESSAGE_SIZE_def RF_MAX_MSG_SIZE_def
    by (simp only: rest(2) if_False frame_build [OF pre mb rest(1)])
  then show ?thesis by (simp add: rf_pkt_def rf_body_def tag_def fid_def mb_def L_def)
qed

subsection \<open>The packet received\<close>

text \<open>The frame an uplink stands for; message bytes that were not sent are zero.\<close>

definition uplink_frame :: "u8 list \<Rightarrow> u8 list \<Rightarrow> NodeFrame" where
  "uplink_frame fid mb = \<lparr> nf_factory_id = (if fid = [] then replicate 8 0 else fid),
     nf_msg = msg_of_bytes (blit (msg_bytes msg_zero) 0 mb) \<rparr>"

text \<open>The reply it gets, and whether it confirms the command that is pending for its chip.\<close>

definition reply_byte :: "(u8 list \<rightharpoonup> u8) \<Rightarrow> u8 list \<Rightarrow> u8 list \<Rightarrow> u8 \<Rightarrow> u8 \<times> u8" where
  "reply_byte m fid mb crc = (case m fid of
     Some c \<Rightarrow> if fid \<noteq> [] \<and> c \<noteq> 0 \<and> mb ! 2 \<noteq> c then (RF_REPLY_NACK, c) else (RF_REPLY_ACK, crc)
   | None \<Rightarrow> (RF_REPLY_ACK, crc))"

definition after_reply :: "(u8 list \<rightharpoonup> u8) \<Rightarrow> u8 list \<Rightarrow> u8 list \<Rightarrow> (u8 list \<rightharpoonup> u8)" where
  "after_reply m fid mb = (if fid \<noteq> [] \<and> mb ! 2 \<noteq> 0 \<and> m fid = Some (mb ! 2) then m(fid := None) else m)"

definition rf_reply :: "(u8 list \<rightharpoonup> u8) \<Rightarrow> u8 \<Rightarrow> u8 \<Rightarrow> u8 list \<Rightarrow> u8 list \<Rightarrow> u8 \<Rightarrow> u8 list" where
  "rf_reply m dest src fid mb sq =
     (case reply_byte m fid mb (calcChecksum (rf_body src fid mb sq)) of (tag, b3) \<Rightarrow> [src, tag, dest, b3])"

lemma buffer_fields:
  assumes ok: "rf_ok fid mb" and b: "b = rf_pkt dest src fid mb sq @ rest"
  shows "b ! 0 = dest" "b ! 1 = (if fid = [] then 0x44 else 0x45)" "b ! 2 = src"
    "b ! (4 + length fid + length mb) = calcChecksum (rf_body src fid mb sq)"
    "take (2 + length fid + length mb) (drop 2 b) = rf_body src fid mb sq"
    "take (length mb) (drop (3 + length fid) b) = mb"
    "fid \<noteq> [] \<Longrightarrow> take 8 (drop 3 b) = fid \<and> b ! 13 = mb ! 2"
proof -
  let ?c = "calcChecksum (rf_body src fid mb sq)"
  show "b ! 0 = dest" "b ! 1 = (if fid = [] then 0x44 else 0x45)" "b ! 2 = src"
    by (simp_all add: b rf_pkt_def rf_body_def)
  have B: "b = ([dest, if fid = [] then 0x44 else 0x45] @ rf_body src fid mb sq) @ ?c # rest"
    by (simp add: b rf_pkt_def)
  have "length ([dest, if fid = [] then 0x44 else 0x45] @ rf_body src fid mb sq) = 4 + length fid + length mb"
    by (simp add: rf_body_def)
  then show "b ! (4 + length fid + length mb) = ?c" unfolding B by (metis nth_append_length)
  have "drop 2 b = rf_body src fid mb sq @ ?c # rest" by (simp add: B)
  then show "take (2 + length fid + length mb) (drop 2 b) = rf_body src fid mb sq"
    by (metis (no_types) take_len length_append length_Cons list.size(3) rf_body_def One_nat_def add.assoc add.commute plus_1_eq_Suc one_add_one)
  have D: "b = ([dest, if fid = [] then 0x44 else 0x45, src] @ fid) @ mb @ sq # ?c # rest"
    by (simp add: b rf_pkt_def rf_body_def)
  have L: "length ([dest, if fid = [] then 0x44 else 0x45, src] @ fid) = 3 + length fid" by simp
  show "take (length mb) (drop (3 + length fid) b) = mb" unfolding D L [symmetric] by simp
  show "take 8 (drop 3 b) = fid \<and> b ! 13 = mb ! 2" if f: "fid \<noteq> []"
  proof
    have 8: "length fid = 8" using ok f by (simp add: rf_ok_def)
    then show "take 8 (drop 3 b) = fid" by (simp add: D)
    show "b ! 13 = mb ! 2" using L 8 ok unfolding D by (simp add: nth_append rf_ok_def)
  qed
qed

lemma deframe_packet:
  assumes ok: "rf_ok fid mb" and b: "b = rf_pkt dest src fid mb sq @ rest"
  shows "deframe b (5 + length fid + length mb) = Some (uplink_frame fid mb)"
proof (cases "fid = []")
  case True
  then show ?thesis using buffer_fields [OF ok b] ok
    by (simp add: deframe_def uplink_frame_def rf_ok_def)
next
  case False
  then have "length fid = 8" using ok by (simp add: rf_ok_def)
  then show ?thesis using buffer_fields [OF ok b] ok False
    by (simp add: deframe_def uplink_frame_def rf_ok_def)
qed

lemma choose_reply_packet:
  assumes ok: "rf_ok fid mb" and b: "b = rf_pkt dest src fid mb sq @ rest" and g: "pend_inv g"
  shows "\<exists>g'. choose_reply b (5 + length fid + length mb) g = (rf_reply (pend_map g) dest src fid mb sq, g') \<and>
    pend_inv g' \<and> pend_map g' = after_reply (pend_map g) fid mb"
proof (cases "fid = []")
  case True
  then show ?thesis using buffer_fields [OF ok b] g
    by (simp add: choose_reply_def rf_reply_def reply_byte_def after_reply_def split: option.split)
next
  case False
  then have "length fid = 8" "4 \<le> length mb" using ok by (simp_all add: rf_ok_def)
  then show ?thesis using buffer_fields [OF ok b] False g
    by (auto simp: choose_reply_def rf_reply_def reply_byte_def after_reply_def lookup_map Let_def
        pend_table.find_disarm pend_table.inv_disarm split: option.split)
qed

definition radio_ok :: "Radio \<Rightarrow> bool" where
  "radio_ok s \<longleftrightarrow> pend_inv (gPending s) \<and> length (rxMsg s) = 70"

lemma rx_packet:
  assumes s: "radio_ok s" and ok: "rf_ok fid mb" and dest: "dest = 0 \<or> dest = 0xF0"
  shows "\<exists>s'. radio_rx_packet (rf_pkt dest src fid mb sq) s = Some (s',
      (if dest = 0 then [RfTx (rf_reply (pend_map (gPending s)) dest src fid mb sq)] else []) @ [UplinkEvent]) \<and>
    radio_ok s' \<and> pend_map (gPending s') = (if dest = 0 then after_reply (pend_map (gPending s)) fid mb else pend_map (gPending s)) \<and>
    spiQueue s' = (if length (spiQueue s) < 10 then spiQueue s @ [uplink_frame fid mb] else spiQueue s) \<and>
    radioQueue s' = radioQueue s"
proof -
  let ?p = "rf_pkt dest src fid mb sq" and ?n = "5 + length fid + length mb"
  have n: "?n \<le> 57" using ok by (auto simp: rf_ok_def)
  define b where "b = blit (rxMsg s) 0 ?p"
  have b: "b = ?p @ drop ?n (rxMsg s)" by (simp add: b_def blit_def)
  have lb: "length b = 70" using s n by (simp add: b radio_ok_def)
  have copy: "rx_copy ?p (rxMsg s) = Some b" using n by (simp add: rx_copy_def b_def)
  note f = buffer_fields [OF ok b]
  obtain g' where g': "choose_reply b ?n (gPending s) = (rf_reply (pend_map (gPending s)) dest src fid mb sq, g')"
      "pend_inv g'" "pend_map g' = after_reply (pend_map (gPending s)) fid mb"
    using choose_reply_packet [OF ok b] s unfolding radio_ok_def by blast
  have sum: "b ! (?n - 1) = calcChecksum (take (?n - 3) (drop 2 b))"
  proof -
    have "?n - 1 = 4 + length fid + length mb" "?n - 3 = 2 + length fid + length mb" by simp_all
    then show ?thesis by (simp only: f(4,5))
  qed
  show ?thesis
    using s dest f(1,2) g' sum deframe_packet [OF ok b] lb
    by (auto simp: radio_rx_packet_def copy Let_def radio_ok_def)
qed


lemma queue_room:
  "(if length q < 10 then q @ [x] else q) @ take (10 - length (if length q < 10 then q @ [x] else q)) xs =
   q @ take (10 - length q) (x # xs)"
proof (cases "length q < 10")
  case True
  then have "10 - length q = Suc (10 - Suc (length q))" by simp
  then show ?thesis using True by simp
qed simp

lemma answer_again: "rf_reply (after_reply m fid mb) dest src fid mb sq = rf_reply m dest src fid mb sq"
  by (simp add: rf_reply_def reply_byte_def after_reply_def split: option.split)

lemma after_again: "after_reply (after_reply m fid mb) fid mb = after_reply m fid mb"
  by (simp add: after_reply_def)

text \<open>Every copy of a packet that is heard gets the same reply.\<close>

lemma same_packets:
  assumes "radio_ok g" "rf_ok fid mb"
  shows "\<exists>g'. radio_rx_event (replicate c (rf_pkt 0 src fid mb sq)) g =
      Some (g', concat (replicate c [RfTx (rf_reply (pend_map (gPending g)) 0 src fid mb sq), UplinkEvent])) \<and>
    spiQueue g' = spiQueue g @ take (10 - length (spiQueue g)) (replicate c (uplink_frame fid mb)) \<and>
    radio_ok g' \<and> pend_map (gPending g') = (if c = 0 then pend_map (gPending g) else after_reply (pend_map (gPending g)) fid mb)"
  using assms(1)
proof (induction c arbitrary: g)
  case (Suc c)
  obtain g1 where g1: "radio_rx_packet (rf_pkt 0 src fid mb sq) g =
        Some (g1, [RfTx (rf_reply (pend_map (gPending g)) 0 src fid mb sq)] @ [UplinkEvent])"
      "radio_ok g1" "pend_map (gPending g1) = after_reply (pend_map (gPending g)) fid mb"
      "spiQueue g1 = (if length (spiQueue g) < 10 then spiQueue g @ [uplink_frame fid mb] else spiQueue g)"
    using rx_packet [OF Suc.prems assms(2), of 0 src sq] by auto
  note room = queue_room [of "spiQueue g" "uplink_frame fid mb", folded g1(4)]
  obtain g2 where "radio_rx_event (replicate c (rf_pkt 0 src fid mb sq)) g1 =
      Some (g2, concat (replicate c [RfTx (rf_reply (pend_map (gPending g)) 0 src fid mb sq), UplinkEvent]))"
      "spiQueue g2 = spiQueue g1 @ take (10 - length (spiQueue g1)) (replicate c (uplink_frame fid mb))"
      "radio_ok g2" "pend_map (gPending g2) = after_reply (pend_map (gPending g)) fid mb"
    using Suc.IH [OF g1(2)] unfolding g1(3) answer_again after_again if_cancel by blast
  then show ?case using g1(1) by (auto simp del: take_replicate simp: room)
qed simp

lemma rx_event_append:
  "radio_rx_event (ps @ qs) g = (case radio_rx_event ps g of
     None \<Rightarrow> None
   | Some (g1, fx) \<Rightarrow> (case radio_rx_event qs g1 of None \<Rightarrow> None | Some (g2, fx') \<Rightarrow> Some (g2, fx @ fx')))"
  by (induction ps arbitrary: g) (auto split: option.splits prod.splits)

subsection \<open>A sequence of uplinks\<close>

record Uplink =
  up_dest :: u8
  up_src :: u8
  up_fid :: "u8 list"
  up_msg :: "u8 list"
  up_seq :: u8

definition uplink_ok :: "Uplink \<Rightarrow> bool" where
  "uplink_ok u \<longleftrightarrow> rf_ok (up_fid u) (up_msg u) \<and> (up_dest u = 0 \<or> up_dest u = 0xF0)"

definition uplink_pkt :: "Uplink \<Rightarrow> u8 list" where
  "uplink_pkt u = rf_pkt (up_dest u) (up_src u) (up_fid u) (up_msg u) (up_seq u)"

text \<open>What goes on air for a sequence of uplinks when \<open>m\<close> says which command each chip is to get.\<close>

fun answers :: "(u8 list \<rightharpoonup> u8) \<Rightarrow> Uplink list \<Rightarrow> radio_effect list" where
  "answers m [] = []"
| "answers m (u # us) =
     (if up_dest u = 0
      then RfTx (rf_reply m 0 (up_src u) (up_fid u) (up_msg u) (up_seq u)) # UplinkEvent #
        answers (after_reply m (up_fid u) (up_msg u)) us
      else UplinkEvent # answers m us)"

text \<open>
  C28. The radio task turns every valid uplink, in order, into the frame of its message bytes and chip id for
  the SPI task while there is room for it, and answers each one that is addressed to this gateway with a
  single four-byte reply: an ACK with the packet's checksum, or, as long as a command is pending for the
  chip and the uplink does not carry that command itself, a NACK with the command; the uplink that carries
  it clears the entry. Uplinks of the older network are passed on and never answered.
\<close>

theorem uplinks_passed_on_and_answered:
  assumes "radio_ok s" and "list_all uplink_ok us"
  shows "\<exists>s'. radio_rx_event (map uplink_pkt us) s = Some (s', answers (pend_map (gPending s)) us) \<and> radio_ok s' \<and>
    spiQueue s' = spiQueue s @ take (10 - length (spiQueue s)) (map (\<lambda>u. uplink_frame (up_fid u) (up_msg u)) us) \<and>
    radioQueue s' = radioQueue s"
  using assms
proof (induction us arbitrary: s)
  case (Cons u us)
  let ?m = "pend_map (gPending s)"
  have u: "rf_ok (up_fid u) (up_msg u)" "up_dest u = 0 \<or> up_dest u = 0xF0" "list_all uplink_ok us"
    using Cons.prems by (simp_all add: uplink_ok_def [abs_def])
  obtain s1 where s1: "radio_rx_packet (uplink_pkt u) s = Some (s1,
        (if up_dest u = 0 then [RfTx (rf_reply ?m (up_dest u) (up_src u) (up_fid u) (up_msg u) (up_seq u))] else []) @ [UplinkEvent])"
      "radio_ok s1" "pend_map (gPending s1) = (if up_dest u = 0 then after_reply ?m (up_fid u) (up_msg u) else ?m)"
      "spiQueue s1 = (if length (spiQueue s) < 10 then spiQueue s @ [uplink_frame (up_fid u) (up_msg u)] else spiQueue s)"
      "radioQueue s1 = radioQueue s"
    using rx_packet [OF Cons.prems(1) u(1,2)] unfolding uplink_pkt_def by blast
  note room = queue_room [of "spiQueue s" "uplink_frame (up_fid u) (up_msg u)", folded s1(4)]
  obtain s2 where s2: "radio_rx_event (map uplink_pkt us) s1 = Some (s2, answers (pend_map (gPending s1)) us)" "radio_ok s2"
      "spiQueue s2 = spiQueue s1 @ take (10 - length (spiQueue s1)) (map (\<lambda>u. uplink_frame (up_fid u) (up_msg u)) us)"
      "radioQueue s2 = radioQueue s1"
    using Cons.IH [OF s1(2) u(3)] by blast
  have "radio_rx_event (map uplink_pkt (u # us)) s = Some (s2, answers ?m (u # us))"
    using s1(1,3) s2(1) by (cases "up_dest u = 0") simp_all
  moreover have "spiQueue s2 = spiQueue s @ take (10 - length (spiQueue s)) (map (\<lambda>u. uplink_frame (up_fid u) (up_msg u)) (u # us))"
    unfolding s2(3) room by (simp only: list.map)
  ultimately show ?case using s2(2,4) s1(5) by metis
qed simp


text \<open>A chip with the command 6 pending reports, confirms, and reports again; then a node of the older network reports.\<close>

definition demo_fid :: "u8 list" where "demo_fid = [1, 2, 3, 4, 5, 6, 7, 8]"

definition demo_radio :: Radio where
  "demo_radio = \<lparr> gPending = pending_arm demo_fid 6 pending_boot, radioQueue = [], spiQueue = [], txSequenceNumber = 0,
     rxMsg = replicate 70 0 \<rparr>"

definition demo_uplinks :: "Uplink list" where
  "demo_uplinks =
     [\<lparr> up_dest = 0, up_src = 0x21, up_fid = demo_fid, up_msg = [0x21, 6, 0, 4], up_seq = 1 \<rparr>,
      \<lparr> up_dest = 0, up_src = 0x21, up_fid = demo_fid, up_msg = [0x21, 6, 6, 4], up_seq = 2 \<rparr>,
      \<lparr> up_dest = 0, up_src = 0x21, up_fid = demo_fid, up_msg = [0x21, 6, 0, 4], up_seq = 3 \<rparr>,
      \<lparr> up_dest = 0xF0, up_src = 0xF1, up_fid = [], up_msg = [0xF1, 0, 0, 4], up_seq = 9 \<rparr>]"

lemma demo_pending: "pend_map (gPending demo_radio) = [demo_fid \<mapsto> 6]"
proof -
  have "pend_map pending_boot = Map.empty" using boot_inv by blast
  then show ?thesis
    using pend_table.find_arm [of pending_boot demo_fid 6] boot_inv by (simp add: demo_radio_def)
qed

theorem uplinks_passed_on_and_answered_witness:
  "\<exists>s'. radio_rx_event (map uplink_pkt demo_uplinks) demo_radio = Some (s',
     [RfTx [0x21, 0x4E, 0, 6], UplinkEvent, RfTx [0x21, 0x41, 0, 0x0E], UplinkEvent, RfTx [0x21, 0x41, 0, 0x09],
      UplinkEvent, UplinkEvent]) \<and> length (spiQueue s') = 4"
proof -
  have ok: "radio_ok demo_radio" "list_all uplink_ok demo_uplinks"
    using pend_table.inv_arm [OF boot_inv(1)]
    by (simp_all add: radio_ok_def demo_radio_def demo_uplinks_def uplink_ok_def rf_ok_def demo_fid_def)
  have ans: "answers (pend_map (gPending demo_radio)) demo_uplinks =
     [RfTx [0x21, 0x4E, 0, 6], UplinkEvent, RfTx [0x21, 0x41, 0, 0x0E], UplinkEvent, RfTx [0x21, 0x41, 0, 0x09],
      UplinkEvent, UplinkEvent]"
    unfolding demo_pending
    by (simp add: demo_uplinks_def rf_reply_def reply_byte_def after_reply_def demo_fid_def calcChecksum_def rf_body_def
        checksum_step_def)
  have "spiQueue demo_radio = []" "length demo_uplinks = 4" by (simp_all add: demo_radio_def demo_uplinks_def)
  then show ?thesis using uplinks_passed_on_and_answered [OF ok] unfolding ans by auto
qed

subsection \<open>Damaged packets\<close>

lemma checksum_residue: "xs \<noteq> [] \<Longrightarrow> last xs = calcChecksum (butlast xs) \<longleftrightarrow> calcChecksum xs = 0"
proof -
  assume "xs \<noteq> []"
  then have "calcChecksum xs = calcChecksum (butlast xs) XOR last xs"
    using calcChecksum_snoc [of "butlast xs" "last xs"] by simp
  then show ?thesis by (metis xor_cancel xor_self_eq xor.right_neutral)
qed

lemma packet_residue: "calcChecksum (drop 2 (rf_pkt dest src fid mb sq)) = 0"
  by (simp add: rf_pkt_def)

text \<open>
  A packet that differs from a valid one in a single byte after the tag is dropped without a reply, a
  frame or a change of the pending table.
\<close>

theorem damaged_uplink_ignored:
  assumes "radio_ok s" and "uplink_ok u" and "2 \<le> i" "i < length (uplink_pkt u)" "x \<noteq> uplink_pkt u ! i"
  shows "\<exists>b. radio_rx_packet ((uplink_pkt u)[i := x]) s = Some (s\<lparr> rxMsg := b \<rparr>, [])"
proof -
  define p where "p = (uplink_pkt u)[i := x]"
  have len: "length p = 5 + length (up_fid u) + length (up_msg u)" by (simp add: p_def uplink_pkt_def)
  then have n: "8 \<le> length p" "length p \<le> 57" using assms(2) by (auto simp: uplink_ok_def rf_ok_def)
  define b where "b = blit (rxMsg s) 0 p"
  have b: "b = p @ drop (length p) (rxMsg s)" by (simp add: b_def blit_def)
  have tl: "drop 2 p \<noteq> []" "take (length p - 3) (drop 2 b) = butlast (drop 2 p)" "b ! (length p - 1) = last (drop 2 p)"
  proof -
    show "drop 2 p \<noteq> []" using n by simp
    show "take (length p - 3) (drop 2 b) = butlast (drop 2 p)" using n by (simp add: b butlast_conv_take)
    show "b ! (length p - 1) = last (drop 2 p)" 
    proof -
      have "last (drop 2 p) = last p" using n by simp
      moreover have "last p = p ! (length p - 1)" using n by (intro last_conv_nth) auto
      moreover have "length p - 1 < length p" using n by linarith
      ultimately show ?thesis by (simp only: b nth_append if_True)
    qed
  qed
  have "drop 2 p = (drop 2 (uplink_pkt u))[i - 2 := x]" using assms(3) by (simp add: p_def drop_update_swap)
  moreover have "i - 2 < length (drop 2 (uplink_pkt u))" "drop 2 (uplink_pkt u) ! (i - 2) = uplink_pkt u ! i"
    using assms(3,4) by (simp_all add: le_add_diff_inverse del: add_2_eq_Suc)
  ultimately have "calcChecksum (drop 2 p) \<noteq> calcChecksum (drop 2 (uplink_pkt u))"
    unfolding calcChecksum_def using assms(5) by (simp add: xor8.foldl_update)
  then have "calcChecksum (drop 2 p) \<noteq> 0" using packet_residue unfolding uplink_pkt_def by simp
  then have "b ! (length p - 1) \<noteq> calcChecksum (take (length p - 3) (drop 2 b))"
    using tl checksum_residue by metis
  then show ?thesis using n
    by (simp add: p_def [symmetric] radio_rx_packet_def rx_copy_def b_def [symmetric] Let_def) (simp add: exI)
qed

theorem damaged_uplink_ignored_witness:
  "\<exists>b. radio_rx_packet ((uplink_pkt (hd demo_uplinks))[13 := 7]) demo_radio = Some (demo_radio\<lparr> rxMsg := b \<rparr>, [])"
proof (rule damaged_uplink_ignored)
  show "radio_ok demo_radio"
    using pend_table.inv_arm [OF boot_inv(1)] by (simp add: radio_ok_def demo_radio_def)
  show "7 \<noteq> uplink_pkt (hd demo_uplinks) ! 13"
    by (simp add: uplink_pkt_def demo_uplinks_def rf_pkt_def rf_body_def demo_fid_def)
qed (simp_all add: uplink_ok_def rf_ok_def demo_uplinks_def demo_fid_def uplink_pkt_def)

text \<open>
  The checksum leaves out the first two bytes. With the tag turned from \<open>E\<close> into \<open>D\<close> a packet is a valid
  legacy packet whose message starts with the chip id.
\<close>

lemma flipped_tag_is_valid:
  "fid \<noteq> [] \<Longrightarrow> (rf_pkt dest src fid mb sq)[1 := 0x44] = rf_pkt dest src [] (fid @ mb) sq"
  by (simp add: rf_pkt_def rf_body_def)

text \<open>
  The lengths are not checked before they are used: a two-byte packet makes the checksum run over a size that
  wrapped around, and a packet with more message bytes than the struct has is copied past its end.
\<close>

lemma short_packet_faults: "length (rxMsg s) = 70 \<Longrightarrow> radio_rx_packet [0, 0x44] s = None"
  by (simp add: radio_rx_packet_def rx_copy_def blit_def)

lemma long_packet_faults:
  assumes "radio_ok s" "44 < length mb" "length mb \<le> 59"
  shows "radio_rx_packet (rf_pkt 0 src [] mb sq) s = None"
proof -
  let ?p = "rf_pkt 0 src [] mb sq"
  define b where "b = blit (rxMsg s) 0 ?p"
  have b: "b = [0, 0x44] @ rf_body src [] mb sq @ calcChecksum (rf_body src [] mb sq) # drop (length ?p) (rxMsg s)"
    by (simp add: b_def blit_def rf_pkt_def)
  have "length (rf_body src [] mb sq) = length mb + 2" by (simp add: rf_body_def)
  then have "b ! (length ?p - 1) = calcChecksum (take (length ?p - 3) (drop 2 b))"
    unfolding b by (simp add: nth_append)
  then show ?thesis using assms
    by (simp add: radio_rx_packet_def rx_copy_def b_def [symmetric] Let_def)
      (simp add: b choose_reply_def deframe_def Let_def)
qed


subsection \<open>Sending until acknowledged\<close>

text \<open>A reply window whose packets have at least four bytes and fit the buffer is read exactly.\<close>

definition window_ok :: "u8 list list \<Rightarrow> bool" where
  "window_ok ps \<longleftrightarrow> (\<forall>p \<in> set ps. 4 \<le> length p \<and> length p \<le> 64)"

definition acked_by :: "u8 \<Rightarrow> u8 list \<Rightarrow> u8 list \<Rightarrow> bool" where
  "acked_by own pkt p \<longleftrightarrow> p ! 0 = own \<and> p ! 1 = 0x41 \<and> p ! 2 = pkt ! 0 \<and> p ! 3 = last pkt"

definition acks :: "u8 list \<Rightarrow> u8 list \<Rightarrow> bool" where
  "acks pkt p \<longleftrightarrow> acked_by 0 pkt p"

lemma scan_ack_exact:
  assumes "window_ok ps" "length buf = 70"
  shows "\<exists>b. scan_ack own (pkt ! 0) (last pkt) ps acked buf = Some (acked \<or> (\<exists>p \<in> set ps. acked_by own pkt p), b) \<and> length b = 70"
  using assms
proof (induction ps arbitrary: acked buf)
  case (Cons p ps)
  define b where "b = (blit buf 0 p)[length p := 0]"
  have p: "4 \<le> length p" "length p \<le> 64" "window_ok ps" using Cons.prems by (simp_all add: window_ok_def)
  have "length b = 70" using Cons.prems p by (simp add: b_def)
  moreover have "b ! k = p ! k" if "k < 4" for k
    using that p by (simp add: b_def blit_def nth_append nth_list_update)
  moreover from this have "b ! 0 = p ! 0 \<and> b ! 1 = p ! 1 \<and> b ! 2 = p ! 2 \<and> b ! 3 = p ! 3" by simp
  moreover have "length p < 70" using p by simp
  ultimately show ?case using Cons.IH [OF p(3), of b "acked \<or> acked_by own pkt p"] p
    by (simp add: rx_copy_def b_def [symmetric] Let_def acked_by_def disj_assoc)
qed simp

definition job_ok :: "NodeFrame \<Rightarrow> bool" where
  "job_ok nf \<longleftrightarrow> wf_frame nf \<and> unat (m_length (nf_msg nf)) \<le> 44"

definition job_pkt :: "NodeFrame \<Rightarrow> u8 \<Rightarrow> u8 list" where
  "job_pkt nf sq = rf_pkt (m_id (nf_msg nf)) 0 (if has_factory (nf_factory_id nf) then nf_factory_id nf else [])
     (take (unat (m_length (nf_msg nf))) (msg_bytes (nf_msg nf))) sq"

lemma send_job_exact:
  assumes "job_ok (rm_frame job)" "length buf = 70" "window_ok ps" "length (rxMsg s) = 70" "length (radioQueue s) < 10"
  defines "pkt \<equiv> job_pkt (rm_frame job) (txSequenceNumber s + 1)"
  defines "again \<equiv> \<not> (\<exists>p \<in> set ps. acks pkt p) \<and> rm_retryCounter job \<le> 2"
  shows "\<exists>b. length b = 70 \<and> send_job buf ps job s = Some (\<not> again,
      s\<lparr> txSequenceNumber := txSequenceNumber s + 1, rxMsg := b,
         radioQueue := radioQueue s @ (if again then [job\<lparr> rm_retryCounter := rm_retryCounter job + 1 \<rparr>] else []) \<rparr>,
      if again then [RfTx pkt, RetryClock] else [RfTx pkt])"
proof -
  obtain b where b: "scan_ack 0 (pkt ! 0) (last pkt) ps False (rxMsg s) = Some (\<exists>p \<in> set ps. acks pkt p, b)" "length b = 70"
    using scan_ack_exact [OF assms(3,4), of 0 pkt False] by (auto simp: acks_def)
  have "radio_frame buf (rm_frame job) (txSequenceNumber s + 1) = Some pkt"
    using assms(1) radio_frame_packet [OF assms(2)] by (simp add: job_ok_def pkt_def job_pkt_def)
  then show ?thesis using b assms(5)
    by (intro exI [of _ b]) (simp add: send_job_def Let_def again_def)
qed

text \<open>The events of one job: the first by the SPI task, the others by the retry timer.\<close>

primrec attempts :: "u8 list \<Rightarrow> u8 list list list \<Rightarrow> Radio \<Rightarrow> (Radio \<times> radio_effect list) option" where
  "attempts buf [] s = Some (s, [])"
| "attempts buf (w # ws) s = (case radio_send_event buf (\<lambda>_. w) 0 s of
     None \<Rightarrow> None
   | Some (s1, fx) \<Rightarrow> (case attempts buf ws s1 of None \<Rightarrow> None | Some (s2, fx') \<Rightarrow> Some (s2, fx @ fx')))"

lemma single_job_event:
  assumes "job_ok (rm_frame job)" "length buf = 70" "window_ok w" "length (rxMsg s) = 70" "radioQueue s = [job]"
  defines "pkt \<equiv> job_pkt (rm_frame job) (txSequenceNumber s + 1)"
  defines "again \<equiv> \<not> (\<exists>p \<in> set w. acks pkt p) \<and> rm_retryCounter job \<le> 2"
  shows "\<exists>s1. radio_send_event buf (\<lambda>_. w) 0 s = Some (s1, if again then [RfTx pkt, RetryClock] else [RfTx pkt]) \<and>
    length (rxMsg s1) = 70 \<and> txSequenceNumber s1 = txSequenceNumber s + 1 \<and>
    radioQueue s1 = (if again then [job\<lparr> rm_retryCounter := rm_retryCounter job + 1 \<rparr>] else [])"
proof -
  define s0 where "s0 = s\<lparr> radioQueue := [] \<rparr>"
  have s0: "length (rxMsg s0) = 70" "length (radioQueue s0) < 10" "txSequenceNumber s0 = txSequenceNumber s" "radioQueue s0 = []"
    using assms(4) by (simp_all add: s0_def)
  obtain s1 where s1: "send_job buf w job s0 = Some (\<not> again, s1, if again then [RfTx pkt, RetryClock] else [RfTx pkt])"
      "length (rxMsg s1) = 70" "txSequenceNumber s1 = txSequenceNumber s + 1"
      "radioQueue s1 = (if again then [job\<lparr> rm_retryCounter := rm_retryCounter job + 1 \<rparr>] else [])"
    using send_job_exact [OF assms(1-3) s0(1,2)] s0 by (force simp: pkt_def again_def)
  show ?thesis
  proof (cases again)
    case True
    then show ?thesis using s1 assms(5) by (simp add: radio_send_event.simps [of buf _ 0 s] s0_def)
  next
    case False
    then have "radio_send_event buf (\<lambda>_. w) (Suc 0) s1 = Some (s1, [])"
      using s1 by (simp add: radio_send_event.simps)
    then show ?thesis using s1 assms(5) False by (simp add: radio_send_event.simps [of buf _ 0 s] s0_def)
  qed
qed

text \<open>
  C29. A command for a node that is alone in the queue is put on air as one packet per attempt, each with the
  next sequence number and its own checksum, until a reply window holds the ACK of that very packet, and at
  most four times; then it is gone from the queue. After each of the attempts before the last the retry
  timer is started.
\<close>

theorem command_sent_until_acked:
  assumes "job_ok nf" "length buf = 70" "length (rxMsg s) = 70"
    and "radioQueue s = [\<lparr> rm_frame = nf, rm_retryCounter = word_of_nat r \<rparr>]"
    and "length ws = Suc k" "r + k \<le> 3" "list_all window_ok ws"
    and "\<And>i. i < k \<Longrightarrow> \<not> (\<exists>p \<in> set (ws ! i). acks (job_pkt nf (txSequenceNumber s + of_nat i + 1)) p)"
    and "r + k = 3 \<or> (\<exists>p \<in> set (ws ! k). acks (job_pkt nf (txSequenceNumber s + of_nat k + 1)) p)"
  shows "\<exists>s'. attempts buf ws s = Some (s',
      concat (map (\<lambda>i. [RfTx (job_pkt nf (txSequenceNumber s + of_nat i + 1)), RetryClock]) [0..<k]) @
      [RfTx (job_pkt nf (txSequenceNumber s + of_nat k + 1))]) \<and> radioQueue s' = []"
  using assms(3-)
proof (induction k arbitrary: s r ws)
  case 0
  then obtain w where w: "ws = [w]" "window_ok w" by (auto simp: length_Suc_conv)
  have "\<not> (word_of_nat r :: u8) \<le> 2" if "r = 3" using that by simp
  then show ?case
    using single_job_event [OF _ assms(2) w(2) 0(1,2)] assms(1) 0 w(1) by auto
next
  case (Suc k)
  then obtain w ws' where w: "ws = w # ws'" "window_ok w" "list_all window_ok ws'" "length ws' = Suc k"
    by (auto simp: length_Suc_conv)
  have r: "(word_of_nat r :: u8) \<le> 2"
    using Suc.prems(4) by (simp add: word_le_nat_alt unat_of_nat)
  have quiet: "\<not> (\<exists>p \<in> set w. acks (job_pkt nf (txSequenceNumber s + 1)) p)"
    using Suc.prems(6) [of 0] w(1) by simp
  obtain s1 where s1: "radio_send_event buf (\<lambda>_. w) 0 s = Some (s1, [RfTx (job_pkt nf (txSequenceNumber s + 1)), RetryClock])"
      "length (rxMsg s1) = 70" "txSequenceNumber s1 = txSequenceNumber s + 1"
      "radioQueue s1 = [\<lparr> rm_frame = nf, rm_retryCounter = word_of_nat (Suc r) \<rparr>]"
    using single_job_event [OF _ assms(2) w(2) Suc.prems(1,2)] assms(1) quiet r by (auto simp: add.commute)
  have sq: "txSequenceNumber s1 + of_nat i + 1 = txSequenceNumber s + of_nat (Suc i) + 1" for i
    using s1(3) by simp
  have "\<exists>s'. attempts buf ws' s1 = Some (s',
      concat (map (\<lambda>i. [RfTx (job_pkt nf (txSequenceNumber s1 + of_nat i + 1)), RetryClock]) [0..<k]) @
      [RfTx (job_pkt nf (txSequenceNumber s1 + of_nat k + 1))]) \<and> radioQueue s' = []"
  proof (rule Suc.IH [OF s1(2,4) w(4)])
    show "Suc r + k \<le> 3" using Suc.prems(4) by simp
    show "list_all window_ok ws'" by (rule w(3))
    show "\<not> (\<exists>p \<in> set (ws' ! i). acks (job_pkt nf (txSequenceNumber s1 + of_nat i + 1)) p)" if "i < k" for i
      using Suc.prems(6) [of "Suc i"] that w(1) unfolding sq by simp
    show "Suc r + k = 3 \<or> (\<exists>p \<in> set (ws' ! k). acks (job_pkt nf (txSequenceNumber s1 + of_nat k + 1)) p)"
      using Suc.prems(7) w(1) unfolding sq by simp
  qed
  then show ?case unfolding sq
    using s1(1) by (auto simp: w(1) upt_conv_Cons map_Suc_upt [symmetric] comp_def simp del: upt_Suc map_Suc_upt)
qed


text \<open>A relay command for node 0x21: the first attempt meets silence, the second is acknowledged.\<close>

definition demo_job :: NodeFrame where
  "demo_job = \<lparr> nf_factory_id = demo_fid, nf_msg = \<lparr> m_id = 0x21, m_type = 0, m_cmd = 2, m_length = 5,
     m_payload = 1 # replicate 39 0 \<rparr> \<rparr>"

definition demo_sender :: Radio where
  "demo_sender = demo_radio\<lparr> radioQueue := [\<lparr> rm_frame = demo_job, rm_retryCounter = 0 \<rparr>] \<rparr>"

lemma demo_job_pkt: "job_pkt demo_job sq = rf_pkt 0x21 0 demo_fid [0x21, 0, 2, 5, 1] sq"
  by (simp add: job_pkt_def demo_job_def has_factory_def demo_fid_def msg_bytes_def)

theorem command_sent_until_acked_witness:
  "\<exists>s'. attempts (replicate 70 0) [[], [[0, 0x41, 0x21, 0x2D]]] demo_sender = Some (s',
     [RfTx ([0x21, 0x45, 0] @ demo_fid @ [0x21, 0, 2, 5, 1, 1, 0x2E]), RetryClock,
      RfTx ([0x21, 0x45, 0] @ demo_fid @ [0x21, 0, 2, 5, 1, 2, 0x2D])]) \<and> radioQueue s' = []"
proof -
  have ok: "job_ok demo_job"
    by (simp add: job_ok_def demo_job_def wf_frame_def demo_fid_def wf_msg_def)
  have q: "radioQueue demo_sender = [\<lparr> rm_frame = demo_job, rm_retryCounter = word_of_nat 0 \<rparr>]"
    "length (rxMsg demo_sender) = 70" "txSequenceNumber demo_sender = 0"
    by (simp_all add: demo_sender_def demo_radio_def)
  have pk: "job_pkt demo_job 1 = [0x21, 0x45, 0] @ demo_fid @ [0x21, 0, 2, 5, 1, 1, 0x2E]"
    "job_pkt demo_job 2 = [0x21, 0x45, 0] @ demo_fid @ [0x21, 0, 2, 5, 1, 2, 0x2D]"
    unfolding demo_job_pkt
    by (simp_all add: rf_pkt_def rf_body_def demo_fid_def calcChecksum_def checksum_step_def)
  have "\<exists>s'. attempts (replicate 70 0) [[], [[0, 0x41, 0x21, 0x2D]]] demo_sender = Some (s',
      concat (map (\<lambda>i. [RfTx (job_pkt demo_job (txSequenceNumber demo_sender + of_nat i + 1)), RetryClock]) [0..<1]) @
      [RfTx (job_pkt demo_job (txSequenceNumber demo_sender + of_nat 1 + 1))]) \<and> radioQueue s' = []"
  proof (rule command_sent_until_acked [OF ok _ q(2,1)])
    show "0 + 1 = 3 \<or> (\<exists>p \<in> set ([[], [[0, 0x41, 0x21, 0x2D]]] ! 1).
        acks (job_pkt demo_job (txSequenceNumber demo_sender + of_nat 1 + 1)) p)"
      using pk(2) q(3) by (simp add: acks_def acked_by_def)
  qed (simp_all add: window_ok_def)
  then show ?thesis using pk q(3) by simp
qed

end
