(* ===== verification/SpiBridge.thy ===== *)
theory SpiBridge
  imports SpiSlave SpiLink RadioLink
begin

text \<open>
  The two ends of the SPI link together: what the master sends arrives as the struct it was made of in the
  radio task's queue or in the pending-command table, what the slave sends arrives at the engine, a damaged
  frame arrives nowhere, and the drain of the slave tries each frame three times.
\<close>

subsection \<open>Frames over the wire\<close>

lemma zero_payload: "length (sf_payload spi_zero) = 118"
  by (simp add: spi_zero_def)

lemma wire_roundtrip:
  "length (sf_payload f) = 118 \<Longrightarrow> spi_of_bytes (spi_bytes (frame_finalize f)) = frame_finalize f"
  by (simp add: spi_of_bytes_bytes wf_finalize)

lemma blit_take: "length buf = 118 \<Longrightarrow> length bs \<le> 118 \<Longrightarrow> take (length bs) (blit buf 0 bs) = bs"
  by (simp add: blit_def)

lemma blit_nth: "i < length bs \<Longrightarrow> blit buf 0 bs ! i = bs ! i"
  by (simp add: blit_def nth_append)

lemma node_cmd_arrives:
  assumes "wf_frame nf"
  shows "slave_route_rx_frame (spi_of_bytes (spi_bytes (frame_make_node_cmd nf sq p))) r =
    (if length (radioQueue r) < 10
     then (r\<lparr> radioQueue := radioQueue r @ [\<lparr> rm_frame = nf, rm_retryCounter = 0 \<rparr>] \<rparr>, [SendEvent]) else (r, []))"
proof -
  define f where "f = spi_zero\<lparr> sf_type := 2, sf_seq := sq, sf_pending := p, sf_len := 52,
    sf_payload := blit (sf_payload spi_zero) 0 (frame_bytes nf) \<rparr>"
  have l: "length (frame_bytes nf) = 52" using assms by simp
  have f: "frame_make_node_cmd nf sq p = frame_finalize f" using l by (simp add: frame_make_node_cmd_def f_def)
  have p: "length (sf_payload f) = 118" using l by (simp add: f_def zero_payload)
  have v: "slave_frame_valid (frame_finalize f)" unfolding slave_same using p by (rule finalize_valid)
  have "take 52 (sf_payload f) = frame_bytes nf" using l blit_take [of "sf_payload spi_zero" "frame_bytes nf"]
    by (simp add: f_def zero_payload)
  then have "slave_job (frame_finalize f) = Some \<lparr> rm_frame = nf, rm_retryCounter = 0 \<rparr>"
    using assms by (simp add: slave_job_def frame_of_bytes_bytes) (simp add: f_def)
  then show ?thesis using v by (simp add: f wire_roundtrip p slave_route_rx_frame_def) (simp add: f_def)
qed

lemma ctrl_arrives:
  assumes "wf_ctrl c"
  shows "slave_route_rx_frame (spi_of_bytes (spi_bytes (frame_make_ctrl c sq p))) r =
    (if pc_op c = 1 then (r\<lparr> gPending := pending_arm (pc_factory_id c) (pc_cmd c) (gPending r) \<rparr>, [])
     else if pc_op c = 2 then (r\<lparr> gPending := pending_disarm (pc_factory_id c) (gPending r) \<rparr>, [])
     else (r, []))"
proof -
  define f where "f = spi_zero\<lparr> sf_type := 4, sf_seq := sq, sf_pending := p, sf_len := 10,
    sf_payload := blit (sf_payload spi_zero) 0 (ctrl_bytes c) \<rparr>"
  have l: "length (ctrl_bytes c) = 10" using assms by (simp add: ctrl_bytes_def wf_ctrl_def)
  have f: "frame_make_ctrl c sq p = frame_finalize f" by (simp add: frame_make_ctrl_def f_def)
  have p: "length (sf_payload f) = 118" using l by (simp add: f_def zero_payload)
  have v: "slave_frame_valid (frame_finalize f)" unfolding slave_same using p by (rule finalize_valid)
  have b: "sf_payload f ! 0 = pc_op c" "sf_payload f ! 1 = pc_cmd c" "take 8 (drop 2 (sf_payload f)) = pc_factory_id c"
    using l assms by (simp_all add: f_def blit_nth) (simp_all add: ctrl_bytes_def blit_def wf_ctrl_def)
  show ?thesis using v b by (simp add: f wire_roundtrip p slave_route_rx_frame_def Let_def) (simp add: f_def)
qed

lemma node_data_arrives:
  assumes "wf_frame nf"
  shows "route_rx_frame (spi_of_bytes (spi_bytes (frame_make_node_data nf sq p))) = Some nf"
proof -
  define f where "f = spi_zero\<lparr> sf_type := 1, sf_seq := sq, sf_pending := p, sf_len := 52,
    sf_payload := blit (sf_payload spi_zero) 0 (frame_bytes nf) \<rparr>"
  have l: "length (frame_bytes nf) = 52" using assms by simp
  have f: "frame_make_node_data nf sq p = frame_finalize f" using l by (simp add: frame_make_node_data_def f_def slave_same)
  have p: "length (sf_payload f) = 118" using l by (simp add: f_def zero_payload)
  have "take 52 (sf_payload f) = frame_bytes nf" using l blit_take [of "sf_payload spi_zero" "frame_bytes nf"]
    by (simp add: f_def zero_payload)
  then show ?thesis using assms finalize_valid [OF p]
    by (simp add: f wire_roundtrip p route_rx_frame_def frame_of_bytes_bytes) (simp add: f_def)
qed

text \<open>
  Over an undamaged wire every struct arrives as it was sent: a node command becomes one job with the
  same 52 bytes and no retries used, a control frame arms or disarms its chip's entry, a node report reaches
  the engine's queue; nothing else of the concentrator changes.
\<close>

theorem spi_carries_structs:
  assumes "wf_frame nf" "wf_ctrl c" "length (radioQueue r) < 10"
  shows "slave_route_rx_frame (spi_of_bytes (spi_bytes (frame_make_node_cmd nf sq p))) r =
      (r\<lparr> radioQueue := radioQueue r @ [\<lparr> rm_frame = nf, rm_retryCounter = 0 \<rparr>] \<rparr>, [SendEvent]) \<and>
    slave_route_rx_frame (spi_of_bytes (spi_bytes (frame_make_ctrl (c\<lparr> pc_op := 1 \<rparr>) sq p))) r =
      (r\<lparr> gPending := pending_arm (pc_factory_id c) (pc_cmd c) (gPending r) \<rparr>, []) \<and>
    slave_route_rx_frame (spi_of_bytes (spi_bytes (frame_make_ctrl (c\<lparr> pc_op := 2 \<rparr>) sq p))) r =
      (r\<lparr> gPending := pending_disarm (pc_factory_id c) (gPending r) \<rparr>, []) \<and>
    route_rx_frame (spi_of_bytes (spi_bytes (frame_make_node_data nf sq p))) = Some nf"
  using assms by (simp add: node_cmd_arrives ctrl_arrives node_data_arrives wf_ctrl_def)

definition demo_ctrl :: PendingCtrl where
  "demo_ctrl = \<lparr> pc_op = 1, pc_cmd = 6, pc_factory_id = demo_fid \<rparr>"

theorem spi_carries_structs_witness:
  "radioQueue (fst (slave_route_rx_frame (spi_of_bytes (spi_bytes (frame_make_node_cmd demo_job 7 0))) demo_radio)) =
     [\<lparr> rm_frame = demo_job, rm_retryCounter = 0 \<rparr>] \<and>
   route_rx_frame (spi_of_bytes (spi_bytes (frame_make_node_data demo_job 7 0))) = Some demo_job"
  using spi_carries_structs [of demo_job demo_ctrl demo_radio 7 0]
  by (simp add: demo_job_def demo_ctrl_def demo_radio_def wf_frame_def wf_ctrl_def wf_msg_def demo_fid_def)

text \<open>
  A valid frame of which one byte is changed on the wire is ignored at either end.
\<close>

theorem damaged_spi_frame_ignored:
  assumes "spi_frame_ok f" "i < 128" "b \<noteq> spi_bytes f ! i"
  shows "slave_route_rx_frame (spi_of_bytes ((spi_bytes f)[i := b])) r = (r, []) \<and>
    route_rx_frame (spi_of_bytes ((spi_bytes f)[i := b])) = None"
proof -
  have l: "length (spi_bytes f) = 128" using assms(1) by (simp add: spi_frame_ok_def length_spi_bytes)
  have nv: "spi_receive ((spi_bytes f)[i := b]) \<noteq> Inr g" for g
    using spi_link.corrupted_not_accepted [OF assms(1), of i b g] assms(2,3) l by auto
  have "\<not> frame_valid (spi_of_bytes ((spi_bytes f)[i := b]))"
    using l nv [of "spi_of_bytes ((spi_bytes f)[i := b])"] by (simp add: spi_receive_def split: if_splits)
  then show ?thesis by (simp add: slave_route_rx_frame_def slave_same route_rx_frame_def)
qed

theorem damaged_spi_frame_ignored_witness:
  "slave_route_rx_frame (spi_of_bytes ((spi_bytes frame_make_nop)[0 := 0x5A])) demo_radio = (demo_radio, [])"
proof -
  define f where "f = spi_zero\<lparr> sf_type := 0 \<rparr>"
  have p: "length (sf_payload f) = 118" by (simp add: f_def zero_payload)
  have "spi_frame_ok frame_make_nop"
    using finalize_valid [OF p] wf_finalize [OF p] by (simp add: spi_frame_ok_def frame_make_nop_def f_def)
  moreover have "spi_bytes frame_make_nop ! 0 = 0xA5" by (simp add: spi_bytes_def spi_head_def frame_make_nop_def)
  ultimately show ?thesis using damaged_spi_frame_ignored [of frame_make_nop 0 "0x5A" demo_radio] by simp
qed

subsection \<open>The drain of the slave\<close>

definition try_ok :: "SXfer \<Rightarrow> bool" where "try_ok x \<longleftrightarrow> sx_arms x \<and> sx_done x"

definition shipped :: "slave_effect list \<Rightarrow> SpiFrame list" where
  "shipped fx = concat (map (\<lambda>e. case e of Shipped f \<Rightarrow> [f] | SendEvent \<Rightarrow> []) fx)"

lemma shipped_simps [simp]:
  "shipped [] = []" "shipped (Shipped f # fx) = f # shipped fx" "shipped (SendEvent # fx) = shipped fx"
  "shipped (fx @ gx) = shipped fx @ shipped gx"
  by (simp_all add: shipped_def)

lemma route_ships_nothing: "slave_route s = (t, fx) \<Longrightarrow> shipped fx = [] \<and> sv_txSeq t = sv_txSeq s \<and>
    spiQueue (sv_radio t) = spiQueue (sv_radio s) \<and> sv_slaveReady t = sv_slaveReady s"
  by (auto simp: slave_route_def slave_route_rx_frame_def Let_def split: prod.splits if_splits option.splits)

lemma tries_ship:
  assumes "slave_tries n air k s = (t, fx)" "\<not> sv_slaveReady s"
  shows "shipped fx = (if \<exists>j < n. try_ok (air (k + j)) then [sv_txFrame s] else []) \<and>
    sv_txSeq t = sv_txSeq s \<and> \<not> sv_slaveReady t \<and> spiQueue (sv_radio t) = spiQueue (sv_radio s)"
  using assms
proof (induction n arbitrary: k s t fx)
  case (Suc n)
  define s0 where "s0 = s\<lparr> sv_rxFrame := spi_zero \<rparr>"
  obtain ok s1 fx1 where x: "slave_do_transfer (air k) s0 = (ok, s1, fx1)" by (cases "slave_do_transfer (air k) s0")
  then have s1: "ok = try_ok (air k)" "fx1 = (if ok then [Shipped (sv_txFrame s)] else [])" "sv_txFrame s1 = sv_txFrame s"
    "sv_txSeq s1 = sv_txSeq s" "\<not> sv_slaveReady s1" "spiQueue (sv_radio s1) = spiQueue (sv_radio s)"
    using Suc.prems(2) by (auto simp: slave_do_transfer_def try_ok_def s0_def Let_def split: if_splits)
  have split: "(\<exists>j < Suc n. try_ok (air (k + j))) \<longleftrightarrow> try_ok (air k) \<or> (\<exists>j < n. try_ok (air (Suc k + j)))"
    by (auto simp: less_Suc_eq_0_disj)
  show ?case
  proof (cases ok)
    case True
    obtain s2 fx2 where r: "slave_route s1 = (s2, fx2)" by (cases "slave_route s1")
    have "t = s2" "fx = fx1 @ fx2" using Suc.prems(1) x True r by (simp_all add: s0_def)
    then show ?thesis using route_ships_nothing [OF r] s1 True split by simp
  next
    case False
    obtain s2 fx2 where r: "slave_tries n air (Suc k) s1 = (s2, fx2)" by (cases "slave_tries n air (Suc k) s1")
    have "t = s2" "fx = fx1 @ fx2" using Suc.prems(1) x False r by (simp_all add: s0_def)
    then show ?thesis using Suc.IH [OF r s1(5)] s1 False split by simp
  qed
qed simp

text \<open>The frames a queue is shipped as, the first of them served by \<open>air k\<close>.\<close>

fun ships :: "(nat \<Rightarrow> nat \<Rightarrow> SXfer) \<Rightarrow> nat \<Rightarrow> u8 \<Rightarrow> NodeFrame list \<Rightarrow> SpiFrame list" where
  "ships air k sq [] = []"
| "ships air k sq (nf # nfs) =
     (if \<exists>i < 3. try_ok (air k i) then [frame_make_node_data nf sq 0] else []) @ ships air (Suc k) (sq + 1) nfs"

lemma drain_ships:
  assumes "slave_drain air k s = (t, fx)" "\<not> sv_slaveReady s" "spiQueue (sv_radio s) = nfs"
  shows "shipped fx = ships air k (sv_txSeq s) nfs \<and> spiQueue (sv_radio t) = [] \<and> \<not> sv_slaveReady t \<and>
    sv_txSeq t = sv_txSeq s + of_nat (length nfs)"
  using assms
proof (induction nfs arbitrary: k s t fx)
  case Nil
  then show ?case by (simp add: slave_drain.simps [of air k s])
next
  case (Cons nf nfs)
  define s1 where "s1 = s\<lparr> sv_radio := (sv_radio s)\<lparr> spiQueue := nfs \<rparr>,
    sv_txFrame := frame_make_node_data nf (sv_txSeq s) 0, sv_txSeq := sv_txSeq s + 1 \<rparr>"
  obtain s2 fx2 where r2: "slave_tries 3 (air k) 0 s1 = (s2, fx2)" by (cases "slave_tries 3 (air k) 0 s1")
  obtain s3 fx3 where r3: "slave_drain air (Suc k) s2 = (s3, fx3)" by (cases "slave_drain air (Suc k) s2")
  have t: "t = s3" "fx = fx2 @ fx3"
    using Cons.prems(1,3) r2 r3 by (simp_all add: slave_drain.simps [of air k s] s1_def Let_def)
  have "\<not> sv_slaveReady s1" using Cons.prems(2) by (simp add: s1_def)
  note 2 = tries_ship [OF r2 this]
  have 3: "\<not> sv_slaveReady s2" "spiQueue (sv_radio s2) = nfs" "sv_txSeq s2 = sv_txSeq s + 1"
    using 2 by (simp_all add: s1_def)
  have "sv_txFrame s1 = frame_make_node_data nf (sv_txSeq s) 0" by (simp add: s1_def)
  then show ?case using 2 Cons.IH [OF r3 3(1,2)] 3(3) by (simp add: t)
qed

text \<open>
  C34. The drain of the uplink queue ends with the queue empty and SLAVE_READY released; it ships the
  queued frames in order under consecutive sequence numbers, leaving out exactly those for which three
  tries in a row failed.
\<close>

theorem slave_ships_in_order:
  assumes "\<not> sv_slaveReady s"
  shows "\<exists>t fx. slave_turn master_initiate air s = (t, fx) \<and> spiQueue (sv_radio t) = [] \<and> \<not> sv_slaveReady t \<and>
    (spiQueue (sv_radio s) \<noteq> [] \<longrightarrow> shipped fx = ships air 0 (sv_txSeq s) (spiQueue (sv_radio s))) \<and>
    (spiQueue (sv_radio s) = [] \<longrightarrow>
       shipped fx = (if master_initiate \<and> (\<exists>i < 3. try_ok (air 0 i)) then [frame_make_nop] else []))"
proof -
  obtain s1 fx1 where r1: "slave_drain air 0 s = (s1, fx1)" by (cases "slave_drain air 0 s")
  note d = drain_ships [OF r1 assms refl]
  obtain s2 fx2 where r2: "slave_tries 3 (air 0) 0 (s1\<lparr> sv_txFrame := slave_frame_make_nop \<rparr>) = (s2, fx2)"
    by (cases "slave_tries 3 (air 0) 0 (s1\<lparr> sv_txFrame := slave_frame_make_nop \<rparr>)")
  have nop: "slave_frame_make_nop = frame_make_nop" by (simp add: slave_frame_make_nop_def frame_make_nop_def slave_same)
  have "\<not> sv_slaveReady (s1\<lparr> sv_txFrame := slave_frame_make_nop \<rparr>)" using d by simp
  note n = tries_ship [OF r2 this]
  show ?thesis
  proof (cases "master_initiate \<and> spiQueue (sv_radio s) = []")
    case True
    then show ?thesis using r1 r2 d n nop by (simp add: slave_turn_def Let_def)
  next
    case False
    then show ?thesis using r1 d by (auto simp: slave_turn_def Let_def)
  qed
qed

text \<open>Two reports are queued; the first goes through at the second try, the second never.\<close>

definition demo_slave :: SpiSlave where
  "demo_slave = \<lparr> sv_radio = demo_radio\<lparr> spiQueue := [demo_job, demo_job] \<rparr>, sv_txSeq = 1, sv_txFrame = spi_zero,
     sv_rxFrame = spi_zero, sv_slaveReady = False \<rparr>"

definition demo_air :: "nat \<Rightarrow> nat \<Rightarrow> SXfer" where
  "demo_air j k = \<lparr> sx_arms = True, sx_done = (j = 0 \<and> k = 1), sx_rx = spi_bytes frame_make_nop \<rparr>"

theorem slave_ships_in_order_witness:
  "\<exists>t fx. slave_turn False demo_air demo_slave = (t, fx) \<and> shipped fx = [frame_make_node_data demo_job 1 0] \<and>
     spiQueue (sv_radio t) = []"
proof -
  have "\<exists>i < 3. try_ok (demo_air 0 i)" by (rule exI [of _ 1]) (simp add: demo_air_def try_ok_def)
  moreover have "\<not> (\<exists>i < 3. try_ok (demo_air (Suc 0) i))" by (simp add: demo_air_def try_ok_def)
  ultimately have "ships demo_air 0 1 [demo_job, demo_job] = [frame_make_node_data demo_job 1 0]" by simp
  then show ?thesis using slave_ships_in_order [of demo_slave False demo_air] by (auto simp: demo_slave_def)
qed

subsection \<open>From the control frame to the node\<close>

text \<open>
  C30. In any state of the concentrator that has room for the chip: once the control frame that arms a
  command for the chip has crossed the link, the chip's next uplink to this gateway is answered by a NACK
  with the command; and once the frame that disarms the chip has crossed, the uplink is answered by an ACK.
\<close>

theorem armed_command_reaches_node:
  assumes r: "radio_ok r" and c: "wf_ctrl c" "pc_cmd c \<noteq> 0"
    and room: "pend_map (gPending r) (pc_factory_id c) \<noteq> None \<or> pend_room (gPending r)"
    and u: "uplink_ok u" "up_dest u = 0" "up_fid u = pc_factory_id c" "up_msg u ! 2 \<noteq> pc_cmd c"
  shows "\<exists>r1 r2. slave_route_rx_frame (spi_of_bytes (spi_bytes (frame_make_ctrl (c\<lparr> pc_op := 1 \<rparr>) sq p))) r = (r1, []) \<and>
    radio_rx_packet (uplink_pkt u) r1 = Some (r2, [RfTx [up_src u, 0x4E, 0, pc_cmd c], UplinkEvent]) \<and>
    (\<exists>r3 r4. slave_route_rx_frame (spi_of_bytes (spi_bytes (frame_make_ctrl (c\<lparr> pc_op := 2 \<rparr>) sq p))) r2 = (r3, []) \<and>
      radio_rx_packet (uplink_pkt u) r3 = Some (r4, [RfTx [up_src u, 0x41, 0, last (uplink_pkt u)], UplinkEvent]))"
proof -
  let ?fid = "pc_factory_id c"
  have fid: "?fid \<noteq> []" "rf_ok (up_fid u) (up_msg u)" using c(1) u(1) by (auto simp: wf_ctrl_def uplink_ok_def)
  have last: "last (uplink_pkt u) = calcChecksum (rf_body (up_src u) (up_fid u) (up_msg u) (up_seq u))"
    by (simp add: uplink_pkt_def rf_pkt_def)
  define r1 where "r1 = r\<lparr> gPending := pending_arm ?fid (pc_cmd c) (gPending r) \<rparr>"
  have inv: "pend_inv (gPending r)" using r by (simp add: radio_ok_def)
  have r1: "radio_ok r1" "pend_map (gPending r1) ?fid = Some (pc_cmd c)"
    using r pend_table.inv_arm [OF inv] pend_table.find_arm [OF inv room] by (simp_all add: radio_ok_def r1_def)
  obtain r2 where r2: "radio_rx_packet (uplink_pkt u) r1 = Some (r2, [RfTx [up_src u, 0x4E, 0, pc_cmd c], UplinkEvent])"
      "radio_ok r2"
    using rx_packet [OF r1(1) fid(2), of 0 "up_src u" "up_seq u"] r1(2) u fid c(2)
    by (auto simp: uplink_pkt_def rf_reply_def reply_byte_def)
  define r3 where "r3 = r2\<lparr> gPending := pending_disarm ?fid (gPending r2) \<rparr>"
  have inv2: "pend_inv (gPending r2)" using r2(2) by (simp add: radio_ok_def)
  have r3: "radio_ok r3" "pend_map (gPending r3) ?fid = None"
    using r2(2) pend_table.inv_disarm [OF inv2] pend_table.find_disarm [OF inv2] by (simp_all add: radio_ok_def r3_def)
  have "\<exists>r4. radio_rx_packet (uplink_pkt u) r3 = Some (r4, [RfTx [up_src u, 0x41, 0, last (uplink_pkt u)], UplinkEvent])"
    unfolding last using rx_packet [OF r3(1) fid(2), of 0 "up_src u" "up_seq u"] r3(2) u(2,3)
    by (auto simp: uplink_pkt_def rf_reply_def reply_byte_def)
  then show ?thesis using c(1) r2(1)
    by (simp add: ctrl_arrives wf_ctrl_def r1_def [symmetric] r3_def [symmetric])
qed

theorem armed_command_reaches_node_witness:
  "\<exists>r1 r2. slave_route_rx_frame (spi_of_bytes (spi_bytes (frame_make_ctrl demo_ctrl 1 0))) demo_radio = (r1, []) \<and>
    radio_rx_packet (uplink_pkt (hd demo_uplinks)) r1 = Some (r2, [RfTx [0x21, 0x4E, 0, 6], UplinkEvent])"
proof -
  have inv: "pend_inv (pending_arm demo_fid 6 pending_boot)" using pend_table.inv_arm [OF boot_inv(1)] .
  have "demo_ctrl\<lparr> pc_op := 1 \<rparr> = demo_ctrl" by (simp add: demo_ctrl_def)
  then show ?thesis
    using armed_command_reaches_node [of demo_radio demo_ctrl "hd demo_uplinks" 1 0] inv demo_pending
    by (auto simp: radio_ok_def demo_ctrl_def demo_uplinks_def uplink_ok_def rf_ok_def demo_fid_def wf_ctrl_def
        demo_radio_def)
qed

end
