(* ===== verification/NodeIdentity.thy ===== *)
theory NodeIdentity
  imports NodeProtocol
begin

text \<open>
  The identity of a node (\<open>node_identity.c\<close> of the three node programs, which differ in the magic number
  only): the factory id read from the chip, and the RF address kept in the internal flash. The NVS driver
  is outside: whether it opens, reads and writes is an argument, the flash record is part of the state.
\<close>

abbreviation (input) "ADDR_POOL_FIRST \<equiv> 0x10 :: u8"
abbreviation (input) "ADDR_POOL_LAST \<equiv> 0xEF :: u8"

definition SOLAR_IDENTITY_MAGIC :: u32 where "SOLAR_IDENTITY_MAGIC = 0x53434E31"
definition LIGHT_IDENTITY_MAGIC :: u32 where "LIGHT_IDENTITY_MAGIC = 0x4C534E31"
definition TH_IDENTITY_MAGIC :: u32 where "TH_IDENTITY_MAGIC = 0x54484E31"

record IdentityRec =
  ir_magic :: u32
  ir_addr :: u8
  ir_pad :: "u8 list"

definition identity_rec_bytes :: "IdentityRec \<Rightarrow> u8 list" where
  "identity_rec_bytes r = le32_bytes (ir_magic r) @ [ir_addr r] @ ir_pad r"

definition identity_rec_of :: "u8 list \<Rightarrow> IdentityRec" where
  "identity_rec_of bs = \<lparr> ir_magic = le32_at bs 0, ir_addr = bs ! 4, ir_pad = take 3 (drop 5 bs) \<rparr>"

text \<open>\<open>sNvs\<close> says whether the driver handle is open, \<open>id_flash\<close> holds the eight bytes of the record.\<close>

record Identity =
  gNodeAddress :: u8
  gFactoryId :: "u8 list"
  sNvs :: bool
  id_flash :: "u8 list"

definition read_factory_id :: "u32 \<Rightarrow> u32 \<Rightarrow> u8 list" where
  "read_factory_id lo hi =
     [ucast lo, ucast (drop_bit 8 lo), ucast (drop_bit 16 lo), ucast (drop_bit 24 lo),
      ucast hi, ucast (drop_bit 8 hi), ucast (drop_bit 16 hi), ucast (drop_bit 24 hi)]"

definition identity_init :: "u32 \<Rightarrow> u32 \<Rightarrow> u32 \<Rightarrow> bool \<Rightarrow> bool \<Rightarrow> Identity \<Rightarrow> Identity" where
  "identity_init magic lo hi nvs_opens nvs_reads i =
     (let i1 = i\<lparr> gFactoryId := read_factory_id lo hi, gNodeAddress := ADDR_UNPROVISIONED, sNvs := nvs_opens \<rparr> in
      if \<not> nvs_opens then i1
      else if nvs_reads then
        let r = identity_rec_of (id_flash i1) in
        if ir_magic r = magic \<and>
          (ir_addr r = ADDR_UNPROVISIONED \<or> (ir_addr r \<ge> ADDR_POOL_FIRST \<and> ir_addr r \<le> ADDR_POOL_LAST))
        then i1\<lparr> gNodeAddress := ir_addr r \<rparr> else i1
      else i1)"

definition identity_persist :: "u32 \<Rightarrow> bool \<Rightarrow> Identity \<Rightarrow> bool \<times> Identity" where
  "identity_persist magic nvs_writes i =
     (if \<not> sNvs i then (False, i)
      else
        let r = \<lparr> ir_magic = magic, ir_addr = gNodeAddress i, ir_pad = replicate 3 0 \<rparr> in
        (nvs_writes, if nvs_writes then i\<lparr> id_flash := identity_rec_bytes r \<rparr> else i))"

text \<open>The pointer may be null; the eight bytes it points to are compared.\<close>

definition factory_is_mine :: "u8 list option \<Rightarrow> Identity \<Rightarrow> bool" where
  "factory_is_mine fid i = (case fid of None \<Rightarrow> False | Some f \<Rightarrow> take NODE_FACTORY_ID_LEN f = gFactoryId i)"

subsection \<open>The three programs\<close>

definition solar_identity_init :: "u32 \<Rightarrow> u32 \<Rightarrow> bool \<Rightarrow> bool \<Rightarrow> Identity \<Rightarrow> Identity" where
  "solar_identity_init = identity_init SOLAR_IDENTITY_MAGIC"
definition solar_identity_persist :: "bool \<Rightarrow> Identity \<Rightarrow> bool \<times> Identity" where
  "solar_identity_persist = identity_persist SOLAR_IDENTITY_MAGIC"
definition light_identity_init :: "u32 \<Rightarrow> u32 \<Rightarrow> bool \<Rightarrow> bool \<Rightarrow> Identity \<Rightarrow> Identity" where
  "light_identity_init = identity_init LIGHT_IDENTITY_MAGIC"
definition light_identity_persist :: "bool \<Rightarrow> Identity \<Rightarrow> bool \<times> Identity" where
  "light_identity_persist = identity_persist LIGHT_IDENTITY_MAGIC"
definition th_identity_init :: "u32 \<Rightarrow> u32 \<Rightarrow> bool \<Rightarrow> bool \<Rightarrow> Identity \<Rightarrow> Identity" where
  "th_identity_init = identity_init TH_IDENTITY_MAGIC"
definition th_identity_persist :: "bool \<Rightarrow> Identity \<Rightarrow> bool \<times> Identity" where
  "th_identity_persist = identity_persist TH_IDENTITY_MAGIC"

lemmas identity_programs =
  solar_identity_init_def solar_identity_persist_def light_identity_init_def light_identity_persist_def
  th_identity_init_def th_identity_persist_def

subsection \<open>The record in the flash\<close>

lemma le32_head: "le32_at (le32_bytes w @ bs) 0 = w"
  by (simp add: le32_at_def le32_bytes_def le32_join)

interpretation identity_layout: codec identity_rec_bytes "struct_read 8 identity_rec_of" "\<lambda>r. length (ir_pad r) = 3"
proof
  show "length (ir_pad r) = 3 \<Longrightarrow> struct_read 8 identity_rec_of (identity_rec_bytes r) = Inr r" for r
    by (simp add: struct_read_def identity_rec_bytes_def identity_rec_of_def le32_head)
      (simp add: le32_bytes_def nth_append)
  show "struct_read 8 identity_rec_of bs = Inr r \<Longrightarrow> length (ir_pad r) = 3 \<and> identity_rec_bytes r = bs" for bs r
  proof -
    assume "struct_read 8 identity_rec_of bs = Inr r"
    then have l: "length bs = 8" and r: "r = identity_rec_of bs" by (auto simp: struct_read_def split: if_splits)
    obtain a b c d e f g h where "bs = [a, b, c, d, e, f, g, h]" using l by (auto simp: numeral_eq_Suc length_Suc_conv)
    moreover have "le32_bytes (le32_at [a, b, c, d, e, f, g, h] 0) = [a, b, c, d]"
      by (simp add: le32_bytes_def le32_at_def) (safe intro!: bit_word_eqI; auto simp: bit_simps dest: bit_imp_le_length)
    ultimately show ?thesis by (simp add: r identity_rec_of_def identity_rec_bytes_def)
  qed
qed

definition pool_or_none :: "u8 \<Rightarrow> bool" where
  "pool_or_none a \<longleftrightarrow> a = 0xFF \<or> (0x10 \<le> a \<and> a \<le> 0xEF)"

lemma reload: "identity_rec_of (identity_rec_bytes \<lparr> ir_magic = mg, ir_addr = a, ir_pad = replicate 3 0 \<rparr>) =
    \<lparr> ir_magic = mg, ir_addr = a, ir_pad = replicate 3 0 \<rparr>"
  using identity_layout.roundtrip [of "\<lparr> ir_magic = mg, ir_addr = a, ir_pad = replicate 3 0 \<rparr>"]
  by (auto simp: struct_read_def split: if_splits)

lemma init_in_pool: "pool_or_none (gNodeAddress (identity_init mg lo hi op rd i))"
  by (simp add: identity_init_def pool_or_none_def Let_def)

lemma init_after_persist:
  "gNodeAddress (identity_init mg' lo hi True True (snd (identity_persist mg True (i\<lparr> sNvs := True \<rparr>)))) =
     (if mg' = mg \<and> pool_or_none (gNodeAddress i) then gNodeAddress i else 0xFF)"
  by (simp add: identity_init_def identity_persist_def Let_def reload pool_or_none_def)

lemma magics_differ:
  "SOLAR_IDENTITY_MAGIC \<noteq> LIGHT_IDENTITY_MAGIC" "SOLAR_IDENTITY_MAGIC \<noteq> TH_IDENTITY_MAGIC"
  "LIGHT_IDENTITY_MAGIC \<noteq> TH_IDENTITY_MAGIC"
  by (simp_all add: SOLAR_IDENTITY_MAGIC_def LIGHT_IDENTITY_MAGIC_def TH_IDENTITY_MAGIC_def)

lemma init_address:
  "gNodeAddress (identity_init mg lo hi op rd i) =
     (if op \<and> rd \<and> le32_at (id_flash i) 0 = mg \<and> 0x10 \<le> id_flash i ! 4 \<and> id_flash i ! 4 \<le> 0xEF
      then id_flash i ! 4 else 0xFF)"
  by (auto simp: identity_init_def Let_def identity_rec_of_def)

text \<open>
  C37. An address that a node program stores is the address it starts with after a reset, unless it lies outside
  the pool the gateway assigns from: then the node starts unprovisioned, and so does any of the three programs with
  a record that another one of them left. Whatever the flash holds, a program starts with the address in it only
  when the driver opens and reads, the first four bytes are its own magic number and the address is in the pool; in
  every other case it starts with 0xFF.
\<close>

theorem address_survives_reset:
  fixes i :: Identity
  defines "kept \<equiv> (if pool_or_none (gNodeAddress i) then gNodeAddress i else 0xFF)"
  defines "solar \<equiv> snd (solar_identity_persist True (i\<lparr> sNvs := True \<rparr>))"
  defines "light \<equiv> snd (light_identity_persist True (i\<lparr> sNvs := True \<rparr>))"
  defines "th \<equiv> snd (th_identity_persist True (i\<lparr> sNvs := True \<rparr>))"
  defines "valid \<equiv> (\<lambda>magic opens reads j. opens \<and> reads \<and> le32_at (id_flash j) 0 = (magic :: u32) \<and>
    0x10 \<le> id_flash j ! 4 \<and> id_flash j ! 4 \<le> 0xEF)"
  shows "map (\<lambda>j. gNodeAddress (solar_identity_init lo hi True True j)) [solar, light, th] = [kept, 0xFF, 0xFF] \<and>
    map (\<lambda>j. gNodeAddress (light_identity_init lo hi True True j)) [solar, light, th] = [0xFF, kept, 0xFF] \<and>
    map (\<lambda>j. gNodeAddress (th_identity_init lo hi True True j)) [solar, light, th] = [0xFF, 0xFF, kept] \<and>
    gNodeAddress (solar_identity_init lo hi opens reads j) =
      (if valid 0x53434E31 opens reads j then id_flash j ! 4 else 0xFF) \<and>
    gNodeAddress (light_identity_init lo hi opens reads j) =
      (if valid 0x4C534E31 opens reads j then id_flash j ! 4 else 0xFF) \<and>
    gNodeAddress (th_identity_init lo hi opens reads j) =
      (if valid 0x54484E31 opens reads j then id_flash j ! 4 else 0xFF)"
proof -
  have "gNodeAddress (solar_identity_init lo hi opens reads j) =
        (if valid 0x53434E31 opens reads j then id_flash j ! 4 else 0xFF)"
      "gNodeAddress (light_identity_init lo hi opens reads j) =
        (if valid 0x4C534E31 opens reads j then id_flash j ! 4 else 0xFF)"
      "gNodeAddress (th_identity_init lo hi opens reads j) =
        (if valid 0x54484E31 opens reads j then id_flash j ! 4 else 0xFF)"
    by (simp_all add: identity_programs init_address valid_def SOLAR_IDENTITY_MAGIC_def LIGHT_IDENTITY_MAGIC_def
        TH_IDENTITY_MAGIC_def)
  then show ?thesis
    by (simp add: assms(1-4) identity_programs init_after_persist magics_differ magics_differ [symmetric])
qed

text \<open>With \<open>defines\<close> as definitional premises the statement is used at an address of the pool.\<close>

theorem address_survives_reset_witness:
  "gNodeAddress (solar_identity_init 1 2 True True (snd (solar_identity_persist True
     \<lparr> gNodeAddress = 0x21, gFactoryId = replicate 8 0, sNvs = True, id_flash = [] \<rparr>))) = 0x21"
  using address_survives_reset [where lo = 1 and hi = 2 and
      i = "\<lparr> gNodeAddress = 0x21, gFactoryId = replicate 8 0, sNvs = True, id_flash = [] \<rparr>", THEN conjunct1]
  by (simp add: pool_or_none_def)

end
