(* ===== verification/NodeRadio.thy ===== *)
theory NodeRadio
  imports NodeIdentity RadioLink
begin

text \<open>
  The radio tasks of the two mains-powered nodes: \<open>rfEchoTx.c\<close> of the solar controller and of the light switch.
  The second file is an edited copy of the first, so both are translated on their own (prefix \<open>ls_\<close> for
  the light switch) and then shown to be the same function up to the JOIN message. The RF core is outside as in
  the concentrator's radio task; a message queue carries the bytes that were sent, at most the size of
  a message, and a receive overwrites the front of the receiver's variable.
\<close>

definition NODE_MAX_MSG_SIZE :: nat where [simp]: "NODE_MAX_MSG_SIZE = 70"
definition NODE_MAX_RETRIES :: nat where [simp]: "NODE_MAX_RETRIES = 2"
definition NODE_QUEUE_MAX :: nat where [simp]: "NODE_QUEUE_MAX = 10"

abbreviation (input) "NODE_EVENT_SEND_PACKET \<equiv> 1 :: u32"
abbreviation (input) "NODE_EVENT_RADIO_RX \<equiv> 2 :: u32"
abbreviation (input) "NODE_EVENT_ACK_SENT \<equiv> 4 :: u32"
abbreviation (input) "NODE_CAP_SET_RELAY \<equiv> 1 :: u32"

text \<open>\<open>NodeTx\<close> is a packet handed to the radio, \<open>CommandEvent\<close> wakes the application task.\<close>

datatype node_effect = NodeTx "u8 list" | CommandEvent

record NodeRadio =
  nr_identity :: Identity
  nr_radioQueue :: "u8 list list"
  nr_commandQueue :: "u8 list list"
  nr_txSeq :: u8
  nr_rxMsg :: "u8 list"

definition node_mq_send :: "MessageStruct \<Rightarrow> NodeRadio \<Rightarrow> NodeRadio" where
  "node_mq_send m s = (if length (nr_radioQueue s) < NODE_QUEUE_MAX
     then s\<lparr> nr_radioQueue := nr_radioQueue s @ [take (unat (m_length m)) (msg_bytes m)] \<rparr> else s)"

definition node_mq_receive :: "u8 list \<Rightarrow> MessageStruct \<Rightarrow> MessageStruct" where
  "node_mq_receive item old = msg_of_bytes (blit (msg_bytes old) 0 item)"

text \<open>A received command whose length byte exceeds the message size is refused by the queue.\<close>

definition node_post_command :: "MessageStruct \<Rightarrow> NodeRadio \<Rightarrow> NodeRadio" where
  "node_post_command m s = (if length (nr_commandQueue s) < NODE_QUEUE_MAX \<and> unat (m_length m) \<le> MESSAGE_SIZE
     then s\<lparr> nr_commandQueue := nr_commandQueue s @ [take (unat (m_length m)) (msg_bytes m)] \<rparr> else s)"

subsection \<open>The solar controller\<close>

text \<open>\<open>air j k\<close> are the packets received after the k-th transmission of the j-th message.\<close>

definition sc_calcChecksum :: "u8 list \<Rightarrow> u8" where
  "sc_calcChecksum msg = foldl (\<lambda>crc b. crc XOR b) 0 msg"

definition sc_join_message :: "Identity \<Rightarrow> MessageStruct" where
  "sc_join_message i =
     (let m = msg_zero\<lparr> m_id := ADDR_UNPROVISIONED, m_type := NODE_SOLAR_CONTROLLER, m_cmd := CMD_JOIN_REQUEST \<rparr>;
          m1 = put_payload 0 (take NODE_FACTORY_ID_LEN (gFactoryId i)) m;
          m2 = put_payload 8 (le32_bytes NODE_CAP_SET_RELAY) m1
      in m2\<lparr> m_length := 12 + 4 \<rparr>)"

definition sc_buttonCallback2 :: "NodeRadio \<Rightarrow> NodeRadio" where
  "sc_buttonCallback2 s = node_mq_send (sc_join_message (nr_identity s)) s"

definition sc_frame :: "u8 list \<Rightarrow> u8 list \<Rightarrow> MessageStruct \<Rightarrow> u8 \<Rightarrow> u8 list option" where
  "sc_frame buf fid m sq =
     (let len = unat (m_length m) in
      if len > MESSAGE_SIZE then None
      else
        let f1 = buf[0 := ADDR_GATEWAY, 1 := RF_FRAME_TAG_V2, 2 := m_id m];
            f2 = blit f1 3 (take NODE_FACTORY_ID_LEN fid);
            f3 = blit f2 11 (take len (msg_bytes m));
            seqIdx = 11 + len; crcIdx = seqIdx + 1;
            f4 = f3[seqIdx := sq];
            f5 = f4[crcIdx := sc_calcChecksum (take (len + 10) (drop 2 f4))]
        in Some (take (crcIdx + 1) f5))"

fun sc_scan_ack :: "u8 \<Rightarrow> u8 \<Rightarrow> u8 \<Rightarrow> u8 list list \<Rightarrow> bool \<Rightarrow> u8 list \<Rightarrow> (bool \<times> u8 list) option" where
  "sc_scan_ack own dest crc [] acked buf = Some (acked, buf)"
| "sc_scan_ack own dest crc (p # ps) acked buf =
     (if length p \<ge> NODE_MAX_MSG_SIZE then None
      else
        let b = (blit buf 0 p)[length p := 0];
            hit = (b ! 0 = own \<and> b ! 1 = RF_REPLY_ACK \<and> b ! 2 = dest \<and> b ! 3 = crc)
        in sc_scan_ack own dest crc ps (acked \<or> hit) b)"

primrec sc_tries :: "nat \<Rightarrow> (nat \<Rightarrow> u8 list list) \<Rightarrow> nat \<Rightarrow> u8 \<Rightarrow> u8 list \<Rightarrow> u8 list \<Rightarrow> (bool \<times> u8 list \<times> node_effect list) option" where
  "sc_tries 0 air k own pkt buf = Some (False, buf, [])"
| "sc_tries (Suc n) air k own pkt buf = (case sc_scan_ack own (pkt ! 0) (last pkt) (air k) False buf of
     None \<Rightarrow> None
   | Some (acked, b) \<Rightarrow>
       if acked then Some (True, b, [NodeTx pkt])
       else (case sc_tries n air (Suc k) own pkt b of
         None \<Rightarrow> None | Some (r, b', fx) \<Rightarrow> Some (r, b', NodeTx pkt # fx)))"

fun sc_send_all :: "u8 list \<Rightarrow> (nat \<Rightarrow> nat \<Rightarrow> u8 list list) \<Rightarrow> nat \<Rightarrow> u8 list list \<Rightarrow> MessageStruct \<Rightarrow> NodeRadio \<Rightarrow>
    (NodeRadio \<times> node_effect list) option" where
  "sc_send_all buf air j [] tempMsg s = Some (s, [])"
| "sc_send_all buf air j (item # items) tempMsg s =
     (let m = node_mq_receive item tempMsg; s1 = s\<lparr> nr_txSeq := nr_txSeq s + 1 \<rparr> in
      case sc_frame buf (gFactoryId (nr_identity s1)) m (nr_txSeq s1) of
        None \<Rightarrow> None
      | Some pkt \<Rightarrow> (case sc_tries (NODE_MAX_RETRIES + 1) (air j) 0 (m_id m) pkt (nr_rxMsg s1) of
          None \<Rightarrow> None
        | Some (acked, b, fx) \<Rightarrow> (case sc_send_all buf air (Suc j) items m (s1\<lparr> nr_rxMsg := b \<rparr>) of
            None \<Rightarrow> None | Some (s2, fx') \<Rightarrow> Some (s2, fx @ fx'))))"

definition sc_send_event :: "u8 list \<Rightarrow> MessageStruct \<Rightarrow> (nat \<Rightarrow> nat \<Rightarrow> u8 list list) \<Rightarrow> NodeRadio \<Rightarrow> (NodeRadio \<times> node_effect list) option" where
  "sc_send_event buf tempMsg air s = sc_send_all buf air 0 (nr_radioQueue s) tempMsg (s\<lparr> nr_radioQueue := [] \<rparr>)"

definition sc_deframe :: "u8 list \<Rightarrow> nat \<Rightarrow> Identity \<Rightarrow> (bool \<times> MessageStruct) option" where
  "sc_deframe b packetLength i =
     (if b ! 1 = RF_FRAME_TAG_V2 then
        let forUs = factory_is_mine (Some (drop 3 b)) i in
        if forUs \<and> packetLength \<ge> 13 then
          if packetLength - 13 > MESSAGE_SIZE then None
          else Some (forUs, msg_of_bytes (blit (msg_bytes msg_zero) 0 (take (packetLength - 13) (drop 11 b))))
        else Some (forUs, msg_zero)
      else if packetLength < 5 \<or> packetLength - 5 > MESSAGE_SIZE then None
      else Some (True, msg_of_bytes (blit (msg_bytes msg_zero) 0 (take (packetLength - 5) (drop 3 b)))))"

definition sc_rx_packet :: "u8 list \<Rightarrow> NodeRadio \<Rightarrow> (NodeRadio \<times> node_effect list) option" where
  "sc_rx_packet p s =
     (if length p \<ge> NODE_MAX_MSG_SIZE then None
      else
        let b = (blit (nr_rxMsg s) 0 p)[length p := 0]; s1 = s\<lparr> nr_rxMsg := b \<rparr>; packetLength = length p in
        if b ! 0 = gNodeAddress (nr_identity s1) \<and> (b ! 1 = RF_FRAME_TAG_LEGACY \<or> b ! 1 = RF_FRAME_TAG_V2) then
          if packetLength < 3 then None
          else if b ! (packetLength - 1) = sc_calcChecksum (take (packetLength - 3) (drop 2 b)) then
            (case sc_deframe b packetLength (nr_identity s1) of
               None \<Rightarrow> None
             | Some (forUs, m) \<Rightarrow>
                 if forUs then
                   Some (node_post_command m s1, [NodeTx [b ! 2, RF_REPLY_ACK, b ! 0, b ! (packetLength - 1)], CommandEvent])
                 else Some (s1, []))
          else Some (s1, [])
        else Some (s1, []))"

primrec sc_rx_event :: "u8 list list \<Rightarrow> NodeRadio \<Rightarrow> (NodeRadio \<times> node_effect list) option" where
  "sc_rx_event [] s = Some (s, [])"
| "sc_rx_event (p # ps) s = (case sc_rx_packet p s of
     None \<Rightarrow> None
   | Some (s1, fx) \<Rightarrow> (case sc_rx_event ps s1 of
       None \<Rightarrow> None | Some (s2, fx') \<Rightarrow> Some (s2, fx @ fx')))"

definition sc_radio_turn :: "u32 \<Rightarrow> u8 list \<Rightarrow> MessageStruct \<Rightarrow> (nat \<Rightarrow> nat \<Rightarrow> u8 list list) \<Rightarrow> u8 list list \<Rightarrow> NodeRadio \<Rightarrow>
    (NodeRadio \<times> node_effect list) option" where
  "sc_radio_turn events buf tempMsg air received s =
     (if events AND NODE_EVENT_SEND_PACKET \<noteq> 0 then sc_send_event buf tempMsg air s
      else if events AND NODE_EVENT_RADIO_RX \<noteq> 0 then sc_rx_event received s
      else Some (s, []))"

text \<open>The callbacks of the RF driver, as the event bits they post, and the state after start-up.\<close>

definition sc_echoCallback :: "bool \<Rightarrow> u32" where
  "sc_echoCallback rx_entry_done = (if rx_entry_done then NODE_EVENT_RADIO_RX else 0)"

definition sc_echoCallbackACK :: "bool \<Rightarrow> u32" where
  "sc_echoCallbackACK last_cmd_done = (if last_cmd_done then NODE_EVENT_ACK_SENT else 0)"

definition sc_radioTaskInit :: "u32 \<Rightarrow> u32 \<Rightarrow> bool \<Rightarrow> bool \<Rightarrow> Identity \<Rightarrow> NodeRadio" where
  "sc_radioTaskInit lo hi nvs_opens nvs_reads i =
     \<lparr> nr_identity = solar_identity_init lo hi nvs_opens nvs_reads i, nr_radioQueue = [], nr_commandQueue = [],
       nr_txSeq = 0, nr_rxMsg = replicate NODE_MAX_MSG_SIZE 0 \<rparr>"

subsection \<open>The light switch\<close>

text \<open>The same operations of the light switch; its JOIN is sent by the touch loop.\<close>

definition ls_calcChecksum :: "u8 list \<Rightarrow> u8" where
  "ls_calcChecksum msg = foldl (\<lambda>crc b. crc XOR b) 0 msg"

definition ls_join_message :: "Identity \<Rightarrow> MessageStruct" where
  "ls_join_message i =
     (let m = msg_zero\<lparr> m_id := ADDR_UNPROVISIONED, m_type := NODE_LIGHT_CONTROLLER, m_cmd := CMD_JOIN_REQUEST \<rparr>;
          m1 = put_payload 0 (take NODE_FACTORY_ID_LEN (gFactoryId i)) m;
          m2 = put_payload 8 (le32_bytes NODE_CAP_SET_RELAY) m1
      in m2\<lparr> m_length := 12 + 4 \<rparr>)"

definition ls_rf_send_join :: "NodeRadio \<Rightarrow> NodeRadio" where
  "ls_rf_send_join s = node_mq_send (ls_join_message (nr_identity s)) s"

definition ls_frame :: "u8 list \<Rightarrow> u8 list \<Rightarrow> MessageStruct \<Rightarrow> u8 \<Rightarrow> u8 list option" where
  "ls_frame buf fid m sq =
     (let len = unat (m_length m) in
      if len > MESSAGE_SIZE then None
      else
        let f1 = buf[0 := ADDR_GATEWAY, 1 := RF_FRAME_TAG_V2, 2 := m_id m];
            f2 = blit f1 3 (take NODE_FACTORY_ID_LEN fid);
            f3 = blit f2 11 (take len (msg_bytes m));
            seqIdx = 11 + len; crcIdx = seqIdx + 1;
            f4 = f3[seqIdx := sq];
            f5 = f4[crcIdx := ls_calcChecksum (take (len + 10) (drop 2 f4))]
        in Some (take (crcIdx + 1) f5))"

fun ls_scan_ack :: "u8 \<Rightarrow> u8 \<Rightarrow> u8 \<Rightarrow> u8 list list \<Rightarrow> bool \<Rightarrow> u8 list \<Rightarrow> (bool \<times> u8 list) option" where
  "ls_scan_ack own dest crc [] acked buf = Some (acked, buf)"
| "ls_scan_ack own dest crc (p # ps) acked buf =
     (if length p \<ge> NODE_MAX_MSG_SIZE then None
      else
        let b = (blit buf 0 p)[length p := 0];
            hit = (b ! 0 = own \<and> b ! 1 = RF_REPLY_ACK \<and> b ! 2 = dest \<and> b ! 3 = crc)
        in ls_scan_ack own dest crc ps (acked \<or> hit) b)"

primrec ls_tries :: "nat \<Rightarrow> (nat \<Rightarrow> u8 list list) \<Rightarrow> nat \<Rightarrow> u8 \<Rightarrow> u8 list \<Rightarrow> u8 list \<Rightarrow> (bool \<times> u8 list \<times> node_effect list) option" where
  "ls_tries 0 air k own pkt buf = Some (False, buf, [])"
| "ls_tries (Suc n) air k own pkt buf = (case ls_scan_ack own (pkt ! 0) (last pkt) (air k) False buf of
     None \<Rightarrow> None
   | Some (acked, b) \<Rightarrow>
       if acked then Some (True, b, [NodeTx pkt])
       else (case ls_tries n air (Suc k) own pkt b of
         None \<Rightarrow> None | Some (r, b', fx) \<Rightarrow> Some (r, b', NodeTx pkt # fx)))"

fun ls_send_all :: "u8 list \<Rightarrow> (nat \<Rightarrow> nat \<Rightarrow> u8 list list) \<Rightarrow> nat \<Rightarrow> u8 list list \<Rightarrow> MessageStruct \<Rightarrow> NodeRadio \<Rightarrow>
    (NodeRadio \<times> node_effect list) option" where
  "ls_send_all buf air j [] tempMsg s = Some (s, [])"
| "ls_send_all buf air j (item # items) tempMsg s =
     (let m = node_mq_receive item tempMsg; s1 = s\<lparr> nr_txSeq := nr_txSeq s + 1 \<rparr> in
      case ls_frame buf (gFactoryId (nr_identity s1)) m (nr_txSeq s1) of
        None \<Rightarrow> None
      | Some pkt \<Rightarrow> (case ls_tries (NODE_MAX_RETRIES + 1) (air j) 0 (m_id m) pkt (nr_rxMsg s1) of
          None \<Rightarrow> None
        | Some (acked, b, fx) \<Rightarrow> (case ls_send_all buf air (Suc j) items m (s1\<lparr> nr_rxMsg := b \<rparr>) of
            None \<Rightarrow> None | Some (s2, fx') \<Rightarrow> Some (s2, fx @ fx'))))"

definition ls_send_event :: "u8 list \<Rightarrow> MessageStruct \<Rightarrow> (nat \<Rightarrow> nat \<Rightarrow> u8 list list) \<Rightarrow> NodeRadio \<Rightarrow> (NodeRadio \<times> node_effect list) option" where
  "ls_send_event buf tempMsg air s = ls_send_all buf air 0 (nr_radioQueue s) tempMsg (s\<lparr> nr_radioQueue := [] \<rparr>)"

definition ls_deframe :: "u8 list \<Rightarrow> nat \<Rightarrow> Identity \<Rightarrow> (bool \<times> MessageStruct) option" where
  "ls_deframe b packetLength i =
     (if b ! 1 = RF_FRAME_TAG_V2 then
        let forUs = factory_is_mine (Some (drop 3 b)) i in
        if forUs \<and> packetLength \<ge> 13 then
          if packetLength - 13 > MESSAGE_SIZE then None
          else Some (forUs, msg_of_bytes (blit (msg_bytes msg_zero) 0 (take (packetLength - 13) (drop 11 b))))
        else Some (forUs, msg_zero)
      else if packetLength < 5 \<or> packetLength - 5 > MESSAGE_SIZE then None
      else Some (True, msg_of_bytes (blit (msg_bytes msg_zero) 0 (take (packetLength - 5) (drop 3 b)))))"

definition ls_rx_packet :: "u8 list \<Rightarrow> NodeRadio \<Rightarrow> (NodeRadio \<times> node_effect list) option" where
  "ls_rx_packet p s =
     (if length p \<ge> NODE_MAX_MSG_SIZE then None
      else
        let b = (blit (nr_rxMsg s) 0 p)[length p := 0]; s1 = s\<lparr> nr_rxMsg := b \<rparr>; packetLength = length p in
        if b ! 0 = gNodeAddress (nr_identity s1) \<and> (b ! 1 = RF_FRAME_TAG_LEGACY \<or> b ! 1 = RF_FRAME_TAG_V2) then
          if packetLength < 3 then None
          else if b ! (packetLength - 1) = ls_calcChecksum (take (packetLength - 3) (drop 2 b)) then
            (case ls_deframe b packetLength (nr_identity s1) of
               None \<Rightarrow> None
             | Some (forUs, m) \<Rightarrow>
                 if forUs then
                   Some (node_post_command m s1, [NodeTx [b ! 2, RF_REPLY_ACK, b ! 0, b ! (packetLength - 1)], CommandEvent])
                 else Some (s1, []))
          else Some (s1, [])
        else Some (s1, []))"

primrec ls_rx_event :: "u8 list list \<Rightarrow> NodeRadio \<Rightarrow> (NodeRadio \<times> node_effect list) option" where
  "ls_rx_event [] s = Some (s, [])"
| "ls_rx_event (p # ps) s = (case ls_rx_packet p s of
     None \<Rightarrow> None
   | Some (s1, fx) \<Rightarrow> (case ls_rx_event ps s1 of
       None \<Rightarrow> None | Some (s2, fx') \<Rightarrow> Some (s2, fx @ fx')))"

definition ls_radio_turn :: "u32 \<Rightarrow> u8 list \<Rightarrow> MessageStruct \<Rightarrow> (nat \<Rightarrow> nat \<Rightarrow> u8 list list) \<Rightarrow> u8 list list \<Rightarrow> NodeRadio \<Rightarrow>
    (NodeRadio \<times> node_effect list) option" where
  "ls_radio_turn events buf tempMsg air received s =
     (if events AND NODE_EVENT_SEND_PACKET \<noteq> 0 then ls_send_event buf tempMsg air s
      else if events AND NODE_EVENT_RADIO_RX \<noteq> 0 then ls_rx_event received s
      else Some (s, []))"

text \<open>The callbacks of the RF driver, as the event bits they post, and the state after start-up.\<close>

definition ls_echoCallback :: "bool \<Rightarrow> u32" where
  "ls_echoCallback rx_entry_done = (if rx_entry_done then NODE_EVENT_RADIO_RX else 0)"

definition ls_echoCallbackACK :: "bool \<Rightarrow> u32" where
  "ls_echoCallbackACK last_cmd_done = (if last_cmd_done then NODE_EVENT_ACK_SENT else 0)"

definition ls_radioTaskInit :: "u32 \<Rightarrow> u32 \<Rightarrow> bool \<Rightarrow> bool \<Rightarrow> Identity \<Rightarrow> NodeRadio" where
  "ls_radioTaskInit lo hi nvs_opens nvs_reads i =
     \<lparr> nr_identity = light_identity_init lo hi nvs_opens nvs_reads i, nr_radioQueue = [], nr_commandQueue = [],
       nr_txSeq = 0, nr_rxMsg = replicate NODE_MAX_MSG_SIZE 0 \<rparr>"

subsection \<open>The two are one\<close>

lemma node_checksums: "sc_calcChecksum = calcChecksum" "ls_calcChecksum = calcChecksum"
  by (simp_all add: fun_eq_iff sc_calcChecksum_def ls_calcChecksum_def calcChecksum_def checksum_step_def [abs_def])

lemma ls_scan: "ls_scan_ack own dest crc ps acked buf = sc_scan_ack own dest crc ps acked buf"
  by (induction own dest crc ps acked buf rule: sc_scan_ack.induct) (simp_all add: Let_def)

lemma ls_tries: "ls_tries n = sc_tries n"
proof (induction n)
  case (Suc n)
  show ?case by (intro ext) (unfold ls_tries.simps sc_tries.simps ls_scan Suc.IH, rule refl)
qed (simp add: fun_eq_iff)

lemma ls_frame: "ls_frame = sc_frame"
  by (intro ext) (simp only: ls_frame_def sc_frame_def node_checksums)

lemma ls_send: "ls_send_all buf air j items tempMsg s = sc_send_all buf air j items tempMsg s"
  by (induction buf air j items tempMsg s rule: sc_send_all.induct)
    (simp_all add: ls_frame ls_tries Let_def split: option.split)

lemma ls_deframe: "ls_deframe = sc_deframe"
  by (intro ext) (simp only: ls_deframe_def sc_deframe_def)

lemma ls_packet: "ls_rx_packet = sc_rx_packet"
  by (intro ext) (simp only: ls_rx_packet_def sc_rx_packet_def node_checksums ls_deframe)

lemma ls_event: "ls_rx_event ps s = sc_rx_event ps s"
  by (induction ps arbitrary: s) (simp_all add: ls_packet split: option.split)

text \<open>
  The radio task of the light switch behaves exactly like the solar controller's for every event, queue
  content and air traffic, and their JOIN announcements differ in the node type only.
\<close>

theorem light_radio_is_solar_radio:
  "ls_radio_turn = sc_radio_turn \<and>
   (\<forall>i. ls_join_message i = (sc_join_message i)\<lparr> m_type := NODE_LIGHT_CONTROLLER \<rparr>)"
proof
  have e: "ls_rx_event = sc_rx_event" by (simp add: fun_eq_iff ls_event)
  show "ls_radio_turn = sc_radio_turn"
    by (simp add: fun_eq_iff ls_radio_turn_def sc_radio_turn_def ls_send_event_def sc_send_event_def ls_send e)
  show "\<forall>i. ls_join_message i = (sc_join_message i)\<lparr> m_type := NODE_LIGHT_CONTROLLER \<rparr>"
    by (simp add: ls_join_message_def sc_join_message_def put_payload_def Let_def)
qed

end
