(* ===== verification/Float64.thy ===== *)
theory Float64
  imports Float32
begin

text \<open>
  The \<open>double\<close> of the C sources, in which the solar node evaluates its sensor polynomials: IEEE-754
  binary64, kept as its 64-bit pattern, with the value as an integer multiple of \<open>2^-1074\<close>; as for binary32
  every operation computes exactly and rounds once, to nearest with ties to even.
\<close>

definition f64_sign :: "u64 \<Rightarrow> bool" where "f64_sign x \<longleftrightarrow> bit x 63"
definition f64_mag :: "u64 \<Rightarrow> nat" where "f64_mag x = unat (take_bit 63 x)"
definition f64_nan :: "u64 \<Rightarrow> bool" where "f64_nan x \<longleftrightarrow> f64_mag x > 0x7FF0000000000000"
definition f64_inf :: "u64 \<Rightarrow> bool" where "f64_inf x \<longleftrightarrow> f64_mag x = 0x7FF0000000000000"

definition f64_unpack :: "nat \<Rightarrow> nat" where
  "f64_unpack n = (if n < 2 ^ 52 then n else (2 ^ 52 + n mod 2 ^ 52) * 2 ^ (n div 2 ^ 52 - 1))"

definition f64_fix :: "u64 \<Rightarrow> int" where
  "f64_fix x = (if f64_sign x then - int (f64_unpack (f64_mag x)) else int (f64_unpack (f64_mag x)))"

text \<open>The 63 low bits of the binary64 number nearest to \<open>p / q\<close> (in units of \<open>2^-1074\<close>).\<close>

definition f64_round :: "nat \<Rightarrow> nat \<Rightarrow> nat" where
  "f64_round p q =
     (let k = nbits (p div q) - 53; d = q * 2 ^ k; n = p div d; r = p mod d;
          n' = (if d < 2 * r \<or> (2 * r = d \<and> odd n) then n + 1 else n)
      in min (k * 2 ^ 52 + n') 0x7FF0000000000000)"

definition f64_mk :: "bool \<Rightarrow> nat \<Rightarrow> u64" where
  "f64_mk s n = (if s then 0x8000000000000000 else 0) + word_of_nat n"

definition f64_of_frac :: "bool \<Rightarrow> nat \<Rightarrow> nat \<Rightarrow> u64" where
  "f64_of_frac s p q = f64_mk s (f64_round p q)"

definition f64_qnan :: u64 where "f64_qnan = 0x7FF8000000000000"

definition f64_neg :: "u64 \<Rightarrow> u64" where "f64_neg x = x XOR 0x8000000000000000"

definition f64_add :: "u64 \<Rightarrow> u64 \<Rightarrow> u64" where
  "f64_add a b =
     (if f64_nan a \<or> f64_nan b then f64_qnan
      else if f64_inf a then (if f64_inf b \<and> f64_sign a \<noteq> f64_sign b then f64_qnan else a)
      else if f64_inf b then b
      else let v = f64_fix a + f64_fix b in
        if v = 0 then f64_mk (f64_sign a \<and> f64_sign b) 0 else f64_of_frac (v < 0) (nat \<bar>v\<bar>) 1)"

definition f64_sub :: "u64 \<Rightarrow> u64 \<Rightarrow> u64" where "f64_sub a b = f64_add a (f64_neg b)"

definition f64_mul :: "u64 \<Rightarrow> u64 \<Rightarrow> u64" where
  "f64_mul a b =
     (let s = (f64_sign a \<noteq> f64_sign b) in
      if f64_nan a \<or> f64_nan b then f64_qnan
      else if f64_inf a \<or> f64_inf b
        then (if f64_mag a = 0 \<or> f64_mag b = 0 then f64_qnan else f64_mk s 0x7FF0000000000000)
      else f64_of_frac s (nat \<bar>f64_fix a * f64_fix b\<bar>) (2 ^ 1074))"

definition f64_div :: "u64 \<Rightarrow> u64 \<Rightarrow> u64" where
  "f64_div a b =
     (let s = (f64_sign a \<noteq> f64_sign b) in
      if f64_nan a \<or> f64_nan b then f64_qnan
      else if f64_inf a then (if f64_inf b then f64_qnan else f64_mk s 0x7FF0000000000000)
      else if f64_inf b then f64_mk s 0
      else if f64_mag b = 0 then (if f64_mag a = 0 then f64_qnan else f64_mk s 0x7FF0000000000000)
      else f64_of_frac s (nat \<bar>f64_fix a\<bar> * 2 ^ 1074) (nat \<bar>f64_fix b\<bar>))"

definition f64_of_int :: "int \<Rightarrow> u64" where
  "f64_of_int i = f64_of_frac (i < 0) (nat \<bar>i\<bar> * 2 ^ 1074) 1"

text \<open>The double nearest to the decimal literal \<open>p / q\<close>.\<close>

definition f64_lit :: "nat \<Rightarrow> nat \<Rightarrow> u64" where
  "f64_lit p q = f64_of_frac False (p * 2 ^ 1074) q"

text \<open>The conversions between the two formats: widening is exact, narrowing rounds.\<close>

definition f64_of_f32 :: "u32 \<Rightarrow> u64" where
  "f64_of_f32 x =
     (if f32_nan x then f64_qnan
      else if f32_inf x then f64_mk (f32_sign x) 0x7FF0000000000000
      else f64_of_frac (f32_sign x) (nat \<bar>f32_fix x\<bar> * 2 ^ 925) 1)"

definition f32_of_f64 :: "u64 \<Rightarrow> u32" where
  "f32_of_f64 x =
     (if f64_nan x then f32_qnan
      else if f64_inf x then f32_mk (f64_sign x) 0x7F800000
      else f32_of_frac (f64_sign x) (nat \<bar>f64_fix x\<bar>) (2 ^ 925))"

lemmas f64_eval =
  f64_sign_def f64_mag_def f64_nan_def f64_inf_def f64_unpack_def f64_fix_def f64_round_def f64_mk_def
  f64_of_frac_def f64_qnan_def f64_neg_def f64_add_def f64_sub_def f64_mul_def f64_div_def f64_of_int_def
  f64_lit_def f64_of_f32_def f32_of_f64_def Let_def bit_iff_odd

end
