(* ===== verification/Ads1256.thy ===== *)
theory Ads1256
  imports Prelude Float64
begin

text \<open>
  The driver of the solar node's 24-bit converter (\<open>ads1256.c\<close>). The chip is outside: \<open>dev w\<close> are the bytes it
  returns in the last transfer of the history \<open>w\<close>, and \<open>drdy k\<close> is the level of its ready pin at the k-th read
  (low means that a sample is ready). A failed transfer is one that returns no bytes.
\<close>

record Ads =
  spiTxBuffer :: "u8 list"
  spiRxBuffer :: "u8 list"
  ads_wire :: "u8 list list"
  ads_polls :: nat
  Adc_Value :: "u32 list"

definition ADS1256_DRATE_E :: "u8 list" where
  "ADS1256_DRATE_E = [0xF0, 0xE0, 0xD0, 0xC0, 0xB0, 0xA1, 0x92, 0x82, 0x72, 0x63, 0x53, 0x43, 0x33, 0x20, 0x13, 0x03]"

abbreviation (input) "ADS1256_GAIN_1 \<equiv> 0 :: u8"
abbreviation (input) "ADS1256_15SPS \<equiv> 12 :: nat"
abbreviation (input) "REG_STATUS \<equiv> 0 :: u8"
abbreviation (input) "REG_MUX \<equiv> 1 :: u8"
abbreviation (input) "CMD_WAKEUP \<equiv> 0x00 :: u8"
abbreviation (input) "CMD_RDATA \<equiv> 0x01 :: u8"
abbreviation (input) "CMD_RREG \<equiv> 0x10 :: u8"
abbreviation (input) "CMD_WREG \<equiv> 0x50 :: u8"
abbreviation (input) "CMD_SYNC \<equiv> 0xFC :: u8"

subsection \<open>Transfers\<close>

definition SPI_transfer :: "(u8 list list \<Rightarrow> u8 list) \<Rightarrow> nat \<Rightarrow> Ads \<Rightarrow> Ads" where
  "SPI_transfer dev n s =
     (let w = ads_wire s @ [take n (spiTxBuffer s)]
      in s\<lparr> ads_wire := w, spiRxBuffer := blit (spiRxBuffer s) 0 (take n (dev w)) \<rparr>)"

definition ads_put :: "u8 list \<Rightarrow> Ads \<Rightarrow> Ads" where
  "ads_put bs s = s\<lparr> spiTxBuffer := blit (spiTxBuffer s) 0 bs \<rparr>"

definition ADS1256_WriteCmd :: "(u8 list list \<Rightarrow> u8 list) \<Rightarrow> u8 \<Rightarrow> Ads \<Rightarrow> Ads" where
  "ADS1256_WriteCmd dev c s = SPI_transfer dev 1 (ads_put [c] s)"

definition ADS1256_WriteReg :: "(u8 list list \<Rightarrow> u8 list) \<Rightarrow> u8 \<Rightarrow> u8 \<Rightarrow> Ads \<Rightarrow> Ads" where
  "ADS1256_WriteReg dev r d s = SPI_transfer dev 3 (ads_put [CMD_WREG OR r, 0, d] s)"

definition ADS1256_Read_data :: "(u8 list list \<Rightarrow> u8 list) \<Rightarrow> u8 \<Rightarrow> Ads \<Rightarrow> u8 \<times> Ads" where
  "ADS1256_Read_data dev r s =
     (let s1 = SPI_transfer dev 2 (ads_put [CMD_RREG OR r, 0] s);
          s2 = SPI_transfer dev 1 (ads_put [0xFF] s1)
      in (spiRxBuffer s2 ! 0, s2))"

text \<open>The bounded wait: at most four million reads of the pin, and a time-out is only reported.\<close>

primrec ads_wait :: "nat \<Rightarrow> (nat \<Rightarrow> bool) \<Rightarrow> Ads \<Rightarrow> bool \<times> Ads" where
  "ads_wait 0 drdy s = (False, s)"
| "ads_wait (Suc n) drdy s =
     (let s1 = s\<lparr> ads_polls := ads_polls s + 1 \<rparr> in if drdy (ads_polls s) then ads_wait n drdy s1 else (True, s1))"

definition ADS1256_WaitDRDY :: "(nat \<Rightarrow> bool) \<Rightarrow> Ads \<Rightarrow> Ads" where
  "ADS1256_WaitDRDY drdy s = snd (ads_wait 4000000 drdy s)"

definition ADS1256_ReadChipID :: "(u8 list list \<Rightarrow> u8 list) \<Rightarrow> (nat \<Rightarrow> bool) \<Rightarrow> Ads \<Rightarrow> u8 \<times> Ads" where
  "ADS1256_ReadChipID dev drdy s =
     (let (i, s1) = ADS1256_Read_data dev REG_STATUS (ADS1256_WaitDRDY drdy s) in (drop_bit 4 i, s1))"

definition ADS1256_ConfigADC :: "(u8 list list \<Rightarrow> u8 list) \<Rightarrow> (nat \<Rightarrow> bool) \<Rightarrow> u8 \<Rightarrow> nat \<Rightarrow> Ads \<Rightarrow> Ads" where
  "ADS1256_ConfigADC dev drdy gain drate s =
     SPI_transfer dev 6 (ads_put [CMD_WREG, 0x03, 4, 0x08, gain, ADS1256_DRATE_E ! drate] (ADS1256_WaitDRDY drdy s))"

definition ADS1256_SetChannel :: "(u8 list list \<Rightarrow> u8 list) \<Rightarrow> u8 \<Rightarrow> Ads \<Rightarrow> Ads" where
  "ADS1256_SetChannel dev ch s =
     (if ch > 7 then s else ADS1256_WriteReg dev REG_MUX (push_bit 4 ch OR 8) s)"

text \<open>The result is the C function's: 0 for success.\<close>

definition ADS1256_Init :: "(u8 list list \<Rightarrow> u8 list) \<Rightarrow> (nat \<Rightarrow> bool) \<Rightarrow> Ads \<Rightarrow> u8 \<times> Ads" where
  "ADS1256_Init dev drdy s =
     (let (chipid, s1) = ADS1256_ReadChipID dev drdy s in
      if chipid = 3 then (0, ADS1256_ConfigADC dev drdy ADS1256_GAIN_1 ADS1256_15SPS s1) else (1, s1))"

subsection \<open>Samples\<close>

definition adc_code :: "u8 \<Rightarrow> u8 \<Rightarrow> u8 \<Rightarrow> u32" where
  "adc_code b0 b1 b2 =
     (let r1 = push_bit 16 (ucast b0) AND 0x00FF0000;
          r2 = r1 OR (push_bit 8 (ucast b1) AND 0x0000FF00);
          r3 = r2 OR ucast b2
      in if r3 AND 0x800000 \<noteq> 0 then r3 OR 0xFF000000 else r3)"

definition ADS1256_Read_ADC_Data :: "(u8 list list \<Rightarrow> u8 list) \<Rightarrow> (nat \<Rightarrow> bool) \<Rightarrow> Ads \<Rightarrow> u32 \<times> Ads" where
  "ADS1256_Read_ADC_Data dev drdy s =
     (let s1 = SPI_transfer dev 1 (ads_put [CMD_RDATA] (ADS1256_WaitDRDY drdy s));
          s2 = SPI_transfer dev 3 (ads_put [0xFF, 0xFF, 0xFF] (ADS1256_WaitDRDY drdy s1))
      in (adc_code (spiRxBuffer s2 ! 0) (spiRxBuffer s2 ! 1) (spiRxBuffer s2 ! 2), s2))"

text \<open>The wait at the start of a conversion has no limit: \<open>None\<close> is the task hanging here until the watchdog.\<close>

partial_function (option) ads_poll :: "(nat \<Rightarrow> bool) \<Rightarrow> Ads \<Rightarrow> Ads option" where
  "ads_poll drdy s =
     (if drdy (ads_polls s) then ads_poll drdy (s\<lparr> ads_polls := ads_polls s + 1 \<rparr>)
      else Some (s\<lparr> ads_polls := ads_polls s + 1 \<rparr>))"

definition ADS1256_GetChannelValue :: "(u8 list list \<Rightarrow> u8 list) \<Rightarrow> (nat \<Rightarrow> bool) \<Rightarrow> u8 \<Rightarrow> Ads \<Rightarrow> (u32 \<times> Ads) option" where
  "ADS1256_GetChannelValue dev drdy ch s = (case ads_poll drdy s of
     None \<Rightarrow> None
   | Some s1 \<Rightarrow>
       if ch \<ge> 8 then Some (0, s1)
       else
         let s2 = ADS1256_SetChannel dev ch s1;
             s3 = ADS1256_WriteCmd dev CMD_SYNC s2;
             s4 = ADS1256_WriteCmd dev CMD_WAKEUP s3
         in Some (ADS1256_Read_ADC_Data dev drdy s4))"

fun ads_get_from :: "(u8 list list \<Rightarrow> u8 list) \<Rightarrow> (nat \<Rightarrow> bool) \<Rightarrow> nat list \<Rightarrow> Ads \<Rightarrow> Ads option" where
  "ads_get_from dev drdy [] s = Some s"
| "ads_get_from dev drdy (i # is) s = (case ADS1256_GetChannelValue dev drdy (of_nat i) s of
     None \<Rightarrow> None
   | Some (v, s1) \<Rightarrow> ads_get_from dev drdy is (s1\<lparr> Adc_Value := (Adc_Value s1)[i := v] \<rparr>))"

definition ADS1256_GetAll :: "(u8 list list \<Rightarrow> u8 list) \<Rightarrow> (nat \<Rightarrow> bool) \<Rightarrow> Ads \<Rightarrow> Ads option" where
  "ADS1256_GetAll dev drdy s = ads_get_from dev drdy [0, 1, 2, 3, 4, 5, 6, 7] s"

subsection \<open>Temperatures\<close>

text \<open>
  The sensor polynomials, with the coefficients as the source writes them. The driver evaluates them in \<open>float\<close>
  but for the last term, whose literal is a \<open>double\<close>.
\<close>

definition f32_lit :: "nat \<Rightarrow> nat \<Rightarrow> u32" where
  "f32_lit p q = f32_of_frac False (p * 2 ^ 149) q"

text \<open>The coefficients of the square (in \<open>10^-16\<close>), of the linear term (in \<open>10^-8\<close>) and the offset (in \<open>10^-3\<close>).\<close>

definition temp_coeffs :: "(nat \<times> nat \<times> nat) list" where
  "temp_coeffs = [(5488, 3092, 25732), (5445, 3094, 25354), (5458, 3094, 24952), (5530, 3086, 25032),
     (5393, 3082, 25381), (5414, 3087, 25062), (5445, 3083, 25507), (5398, 3087, 25498)]"

definition ads_temperature :: "nat \<times> nat \<times> nat \<Rightarrow> u32 \<Rightarrow> u32" where
  "ads_temperature c adc = (case c of (c2, c1, c0) \<Rightarrow>
     let x = f32_of_int (uint adc);
         sum = f32_add (f32_mul (f32_mul x (f32_lit c2 (10 ^ 16))) x) (f32_mul x (f32_lit c1 (10 ^ 8)))
     in f32_of_f64 (f64_sub (f64_of_f32 sum) (f64_lit c0 (10 ^ 3))))"

definition ADS1256_ReadTemperature :: "(u8 list list \<Rightarrow> u8 list) \<Rightarrow> (nat \<Rightarrow> bool) \<Rightarrow> Ads \<Rightarrow> (u32 list \<times> Ads) option" where
  "ADS1256_ReadTemperature dev drdy s =
     map_option (\<lambda>s1. (map2 ads_temperature temp_coeffs (Adc_Value s1), s1)) (ADS1256_GetAll dev drdy s)"

subsection \<open>Facts\<close>

text \<open>A sample is the three bytes, most significant first, sign-extended to 32 bits.\<close>

lemma adc_code_exact: "adc_code b0 b1 b2 = le32_at [b2, b1, b0, if bit b0 7 then 0xFF else 0] 0"
proof -
  have m: "(x AND 0x800000 \<noteq> 0) = bit x 23" for x :: u32
    using and_exp_eq_0_iff_not_bit [of x 23] by simp
  have b: "bit (push_bit 16 (ucast b0 :: u32) AND 0x00FF0000 OR (push_bit 8 (ucast b1) AND 0x0000FF00) OR ucast b2) 23 = bit b0 7"
    by (auto simp: bit_simps dest: bit_imp_le_length)
  have k: "(0x00FF0000 :: u32) = push_bit 16 (mask 8)" "(0x0000FF00 :: u32) = push_bit 8 (mask 8)"
    "(0xFF000000 :: u32) = push_bit 24 (mask 8)" "(0xFF :: u8) = mask 8"
    by (simp_all add: mask_eq_exp_minus_1 push_bit_eq_mult)
  have "\<And>b i. bit (b :: u8) i \<Longrightarrow> i < 8" using bit_imp_le_length by fastforce
  note len = this [of b0] this [of b1]
  show ?thesis
    unfolding adc_code_def Let_def m b
    unfolding k
    by (cases "bit b0 7") (auto intro!: bit_word_eqI simp: le32_at_def bit_simps dest: len bit_imp_le_length)
qed

lemma ads_poll_returns:
  assumes "\<not> drdy (ads_polls s + n)"
  shows "\<exists>k \<le> n. ads_poll drdy s = Some (s\<lparr> ads_polls := ads_polls s + k + 1 \<rparr>)"
  using assms
proof (induction n arbitrary: s)
  case 0
  then show ?case by (simp add: ads_poll.simps)
next
  case (Suc n)
  show ?case
  proof (cases "drdy (ads_polls s)")
    case True
    obtain k where "k \<le> n" "ads_poll drdy (s\<lparr> ads_polls := ads_polls s + 1 \<rparr>) = Some (s\<lparr> ads_polls := ads_polls s + 1 + k + 1 \<rparr>)"
      using Suc.IH [of "s\<lparr> ads_polls := ads_polls s + 1 \<rparr>"] Suc.prems by auto
    then show ?thesis using True by (intro exI [of _ "Suc k"]) (simp add: ads_poll.simps [of drdy s])
  next
    case False
    then show ?thesis by (intro exI [of _ 0]) (simp add: ads_poll.simps)
  qed
qed

text \<open>The scan of the channels ends if the pin goes low again and again.\<close>

lemma get_from_returns:
  assumes "\<And>n. \<exists>k. \<not> drdy (n + k)"
  shows "\<exists>a. ads_get_from dev drdy is s = Some a"
proof (induction "is" arbitrary: s)
  case (Cons i "is")
  obtain k where "\<not> drdy (ads_polls s + k)" using assms by blast
  from ads_poll_returns [of drdy, OF this] obtain s1 where "ads_poll drdy s = Some s1" by blast
  then obtain v s2 where "ADS1256_GetChannelValue dev drdy (of_nat i) s = Some (v, s2)"
    by (auto simp: ADS1256_GetChannelValue_def Let_def split: prod.split)
      (metis surj_pair)
  then show ?case using Cons.IH by simp
qed simp

lemma read_returns:
  assumes "\<And>n. \<exists>k. \<not> drdy (n + k)"
  shows "\<exists>t a. ADS1256_ReadTemperature dev drdy s = Some (t, a)"
  using get_from_returns [of drdy, OF assms, of dev "[0, 1, 2, 3, 4, 5, 6, 7]" s]
  by (auto simp only: ADS1256_ReadTemperature_def ADS1256_GetAll_def option.map)

end
