(* ===== verification/SolarController.thy ===== *)
theory SolarController
  imports NodeRadio Ads1256
begin

text \<open>
  The application task of the solar node (\<open>solar_controller_task.c\<close>): measurements that steer the circulation
  pump and add up the energy, and the commands that arrive by radio. What \<open>GPIO_read\<close> returns for the relay
  pin at a given output level is an argument.
\<close>

abbreviation (input) "EVENT_RECEIVE_CMD \<equiv> 2 :: u32"
abbreviation (input) "EVENT_MEASURE_TEMPERATURE \<equiv> 4 :: u32"

text \<open>What the task does to the outside: the watchdog, the pins, the PWM output, and the radio task's event.\<close>

datatype solar_effect = WatchdogClear | Relay1 bool | Relay3 bool | SetDuty u16 | PostSendPacket

record Solar =
  so_radio :: NodeRadio
  so_adc :: Ads
  measuredTemp :: "u32 list"
  measuredTempPrev :: "u32 list"
  flowValue :: u16
  pwm1Duty :: u16
  energyGainFloat :: u32
  energyGain :: u32
  updatePwm :: bool
  deltaT_float :: u32
  min3couter :: nat
  send_data_to_db_flag :: nat
  so_relay1 :: bool
  solarMessage :: MessageStruct

definition pwm1Period :: u16 where "pwm1Period = 1200"

subsection \<open>A measurement\<close>

text \<open>The task evaluates the polynomials again, in \<open>double\<close>, over the samples the driver left behind.\<close>

definition task_temperature :: "nat \<times> nat \<times> nat \<Rightarrow> u32 \<Rightarrow> u32" where
  "task_temperature c adc = (case c of (c2, c1, c0) \<Rightarrow>
     let x = f64_of_int (uint adc);
         sum = f64_add (f64_mul (f64_mul x (f64_lit c2 (10 ^ 16))) x) (f64_mul x (f64_lit c1 (10 ^ 8)))
     in f32_of_f64 (f64_sub sum (f64_lit c0 (10 ^ 3))))"

text \<open>The demand \<open>(deltaT - 7) * 6 + 6\<close> that the pump's speed follows.\<close>

definition pump_demand :: "u32 \<Rightarrow> u32" where
  "pump_demand d = f32_add (f32_mul (f32_sub d (f32_of_int 7)) (f32_of_int 6)) (f32_of_int 6)"

definition flow_float :: "u16 \<Rightarrow> int \<Rightarrow> u32" where
  "flow_float f k = f32_of_int (uint f + k)"

definition update_pump :: "Solar \<Rightarrow> Solar \<times> solar_effect list" where
  "update_pump s =
     (let d = deltaT_float s; f = flowValue s in
      if f32_lt (f32_of_int 7) d \<and> f < 6 then
        (s\<lparr> flowValue := 6, pwm1Duty := 234 \<rparr>, [Relay3 True, SetDuty 234])
      else if f32_lt (flow_float f 6) (pump_demand d) \<and> f \<ge> 6 \<and> f \<le> 78 then
        (s\<lparr> flowValue := f + 6, pwm1Duty := pwm1Duty s + 54 \<rparr>, [SetDuty (pwm1Duty s + 54)])
      else if f32_lt (pump_demand d) (flow_float f (-6)) \<and> f \<ge> 12 then
        (s\<lparr> flowValue := f - 6, pwm1Duty := pwm1Duty s - 54 \<rparr>, [SetDuty (pwm1Duty s - 54)])
      else if f32_lt d (f32_of_int 6) \<and> f = 6 then
        (s\<lparr> flowValue := 0, pwm1Duty := 0 \<rparr>, [SetDuty 0, Relay3 False])
      else (s, []))"

definition add_energy :: "Solar \<Rightarrow> Solar" where
  "add_energy s =
     (let p = measuredTempPrev s; m = measuredTemp s;
          diff = f32_sub (f32_add (f32_sub (p ! 0) (p ! 1)) (m ! 0)) (m ! 1);
          part = f64_div (f64_mul (f64_mul (f64_lit 5 10) (f64_of_f32 diff)) (f64_of_int (uint (flowValue s)))) (f64_of_int 6)
      in s\<lparr> energyGainFloat := f32_of_f64 (f64_add (f64_of_f32 (energyGainFloat s)) part) \<rparr>)"

definition solar_data :: "u8 \<Rightarrow> Solar \<Rightarrow> MessageStruct" where
  "solar_data pump_pin s =
     (let t = measuredTemp s;
          m0 = (solarMessage s)\<lparr> m_id := gNodeAddress (nr_identity (so_radio s)), m_type := NODE_SOLAR_CONTROLLER,
            m_cmd := CMD_SEND_DATA_TO_DB \<rparr>;
          m1 = put_payload 0 (le32_bytes (t ! 0)) m0;
          m2 = put_payload 4 (le32_bytes (t ! 1)) m1;
          m3 = put_payload 8 (le32_bytes (t ! 2)) m2;
          m4 = put_payload 12 (le32_bytes (t ! 3)) m3;
          m5 = put_payload 16 (le32_bytes (t ! 4)) m4;
          m6 = put_payload 20 (le32_bytes (t ! 5)) m5;
          m7 = put_payload 24 (le32_bytes (t ! 6)) m6;
          m8 = put_payload 32 (le32_bytes (ucast (flowValue s))) m7;
          m9 = put_payload 28 (le32_bytes (energyGain s)) m8;
          m10 = put_payload 36 [pump_pin] m9
      in m10\<lparr> m_length := 4 + 40 \<rparr>)"

text \<open>A message of the task goes to the radio task's queue.\<close>

definition solar_post :: "MessageStruct \<Rightarrow> Solar \<Rightarrow> Solar \<times> solar_effect list" where
  "solar_post m s = (s\<lparr> solarMessage := m, so_radio := node_mq_send m (so_radio s) \<rparr>, [PostSendPacket])"

definition solar_report :: "(bool \<Rightarrow> u8) \<Rightarrow> Solar \<Rightarrow> Solar \<times> solar_effect list" where
  "solar_report pin s =
     (if send_data_to_db_flag s \<ge> 11 then
        let s1 = s\<lparr> energyGain := word_of_int (f32_to_int (energyGainFloat s)) \<rparr>;
            (s2, fx) = (if gNodeAddress (nr_identity (so_radio s1)) \<noteq> ADDR_UNPROVISIONED
              then solar_post (solar_data (pin (so_relay1 s1)) s1) s1 else (s1, []))
        in (s2\<lparr> energyGainFloat := 0, send_data_to_db_flag := 0 \<rparr>, fx)
      else (s\<lparr> send_data_to_db_flag := send_data_to_db_flag s + 1 \<rparr>, []))"

text \<open>The turn after the samples have been taken.\<close>

definition solar_measured :: "(bool \<Rightarrow> u8) \<Rightarrow> Solar \<Rightarrow> Solar \<times> solar_effect list" where
  "solar_measured pin s =
     (let t = map2 task_temperature temp_coeffs (Adc_Value (so_adc s));
          s1 = s\<lparr> measuredTemp := t, deltaT_float := f32_sub (t ! 6) (t ! 4) \<rparr>;
          (s2, fx2) = (if updatePwm s1 then (let (u, fx) = update_pump s1 in (u\<lparr> updatePwm := False \<rparr>, fx))
            else (s1\<lparr> updatePwm := True \<rparr>, []));
          (s3, fx3) = solar_report pin (add_energy s2)
      in (s3\<lparr> min3couter := (if min3couter s3 \<ge> 17 then 0 else min3couter s3 + 1) \<rparr>, WatchdogClear # fx2 @ fx3))"

definition solar_measure :: "(u8 list list \<Rightarrow> u8 list) \<Rightarrow> (nat \<Rightarrow> bool) \<Rightarrow> (bool \<Rightarrow> u8) \<Rightarrow> Solar \<Rightarrow> (Solar \<times> solar_effect list) option" where
  "solar_measure dev drdy pin s =
     (let s1 = s\<lparr> measuredTempPrev := measuredTemp s \<rparr> in
      map_option (\<lambda>(t, a). solar_measured pin (s1\<lparr> so_adc := a, measuredTemp := t \<rparr>))
        (ADS1256_ReadTemperature dev drdy (so_adc s1)))"

subsection \<open>Commands\<close>

definition pump_status :: "u8 \<Rightarrow> Solar \<Rightarrow> MessageStruct" where
  "pump_status pump_pin s =
     (let m = (solarMessage s)\<lparr> m_id := gNodeAddress (nr_identity (so_radio s)), m_type := NODE_SOLAR_CONTROLLER,
        m_cmd := CMD_SEND_PUMP_STATUS \<rparr>
      in (put_payload 0 [pump_pin] m)\<lparr> m_length := 4 + 1 \<rparr>)"

text \<open>A new address is stored in the flash; \<open>nvs_writes\<close> says whether the write works. The result is ignored.\<close>

definition adopt_address :: "bool \<Rightarrow> u8 \<Rightarrow> Solar \<Rightarrow> Solar" where
  "adopt_address nvs_writes a s = s\<lparr> so_radio := (so_radio s)\<lparr> nr_identity :=
     snd (solar_identity_persist nvs_writes ((nr_identity (so_radio s))\<lparr> gNodeAddress := a \<rparr>)) \<rparr> \<rparr>"

definition solar_command :: "bool \<Rightarrow> (bool \<Rightarrow> u8) \<Rightarrow> MessageStruct \<Rightarrow> Solar \<Rightarrow> Solar \<times> solar_effect list" where
  "solar_command nvs_writes pin c s =
     (if m_cmd c = CMD_JOIN_ACCEPT then
        let s1 = adopt_address nvs_writes (joinAcceptData_assigned_addr c) s
        in solar_post (pump_status (pin (so_relay1 s1)) s1) s1
      else if m_cmd c = CMD_REMOVE \<or> m_cmd c = CMD_UNREGISTERED then
        (adopt_address nvs_writes ADDR_UNPROVISIONED s, [])
      else if m_type c = NODE_SOLAR_CONTROLLER \<and> m_cmd c = CMD_TURN_PUMP_ON_OFF then
        let on = (pumpData_pumpState c \<noteq> 0); s1 = s\<lparr> so_relay1 := on \<rparr>;
            (s2, fx) = solar_post (pump_status (pin (so_relay1 s1)) s1) s1
        in (s2, Relay1 on # fx)
      else (s, []))"

text \<open>All queued commands; a received message overwrites the front of the variable the last one was in.\<close>

fun solar_commands_from :: "bool \<Rightarrow> (bool \<Rightarrow> u8) \<Rightarrow> u8 list list \<Rightarrow> MessageStruct \<Rightarrow> Solar \<Rightarrow> Solar \<times> solar_effect list" where
  "solar_commands_from nvs_writes pin [] command s = (s, [])"
| "solar_commands_from nvs_writes pin (item # items) command s =
     (let c = node_mq_receive item command; (s1, fx) = solar_command nvs_writes pin c s;
          (s2, fx') = solar_commands_from nvs_writes pin items c s1
      in (s2, fx @ fx'))"

definition solar_commands :: "bool \<Rightarrow> (bool \<Rightarrow> u8) \<Rightarrow> MessageStruct \<Rightarrow> Solar \<Rightarrow> Solar \<times> solar_effect list" where
  "solar_commands nvs_writes pin command s =
     solar_commands_from nvs_writes pin (nr_commandQueue (so_radio s)) command
       (s\<lparr> so_radio := (so_radio s)\<lparr> nr_commandQueue := [] \<rparr> \<rparr>)"

subsection \<open>The task\<close>

text \<open>A measurement is served before, and instead of, a command whose event is pending with it.\<close>

definition solar_turn :: "u32 \<Rightarrow> (u8 list list \<Rightarrow> u8 list) \<Rightarrow> (nat \<Rightarrow> bool) \<Rightarrow> (bool \<Rightarrow> u8) \<Rightarrow> bool \<Rightarrow> MessageStruct \<Rightarrow> Solar \<Rightarrow>
    (Solar \<times> solar_effect list) option" where
  "solar_turn events dev drdy pin nvs_writes command s =
     (if events AND EVENT_MEASURE_TEMPERATURE \<noteq> 0 then solar_measure dev drdy pin s
      else if events AND EVENT_RECEIVE_CMD \<noteq> 0 then Some (solar_commands nvs_writes pin command s)
      else Some (s, []))"

text \<open>The statics at reset, and the task up to its loop.\<close>

definition solar_reset :: "NodeRadio \<Rightarrow> MessageStruct \<Rightarrow> Solar" where
  "solar_reset r msg = \<lparr> so_radio = r,
     so_adc = \<lparr> spiTxBuffer = replicate 6 0, spiRxBuffer = replicate 6 0, ads_wire = [], ads_polls = 0, Adc_Value = replicate 8 0 \<rparr>,
     measuredTemp = replicate 8 (f32_of_int 500), measuredTempPrev = replicate 8 (f32_of_int 500),
     flowValue = 0, pwm1Duty = 0, energyGainFloat = 0, energyGain = 0, updatePwm = True, deltaT_float = 0,
     min3couter = 17, send_data_to_db_flag = 11, so_relay1 = False, solarMessage = msg \<rparr>"

definition solar_start :: "(u8 list list \<Rightarrow> u8 list) \<Rightarrow> (nat \<Rightarrow> bool) \<Rightarrow> Solar \<Rightarrow> (Solar \<times> solar_effect list) option" where
  "solar_start dev drdy s =
     (let s1 = s\<lparr> so_relay1 := False, so_adc := snd (ADS1256_Init dev drdy (so_adc s)) \<rparr> in
      map_option (\<lambda>(t, a). (s1\<lparr> so_adc := a, measuredTemp := t,
          min3couter := (if min3couter s1 \<ge> 17 then 0 else min3couter s1 + 1) \<rparr>,
        [Relay1 False, Relay3 False, SetDuty (pwm1Duty s1)])) (ADS1256_ReadTemperature dev drdy (so_adc s1)))"

end
