(* ===== verification/FloatOrder.thy ===== *)
theory FloatOrder
  imports Float64
begin

text \<open>
  Rounding respects the order: a quotient that is at least a representable value does not round below it. With
  it, inequalities carry over from exact arithmetic to the \<open>float\<close> operations of the sources.
\<close>

lemma nbits_bounds: "n < 2 ^ nbits n" "0 < n \<Longrightarrow> 2 ^ (nbits n - 1) \<le> n"
proof (induction n rule: nbits.induct)
  case (1 n)
  { case 1
    show ?case using "1.IH"(1) by (cases "n = 0") (auto simp: nbits.simps [of n])
  next
    case 2
    then show ?case
    proof (cases "n = 1")
      case False
      then have "0 < n div 2" using 2 by linarith
      then have "2 ^ (nbits (n div 2) - 1) \<le> n div 2" "0 < nbits (n div 2)"
        using "1.IH"(2) 2 by (auto simp: nbits.simps [of "n div 2"])
      then have "2 ^ nbits (n div 2) \<le> 2 * (n div 2)" by (cases "nbits (n div 2)") auto
      then show ?thesis using 2 by (simp add: nbits.simps [of n])
    qed simp }
qed

text \<open>The values of the binade \<open>k\<close> in order: \<open>n\<close> units of \<open>2^k\<close>.\<close>

lemma f32_unpack_grid:
  assumes "n \<le> 2 ^ 24" "0 < k \<Longrightarrow> 2 ^ 23 \<le> n"
  shows "f32_unpack (k * 2 ^ 23 + n) = n * 2 ^ k"
proof -
  consider "k = 0" "n < 2 ^ 23" | "2 ^ 23 \<le> n" "n < 2 ^ 24" | "n = 2 ^ 24"
    using assms by (cases "k = 0") linarith+
  then show ?thesis
  proof cases
    case 1
    then show ?thesis by (simp add: f32_unpack_def)
  next
    case 2
    define r where "r = n - 2 ^ 23"
    have "n = 2 ^ 23 + r" "r < 2 ^ 23" using 2 by (simp_all add: r_def)
    then have "k * 2 ^ 23 + n = Suc k * 2 ^ 23 + r" by simp
    moreover have "(Suc k * 2 ^ 23 + r) div 2 ^ 23 = Suc k" "(Suc k * 2 ^ 23 + r) mod 2 ^ 23 = r"
      using \<open>r < 2 ^ 23\<close> by (simp_all only: div_mult_self3 mod_mult_self3) simp_all
    ultimately show ?thesis using \<open>n = 2 ^ 23 + r\<close> by (simp add: f32_unpack_def)
  next
    case 3
    then have "k * 2 ^ 23 + n = (k + 2) * 2 ^ 23" by simp
    then show ?thesis using 3 by (simp add: f32_unpack_def)
  qed
qed

text \<open>The digits that a rounding keeps: all of them, or the first 24.\<close>

lemma round_grid:
  fixes p q :: nat
  assumes q: "0 < q"
  shows "p div (q * 2 ^ (nbits (p div q) - 24)) < 2 ^ 24"
    "0 < nbits (p div q) - 24 \<Longrightarrow> 2 ^ 23 \<le> p div (q * 2 ^ (nbits (p div q) - 24))"
proof -
  define N where "N = p div q"
  define k where "k = nbits N - 24"
  have n: "p div (q * 2 ^ k) = N div 2 ^ k" by (simp add: N_def div_mult2_eq)
  have "N < 2 ^ (24 + k)"
  proof -
    have "(2 :: nat) ^ nbits N \<le> 2 ^ (24 + k)" by (rule power_increasing) (simp_all add: k_def)
    then show ?thesis using nbits_bounds(1) [of N] by linarith
  qed
  then have "p div (q * 2 ^ k) < 2 ^ 24" unfolding n by (simp add: power_add less_mult_imp_div_less)
  then show "p div (q * 2 ^ (nbits (p div q) - 24)) < 2 ^ 24" by (simp only: k_def N_def)
  assume "0 < nbits (p div q) - 24"
  then have k: "0 < k" by (simp add: k_def N_def)
  then have "nbits N - 1 = 23 + k" by (simp add: k_def)
  moreover have "0 < N" using k by (cases "N = 0") (auto simp: k_def)
  ultimately have "2 ^ 23 * 2 ^ k \<le> N" using nbits_bounds(2) [of N] by (simp add: power_add)
  then have "2 ^ 23 \<le> p div (q * 2 ^ k)" unfolding n
    by (metis div_le_mono nonzero_mult_div_cancel_right power_not_zero zero_neq_numeral)
  then show "2 ^ 23 \<le> p div (q * 2 ^ (nbits (p div q) - 24))" by (simp only: k_def N_def)
qed

lemma f32_round_ge:
  assumes p: "f32_unpack m * q \<le> p" and q: "0 < q" and m: "m \<le> 0x7F800000"
  shows "m \<le> f32_round p q"
proof -
  define N where "N = p div q"
  define k where "k = nbits N - 24"
  define n where "n = p div (q * 2 ^ k)"
  note grid = round_grid [OF q, of p, folded N_def, folded k_def, folded n_def]
  have "m \<le> k * 2 ^ 23 + n"
  proof (rule ccontr)
    assume "\<not> m \<le> k * 2 ^ 23 + n"
    then have "k * 2 ^ 23 + (n + 1) \<le> m" by simp
    then have "f32_unpack (k * 2 ^ 23 + (n + 1)) \<le> f32_unpack m" by simp
    moreover have "f32_unpack (k * 2 ^ 23 + (n + 1)) = (n + 1) * 2 ^ k"
      using grid by (intro f32_unpack_grid) auto
    ultimately have "(n + 1) * 2 ^ k \<le> f32_unpack m" by (simp only:)
    then have "(n + 1) * 2 ^ k * q \<le> p" using p mult_le_mono1 order_trans by blast
    moreover have "p < (n + 1) * (q * 2 ^ k)"
      unfolding n_def using q dividend_less_times_div [of "q * 2 ^ k" p] by (simp add: algebra_simps)
    ultimately show False by (simp add: mult.commute mult.left_commute)
  qed
  then show ?thesis using m
    by (simp add: f32_round_def Let_def N_def [symmetric] k_def [symmetric] n_def [symmetric])
qed

lemma f32_unpack_multiple:
  assumes "2 ^ 23 * 2 ^ k \<le> f32_unpack m" "0 < k"
  shows "2 ^ k dvd f32_unpack m"
proof -
  have "f32_unpack (k * 2 ^ 23 + 2 ^ 23) \<le> f32_unpack m" using assms f32_unpack_grid [of "2 ^ 23" k] by simp
  then have m: "Suc k * 2 ^ 23 \<le> m" by simp
  then have e: "Suc k \<le> m div 2 ^ 23" using div_le_mono [OF m, of "2 ^ 23"] by simp
  moreover have "2 ^ 23 \<le> m" using m by simp
  ultimately show ?thesis by (auto simp: f32_unpack_def intro!: dvd_mult le_imp_power_dvd)
qed

lemma f32_round_le:
  assumes p: "p \<le> f32_unpack m * q" and q: "0 < q"
  shows "f32_round p q \<le> m"
proof -
  define N where "N = p div q"
  define k where "k = nbits N - 24"
  define d where "d = q * 2 ^ k"
  define n where "n = p div d"
  define n' where "n' = (if d < 2 * (p mod d) \<or> (2 * (p mod d) = d \<and> odd n) then n + 1 else n)"
  have d: "0 < d" using q by (simp add: d_def)
  note grid = round_grid [OF q, of p, folded N_def, folded k_def, folded d_def, folded n_def]
  have n': "n' \<le> 2 ^ 24" "0 < k \<Longrightarrow> 2 ^ 23 \<le> n'" using grid by (auto simp: n'_def)
  have pn: "n * d \<le> p" "n' \<noteq> n \<Longrightarrow> n * d < p \<and> n' = Suc n"
  proof -
    have e: "n * d + p mod d = p" by (simp add: n_def)
    then show "n * d \<le> p" by linarith
    assume "n' \<noteq> n"
    then have "0 < p mod d" "n' = Suc n" using d by (auto simp: n'_def split: if_splits)
    then show "n * d < p \<and> n' = Suc n" using e by linarith
  qed
  have U: "n * 2 ^ k \<le> f32_unpack m" "n' \<noteq> n \<Longrightarrow> n * 2 ^ k < f32_unpack m"
  proof -
    have e: "n * d = n * 2 ^ k * q" by (simp add: d_def)
    have "n * 2 ^ k * q \<le> f32_unpack m * q" using pn(1) p unfolding e by linarith
    then show "n * 2 ^ k \<le> f32_unpack m" using q by (simp only: mult_le_cancel2)
    assume "n' \<noteq> n"
    then have "n * 2 ^ k * q < f32_unpack m * q" using pn(2) p unfolding e by linarith
    then show "n * 2 ^ k < f32_unpack m" by (simp only: mult_less_cancel2)
  qed
  have "n' * 2 ^ k \<le> f32_unpack m"
  proof (cases "n' = n")
    case False
    have "2 ^ k dvd f32_unpack m"
    proof (cases "k = 0")
      case False
      have "2 ^ 23 * 2 ^ k \<le> n * 2 ^ k" using grid(2) False by simp
      then show ?thesis using U(1) False f32_unpack_multiple [of k m] by linarith
    qed simp
    then obtain c where c: "f32_unpack m = c * 2 ^ k" by (metis dvd_def mult.commute)
    then have "n < c" using U(2) False by simp
    then have "Suc n * 2 ^ k \<le> c * 2 ^ k" by (intro mult_le_mono1) simp
    then show ?thesis using pn(2) [OF False] by (simp only: c)
  qed (use U(1) in simp)
  then have "f32_unpack (k * 2 ^ 23 + n') \<le> f32_unpack m" using f32_unpack_grid [OF n'] by simp
  then have "k * 2 ^ 23 + n' \<le> m" by simp
  moreover have "f32_round p q = min (k * 2 ^ 23 + n') 0x7F800000"
    by (simp add: f32_round_def Let_def n'_def n_def d_def k_def N_def)
  ultimately show ?thesis by simp
qed

lemma f32_round_le_inf: "f32_round p q \<le> 0x7F800000"
  by (simp add: f32_round_def Let_def)

lemma f32_mk_fields:
  assumes "n < 2 ^ 31"
  shows "f32_sign (f32_mk s n) = s" "f32_mag (f32_mk s n) = n"
proof -
  have u: "unat (f32_mk s n) = (if s then 2 ^ 31 else 0) + n"
    using assms by (simp add: f32_mk_def unat_word_ariths unat_of_nat)
  have "bit (unat (f32_mk s n)) 31 = bit (f32_mk s n) 31" by (simp only: bit_unsigned_iff) simp
  then have "bit (f32_mk s n) 31 = odd (unat (f32_mk s n) div 2 ^ 31)" by (simp only: bit_iff_odd [where 'a = nat])
  moreover have "(2 ^ 31 + n) div 2 ^ 31 = 1" "n div 2 ^ 31 = 0" using assms by simp_all
  then have "unat (f32_mk s n) div 2 ^ 31 = (if s then 1 else 0)" by (simp only: u) simp
  ultimately show "f32_sign (f32_mk s n) = s" by (simp add: f32_sign_def)
  have "f32_mag (f32_mk s n) = unat (f32_mk s n) mod 2 ^ 31"
    by (simp only: f32_mag_def unsigned_take_bit_eq take_bit_eq_mod [where 'a = nat])
  then show "f32_mag (f32_mk s n) = n" using assms by (simp add: u)
qed

text \<open>Numbers, infinity included, that are at least as far below zero as the magnitude \<open>m\<close>.\<close>

definition f32_below :: "nat \<Rightarrow> u32 \<Rightarrow> bool" where
  "f32_below m x \<longleftrightarrow> f32_sign x \<and> m \<le> f32_mag x \<and> f32_mag x \<le> 0x7F800000"

lemma below_frac:
  "f32_unpack m * q \<le> p \<Longrightarrow> 0 < q \<Longrightarrow> m \<le> 0x7F800000 \<Longrightarrow> f32_below m (f32_of_frac True p q)"
  using f32_round_ge [of m q p] f32_round_le_inf [of p q]
  by (simp add: f32_below_def f32_of_frac_def f32_mk_fields)

lemma below_fix: "f32_below m x \<Longrightarrow> f32_fix x \<le> - int (f32_unpack m)"
  by (simp add: f32_below_def f32_fix_def)

text \<open>What the float operations keep of an upper bound below zero.\<close>

lemma sub_below:
  assumes "f32_lt d 0x40C00000"
  shows "f32_below 0x3F800000 (f32_sub d 0x40E00000)"
proof -
  have c: "f32_neg 0x40E00000 = 0xC0E00000" by (simp add: f32_neg_def)
  have n: "\<not> f32_nan d" "f32_key d < 0x40C00000" using assms by (simp_all add: f32_lt_def f32_key_def f32_sign_def f32_mag_def)
  have k: "\<not> f32_nan 0xC0E00000" "\<not> f32_inf 0xC0E00000" "f32_fix 0xC0E00000 = - 7 * 2 ^ 149"
    by (simp_all add: f32_eval)
  show ?thesis
  proof (cases "f32_inf d")
    case True
    then have "f32_sign d" using n(2) by (auto simp: f32_key_def f32_inf_def split: if_splits)
    then show ?thesis using True n(1) k
      by (simp add: f32_sub_def c f32_add_def f32_below_def f32_inf_def)
  next
    case False
    have six: "f32_key 0x40C00000 = 0x40C00000" "f32_fix 0x40C00000 = 6 * 2 ^ 149" by (simp_all add: f32_eval)
    have "f32_fix d < 6 * 2 ^ 149" using n(2) by (metis f32_key_less_iff six)
    then have v: "f32_fix d + f32_fix 0xC0E00000 < - (2 ^ 149)" by (simp add: k(3))
    have one: "f32_unpack 0x3F800000 = 2 ^ 149" by (simp add: f32_unpack_def)
    have "f32_below 0x3F800000 (f32_of_frac True (nat \<bar>f32_fix d + f32_fix 0xC0E00000\<bar>) 1)"
      by (rule below_frac) (use v in \<open>simp_all add: one\<close>)
    moreover have "f32_fix d + f32_fix 0xC0E00000 < 0" "f32_fix d + f32_fix 0xC0E00000 \<noteq> 0" using v by simp_all
    ultimately show ?thesis using n(1) False k(1,2) by (simp add: f32_sub_def c f32_add_def)
  qed
qed

text \<open>Products and quotients of a negative value with a positive constant.\<close>

lemma below_mul:
  assumes x: "f32_below m x" "0 < m" and y: "\<not> f32_sign y" "0 < f32_mag y" "f32_mag y < 0x7F800000"
    and r: "f32_unpack r * 2 ^ 149 \<le> f32_unpack m * f32_unpack (f32_mag y)" "r \<le> 0x7F800000"
  shows "f32_below r (f32_mul x y)"
proof (cases "f32_inf x")
  case True
  then show ?thesis using x y r(2)
    by (simp add: f32_mul_def f32_below_def f32_nan_def f32_inf_def f32_mk_fields)
next
  case False
  have "f32_unpack m * f32_unpack (f32_mag y) \<le> f32_unpack (f32_mag x) * f32_unpack (f32_mag y)"
    using x by (intro mult_le_mono1) (simp add: f32_below_def)
  then have "f32_unpack r * 2 ^ 149 \<le> f32_unpack (f32_mag x) * f32_unpack (f32_mag y)" using r(1) by (rule order_trans [rotated])
  then have "f32_below r (f32_of_frac True (f32_unpack (f32_mag x) * f32_unpack (f32_mag y)) (2 ^ 149))"
    using r(2) by (intro below_frac) simp_all
  moreover have "nat \<bar>f32_fix x * f32_fix y\<bar> = f32_unpack (f32_mag x) * f32_unpack (f32_mag y)"
    using x y by (simp add: f32_below_def f32_fix_def abs_mult nat_mult_distrib)
  ultimately show ?thesis using x y False unfolding f32_mul_def Let_def
    by (simp add: f32_below_def f32_nan_def f32_inf_def)
qed

lemma below_div:
  assumes x: "f32_below m x" "0 < m" and y: "\<not> f32_sign y" "0 < f32_mag y" "f32_mag y < 0x7F800000"
    and r: "f32_unpack r * f32_unpack (f32_mag y) \<le> f32_unpack m * 2 ^ 149" "r \<le> 0x7F800000"
  shows "f32_below r (f32_div x y)"
proof (cases "f32_inf x")
  case True
  then show ?thesis using x y r(2)
    by (simp add: f32_div_def f32_below_def f32_nan_def f32_inf_def f32_mk_fields)
next
  case False
  have "f32_unpack m * 2 ^ 149 \<le> f32_unpack (f32_mag x) * 2 ^ 149"
    using x by (intro mult_le_mono1) (simp add: f32_below_def)
  then have "f32_unpack r * f32_unpack (f32_mag y) \<le> f32_unpack (f32_mag x) * 2 ^ 149" using r(1) by (rule order_trans [rotated])
  then have "f32_below r (f32_of_frac True (f32_unpack (f32_mag x) * 2 ^ 149) (f32_unpack (f32_mag y)))"
    using r(2) y(2) by (intro below_frac) simp_all
  moreover have "nat \<bar>f32_fix x\<bar> = f32_unpack (f32_mag x)" "nat \<bar>f32_fix y\<bar> = f32_unpack (f32_mag y)"
    using x y by (simp_all add: f32_below_def f32_fix_def)
  ultimately show ?thesis using x y False unfolding f32_div_def Let_def
    by (simp add: f32_below_def f32_nan_def f32_inf_def)
qed

lemma below_lt: "f32_below m x \<Longrightarrow> 0 < m \<Longrightarrow> f32_lt x 0"
  by (simp add: f32_lt_def f32_below_def f32_nan_def f32_key_def) (simp add: f32_mag_def f32_sign_def)

lemma mul_below:
  assumes "f32_below 0x3F800000 x"
  shows "f32_below 0x40C00000 (f32_mul x 0x40C00000)"
  by (rule below_mul [OF assms]) (simp_all add: f32_sign_def f32_mag_def f32_unpack_def)

lemma add_below:
  assumes "f32_below 0x40C00000 y"
  shows "f32_le (f32_add y 0x40C00000) 0"
proof -
  have k: "\<not> f32_nan 0x40C00000" "\<not> f32_inf 0x40C00000" "f32_fix 0x40C00000 = 6 * 2 ^ 149" "\<not> f32_sign 0x40C00000"
    by (simp_all add: f32_eval)
  have z: "\<not> f32_nan 0" "f32_key 0 = 0" by (simp_all add: f32_eval)
  have y: "f32_sign y" "\<not> f32_nan y" "f32_mag y \<le> 0x7F800000" using assms by (simp_all add: f32_below_def f32_nan_def)
  show ?thesis
  proof (cases "f32_inf y")
    case True
    then show ?thesis using y k z by (simp add: f32_add_def f32_le_def f32_key_def)
  next
    case False
    have six: "f32_unpack 0x40C00000 = 6 * 2 ^ 149" by (simp add: f32_unpack_def)
    have "f32_fix y + f32_fix 0x40C00000 \<le> 0" using below_fix [OF assms] by (simp add: six k(3))
    moreover have "f32_below 0 (f32_of_frac True p 1)" for p by (rule below_frac) simp_all
    then have "f32_le (f32_of_frac True p 1) 0" for p
      using z by (simp add: f32_below_def f32_le_def f32_key_def f32_nan_def not_less)
    moreover have "f32_le (f32_mk False 0) 0" using z by (simp add: f32_le_def f32_mk_def)
    ultimately show ?thesis using y(1,2) k(1,2,4) False by (simp add: f32_add_def Let_def)
  qed
qed

lemma below_zero_lt: "f32_le x 0 \<Longrightarrow> f32_lt 0 y \<Longrightarrow> f32_lt x y"
  by (auto simp: f32_lt_def f32_le_def)

subsection \<open>Bounds of nonnegative values\<close>

definition f32_upto :: "nat \<Rightarrow> u32 \<Rightarrow> bool" where
  "f32_upto m x \<longleftrightarrow> \<not> f32_sign x \<and> f32_mag x \<le> m"

lemma upto_fix: "f32_upto m x \<Longrightarrow> 0 \<le> f32_fix x \<and> f32_fix x \<le> int (f32_unpack m)"
  by (simp add: f32_upto_def f32_fix_def)

lemma upto_finite: "f32_upto m x \<Longrightarrow> m < 0x7F800000 \<Longrightarrow> \<not> f32_nan x \<and> \<not> f32_inf x"
  by (simp add: f32_upto_def f32_nan_def f32_inf_def)

lemma upto_mono: "f32_upto m x \<Longrightarrow> m \<le> n \<Longrightarrow> f32_upto n x"
  by (simp add: f32_upto_def)

lemma upto_frac: "p \<le> f32_unpack m * q \<Longrightarrow> 0 < q \<Longrightarrow> f32_upto m (f32_of_frac False p q)"
  using f32_round_le [of p m q] f32_round_le_inf [of p q] by (simp add: f32_upto_def f32_of_frac_def f32_mk_fields)

lemma upto_zero: "f32_upto m (f32_mk False 0)"
  by (simp add: f32_upto_def f32_mk_fields)

lemma upto_int:
  assumes "0 \<le> i" "i * 2 ^ 149 \<le> int (f32_unpack m)"
  shows "f32_upto m (f32_of_int i)"
proof -
  have "int (nat \<bar>i\<bar> * 2 ^ 149) \<le> int (f32_unpack m)" using assms by simp
  then have "nat \<bar>i\<bar> * 2 ^ 149 \<le> f32_unpack m * 1" by (simp only: of_nat_le_iff mult_1_right)
  then show ?thesis using upto_frac [of _ m 1] assms(1) by (simp add: f32_of_int_def)
qed

lemma upto_mul:
  assumes "f32_upto m x" "f32_upto n y" "m < 0x7F800000" "n < 0x7F800000" "f32_unpack m * f32_unpack n \<le> f32_unpack r * 2 ^ 149"
  shows "f32_upto r (f32_mul x y)"
proof -
  have "f32_unpack (f32_mag x) * f32_unpack (f32_mag y) \<le> f32_unpack m * f32_unpack n"
    using assms(1,2) by (intro mult_le_mono) (simp_all add: f32_upto_def)
  then have "f32_upto r (f32_of_frac False (f32_unpack (f32_mag x) * f32_unpack (f32_mag y)) (2 ^ 149))"
    using assms(5) by (intro upto_frac) simp_all
  then show ?thesis using upto_finite [OF assms(1,3)] upto_finite [OF assms(2,4)] assms(1,2)
    by (simp add: f32_mul_def f32_upto_def f32_fix_def nat_mult_distrib)
qed

lemma upto_div:
  assumes "f32_upto m x" "m < 0x7F800000" "\<not> f32_sign y" "0 < f32_mag y" "f32_mag y < 0x7F800000"
    "f32_unpack m * 2 ^ 149 \<le> f32_unpack r * f32_unpack (f32_mag y)"
  shows "f32_upto r (f32_div x y)"
proof -
  have "f32_unpack (f32_mag x) * 2 ^ 149 \<le> f32_unpack m * 2 ^ 149"
    using assms(1) by (intro mult_le_mono1) (simp add: f32_upto_def)
  then have "f32_unpack (f32_mag x) * 2 ^ 149 \<le> f32_unpack r * f32_unpack (f32_mag y)" using assms(6) by (rule order_trans)
  then have "f32_upto r (f32_of_frac False (f32_unpack (f32_mag x) * 2 ^ 149) (f32_unpack (f32_mag y)))"
    using assms(4) by (rule upto_frac [OF _ iffD2 [OF f32_unpack_pos]])
  then show ?thesis using upto_finite [OF assms(1,2)] assms(1,3-5)
    by (simp add: f32_div_def f32_upto_def f32_fix_def f32_nan_def f32_inf_def)
qed

lemma upto_add:
  assumes "f32_upto m x" "f32_upto n y" "m < 0x7F800000" "n < 0x7F800000" "f32_unpack m + f32_unpack n \<le> f32_unpack r"
  shows "f32_upto r (f32_add x y)"
proof -
  define v where "v = f32_fix x + f32_fix y"
  have v: "0 \<le> v" "v \<le> int (f32_unpack r)" using upto_fix [OF assms(1)] upto_fix [OF assms(2)] assms(5) by (auto simp: v_def)
  have "f32_upto r (f32_of_frac (v < 0) (nat \<bar>v\<bar>) 1)" using upto_frac [of "nat v" r 1] v by simp
  then show ?thesis using upto_finite [OF assms(1,3)] upto_finite [OF assms(2,4)] assms(1) v
    by (simp add: f32_add_def Let_def v_def [symmetric] f32_upto_def f32_mk_fields)
qed

lemma upto_to_int:
  assumes "f32_upto m x"
  shows "0 \<le> f32_to_int x" "f32_to_int x \<le> int (f32_unpack m div 2 ^ 149)"
proof -
  show "0 \<le> f32_to_int x" using assms by (simp add: f32_to_int_def f32_upto_def Let_def)
  have "f32_unpack (f32_mag x) div 2 ^ 149 \<le> f32_unpack m div 2 ^ 149"
    using assms by (intro div_le_mono) (simp add: f32_upto_def)
  then have "int (f32_unpack (f32_mag x) div 2 ^ 149) \<le> int (f32_unpack m div 2 ^ 149)" by (simp only: of_nat_le_iff)
  then show "f32_to_int x \<le> int (f32_unpack m div 2 ^ 149)"
    using assms by (simp only: f32_to_int_def f32_upto_def Let_def if_False)
qed

lemma upto_le: "f32_upto m x \<Longrightarrow> m < 0x7F800000 \<Longrightarrow> f32_le 0 x \<and> f32_le x (f32_mk False m)"
  by (simp add: f32_le_def f32_upto_def f32_nan_def f32_key_def f32_mk_fields) (simp add: f32_mag_def f32_sign_def)

text \<open>A nonnegative value added to a negative constant.\<close>

lemma add_between:
  assumes "f32_upto m x" "m < 0x7F800000" "f32_sign c" "f32_mag c < 0x7F800000"
    "int (f32_unpack m) + f32_fix c \<le> int (f32_unpack r)" "r < 0x7F800000"
  shows "f32_le c (f32_add c x) \<and> f32_le (f32_add c x) (f32_mk False r)"
proof -
  define v where "v = f32_fix c + f32_fix x"
  have c: "f32_fix c = - int (f32_unpack (f32_mag c))" "\<not> f32_nan c" "\<not> f32_inf c"
    using assms(3,4) by (simp_all add: f32_fix_def f32_nan_def f32_inf_def)
  have v: "- int (f32_unpack (f32_mag c)) \<le> v" "v \<le> int (f32_unpack r)"
    using upto_fix [OF assms(1)] assms(5) c by (auto simp: v_def)
  have add: "f32_add c x = (if v = 0 then f32_mk False 0 else f32_of_frac (v < 0) (nat \<bar>v\<bar>) 1)"
    using upto_finite [OF assms(1,2)] c(2,3) assms(1,3) unfolding f32_add_def Let_def v_def [symmetric] f32_upto_def
    by simp
  have key: "f32_key c = - int (f32_mag c)" using assms(3) by (simp add: f32_key_def)
  show ?thesis
  proof (cases "0 \<le> v")
    case True
    then have "f32_upto r (f32_add c x)" using upto_frac [of "nat v" r 1] v upto_zero by (simp add: add)
    then show ?thesis using key c(2) assms(6)
      by (auto simp: f32_le_def f32_upto_def f32_nan_def f32_key_def f32_mk_fields)
  next
    case False
    have "f32_round (nat \<bar>v\<bar>) 1 \<le> f32_mag c" using f32_round_le [of "nat \<bar>v\<bar>" "f32_mag c" 1] v False by simp
    then show ?thesis using False key c(2) assms(4,6)
      by (simp add: add f32_of_frac_def f32_le_def f32_key_def f32_nan_def f32_mk_fields)
  qed
qed

subsection \<open>Evaluating a rounding to double\<close>

text \<open>The rounded quotient from its binade and quotient digits, which only have to be checked by multiplication.\<close>

lemma nbits_eq: "2 ^ b \<le> n \<Longrightarrow> n < 2 ^ Suc b \<Longrightarrow> nbits n = Suc b"
proof -
  assume a: "2 ^ b \<le> n" "n < 2 ^ Suc b"
  have "0 < n" using a(1) by (cases n) auto
  then have c: "2 ^ (nbits n - 1) \<le> n" "n < 2 ^ nbits n" using nbits_bounds by auto
  have "2 ^ b < (2 :: nat) ^ nbits n" using a(1) c(2) by linarith
  then have "b < nbits n" by (rule power_less_imp_less_exp [rotated]) simp
  moreover have "(2 :: nat) ^ (nbits n - 1) < 2 ^ Suc b" using a(2) c(1) by linarith
  then have "nbits n - 1 < Suc b" by (rule power_less_imp_less_exp [rotated]) simp
  ultimately show ?thesis by simp
qed

lemma f64_round_eq:
  assumes "0 < q" "2 ^ 52 * (q * 2 ^ k) \<le> p" "p < 2 ^ 53 * (q * 2 ^ k)" "n * (q * 2 ^ k) \<le> p" "p < (n + 1) * (q * 2 ^ k)"
    "2 * p < (2 * n + 1) * (q * 2 ^ k) \<and> m = k * 2 ^ 52 + n \<or> (2 * n + 1) * (q * 2 ^ k) < 2 * p \<and> m = k * 2 ^ 52 + n + 1" 
    "m \<le> 0x7FF0000000000000"
  shows "f64_round p q = m"
proof -
  have "2 ^ (52 + k) * q \<le> p" "p < 2 ^ Suc (52 + k) * q" using assms(2,3) by (simp_all add: power_add mult_ac)
  then have "2 ^ (52 + k) \<le> p div q" "p div q < 2 ^ Suc (52 + k)"
    using assms(1) by (simp_all add: less_eq_div_iff_mult_less_eq div_less_iff_less_mult mult.commute)
  then have k: "nbits (p div q) - 53 = k" using nbits_eq [of "52 + k" "p div q"] by simp
  have n: "p div (q * 2 ^ k) = n" using assms(4,5) by (intro div_nat_eqI) (simp_all add: mult_ac)
  have r: "p mod (q * 2 ^ k) = p - n * (q * 2 ^ k)" using n by (metis minus_div_mult_eq_mod)
  define d where "d = q * 2 ^ k"
  have "f64_round p q = min (k * 2 ^ 52 + (if d < 2 * (p - n * d) \<or> (2 * (p - n * d) = d \<and> odd n) then n + 1 else n)) 0x7FF0000000000000"
    by (simp only: f64_round_def Let_def k n r d_def)
  moreover have "d < 2 * (p - n * d) \<longleftrightarrow> (2 * n + 1) * d < 2 * p" "2 * (p - n * d) = d \<longleftrightarrow> (2 * n + 1) * d = 2 * p"
    using assms(4) unfolding d_def [symmetric] by (auto simp: algebra_simps diff_mult_distrib2)
  ultimately show ?thesis using assms(6,7) unfolding d_def [symmetric] by auto
qed

lemma f32_round_eq:
  assumes "0 < q" "2 ^ 23 * (q * 2 ^ k) \<le> p" "p < 2 ^ 24 * (q * 2 ^ k)" "n * (q * 2 ^ k) \<le> p" "p < (n + 1) * (q * 2 ^ k)"
    "2 * p < (2 * n + 1) * (q * 2 ^ k) \<and> m = k * 2 ^ 23 + n \<or> (2 * n + 1) * (q * 2 ^ k) < 2 * p \<and> m = k * 2 ^ 23 + n + 1" 
    "m \<le> 0x7F800000"
  shows "f32_round p q = m"
proof -
  have "2 ^ (23 + k) * q \<le> p" "p < 2 ^ Suc (23 + k) * q" using assms(2,3) by (simp_all add: power_add mult_ac)
  then have "2 ^ (23 + k) \<le> p div q" "p div q < 2 ^ Suc (23 + k)"
    using assms(1) by (simp_all add: less_eq_div_iff_mult_less_eq div_less_iff_less_mult mult.commute)
  then have k: "nbits (p div q) - 24 = k" using nbits_eq [of "23 + k" "p div q"] by simp
  have n: "p div (q * 2 ^ k) = n" using assms(4,5) by (intro div_nat_eqI) (simp_all add: mult_ac)
  have r: "p mod (q * 2 ^ k) = p - n * (q * 2 ^ k)" using n by (metis minus_div_mult_eq_mod)
  define d where "d = q * 2 ^ k"
  have "f32_round p q = min (k * 2 ^ 23 + (if d < 2 * (p - n * d) \<or> (2 * (p - n * d) = d \<and> odd n) then n + 1 else n)) 0x7F800000"
    by (simp only: f32_round_def Let_def k n r d_def)
  moreover have "d < 2 * (p - n * d) \<longleftrightarrow> (2 * n + 1) * d < 2 * p" "2 * (p - n * d) = d \<longleftrightarrow> (2 * n + 1) * d = 2 * p"
    using assms(4) unfolding d_def [symmetric] by (auto simp: algebra_simps diff_mult_distrib2)
  ultimately show ?thesis using assms(6,7) unfolding d_def [symmetric] by auto
qed

end
