(* ===== verification/SolarEval.thy ===== *)
theory SolarEval
  imports SolarController FloatOrder
begin

text \<open>
  The node's temperature formula evaluated at the sample zero (a converter that answers nothing) for the
  collector and the tank sensor: about -25.5 and -25.4 degrees.
\<close>

lemma lit_5445: "f64_lit 5445 (10 ^ 16) = 0x3d63286b84bd854c"
proof -
  have "f64_round (5445 * 2 ^ 1074) (10 ^ 16) = 0x3d63286b84bd854c"
    by (rule f64_round_eq [where k = 981 and n = "0x13286b84bd854c"]) simp_all
  then show ?thesis by (simp add: f64_lit_def f64_of_frac_def f64_mk_def)
qed

lemma lit_3083: "f64_lit 3083 (10 ^ 8) = 0x3f0029eebbdfea8c"
proof -
  have "f64_round (3083 * 2 ^ 1074) (10 ^ 8) = 0x3f0029eebbdfea8c"
    by (rule f64_round_eq [where k = 1007 and n = "0x1029eebbdfea8b"]) simp_all
  then show ?thesis by (simp add: f64_lit_def f64_of_frac_def f64_mk_def)
qed

lemma lit_25507: "f64_lit 25507 (10 ^ 3) = 0x403981cac083126f"
proof -
  have "f64_round (25507 * 2 ^ 1074) (10 ^ 3) = 0x403981cac083126f"
    by (rule f64_round_eq [where k = 1026 and n = "0x1981cac083126e"]) simp_all
  then show ?thesis by (simp add: f64_lit_def f64_of_frac_def f64_mk_def)
qed

lemma lit_5393: "f64_lit 5393 (10 ^ 16) = 0x3d62f9952286c56d"
proof -
  have "f64_round (5393 * 2 ^ 1074) (10 ^ 16) = 0x3d62f9952286c56d"
    by (rule f64_round_eq [where k = 981 and n = "0x12f9952286c56c"]) simp_all
  then show ?thesis by (simp add: f64_lit_def f64_of_frac_def f64_mk_def)
qed

lemma lit_3082: "f64_lit 3082 (10 ^ 8) = 0x3f00289722f1c783"
proof -
  have "f64_round (3082 * 2 ^ 1074) (10 ^ 8) = 0x3f00289722f1c783"
    by (rule f64_round_eq [where k = 1007 and n = "0x10289722f1c783"]) simp_all
  then show ?thesis by (simp add: f64_lit_def f64_of_frac_def f64_mk_def)
qed

lemma lit_25381: "f64_lit 25381 (10 ^ 3) = 0x40396189374bc6a8"
proof -
  have "f64_round (25381 * 2 ^ 1074) (10 ^ 3) = 0x40396189374bc6a8"
    by (rule f64_round_eq [where k = 1026 and n = "0x196189374bc6a7"]) simp_all
  then show ?thesis by (simp add: f64_lit_def f64_of_frac_def f64_mk_def)
qed

lemma zero_sample: "f64_of_int (uint (0 :: u32)) = 0" "f64_fix 0 = 0" "f64_mag 0 = 0" "\<not> f64_sign 0" "f64_add 0 0 = 0"
  by (simp_all add: f64_of_int_def f64_of_frac_def f64_round_def f64_mk_def Let_def f64_fix_def f64_sign_def f64_mag_def
      f64_unpack_def f64_add_def f64_nan_def f64_inf_def)

lemma mul_zero:
  assumes "f64_mag b < 0x7FF0000000000000" "\<not> f64_sign b"
  shows "f64_mul 0 b = 0" "f64_mul b 0 = 0"
  using assms by (simp_all add: f64_mul_def f64_nan_def f64_inf_def zero_sample f64_of_frac_def f64_round_def f64_mk_def Let_def)

lemma minus_25507: "f32_of_f64 (f64_sub 0 0x403981cac083126f) = 0xc1cc0e56"
proof -
  have v: "f64_fix 0xc03981cac083126f = - (0x1981cac083126f * 2 ^ 1026)"
    by (simp add: f64_fix_def f64_sign_def f64_mag_def f64_unpack_def bit_iff_odd)
  have r: "f64_round (0x1981cac083126f * 2 ^ 1026) 1 = 0x403981cac083126f"
    by (rule f64_round_eq [where k = 1026 and n = "0x1981cac083126f"]) simp_all
  have q: "f32_round (0x1981cac083126f * 2 ^ 1026) (2 ^ 925) = 0x41cc0e56"
    by (rule f32_round_eq [where k = 130 and n = "0xcc0e56"]) simp_all
  have "f64_sub 0 0x403981cac083126f = 0xc03981cac083126f"
    using v r by (simp add: f64_sub_def f64_neg_def f64_add_def f64_nan_def f64_inf_def f64_of_frac_def f64_mk_def zero_sample) (simp add: f64_mag_def)
  moreover have "f32_of_f64 0xc03981cac083126f = 0xc1cc0e56"
    unfolding f32_of_f64_def v
    using q by (simp add: f64_nan_def f64_inf_def f64_mag_def f64_sign_def bit_iff_odd f32_of_frac_def f32_mk_def)
  ultimately show ?thesis by simp
qed

lemma minus_25381: "f32_of_f64 (f64_sub 0 0x40396189374bc6a8) = 0xc1cb0c4a"
proof -
  have v: "f64_fix 0xc0396189374bc6a8 = - (0x196189374bc6a8 * 2 ^ 1026)"
    by (simp add: f64_fix_def f64_sign_def f64_mag_def f64_unpack_def bit_iff_odd)
  have r: "f64_round (0x196189374bc6a8 * 2 ^ 1026) 1 = 0x40396189374bc6a8"
    by (rule f64_round_eq [where k = 1026 and n = "0x196189374bc6a8"]) simp_all
  have q: "f32_round (0x196189374bc6a8 * 2 ^ 1026) (2 ^ 925) = 0x41cb0c4a"
    by (rule f32_round_eq [where k = 130 and n = "0xcb0c49"]) simp_all
  have "f64_sub 0 0x40396189374bc6a8 = 0xc0396189374bc6a8"
    using v r by (simp add: f64_sub_def f64_neg_def f64_add_def f64_nan_def f64_inf_def f64_of_frac_def f64_mk_def zero_sample) (simp add: f64_mag_def)
  moreover have "f32_of_f64 0xc0396189374bc6a8 = 0xc1cb0c4a"
    unfolding f32_of_f64_def v
    using q by (simp add: f64_nan_def f64_inf_def f64_mag_def f64_sign_def bit_iff_odd f32_of_frac_def f32_mk_def)
  ultimately show ?thesis by simp
qed
lemma temperatures_at_zero:
  "task_temperature (5445, 3083, 25507) 0 = 0xC1CC0E56" "task_temperature (5393, 3082, 25381) 0 = 0xC1CB0C4A"
proof -
  have z: "f64_add (f64_mul (f64_mul 0 a) 0) (f64_mul 0 b) = 0"
    if "f64_mag a < 0x7FF0000000000000" "\<not> f64_sign a" "f64_mag b < 0x7FF0000000000000" "\<not> f64_sign b" for a b
    using that by (simp add: mul_zero zero_sample)
  show "task_temperature (5445, 3083, 25507) 0 = 0xC1CC0E56"
    unfolding task_temperature_def prod.case Let_def zero_sample(1) lit_5445 lit_3083 lit_25507
    by (subst z) (simp_all add: minus_25507 f64_mag_def f64_sign_def bit_iff_odd)
  show "task_temperature (5393, 3082, 25381) 0 = 0xC1CB0C4A"
    unfolding task_temperature_def prod.case Let_def zero_sample(1) lit_5393 lit_3082 lit_25381
    by (subst z) (simp_all add: minus_25381 f64_mag_def f64_sign_def bit_iff_odd)
qed

lemma silent_temperatures:
  "map2 task_temperature temp_coeffs (replicate 8 0) ! 6 = 0xC1CC0E56"
  "map2 task_temperature temp_coeffs (replicate 8 0) ! 4 = 0xC1CB0C4A"
proof -
  have n: "map2 task_temperature temp_coeffs (replicate 8 0) ! i = task_temperature (temp_coeffs ! i) 0" if "i < 8" for i
    using that by (simp add: temp_coeffs_def)
  show "map2 task_temperature temp_coeffs (replicate 8 0) ! 6 = 0xC1CC0E56"
    "map2 task_temperature temp_coeffs (replicate 8 0) ! 4 = 0xC1CB0C4A"
    by (simp_all only: n numeral_less_iff num.simps less_num_simps) (simp_all add: temp_coeffs_def temperatures_at_zero)
qed

lemma cold_at_zero: "f32_lt (f32_sub 0xC1CC0E56 0xC1CB0C4A) (f32_of_int 6)"
  by (simp add: f32_eval)

end
