(* ===== verification/SolarPump.thy ===== *)
theory SolarPump
  imports SolarEval
begin

text \<open>
  The pump of the solar node over whole runs of its task: the speeds it can have, and that it follows the
  temperature difference between collector and tank.
\<close>

subsection \<open>Runs\<close>

record SolarEnv =
  se_events :: u32
  se_dev :: "u8 list list \<Rightarrow> u8 list"
  se_drdy :: "nat \<Rightarrow> bool"
  se_pin :: "bool \<Rightarrow> u8"
  se_nvs :: bool
  se_command :: MessageStruct

definition env_turn :: "SolarEnv \<Rightarrow> Solar \<Rightarrow> (Solar \<times> solar_effect list) option" where
  "env_turn e s = solar_turn (se_events e) (se_dev e) (se_drdy e) (se_pin e) (se_nvs e) (se_command e) s"

text \<open>The states after each turn with the effects of the turn; \<open>None\<close> if a turn never ends.\<close>

primrec solar_trace :: "SolarEnv list \<Rightarrow> Solar \<Rightarrow> (Solar \<times> solar_effect list) list option" where
  "solar_trace [] s = Some []"
| "solar_trace (e # es) s = (case env_turn e s of
     None \<Rightarrow> None
   | Some (s1, fx) \<Rightarrow> map_option (\<lambda>tr. (s1, fx) # tr) (solar_trace es s1))"

text \<open>What the relay and the PWM output are set to after a list of effects.\<close>

fun out_after :: "bool \<times> u16 \<Rightarrow> solar_effect list \<Rightarrow> bool \<times> u16" where
  "out_after o0 [] = o0"
| "out_after (r, d) (Relay3 b # fx) = out_after (b, d) fx"
| "out_after (r, d) (SetDuty v # fx) = out_after (r, v) fx"
| "out_after o0 (_ # fx) = out_after o0 fx"

lemma out_after_append: "out_after o0 (xs @ ys) = out_after (out_after o0 xs) ys"
  by (induction o0 xs rule: out_after.induct) auto

subsection \<open>The speeds of the pump\<close>

text \<open>Off, or a flow of 6, 12, ..., 84 percent with the duty time that belongs to it.\<close>

definition pump_ok :: "Solar \<Rightarrow> bool" where
  "pump_ok s \<longleftrightarrow> unat (flowValue s) mod 6 = 0 \<and> unat (flowValue s) \<le> 84 \<and>
     unat (pwm1Duty s) = (if flowValue s = 0 then 0 else 180 + 9 * unat (flowValue s))"

definition pump_out :: "Solar \<Rightarrow> bool \<times> u16" where
  "pump_out s = (flowValue s \<noteq> 0, pwm1Duty s)"

lemma flow_facts:
  assumes "unat (f :: u16) mod 6 = 0" "unat f \<le> 84"
  shows "(f < 6) = (unat f = 0)" "(f = 0) = (unat f = 0)" "(f = 6) = (unat f = 6)" "(6 \<le> f) = (6 \<le> unat f)"
    "(12 \<le> f) = (12 \<le> unat f)" "(f \<le> 78) = (unat f \<le> 78)" "unat (f + 6) = unat f + 6"
    "12 \<le> unat f \<Longrightarrow> unat (f - 6) = unat f - 6"
proof -
  show "(f < 6) = (unat f = 0)" using assms by (auto simp: word_less_nat_alt elim!: dvdE)
  show "(f = 0) = (unat f = 0)" "(f = 6) = (unat f = 6)" by (auto simp: word_unat_eq_iff)
  show "(6 \<le> f) = (6 \<le> unat f)" "(12 \<le> f) = (12 \<le> unat f)" "(f \<le> 78) = (unat f \<le> 78)"
    by (simp_all add: word_le_nat_alt)
  show "unat (f + 6) = unat f + 6" using assms by (simp add: unat_word_ariths)
  show "12 \<le> unat f \<Longrightarrow> unat (f - 6) = unat f - 6" by (simp add: unat_sub word_le_nat_alt)
qed

text \<open>One adjustment.\<close>

definition next_flow :: "u32 \<Rightarrow> u16 \<Rightarrow> nat" where
  "next_flow d f =
     (if f32_lt (f32_of_int 7) d \<and> unat f = 0 then 6
      else if f32_lt (flow_float f 6) (pump_demand d) \<and> 6 \<le> unat f \<and> unat f \<le> 78 then unat f + 6
      else if f32_lt (pump_demand d) (flow_float f (-6)) \<and> 12 \<le> unat f then unat f - 6
      else if f32_lt d (f32_of_int 6) \<and> unat f = 6 then 0 else unat f)"

lemma update_pump_step:
  assumes "pump_ok s"
  shows "unat (flowValue (fst (update_pump s))) = next_flow (deltaT_float s) (flowValue s)"
    "pump_ok (fst (update_pump s))" "out_after (pump_out s) (snd (update_pump s)) = pump_out (fst (update_pump s))"
proof -
  have f: "unat (flowValue s) mod 6 = 0" "unat (flowValue s) \<le> 84" using assms by (simp_all add: pump_ok_def)
  note c = flow_facts [OF f]
  have d: "unat (pwm1Duty s) = (if flowValue s = 0 then 0 else 180 + 9 * unat (flowValue s))"
    using assms by (simp add: pump_ok_def)
  have m: "(unat (flowValue s) + 6) mod 6 = 0" "12 \<le> unat (flowValue s) \<Longrightarrow> (unat (flowValue s) - 6) mod 6 = 0"
    using f(1) by (simp_all add: mod_eq_0_iff_dvd)
  have du: "6 \<le> unat (flowValue s) \<Longrightarrow> unat (pwm1Duty s + 54) = 180 + 9 * (unat (flowValue s) + 6)"
    "12 \<le> unat (flowValue s) \<Longrightarrow> unat (pwm1Duty s - 54) = 180 + 9 * (unat (flowValue s) - 6)"
    using d f(2) by (auto simp: c(2) unat_word_ariths unat_sub word_le_nat_alt)
  show "unat (flowValue (fst (update_pump s))) = next_flow (deltaT_float s) (flowValue s)"
    by (simp add: update_pump_def next_flow_def Let_def c)
  show "pump_ok (fst (update_pump s))" "out_after (pump_out s) (snd (update_pump s)) = pump_out (fst (update_pump s))"
    using assms c f d m du
    by (auto simp: update_pump_def pump_ok_def pump_out_def Let_def unat_eq_zero [symmetric] simp del: unat_eq_zero)
qed

subsection \<open>A turn\<close>

lemma report_keeps:
  "flowValue (fst (solar_report pin s)) = flowValue s" "pwm1Duty (fst (solar_report pin s)) = pwm1Duty s"
  "deltaT_float (fst (solar_report pin s)) = deltaT_float s" "updatePwm (fst (solar_report pin s)) = updatePwm s"
  "so_adc (fst (solar_report pin s)) = so_adc s" "out_after p (snd (solar_report pin s)) = p"
  by (cases p; auto simp: solar_report_def solar_post_def Let_def split: prod.split)+

lemma energy_keeps:
  "flowValue (add_energy s) = flowValue s" "pwm1Duty (add_energy s) = pwm1Duty s"
  "deltaT_float (add_energy s) = deltaT_float s" "updatePwm (add_energy s) = updatePwm s" "so_adc (add_energy s) = so_adc s"
  by (simp_all add: add_energy_def Let_def)

lemma pump_keeps: "deltaT_float (fst (update_pump s)) = deltaT_float s" "so_adc (fst (update_pump s)) = so_adc s"
  by (simp_all add: update_pump_def Let_def)

text \<open>The adjustment as part of the turn: every second measurement, by the new temperature difference.\<close>

lemma measured_step:
  assumes "pump_ok s" "solar_measured pin s = (s', fx)"
  shows "pump_ok s'" "out_after (pump_out s) fx = pump_out s'" "updatePwm s' \<longleftrightarrow> \<not> updatePwm s"
    "unat (flowValue s') = (if updatePwm s then next_flow (deltaT_float s') (flowValue s) else unat (flowValue s))"
    "so_adc s' = so_adc s" "deltaT_float s' = f32_sub (map2 task_temperature temp_coeffs (Adc_Value (so_adc s)) ! 6)
      (map2 task_temperature temp_coeffs (Adc_Value (so_adc s)) ! 4)"
proof -
  define t where "t = map2 task_temperature temp_coeffs (Adc_Value (so_adc s))"
  define s1 where "s1 = s\<lparr> measuredTemp := t, deltaT_float := f32_sub (t ! 6) (t ! 4) \<rparr>"
  have s1: "pump_ok s1" "pump_out s1 = pump_out s" "flowValue s1 = flowValue s" "updatePwm s1 = updatePwm s"
    using assms(1) by (simp_all add: s1_def pump_ok_def pump_out_def)
  note st = update_pump_step [OF s1(1)]
  define u where "u = (if updatePwm s1 then (fst (update_pump s1))\<lparr> updatePwm := False \<rparr> else s1\<lparr> updatePwm := True \<rparr>)"
  define fx2 where "fx2 = (if updatePwm s1 then snd (update_pump s1) else [])"
  have eq: "solar_measured pin s = (let (s3, fx3) = solar_report pin (add_energy u) in
      (s3\<lparr> min3couter := (if min3couter s3 \<ge> 17 then 0 else min3couter s3 + 1) \<rparr>, WatchdogClear # fx2 @ fx3))"
    by (cases "update_pump s1") (simp add: solar_measured_def t_def [symmetric] s1_def [symmetric] u_def fx2_def Let_def s1(4))
  define s3 where "s3 = fst (solar_report pin (add_energy u))"
  have s': "s' = s3\<lparr> min3couter := (if min3couter s3 \<ge> 17 then 0 else min3couter s3 + 1) \<rparr>"
    "fx = WatchdogClear # fx2 @ snd (solar_report pin (add_energy u))"
    using assms(2) unfolding eq by (auto simp: s3_def Let_def split: prod.splits)
  have k: "flowValue s' = flowValue u" "pwm1Duty s' = pwm1Duty u" "deltaT_float s' = deltaT_float u" "updatePwm s' = updatePwm u"
    "so_adc s' = so_adc u"
    by (simp_all add: s' s3_def report_keeps energy_keeps)
  have d: "deltaT_float u = deltaT_float s1" "so_adc u = so_adc s1" by (simp_all add: u_def pump_keeps)
  show "so_adc s' = so_adc s" "deltaT_float s' = f32_sub (map2 task_temperature temp_coeffs (Adc_Value (so_adc s)) ! 6)
      (map2 task_temperature temp_coeffs (Adc_Value (so_adc s)) ! 4)"
    unfolding t_def [symmetric] k d by (simp_all add: s1_def)
  have ok: "pump_ok u" "out_after (pump_out s) fx2 = pump_out u"
    using st s1 by (auto simp: u_def fx2_def pump_ok_def pump_out_def)
  show "pump_ok s'" using ok(1) by (simp add: pump_ok_def k)
  show "updatePwm s' \<longleftrightarrow> \<not> updatePwm s" by (simp add: k u_def s1)
  show "unat (flowValue s') = (if updatePwm s then next_flow (deltaT_float s') (flowValue s) else unat (flowValue s))"
    using st(1) by (simp add: k d s1) (simp add: u_def s1)
  show "out_after (pump_out s) fx = pump_out s'"
    using ok(2) by (cases "pump_out s") (auto simp: s'(2) out_after_append report_keeps pump_out_def k)
qed

lemma command_keeps:
  "solar_command nvs pin c s = (s', fx) \<Longrightarrow> flowValue s' = flowValue s \<and> pwm1Duty s' = pwm1Duty s \<and> out_after p fx = p"
  by (cases p) (auto simp: solar_command_def solar_post_def adopt_address_def Let_def split: if_splits)

lemma commands_keep:
  "solar_commands_from nvs pin items c s = (s', fx) \<Longrightarrow>
   flowValue s' = flowValue s \<and> pwm1Duty s' = pwm1Duty s \<and> out_after p fx = p"
proof (induction items arbitrary: c s s' fx)
  case (Cons item items)
  obtain s1 fx1 where s1: "solar_command nvs pin (node_mq_receive item c) s = (s1, fx1)" by fastforce
  obtain s2 fx2 where s2: "solar_commands_from nvs pin items (node_mq_receive item c) s1 = (s2, fx2)" by fastforce
  show ?case using Cons.prems command_keeps [OF s1, of p] Cons.IH [OF s2] s1 s2 by (auto simp: out_after_append)
qed simp

lemma next_flow_near: "\<bar>int (next_flow d f) - int (unat f)\<bar> \<le> 6"
proof -
  define n where "n = unat f"
  have "next_flow d f \<le> n + 6 \<and> n \<le> next_flow d f + 6" by (auto simp: next_flow_def n_def [symmetric])
  then show ?thesis unfolding n_def by linarith
qed

text \<open>A measurement turn is an adjustment over the samples that were taken.\<close>

lemma measure_turn:
  assumes "env_turn e s = Some (s', fx)" "se_events e AND EVENT_MEASURE_TEMPERATURE \<noteq> 0"
  obtains s0 where "solar_measured (se_pin e) s0 = (s', fx)" "flowValue s0 = flowValue s" "pwm1Duty s0 = pwm1Duty s"
    "updatePwm s0 = updatePwm s"
proof -
  obtain t a where "solar_measured (se_pin e) (s\<lparr> measuredTempPrev := measuredTemp s, so_adc := a, measuredTemp := t \<rparr>) = (s', fx)"
    using assms by (auto simp: env_turn_def solar_turn_def solar_measure_def)
  then show thesis by (rule that) simp_all
qed

lemma measure_turn_step:
  assumes "pump_ok s" "env_turn e s = Some (s', fx)" "se_events e AND EVENT_MEASURE_TEMPERATURE \<noteq> 0"
  shows "pump_ok s'" "out_after (pump_out s) fx = pump_out s'" "updatePwm s' \<longleftrightarrow> \<not> updatePwm s"
    "unat (flowValue s') = (if updatePwm s then next_flow (deltaT_float s') (flowValue s) else unat (flowValue s))"
proof -
  obtain s0 where s0: "solar_measured (se_pin e) s0 = (s', fx)" "flowValue s0 = flowValue s" "pwm1Duty s0 = pwm1Duty s"
    "updatePwm s0 = updatePwm s"
    using measure_turn [OF assms(2,3)] by blast
  have ok: "pump_ok s0" "pump_out s0 = pump_out s" using assms(1) s0 by (simp_all add: pump_ok_def pump_out_def)
  show "pump_ok s'" "out_after (pump_out s) fx = pump_out s'" "updatePwm s' \<longleftrightarrow> \<not> updatePwm s"
    "unat (flowValue s') = (if updatePwm s then next_flow (deltaT_float s') (flowValue s) else unat (flowValue s))"
    using measured_step [OF ok(1) s0(1)] ok(2) s0 by simp_all
qed

lemma turn_step:
  assumes "pump_ok s" "env_turn e s = Some (s', fx)"
  shows "pump_ok s' \<and> out_after (pump_out s) fx = pump_out s' \<and> \<bar>int (unat (flowValue s')) - int (unat (flowValue s))\<bar> \<le> 6"
proof (cases "se_events e AND EVENT_MEASURE_TEMPERATURE \<noteq> 0")
  case True
  then show ?thesis using measure_turn_step [OF assms True] next_flow_near by simp
next
  case False
  show ?thesis
  proof (cases "se_events e AND EVENT_RECEIVE_CMD \<noteq> 0")
    case True
    have "solar_commands (se_nvs e) (se_pin e) (se_command e) s = (s', fx)"
      using assms(2) False True by (simp add: env_turn_def solar_turn_def)
    from commands_keep [OF this [unfolded solar_commands_def], of "pump_out s"] show ?thesis
      using assms(1) by (simp add: pump_ok_def pump_out_def)
  next
    case F: False
    then have "s' = s \<and> fx = []" using assms(2) False by (simp add: env_turn_def solar_turn_def)
    then show ?thesis using assms(1) by simp
  qed
qed

subsection \<open>Every run\<close>

lemma start_step:
  "solar_start dev drdy (solar_reset r msg) = Some (s, fx) \<Longrightarrow>
   pump_ok s \<and> out_after (b, d) fx = pump_out s \<and> flowValue s = 0"
  by (auto simp: solar_start_def solar_reset_def pump_ok_def pump_out_def Let_def)

definition near_flow :: "Solar \<Rightarrow> Solar \<Rightarrow> bool" where
  "near_flow a b \<longleftrightarrow> \<bar>int (unat (flowValue b)) - int (unat (flowValue a))\<bar> \<le> 6"

lemma trace_ok:
  assumes "pump_ok s" "solar_trace turns s = Some tr"
  shows "list_all (\<lambda>(s1, fx). pump_ok s1) tr \<and> successively near_flow (s # map fst tr) \<and>
    out_after (pump_out s) (concat (map snd tr)) = pump_out (last (s # map fst tr))"
  using assms
proof (induction turns arbitrary: s tr)
  case (Cons e es)
  obtain s1 fx tr' where t: "env_turn e s = Some (s1, fx)" "solar_trace es s1 = Some tr'" "tr = (s1, fx) # tr'"
    using Cons.prems(2) by (auto split: option.splits)
  note st = turn_step [OF Cons.prems(1) t(1)]
  show ?case using Cons.IH [OF _ t(2)] st by (simp add: t(3) out_after_append near_flow_def)
qed simp

text \<open>
  C10. From the start of the task on, after any sequence of measurements and commands with any samples, the
  pump is off or runs at one of the flows 6, 12, ..., 84 percent, the duty time is the one of that flow (at
  most 936 of the 1200 us period), the outputs are what the variables say (relay 3 on exactly while the flow
  is not zero), and no turn changes the flow by more than one step.
\<close>

theorem pump_speed_in_range:
  assumes "solar_start dev drdy (solar_reset r msg) = Some (s0, fx0)" and "solar_trace turns s0 = Some tr"
  shows "list_all (\<lambda>(s, fx). pump_ok s \<and> pwm1Duty s \<le> 936 \<and> pwm1Duty s < pwm1Period) tr \<and>
    successively near_flow (s0 # map fst tr) \<and>
    out_after (False, 0) (fx0 @ concat (map snd tr)) = pump_out (last (s0 # map fst tr))"
proof -
  note st = start_step [OF assms(1), of False 0]
  have "pump_ok s \<Longrightarrow> pwm1Duty s \<le> 936 \<and> pwm1Duty s < pwm1Period" for s
    by (auto simp: pump_ok_def pwm1Period_def word_le_nat_alt word_less_nat_alt split: if_splits)
  then show ?thesis
    using trace_ok [OF _ assms(2)] st by (auto simp: out_after_append list_all_iff)
qed

text \<open>A chip that always has a sample ready and answers nothing, and a measurement.\<close>

definition demo_env :: SolarEnv where
  "demo_env = \<lparr> se_events = 4, se_dev = \<lambda>_. [], se_drdy = \<lambda>_. False, se_pin = \<lambda>b. if b then 1 else 0, se_nvs = True,
     se_command = msg_zero \<rparr>"

lemma demo_returns: "\<exists>s0 fx0. solar_start (\<lambda>_. []) (\<lambda>_. False) s = Some (s0, fx0)" "\<exists>s1 fx. env_turn demo_env s = Some (s1, fx)"
proof -
  have r: "\<exists>t b. ADS1256_ReadTemperature (\<lambda>_. []) (\<lambda>_. False) a = Some (t, b)" for a
    by (rule read_returns) simp
  obtain t a where "ADS1256_ReadTemperature (\<lambda>_. []) (\<lambda>_. False) (snd (ADS1256_Init (\<lambda>_. []) (\<lambda>_. False) (so_adc s))) = Some (t, a)"
    using r by blast
  then show "\<exists>s0 fx0. solar_start (\<lambda>_. []) (\<lambda>_. False) s = Some (s0, fx0)"
    by (simp add: solar_start_def Let_def)
  obtain t a where "ADS1256_ReadTemperature (\<lambda>_. []) (\<lambda>_. False) (so_adc s) = Some (t, a)" using r by blast
  moreover have "env_turn demo_env s = solar_measure (\<lambda>_. []) (\<lambda>_. False) (se_pin demo_env) s"
    by (simp add: env_turn_def demo_env_def solar_turn_def)
  ultimately show "\<exists>s1 fx. env_turn demo_env s = Some (s1, fx)" by (simp add: solar_measure_def)
qed

definition demo_identity :: Identity where
  "demo_identity = \<lparr> gNodeAddress = 0, gFactoryId = replicate 8 0, sNvs = False, id_flash = [] \<rparr>"

theorem pump_speed_in_range_witness:
  "\<exists>s0 fx0 s1 fx1. solar_start (\<lambda>_. []) (\<lambda>_. False) (solar_reset (sc_radioTaskInit 1 2 False False demo_identity) msg_zero) = Some (s0, fx0) \<and>
     env_turn demo_env s0 = Some (s1, fx1) \<and> pump_ok s1 \<and> out_after (False, 0) (fx0 @ fx1) = pump_out s1"
proof -
  obtain s0 fx0 where s0: "solar_start (\<lambda>_. []) (\<lambda>_. False) (solar_reset (sc_radioTaskInit 1 2 False False demo_identity) msg_zero) = Some (s0, fx0)"
    using demo_returns(1) by blast
  obtain s1 fx1 where s1: "env_turn demo_env s0 = Some (s1, fx1)" using demo_returns(2) by blast
  have "solar_trace [demo_env] s0 = Some [(s1, fx1)]" using s1 by simp
  from pump_speed_in_range [OF s0 this] show ?thesis using s0 s1
    by (intro exI [of _ s0] exI [of _ fx0] exI [of _ s1] exI [of _ fx1]) simp
qed

subsection \<open>Following the temperature\<close>

lemma six_seven: "f32_of_int 6 = 0x40C00000" "f32_of_int 7 = 0x40E00000"
  by (simp_all add: f32_eval)

lemma demand_cold: "f32_lt d (f32_of_int 6) \<Longrightarrow> f32_le (pump_demand d) 0"
  unfolding pump_demand_def six_seven by (intro add_below mul_below sub_below)

lemma positive_int:
  assumes "1 \<le> i"
  shows "f32_lt 0 (f32_of_int i)"
proof -
  have "f32_unpack 0x3F800000 * 1 \<le> nat \<bar>i\<bar> * 2 ^ 149" using assms by (simp add: f32_unpack_def)
  from f32_round_ge [OF this] have "0x3F800000 \<le> f32_round (nat \<bar>i\<bar> * 2 ^ 149) 1" by simp
  moreover have "\<not> f32_nan 0" "f32_key 0 = 0" by (simp_all add: f32_eval)
  ultimately show ?thesis using assms f32_round_le_inf [of "nat \<bar>i\<bar> * 2 ^ 149" 1]
    by (simp add: f32_of_int_def f32_of_frac_def f32_lt_def f32_key_def f32_nan_def f32_mk_fields)
qed

definition colder :: "Solar \<Rightarrow> bool" where "colder s \<longleftrightarrow> f32_lt (deltaT_float s) (f32_of_int 6)"
definition hotter :: "Solar \<Rightarrow> bool" where "hotter s \<longleftrightarrow> f32_lt (f32_of_int 7) (deltaT_float s)"

lemma hot_not_cold: "f32_lt (f32_of_int 7) d \<Longrightarrow> \<not> f32_lt d (f32_of_int 6)"
  using f32_lt_trans [of "f32_of_int 7" d "f32_of_int 6"] by (auto simp: six_seven) (simp add: f32_eval)

lemma next_flow_cold:
  assumes "f32_lt d (f32_of_int 6)" "unat f mod 6 = 0"
  shows "next_flow d f = unat f - 6"
proof -
  have "\<not> f32_lt (f32_of_int 7) d" using hot_not_cold assms(1) by blast
  moreover have "f32_lt (pump_demand d) (flow_float f 6)"
    unfolding flow_float_def by (rule below_zero_lt [OF demand_cold [OF assms(1)]], rule positive_int) simp
  then have "\<not> f32_lt (flow_float f 6) (pump_demand d)" by (auto simp: f32_lt_def)
  moreover have "f32_lt (pump_demand d) (flow_float f (-6))" if "12 \<le> unat f"
  proof -
    have "int (unat f) = uint f" by simp
    then have "1 \<le> uint f + - 6" using that by linarith
    then show ?thesis unfolding flow_float_def by (rule below_zero_lt [OF demand_cold [OF assms(1)] positive_int])
  qed
  moreover define n where "n = unat f"
  moreover have "n = 0 \<or> n = 6 \<or> 12 \<le> n" using assms(2) unfolding n_def by presburger
  ultimately show ?thesis using assms(1) unfolding next_flow_def n_def [symmetric] by (elim disjE) simp_all
qed

lemma next_flow_hot:
  assumes "f32_lt (f32_of_int 7) d"
  shows "6 \<le> unat f \<or> unat f = 0 \<Longrightarrow> 6 \<le> next_flow d f"
  using hot_not_cold [OF assms] assms by (auto simp: next_flow_def)

definition measuring :: "SolarEnv \<Rightarrow> bool" where
  "measuring e \<longleftrightarrow> se_events e AND EVENT_MEASURE_TEMPERATURE \<noteq> 0"

lemma pump_multiple: "pump_ok s \<Longrightarrow> unat (flowValue s) mod 6 = 0"
  by (simp add: pump_ok_def)

lemma cold_run:
  assumes "pump_ok s" "solar_trace turns s = Some tr" "list_all measuring turns" "list_all (\<lambda>(s1, fx). colder s1) tr"
  shows "unat (flowValue (last (s # map fst tr))) = unat (flowValue s) - 6 * ((length turns + of_bool (updatePwm s)) div 2)"
  using assms
proof (induction turns arbitrary: s tr)
  case (Cons e es)
  obtain s1 fx tr' where t: "env_turn e s = Some (s1, fx)" "solar_trace es s1 = Some tr'" "tr = (s1, fx) # tr'"
    using Cons.prems(2) by (auto split: option.splits)
  have m: "se_events e AND EVENT_MEASURE_TEMPERATURE \<noteq> 0" "list_all measuring es"
    using Cons.prems(3) by (simp_all add: measuring_def [of e])
  note st = measure_turn_step [OF Cons.prems(1) t(1) m(1)]
  have c: "f32_lt (deltaT_float s1) (f32_of_int 6)" "list_all (\<lambda>(s1, fx). colder s1) tr'"
    using Cons.prems(4) by (simp_all add: t(3) colder_def)
  note pump_multiple [OF Cons.prems(1)]
  then have "unat (flowValue s1) = unat (flowValue s) - 6 * of_bool (updatePwm s)"
    using st(4) next_flow_cold [OF c(1)] by simp
  moreover have "last (s # map fst tr) = last (s1 # map fst tr')" by (simp add: t(3))
  ultimately show ?case
    using Cons.IH [OF st(1) t(2) m(2) c(2)] st(3) by (cases "updatePwm s") simp_all
qed simp

lemma hot_run:
  assumes "pump_ok s" "solar_trace turns s = Some tr" "list_all measuring turns" "list_all (\<lambda>(s1, fx). hotter s1) tr"
    and "6 \<le> unat (flowValue s) \<or> 2 \<le> length turns + of_bool (updatePwm s)"
  shows "6 \<le> unat (flowValue (last (s # map fst tr)))"
  using assms
proof (induction turns arbitrary: s tr)
  case (Cons e es)
  obtain s1 fx tr' where t: "env_turn e s = Some (s1, fx)" "solar_trace es s1 = Some tr'" "tr = (s1, fx) # tr'"
    using Cons.prems(2) by (auto split: option.splits)
  have m: "se_events e AND EVENT_MEASURE_TEMPERATURE \<noteq> 0" "list_all measuring es"
    using Cons.prems(3) by (simp_all add: measuring_def [of e])
  note st = measure_turn_step [OF Cons.prems(1) t(1) m(1)]
  have h: "f32_lt (f32_of_int 7) (deltaT_float s1)" "list_all (\<lambda>(s1, fx). hotter s1) tr'"
    using Cons.prems(4) by (simp_all add: t(3) hotter_def)
  have "6 \<le> unat (flowValue s) \<or> unat (flowValue s) = 0"
    using pump_multiple [OF Cons.prems(1)] by presburger
  then have "updatePwm s \<Longrightarrow> 6 \<le> unat (flowValue s1)" using st(4) next_flow_hot [OF h(1)] by simp
  then have "6 \<le> unat (flowValue s1) \<or> 2 \<le> length es + of_bool (updatePwm s1)"
    using Cons.prems(5) st(3,4) by (cases "updatePwm s") auto
  moreover have "last (s # map fst tr) = last (s1 # map fst tr')" by (simp add: t(3))
  ultimately show ?case using Cons.IH [OF st(1) t(2) m(2) h(2)] by simp
qed (auto split: split_of_bool_asm)

text \<open>
  C11. While every measurement finds the collector less than 6 degrees above the tank, the flow falls by one step
  on every second measurement until the pump is off, so 28 such measurements in a row switch pump and relay
  off from any speed. While every measurement finds it more than 7 degrees above, the pump runs from the second
  one on. The temperatures are the rounded \<open>float\<close> values of the code, infinities included.
\<close>

theorem pump_follows_temperature:
  assumes "pump_ok s" and "solar_trace turns s = Some tr" and "list_all measuring turns"
  defines "s' \<equiv> last (s # map fst tr)"
  shows "(list_all (\<lambda>(s1, fx). colder s1) tr \<longrightarrow>
      unat (flowValue s') = unat (flowValue s) - 6 * ((length turns + of_bool (updatePwm s)) div 2) \<and>
      (28 \<le> length turns \<longrightarrow> out_after (pump_out s) (concat (map snd tr)) = (False, 0))) \<and>
    (list_all (\<lambda>(s1, fx). hotter s1) tr \<and> 2 \<le> length turns \<longrightarrow>
      6 \<le> unat (flowValue s') \<and> fst (out_after (pump_out s) (concat (map snd tr))))"
proof -
  note ok = trace_ok [OF assms(1,2), folded s'_def]
  have o: "out_after (pump_out s) (concat (map snd tr)) = pump_out s'" using ok by blast
  have ok': "pump_ok s'" using ok assms(1) by (cases tr rule: rev_cases) (auto simp: s'_def)
  have l: "unat (flowValue s) \<le> 84" using assms(1) by (simp add: pump_ok_def)
  show ?thesis
  proof (intro conjI impI)
    assume c: "list_all (\<lambda>(s1, fx). colder s1) tr"
    from cold_run [OF assms(1-3) c] show f: "unat (flowValue s') = unat (flowValue s) - 6 * ((length turns + of_bool (updatePwm s)) div 2)"
      by (simp add: s'_def)
    assume "28 \<le> length turns"
    then have "14 \<le> (length turns + of_bool (updatePwm s)) div 2" by simp
    then have "unat (flowValue s') = 0" using f l by linarith
    then show "out_after (pump_out s) (concat (map snd tr)) = (False, 0)"
      using ok' unfolding o by (simp add: pump_out_def pump_ok_def unat_eq_zero)
  next
    assume "list_all (\<lambda>(s1, fx). hotter s1) tr \<and> 2 \<le> length turns"
    then show "6 \<le> unat (flowValue s')" using hot_run [OF assms(1-3)] by (simp add: s'_def)
    then show "fst (out_after (pump_out s) (concat (map snd tr)))" unfolding o by (auto simp: pump_out_def)
  qed
qed

text \<open>The silent chip leaves every sample at zero, which makes the collector colder than the tank.\<close>

definition silent :: "Ads \<Rightarrow> bool" where
  "silent a \<longleftrightarrow> length (spiTxBuffer a) = 6 \<and> spiRxBuffer a = replicate 6 0 \<and> Adc_Value a = replicate 8 0"

lemma silent_transfer: "silent a \<Longrightarrow> length bs \<le> 6 \<Longrightarrow> silent (SPI_transfer (\<lambda>_. []) n (ads_put bs a))"
  by (simp add: silent_def SPI_transfer_def ads_put_def blit_def Let_def)

lemma silent_wait: "silent a \<Longrightarrow> silent (ADS1256_WaitDRDY drdy a)"
proof -
  have "silent a \<Longrightarrow> silent (snd (ads_wait n drdy a))" for n
    by (induction n arbitrary: a) (simp_all add: silent_def Let_def)
  then show "silent a \<Longrightarrow> silent (ADS1256_WaitDRDY drdy a)" by (simp add: ADS1256_WaitDRDY_def)
qed

lemma silent_sample:
  assumes "silent a"
  shows "fst (ADS1256_Read_ADC_Data (\<lambda>_. []) drdy a) = 0" "silent (snd (ADS1256_Read_ADC_Data (\<lambda>_. []) drdy a))"
proof -
  define b where "b = SPI_transfer (\<lambda>_. []) 3 (ads_put [0xFF, 0xFF, 0xFF]
    (ADS1256_WaitDRDY drdy (SPI_transfer (\<lambda>_. []) 1 (ads_put [CMD_RDATA] (ADS1256_WaitDRDY drdy a)))))"
  have "silent b" unfolding b_def by (intro silent_transfer silent_wait assms) simp_all
  then show "fst (ADS1256_Read_ADC_Data (\<lambda>_. []) drdy a) = 0" "silent (snd (ADS1256_Read_ADC_Data (\<lambda>_. []) drdy a))"
    unfolding ADS1256_Read_ADC_Data_def Let_def b_def [symmetric] by (simp_all add: silent_def adc_code_def)
qed

lemma silent_channel:
  assumes "silent a" "ch < 8" "ADS1256_GetChannelValue (\<lambda>_. []) (\<lambda>_. False) ch a = Some (v, a')"
  shows "v = 0 \<and> silent a'"
proof -
  obtain a1 where a1: "ads_poll (\<lambda>_. False) a = Some a1" "silent a1"
    using assms(1) by (simp add: ads_poll.simps silent_def)
  define b where "b = ADS1256_WriteCmd (\<lambda>_. []) CMD_WAKEUP (ADS1256_WriteCmd (\<lambda>_. []) CMD_SYNC (ADS1256_SetChannel (\<lambda>_. []) ch a1))"
  have "silent b" unfolding b_def ADS1256_WriteCmd_def ADS1256_SetChannel_def ADS1256_WriteReg_def
    using a1(2) by (auto intro!: silent_transfer)
  moreover have "Some (ADS1256_Read_ADC_Data (\<lambda>_. []) (\<lambda>_. False) b) = Some (v, a')"
    using assms(2,3) by (simp add: ADS1256_GetChannelValue_def a1(1) b_def Let_def not_le [symmetric])
  ultimately show ?thesis using silent_sample [of b "\<lambda>_. False"] by simp
qed

lemma silent_scan:
  "silent a \<Longrightarrow> \<forall>i \<in> set is. i < 8 \<Longrightarrow> ads_get_from (\<lambda>_. []) (\<lambda>_. False) is a = Some a' \<Longrightarrow> silent a'"
proof (induction "is" arbitrary: a)
  case (Cons i "is")
  obtain v a1 where a1: "ADS1256_GetChannelValue (\<lambda>_. []) (\<lambda>_. False) (of_nat i) a = Some (v, a1)"
    using Cons.prems(3) by (auto split: option.splits)
  have i: "(of_nat i :: u8) < 8" using Cons.prems(2) by (simp add: word_less_nat_alt unat_of_nat)
  have "v = 0 \<and> silent a1" by (rule silent_channel [OF Cons.prems(1) i a1])
  moreover have "(replicate 8 0)[i := 0] = replicate 8 (0 :: u32)"
    using Cons.prems(2) by (metis list_update_id nth_replicate list.set_intros(1))
  ultimately have "silent (a1\<lparr> Adc_Value := (Adc_Value a1)[i := v] \<rparr>)" by (simp add: silent_def)
  then show ?case using Cons.IH Cons.prems(2,3) a1 by simp
qed simp

lemma silent_turn:
  assumes "silent (so_adc s)" "pump_ok s"
  shows "\<exists>s' fx. env_turn demo_env s = Some (s', fx) \<and> silent (so_adc s') \<and> colder s' \<and> pump_ok s'"
proof -
  obtain t a where ta: "ADS1256_ReadTemperature (\<lambda>_. []) (\<lambda>_. False) (so_adc s) = Some (t, a)"
    using read_returns [of "\<lambda>_. False" "\<lambda>_. []" "so_adc s"] by auto
  then have a: "silent a" using silent_scan [OF assms(1), of "[0, 1, 2, 3, 4, 5, 6, 7]" a]
    by (auto simp: ADS1256_ReadTemperature_def ADS1256_GetAll_def)
  define s0 where "s0 = s\<lparr> measuredTempPrev := measuredTemp s, so_adc := a, measuredTemp := t \<rparr>"
  obtain s' fx where s': "solar_measured (se_pin demo_env) s0 = (s', fx)" by fastforce
  have "env_turn demo_env s = Some (s', fx)"
    using ta s' by (simp add: env_turn_def demo_env_def solar_turn_def solar_measure_def s0_def)
  moreover have "pump_ok s0" "so_adc s0 = a" using assms(2) by (simp_all add: s0_def pump_ok_def)
  moreover from a have "map2 task_temperature temp_coeffs (Adc_Value a) ! 6 = 0xC1CC0E56"
    "map2 task_temperature temp_coeffs (Adc_Value a) ! 4 = 0xC1CB0C4A"
    by (simp_all add: silent_def silent_temperatures)
  ultimately show ?thesis using measured_step [OF _ s'] a cold_at_zero by (simp add: colder_def)
qed

lemma silent_run:
  "silent (so_adc s) \<Longrightarrow> pump_ok s \<Longrightarrow>
   \<exists>tr. solar_trace (replicate n demo_env) s = Some tr \<and> list_all (\<lambda>(s1, fx). colder s1) tr"
proof (induction n arbitrary: s)
  case (Suc n)
  obtain s' fx where s': "env_turn demo_env s = Some (s', fx)" "silent (so_adc s')" "colder s'" "pump_ok s'"
    using silent_turn [OF Suc.prems] by blast
  obtain tr where "solar_trace (replicate n demo_env) s' = Some tr" "list_all (\<lambda>(s1, fx). colder s1) tr"
    using Suc.IH [OF s'(2,4)] by blast
  then show ?case using s'(1,3) by simp
qed simp

text \<open>The pump at full speed and a chip that has gone silent: after 28 measurements it is off.\<close>

definition demo_solar :: Solar where
  "demo_solar = (solar_reset (sc_radioTaskInit 1 2 False False demo_identity) msg_zero)\<lparr> flowValue := 84, pwm1Duty := 936 \<rparr>"

theorem pump_follows_temperature_witness:
  "\<exists>tr. solar_trace (replicate 28 demo_env) demo_solar = Some tr \<and> out_after (True, 936) (concat (map snd tr)) = (False, 0)"
proof -
  have ok: "pump_ok demo_solar" "silent (so_adc demo_solar)" "pump_out demo_solar = (True, 936)"
    by (simp_all add: demo_solar_def pump_ok_def solar_reset_def silent_def pump_out_def)
  obtain tr where tr: "solar_trace (replicate 28 demo_env) demo_solar = Some tr" "list_all (\<lambda>(s1, fx). colder s1) tr"
    using silent_run [OF ok(2,1)] by blast
  have m: "list_all measuring (replicate 28 demo_env)" by (simp add: list_all_iff measuring_def demo_env_def)
  show ?thesis using pump_follows_temperature [OF ok(1) tr(1) m] tr ok(3) by simp
qed

end
