(* ===== verification/LightSwitch.thy ===== *)
theory LightSwitch
  imports NodeRadio
begin

text \<open>
  The light switch: the touch loop of \<open>gpiointerrupt.c\<close>, which samples the pad every 20 ms, and the application
  task of \<open>node_app.c\<close>, which carries out the gateway's commands. Both run over one state; a step of either is
  one turn of its loop. What \<open>GPIO_read\<close> returns for the relay pin at a given level is an argument.
\<close>

abbreviation (input) "POLL_MS \<equiv> 20 :: u32"
abbreviation (input) "HOLD_JOIN_MS \<equiv> 4000 :: u32"
abbreviation (input) "TOUCH_MIN_MS \<equiv> 60 :: u32"
abbreviation (input) "DEBOUNCE_MS \<equiv> 80 :: u32"
abbreviation (input) "PAIRING_WINDOW_MS \<equiv> 60000 :: u32"
abbreviation (input) "PAIRING_BLINK_MS \<equiv> 240 :: u32"

text \<open>The outcomes of the touch loop: a JOIN is sent, the relay is toggled.\<close>

datatype press = SendJoin | ToggleRelay

record Light =
  li_radio :: NodeRadio
  li_relay :: bool
  li_bled :: bool
  li_rled :: bool
  gTouchState :: u16
  prev :: u8
  rawPrev :: u8
  dbState :: u8
  stableMs :: u32
  heldMs :: u32
  pairingArmed :: bool
  pairing :: bool
  pairingMs :: u32

definition li_address :: "Light \<Rightarrow> u8" where
  "li_address s = gNodeAddress (nr_identity (li_radio s))"

subsection \<open>Relay and commands\<close>

definition syncBacklight :: "(bool \<Rightarrow> u8) \<Rightarrow> Light \<Rightarrow> Light" where
  "syncBacklight pin s = s\<lparr> li_bled := (pin (li_relay s) \<noteq> 0) \<rparr>"

definition relay_message :: "(bool \<Rightarrow> u8) \<Rightarrow> Light \<Rightarrow> MessageStruct" where
  "relay_message pin s =
     (let m = msg_zero\<lparr> m_id := li_address s, m_type := NODE_LIGHT_CONTROLLER, m_cmd := CMD_SEND_PUMP_STATUS \<rparr>
      in (put_payload 0 [pin (li_relay s)] m)\<lparr> m_length := 4 + 1 \<rparr>)"

definition reportRelayState :: "(bool \<Rightarrow> u8) \<Rightarrow> Light \<Rightarrow> Light" where
  "reportRelayState pin s = s\<lparr> li_radio := node_mq_send (relay_message pin s) (li_radio s) \<rparr>"

definition app_relay_toggle :: "(bool \<Rightarrow> u8) \<Rightarrow> Light \<Rightarrow> Light" where
  "app_relay_toggle pin s = reportRelayState pin (syncBacklight pin (s\<lparr> li_relay := \<not> li_relay s \<rparr>))"

definition light_adopt :: "bool \<Rightarrow> u8 \<Rightarrow> Light \<Rightarrow> Light" where
  "light_adopt nvs_writes a s = s\<lparr> li_radio := (li_radio s)\<lparr> nr_identity :=
     snd (light_identity_persist nvs_writes ((nr_identity (li_radio s))\<lparr> gNodeAddress := a \<rparr>)) \<rparr> \<rparr>"

definition light_command :: "bool \<Rightarrow> (bool \<Rightarrow> u8) \<Rightarrow> MessageStruct \<Rightarrow> Light \<Rightarrow> Light" where
  "light_command nvs_writes pin c s =
     (if m_cmd c = CMD_JOIN_ACCEPT then
        reportRelayState pin (light_adopt nvs_writes (joinAcceptData_assigned_addr c) s)
      else if m_cmd c = CMD_REMOVE \<or> m_cmd c = CMD_UNREGISTERED then
        light_adopt nvs_writes ADDR_UNPROVISIONED s
      else if m_cmd c = CMD_TURN_PUMP_ON_OFF then
        reportRelayState pin (syncBacklight pin (s\<lparr> li_relay := (pumpData_pumpState c \<noteq> 0) \<rparr>))
      else s)"

fun light_commands_from :: "bool \<Rightarrow> (bool \<Rightarrow> u8) \<Rightarrow> u8 list list \<Rightarrow> MessageStruct \<Rightarrow> Light \<Rightarrow> Light" where
  "light_commands_from nvs_writes pin [] command s = s"
| "light_commands_from nvs_writes pin (item # items) command s =
     (let c = node_mq_receive item command in light_commands_from nvs_writes pin items c (light_command nvs_writes pin c s))"

definition light_commands :: "bool \<Rightarrow> (bool \<Rightarrow> u8) \<Rightarrow> MessageStruct \<Rightarrow> Light \<Rightarrow> Light" where
  "light_commands nvs_writes pin command s =
     light_commands_from nvs_writes pin (nr_commandQueue (li_radio s)) command
       (s\<lparr> li_radio := (li_radio s)\<lparr> nr_commandQueue := [] \<rparr> \<rparr>)"

definition light_app_start :: "(bool \<Rightarrow> u8) \<Rightarrow> Light \<Rightarrow> Light" where
  "light_app_start pin s = syncBacklight pin (s\<lparr> li_relay := False, li_bled := False \<rparr>)"

subsection \<open>The touch pad\<close>

text \<open>The interrupt of the sensor controller leaves the last of the waiting results.\<close>

definition scTaskAlertCallback :: "u16 list \<Rightarrow> Light \<Rightarrow> Light" where
  "scTaskAlertCallback outputs s = foldl (\<lambda>s d. s\<lparr> gTouchState := d \<rparr>) s outputs"

definition debounce_poll :: "Light \<Rightarrow> Light" where
  "debounce_poll s =
     (let raw = ucast (gTouchState s);
          s1 = (if raw = rawPrev s then s\<lparr> stableMs := stableMs s + POLL_MS \<rparr> else s\<lparr> stableMs := 0, rawPrev := raw \<rparr>)
      in if stableMs s1 \<ge> DEBOUNCE_MS then s1\<lparr> dbState := raw \<rparr> else s1)"

definition press_poll :: "(bool \<Rightarrow> u8) \<Rightarrow> Light \<Rightarrow> Light \<times> press list" where
  "press_poll pin s =
     (let d = dbState s;
          s1 = (if d \<noteq> 0 \<and> prev s = 0 then s\<lparr> heldMs := 0, pairingArmed := False \<rparr> else s);
          (s2, fx2) =
            (if d \<noteq> 0 then
               let s2 = s1\<lparr> heldMs := heldMs s1 + POLL_MS \<rparr> in
               if heldMs s2 \<ge> HOLD_JOIN_MS \<and> \<not> pairingArmed s2 then
                 let s3 = s2\<lparr> pairingArmed := True, pairing := True, pairingMs := 0 \<rparr>
                 in (s3\<lparr> li_radio := ls_rf_send_join (li_radio s3) \<rparr>, [SendJoin])
               else (s2, [])
             else (s1, []));
          (s3, fx3) =
            (if d = 0 \<and> prev s \<noteq> 0 then
               let (s3, fx) = (if \<not> pairingArmed s2 \<and> heldMs s2 \<ge> TOUCH_MIN_MS \<and> heldMs s2 < HOLD_JOIN_MS
                 then (app_relay_toggle pin s2, [ToggleRelay]) else (s2, []))
               in (s3\<lparr> heldMs := 0 \<rparr>, fx)
             else (s2, []))
      in (s3\<lparr> prev := d \<rparr>, fx2 @ fx3))"

definition pairing_poll :: "Light \<Rightarrow> Light" where
  "pairing_poll s =
     (if pairing s then
        let s1 = s\<lparr> pairingMs := pairingMs s + POLL_MS \<rparr> in
        if li_address s1 \<noteq> ADDR_UNPROVISIONED then s1\<lparr> pairing := False, li_rled := False \<rparr>
        else if pairingMs s1 \<ge> PAIRING_WINDOW_MS then s1\<lparr> pairing := False, li_rled := False \<rparr>
        else if pairingMs s1 mod PAIRING_BLINK_MS = 0 then s1\<lparr> li_rled := \<not> li_rled s1 \<rparr>
        else s1
      else s)"

text \<open>One pass of the loop, and a run of it over the values the interrupt leaves before each pass.\<close>

definition touch_poll :: "(bool \<Rightarrow> u8) \<Rightarrow> Light \<Rightarrow> Light \<times> press list" where
  "touch_poll pin s = (let (s1, fx) = press_poll pin (debounce_poll s) in (pairing_poll s1, fx))"

fun touch_run :: "(bool \<Rightarrow> u8) \<Rightarrow> u16 list \<Rightarrow> Light \<Rightarrow> Light \<times> press list list" where
  "touch_run pin [] s = (s, [])"
| "touch_run pin (d # ds) s =
     (let (s1, fx) = touch_poll pin (scTaskAlertCallback [d] s); (s2, fxs) = touch_run pin ds s1 in (s2, fx # fxs))"

definition light_start :: "NodeRadio \<Rightarrow> Light" where
  "light_start r = \<lparr> li_radio = r, li_relay = False, li_bled = False, li_rled = False, gTouchState = 0, prev = 0,
     rawPrev = 0, dbState = 0, stableMs = 0, heldMs = 0, pairingArmed = False, pairing = False, pairingMs = 0 \<rparr>"

subsection \<open>The reference\<close>

text \<open>
  The pad's state as a history (latest sample first) shows it: the value of the latest five equal samples in a
  row, and 0 before there are any.
\<close>

fun settled :: "u8 list \<Rightarrow> u8" where
  "settled (a # b # c # d # e # hist) =
     (if a = b \<and> b = c \<and> c = d \<and> d = e then a else settled (b # c # d # e # hist))"
| "settled _ = 0"

text \<open>
  A press lasts from one change of that state to the next: when it reaches its 200th sample (four seconds) a
  JOIN is sent, when it ends earlier the relay is toggled; \<open>n\<close> are the samples of the press so far.
\<close>

fun presses :: "nat \<Rightarrow> u8 list \<Rightarrow> press list list" where
  "presses n [] = []"
| "presses n (d # ds) =
     (if d \<noteq> 0 then (if Suc n = 200 then [SendJoin] else []) # presses (Suc n) ds
      else (if 0 < n \<and> n < 200 then [ToggleRelay] else []) # presses 0 ds)"

text \<open>The pad's state after each sample, on top of a history.\<close>

primrec settled_from :: "u8 list \<Rightarrow> u8 list \<Rightarrow> u8 list" where
  "settled_from hist [] = []"
| "settled_from hist (a # raws) = settled (a # hist) # settled_from (a # hist) raws"

definition settled_states :: "u8 list \<Rightarrow> u8 list" where
  "settled_states raws = settled_from [] raws"

subsection \<open>The counters\<close>

text \<open>How often the latest sample has been repeated; before the first sample the pad counts as untouched.\<close>

fun streak :: "u8 list \<Rightarrow> nat" where
  "streak [] = 0"
| "streak [a] = (if a = 0 then 1 else 0)"
| "streak (a # b # hist) = (if a = b then Suc (streak (b # hist)) else 0)"

lemma streak_Cons: "streak (a # hist) = (if a = (case hist of [] \<Rightarrow> 0 | b # _ \<Rightarrow> b) then Suc (streak hist) else 0)"
  by (cases hist) auto

lemma settled_Cons: "settled (a # hist) = (if 4 \<le> streak (a # hist) then a else settled hist)"
  by (cases "a # hist" rule: settled.cases) auto

definition ms :: "nat \<Rightarrow> u32" where "ms n = 20 * word_of_nat n"

lemma ms_Suc: "ms n + 20 = ms (Suc n)"
  by (simp add: ms_def algebra_simps)

lemma ms_exact: "n \<le> 200 \<Longrightarrow> unat (ms n) = 20 * n"
  by (simp add: ms_def unat_word_ariths unat_of_nat)

lemma ms_bounds:
  "n \<le> 200 \<Longrightarrow> 4000 \<le> ms n \<longleftrightarrow> n = 200" "n \<le> 200 \<Longrightarrow> 60 \<le> ms n \<longleftrightarrow> 3 \<le> n" "n \<le> 200 \<Longrightarrow> 80 \<le> ms n \<longleftrightarrow> 4 \<le> n"
  by (auto simp: word_le_nat_alt ms_exact)

definition touch_inv :: "u8 list \<Rightarrow> nat \<Rightarrow> Light \<Rightarrow> bool" where
  "touch_inv hist n s \<longleftrightarrow>
     rawPrev s = (case hist of [] \<Rightarrow> 0 | b # _ \<Rightarrow> b) \<and> stableMs s = ms (streak hist) \<and>
     dbState s = settled hist \<and> prev s = settled hist \<and> (0 < n \<longleftrightarrow> settled hist \<noteq> 0) \<and>
     (0 < n \<longrightarrow> heldMs s = ms n \<and> pairingArmed s = (200 \<le> n) \<and> (hist \<noteq> [] \<and> hd hist \<noteq> settled hist \<longrightarrow> streak hist + 2 \<le> n))"

lemma debounce_step:
  assumes "touch_inv hist n s"
  shows "\<exists>s1. debounce_poll (s\<lparr> gTouchState := d \<rparr>) = s1 \<and> rawPrev s1 = ucast d \<and> stableMs s1 = ms (streak (ucast d # hist)) \<and>
    dbState s1 = settled (ucast d # hist) \<and> prev s1 = prev s \<and> heldMs s1 = heldMs s \<and> pairingArmed s1 = pairingArmed s"
proof -
  let ?a = "ucast d :: u8"
  have st: "(if ?a = rawPrev s then ms (streak hist) + 20 else 0) = ms (streak (?a # hist))"
    using assms by (simp add: touch_inv_def streak_Cons ms_Suc) (simp add: ms_def)
  have db: "(if 80 \<le> ms (streak (?a # hist)) then ?a else settled hist) = settled (?a # hist)"
  proof (cases "streak (?a # hist) \<le> 4")
    case True
    then show ?thesis using settled_Cons [of ?a hist] by (simp add: ms_bounds(3))
  next
    case False
    then have "4 \<le> streak hist" "hist \<noteq> []" "?a = hd hist"
      by (cases hist; simp add: streak_Cons split: if_splits)+
    then have "settled hist = ?a" using settled_Cons [of "hd hist" "tl hist"] by (cases hist) simp_all
    then show ?thesis using False settled_Cons [of ?a hist] by simp
  qed
  show ?thesis using assms st db by (auto simp: debounce_poll_def touch_inv_def Let_def)
qed

text \<open>While the pad's state differs from the latest sample, the press is longer than the streak of that sample.\<close>

lemma press_outlasts:
  assumes "touch_inv hist n s"
  shows "settled (a # hist) \<noteq> 0 \<Longrightarrow> a \<noteq> settled (a # hist) \<Longrightarrow> streak (a # hist) + 2 \<le> Suc n"
    and "settled (a # hist) = 0 \<Longrightarrow> 0 < n \<Longrightarrow> 3 \<le> n"
proof -
  have n: "0 < n \<longleftrightarrow> settled hist \<noteq> 0" "0 < n \<Longrightarrow> hist \<noteq> [] \<and> hd hist \<noteq> settled hist \<Longrightarrow> streak hist + 2 \<le> n"
    using assms by (simp_all add: touch_inv_def)
  show "streak (a # hist) + 2 \<le> Suc n" if "settled (a # hist) \<noteq> 0" "a \<noteq> settled (a # hist)"
  proof -
    have v: "settled (a # hist) = settled hist" using that settled_Cons [of a hist] by (auto split: if_splits)
    then have "0 < n" "hist \<noteq> []" using that n(1) by auto
    then show ?thesis using n(2) that(2) v by (cases hist) (auto simp: streak_Cons split: if_splits)
  qed
  show "3 \<le> n" if "settled (a # hist) = 0" "0 < n"
  proof -
    have "settled hist \<noteq> 0" using that n(1) by simp
    then have k: "4 \<le> streak (a # hist)" "a = 0" using that(1) settled_Cons [of a hist] by (auto split: if_splits)
    moreover have "hist \<noteq> []" using \<open>settled hist \<noteq> 0\<close> by auto
    ultimately have "hd hist = 0" "3 \<le> streak hist" by (cases hist; auto simp: streak_Cons split: if_splits)+
    then show ?thesis using n(2) [OF that(2)] \<open>settled hist \<noteq> 0\<close> \<open>hist \<noteq> []\<close> by auto
  qed
qed

lemma toggle_keeps:
  "dbState (app_relay_toggle pin s) = dbState s" "rawPrev (app_relay_toggle pin s) = rawPrev s"
  "stableMs (app_relay_toggle pin s) = stableMs s"
  by (simp_all add: app_relay_toggle_def syncBacklight_def reportRelayState_def)

lemma press_step:
  assumes inv: "touch_inv hist n s" and d: "dbState t = settled (a # hist)" "prev t = prev s" "heldMs t = heldMs s"
    "pairingArmed t = pairingArmed s" "rawPrev t = a" "stableMs t = ms (streak (a # hist))"
    and p: "press_poll pin t = (t', fx)"
  defines "n' \<equiv> if settled (a # hist) \<noteq> 0 then Suc n else 0"
  shows "touch_inv (a # hist) n' t'"
    "fx = (if settled (a # hist) \<noteq> 0 then (if n' = 200 then [SendJoin] else []) else if 0 < n \<and> n < 200 then [ToggleRelay] else [])"
proof -
  have i: "0 < n \<longleftrightarrow> prev t \<noteq> 0" "0 < n \<Longrightarrow> heldMs t = ms n \<and> pairingArmed t = (200 \<le> n)"
    using inv d by (simp_all add: touch_inv_def)
  have "touch_inv (a # hist) n' t' \<and> fx = (if settled (a # hist) \<noteq> 0 then (if n' = 200 then [SendJoin] else [])
      else if 0 < n \<and> n < 200 then [ToggleRelay] else [])"
  proof (cases "settled (a # hist) = 0")
    case True
    then have n': "n' = 0" by (simp add: n'_def)
    show ?thesis
    proof (cases "0 < n")
      case n: True
      have "\<not> pairingArmed t \<and> 60 \<le> heldMs t \<and> heldMs t < 4000 \<longleftrightarrow> n < 200"
        using i(2) [OF n] press_outlasts(2) [OF inv True n] ms_bounds [of n] by (auto simp: not_le [symmetric])
      then show ?thesis using p d True n i(1) n'
        by (auto simp: press_poll_def touch_inv_def Let_def toggle_keeps split: if_splits)
    next
      case False
      then show ?thesis using p d True i(1) n' by (auto simp: press_poll_def touch_inv_def Let_def)
    qed
  next
    case nz: False
    define t1 where "t1 = (if prev t = 0 then t\<lparr> heldMs := 0, pairingArmed := False \<rparr> else t)"
    have h: "heldMs t1 + 20 = ms (Suc n)" "pairingArmed t1 = (200 \<le> n)"
      using i ms_Suc [of n] by (cases n; auto simp: t1_def ms_def)+
    have armed: "4000 \<le> ms (Suc n) \<and> \<not> 200 \<le> n \<longleftrightarrow> Suc n = 200" using ms_bounds(1) [of "Suc n"] by auto
    have k: "dbState t1 = dbState t" "rawPrev t1 = rawPrev t" "stableMs t1 = stableMs t" by (simp_all add: t1_def)
    have out: "a \<noteq> settled (a # hist) \<Longrightarrow> streak (a # hist) + 2 \<le> n'" using press_outlasts(1) [OF inv nz] by (simp add: n'_def nz)
    have "press_poll pin t = (let s2 = t1\<lparr> heldMs := ms (Suc n) \<rparr> in
        if Suc n = 200 then (s2\<lparr> pairingArmed := True, pairing := True, pairingMs := 0,
          li_radio := ls_rf_send_join (li_radio s2), prev := dbState t \<rparr>, [SendJoin])
        else (s2\<lparr> prev := dbState t \<rparr>, []))"
      using d(1) nz h armed by (simp add: press_poll_def t1_def [symmetric] Let_def)
    then show ?thesis using p nz d h out by (auto simp: touch_inv_def Let_def k n'_def)
  qed
  then show "touch_inv (a # hist) n' t'" "fx = (if settled (a # hist) \<noteq> 0 then (if n' = 200 then [SendJoin] else [])
      else if 0 < n \<and> n < 200 then [ToggleRelay] else [])" by simp_all
qed

subsection \<open>Every run\<close>

lemma pairing_keeps: "touch_inv hist n (pairing_poll s) = touch_inv hist n s"
  by (simp add: touch_inv_def pairing_poll_def Let_def)

lemma touch_runs:
  "touch_inv hist n s \<Longrightarrow> snd (touch_run pin ds s) = presses n (settled_from hist (map ucast ds))"
proof (induction ds arbitrary: hist n s)
  case Nil
  then show ?case by simp
next
  case (Cons d ds)
  let ?a = "ucast d :: u8"
  obtain t where t: "debounce_poll (s\<lparr> gTouchState := d \<rparr>) = t" "rawPrev t = ?a" "stableMs t = ms (streak (?a # hist))"
    "dbState t = settled (?a # hist)" "prev t = prev s" "heldMs t = heldMs s" "pairingArmed t = pairingArmed s"
    using debounce_step [OF Cons.prems, of d] by blast
  obtain t' fx where p: "press_poll pin t = (t', fx)" by fastforce
  note st = press_step [OF Cons.prems t(4-7,2,3) p]
  define n' where "n' = (if settled (?a # hist) \<noteq> 0 then Suc n else 0)"
  have run: "snd (touch_run pin (d # ds) s) = fx # snd (touch_run pin ds (pairing_poll t'))"
    using t(1) p by (simp add: touch_poll_def scTaskAlertCallback_def split: prod.split)
  have "snd (touch_run pin ds (pairing_poll t')) = presses n' (settled_from (?a # hist) (map ucast ds))"
    by (rule Cons.IH) (use st(1) in \<open>simp add: pairing_keeps n'_def\<close>)
  then show ?case unfolding run st(2) by (simp add: n'_def)
qed

text \<open>
  C12. Over any sequence of pad samples, from the start and for as long as it runs, the touch loop acts exactly on
  the presses of the settled pad state: one JOIN at the 200th sample of a press, one toggle of the relay at the
  end of a shorter one, and nothing else. The millisecond counters may wrap around without any effect.
\<close>

theorem touch_acts_on_settled_presses:
  "snd (touch_run pin samples (light_start r)) = presses 0 (settled_states (map ucast samples))"
proof -
  have "touch_inv [] 0 (light_start r)" by (simp add: touch_inv_def light_start_def ms_def)
  from touch_runs [OF this] show ?thesis by (simp add: settled_states_def)
qed

text \<open>A touch of four samples is a glitch, one of five a press; the minimum of 60 ms never decides anything.\<close>

lemma shortest_press:
  "presses 0 (settled_states ([0, 0] @ replicate 4 1 @ replicate 6 0)) = replicate 12 []"
  "presses 0 (settled_states ([0, 0] @ replicate 5 1 @ replicate 6 0)) = replicate 11 [] @ [[ToggleRelay], []]"
  by (simp_all add: settled_states_def numeral_eq_Suc)

end
