(* ===== verification/ThNode.thy ===== *)
theory ThNode
  imports NodeIdentity Float32 RadioLink
begin

text \<open>
  The battery-powered temperature and humidity node: \<open>radio.c\<close> (blocking send and the wait for an address),
  the parts of \<open>sensors.c\<close> and \<open>rfWsnNode.c\<close> that its configuration (\<open>NODE_JOIN_TEST\<close>) runs. The radio, the I2C bus
  and the flash driver are outside: the packets of each receive window, the bytes of each bus transfer and
  whether a driver call succeeds are arguments.
\<close>

definition TH_MAX_RETRIES :: nat where [simp]: "TH_MAX_RETRIES = 3"
definition TH_FRAME_SIZE :: nat where [simp]: "TH_FRAME_SIZE = 57"
definition NODE_BATT_EVERY :: u8 where "NODE_BATT_EVERY = 5"
definition NODE_JOIN_WINDOW_S :: nat where [simp]: "NODE_JOIN_WINDOW_S = 90"

text \<open>What the node does to the outside: a packet on air, the supply of the sensors.\<close>

datatype th_effect = ThTx "u8 list" | Rail bool

record ThNode =
  th_txSeq :: u8
  th_flash :: "u8 list"
  sBattMv :: u16
  sBattCtr :: u8
  g_joinPressed :: bool

subsection \<open>Sending\<close>

definition th_calcChecksum :: "u8 list \<Rightarrow> u8" where
  "th_calcChecksum d = foldl (\<lambda>crc b. crc XOR b) 0 d"

definition th_frame :: "u8 list \<Rightarrow> MessageStruct \<Rightarrow> u8 \<Rightarrow> u8 list option \<Rightarrow> u8 \<Rightarrow> u8 list option" where
  "th_frame buf m dest fid sq =
     (let len = unat (m_length m); f1 = buf[0 := dest, 2 := m_id m] in
      if len > MESSAGE_SIZE then None
      else
        let (f2, hdr) = (case fid of
              Some i \<Rightarrow> (blit (blit (f1[1 := RF_FRAME_TAG_V2]) 3 (take NODE_FACTORY_ID_LEN i)) 11 (take len (msg_bytes m)), 11)
            | None \<Rightarrow> (blit (f1[1 := RF_FRAME_TAG_LEGACY]) 3 (take len (msg_bytes m)), 3));
            f3 = f2[hdr + len := sq];
            f4 = f3[hdr + len + 1 := th_calcChecksum (take (hdr + len - 1) (drop 2 f3))]
        in Some (take (hdr + len + 2) f4))"

text \<open>The replies of one window: whether one was for us, and the command of a NACK.\<close>

definition th_reply :: "u8 \<Rightarrow> u8 \<Rightarrow> u8 \<Rightarrow> u8 list \<Rightarrow> bool \<times> u8 \<Rightarrow> bool \<times> u8" where
  "th_reply own dest crc p r =
     (if length p \<ge> 4 \<and> p ! 0 = own \<and> p ! 2 = dest then
        if p ! 1 = RF_REPLY_ACK \<and> p ! 3 = crc then (True, snd r)
        else if p ! 1 = RF_REPLY_NACK then (True, p ! 3) else r
      else r)"

primrec th_tries :: "nat \<Rightarrow> (nat \<Rightarrow> u8 list list) \<Rightarrow> nat \<Rightarrow> u8 \<Rightarrow> u8 list \<Rightarrow> bool \<times> u8 \<Rightarrow> bool \<times> u8 \<times> th_effect list" where
  "th_tries 0 air k own pkt r = (fst r, snd r, [])"
| "th_tries (Suc n) air k own pkt r =
     (if fst r then (fst r, snd r, [])
      else let r1 = fold (th_reply own (pkt ! 0) (last pkt)) (air k) r; (g, c, fx) = th_tries n air (Suc k) own pkt r1
        in (g, c, ThTx pkt # fx))"

definition radio_send_message :: "u8 list \<Rightarrow> bool \<Rightarrow> (nat \<Rightarrow> u8 list list) \<Rightarrow> MessageStruct \<Rightarrow> u8 \<Rightarrow> u8 list option \<Rightarrow> ThNode \<Rightarrow>
    (bool \<times> u8 \<times> ThNode \<times> th_effect list) option" where
  "radio_send_message buf rf_opens air m dest fid s =
     (if \<not> rf_opens then Some (False, 0, s, [])
      else let s1 = s\<lparr> th_txSeq := th_txSeq s + 1 \<rparr> in
        case th_frame buf m dest fid (th_txSeq s1) of
          None \<Rightarrow> None
        | Some pkt \<Rightarrow>
            let (got, c, fx) = th_tries (TH_MAX_RETRIES + 1) air 0 (m_id m) pkt (False, 0) in Some (got, c, s1, fx))"

subsection \<open>Waiting for an address\<close>

definition th_join_accept :: "u8 list \<Rightarrow> u8 list \<Rightarrow> (u8 \<times> u8 list) option" where
  "th_join_accept fid p =
     (let plen = length p in
      if plen \<ge> 5 \<and> p ! 0 = ADDR_UNPROVISIONED \<and> p ! (plen - 1) = th_calcChecksum (take (plen - 3) (drop 2 p)) then
        let mOff = (if p ! 1 = RF_FRAME_TAG_V2 \<and> plen \<ge> 13 \<and> take NODE_FACTORY_ID_LEN (drop 3 p) = fid then Some 11
            else if p ! 1 = RF_FRAME_TAG_LEGACY then Some 3 else None)
        in (case mOff of
              None \<Rightarrow> None
            | Some off \<Rightarrow>
                let mlen = min (plen - off - 2) MESSAGE_SIZE;
                    m = msg_of_bytes (blit (msg_bytes msg_zero) 0 (take mlen (drop off p)))
                in if m_cmd m = CMD_JOIN_ACCEPT
                   then Some (joinAcceptData_assigned_addr m, [p ! 2, RF_REPLY_ACK, p ! 0, p ! (plen - 1)]) else None)
      else None)"

text \<open>The half-second windows until one of them holds an acceptance: the address and the packet that confirms it.\<close>

primrec th_listen :: "nat \<Rightarrow> (nat \<Rightarrow> u8 list list) \<Rightarrow> nat \<Rightarrow> u8 list \<Rightarrow> (u8 \<times> u8 list) option" where
  "th_listen 0 air k fid = None"
| "th_listen (Suc n) air k fid = (case List.map_filter (th_join_accept fid) (air k) of
     [] \<Rightarrow> th_listen n air (Suc k) fid
   | r # _ \<Rightarrow> Some r)"

definition radio_wait_join_accept :: "bool \<Rightarrow> (nat \<Rightarrow> u8 list list) \<Rightarrow> u8 list \<Rightarrow> nat \<Rightarrow> (u8 \<times> th_effect list) option" where
  "radio_wait_join_accept rf_opens air fid timeoutMs =
     (if \<not> rf_opens then None
      else map_option (\<lambda>(a, ack). (a, [ThTx ack])) (th_listen ((timeoutMs + 499) div 500) air 0 fid))"

subsection \<open>The address in the flash\<close>

definition nvs_load_address :: "bool \<Rightarrow> bool \<Rightarrow> ThNode \<Rightarrow> u8" where
  "nvs_load_address nvs_opens nvs_reads s =
     (let r = identity_rec_of (th_flash s) in
      if nvs_opens \<and> nvs_reads \<and> ir_magic r = TH_IDENTITY_MAGIC \<and> ir_addr r \<ge> ADDR_POOL_FIRST \<and> ir_addr r \<le> ADDR_POOL_LAST
      then ir_addr r else ADDR_UNPROVISIONED)"

definition nvs_save_address :: "bool \<Rightarrow> bool \<Rightarrow> u8 \<Rightarrow> ThNode \<Rightarrow> ThNode" where
  "nvs_save_address nvs_opens nvs_writes a s =
     (if nvs_opens \<and> nvs_writes
      then s\<lparr> th_flash := identity_rec_bytes \<lparr> ir_magic = TH_IDENTITY_MAGIC, ir_addr = a, ir_pad = replicate 3 0 \<rparr> \<rparr> else s)"

subsection \<open>Sensors\<close>

text \<open>The SHT35: the six bytes of its answer, or a failed transfer.\<close>

definition be16 :: "u8 \<Rightarrow> u8 \<Rightarrow> u16" where
  "be16 hi lo = push_bit 8 (ucast hi) OR ucast lo"

definition th_f32 :: "nat \<Rightarrow> nat \<Rightarrow> u32" where
  "th_f32 p q = f32_of_frac False (p * 2 ^ 149) q"

definition sensors_read_th :: "bool \<Rightarrow> u8 list option \<Rightarrow> (u32 \<times> u32) option" where
  "sensors_read_th i2c_open answer = (case answer of
     Some rd \<Rightarrow>
       if \<not> i2c_open then None
       else let rawT = be16 (rd ! 0) (rd ! 1); rawH = be16 (rd ! 3) (rd ! 4) in
         Some (f32_add (f32_neg (f32_of_int 45)) (f32_mul (f32_of_int 175) (f32_div (f32_of_int (uint rawT)) (f32_of_int 65535))),
               f32_mul (f32_of_int 100) (f32_div (f32_of_int (uint rawH)) (f32_of_int 65535)))
   | None \<Rightarrow> None)"

text \<open>The battery converter: up to 40 reads of its four bytes until the ready bit is clear.\<close>

primrec mcp3421_poll :: "nat \<Rightarrow> (nat \<Rightarrow> u8 list option) \<Rightarrow> nat \<Rightarrow> u8 list option" where
  "mcp3421_poll 0 reads i = None"
| "mcp3421_poll (Suc n) reads i = (case reads i of
     None \<Rightarrow> None
   | Some rd \<Rightarrow> if rd ! 3 AND 0x80 = 0 then Some rd else mcp3421_poll n reads (Suc i))"

definition mcp3421_raw :: "u8 list \<Rightarrow> int" where
  "mcp3421_raw rd = sint (push_bit 16 (scast (rd ! 0) :: u32) OR push_bit 8 (ucast (rd ! 1)) OR ucast (rd ! 2))"

definition sensors_read_mcp3421_mv :: "bool \<Rightarrow> bool \<Rightarrow> (nat \<Rightarrow> u8 list option) \<Rightarrow> u16 option" where
  "sensors_read_mcp3421_mv i2c_open started reads =
     (if \<not> i2c_open \<or> \<not> started then None
      else case mcp3421_poll 40 reads 0 of
        None \<Rightarrow> None
      | Some rd \<Rightarrow>
          let vin = f32_div (f32_mul (f32_of_int (mcp3421_raw rd)) (th_f32 15625 1000)) (f32_of_int 1000);
              vbat = f32_mul (f32_mul vin (f32_of_int 2)) (th_f32 12598 10000);
              v = (if f32_lt vbat 0 then 0 else vbat)
          in Some (word_of_int (f32_to_int (f32_add v (th_f32 5 10)))))"

end
