(* ===== verification/ThTask.thy ===== *)
theory ThTask
  imports ThNode
begin

text \<open>
  The program of the temperature and humidity node (\<open>rfWsnNode.c\<close> as its configuration builds it): joining,
  the telemetry cycle, and the task that goes through them. One \<open>ThWorld\<close> holds what the outside answers
  during one turn of the task.
\<close>

record ThWorld =
  w_i2c :: bool
  w_sht :: "u8 list option"
  w_mcp_started :: bool
  w_mcp :: "nat \<Rightarrow> u8 list option"
  w_rf :: bool
  w_air :: "nat \<Rightarrow> u8 list list"
  w_rf_confirm :: bool
  w_air_confirm :: "nat \<Rightarrow> u8 list list"
  w_rf_join :: bool
  w_air_join :: "nat \<Rightarrow> u8 list list"
  w_rf_listen :: bool
  w_air_listen :: "nat \<Rightarrow> u8 list list"
  w_nvs :: bool
  w_nvs_reads :: bool
  w_nvs_writes :: bool
  w_join_pressed :: bool

definition joinButtonCb :: "ThNode \<Rightarrow> ThNode" where
  "joinButtonCb s = s\<lparr> g_joinPressed := True \<rparr>"

subsection \<open>Joining\<close>

definition th_join_message :: "u8 list \<Rightarrow> MessageStruct" where
  "th_join_message fid = put_payload 8 (le32_bytes 0) (put_payload 0 (take NODE_FACTORY_ID_LEN fid)
     (msg_zero\<lparr> m_id := ADDR_UNPROVISIONED, m_type := NODE_TH_SENSOR, m_cmd := CMD_JOIN_REQUEST, m_length := 4 + 12 \<rparr>))"

definition provision_join :: "u8 list \<Rightarrow> ThWorld \<Rightarrow> u8 list \<Rightarrow> ThNode \<Rightarrow> (u8 option \<times> ThNode \<times> th_effect list) option" where
  "provision_join buf w fid s =
     (case radio_send_message buf (w_rf_join w) (w_air_join w) (th_join_message fid) ADDR_GATEWAY None s of
        None \<Rightarrow> None
      | Some (acked, c, s1, fx) \<Rightarrow>
          (case radio_wait_join_accept (w_rf_listen w) (w_air_listen w) fid (NODE_JOIN_WINDOW_S * 1000) of
             Some (a, fx') \<Rightarrow> Some (Some a, nvs_save_address (w_nvs w) (w_nvs_writes w) a s1, fx @ fx')
           | None \<Rightarrow> Some (None, s1, fx)))"

subsection \<open>One telemetry cycle\<close>

text \<open>With the supply on: temperature and humidity each time, the battery every fifth time.\<close>

definition th_measure :: "ThWorld \<Rightarrow> ThNode \<Rightarrow> (u32 \<times> u32) option \<times> ThNode \<times> th_effect list" where
  "th_measure w s =
     (let th = sensors_read_th (w_i2c w) (w_sht w);
          s1 = (if sBattCtr s = 0 then
                  (case sensors_read_mcp3421_mv (w_i2c w) (w_mcp_started w) (w_mcp w) of
                     Some mv \<Rightarrow> s\<lparr> sBattMv := mv \<rparr> | None \<Rightarrow> s)
                else s);
          s2 = s1\<lparr> sBattCtr := word_of_nat ((unat (sBattCtr s1) + 1) mod unat NODE_BATT_EVERY) \<rparr>
      in (th, s2, [Rail True, Rail False]))"

definition th_telemetry :: "u8 \<Rightarrow> u32 \<times> u32 \<Rightarrow> u16 \<Rightarrow> MessageStruct" where
  "th_telemetry a th mv = put_payload 8 (le16_bytes mv) (put_payload 4 (le32_bytes (snd th)) (put_payload 0 (le32_bytes (fst th))
     (msg_zero\<lparr> m_id := a, m_type := NODE_TH_SENSOR, m_cmd := CMD_SEND_DATA_TO_DB, m_length := 4 + 16 \<rparr>)))"

definition th_confirm :: "u8 \<Rightarrow> u8 \<Rightarrow> MessageStruct" where
  "th_confirm a c = msg_zero\<lparr> m_id := a, m_type := NODE_TH_SENSOR, m_cmd := c, m_length := 4 \<rparr>"

text \<open>Up to the sleep: whether the gateway has unregistered the node. Without a temperature nothing is sent.\<close>

definition th_cycle :: "u8 list \<Rightarrow> ThWorld \<Rightarrow> u8 \<Rightarrow> u8 list \<Rightarrow> ThNode \<Rightarrow> (bool \<times> ThNode \<times> th_effect list) option" where
  "th_cycle buf w a fid s =
     (let (th, s1, fx) = th_measure w s in
      case (case th of
              Some v \<Rightarrow> radio_send_message buf (w_rf w) (w_air w) (th_telemetry a v (sBattMv s1)) ADDR_GATEWAY (Some fid) s1
            | None \<Rightarrow> Some (False, 0, s1, [])) of
        None \<Rightarrow> None
      | Some (tacked, nackCmd, s2, fx2) \<Rightarrow>
          if nackCmd = CMD_UNREGISTERED \<or> nackCmd = CMD_REMOVE then
            (case radio_send_message buf (w_rf_confirm w) (w_air_confirm w) (th_confirm a nackCmd) ADDR_GATEWAY (Some fid) s2 of
               None \<Rightarrow> None
             | Some (g, c, s3, fx3) \<Rightarrow>
                 Some (True, nvs_save_address (w_nvs w) (w_nvs_writes w) ADDR_UNPROVISIONED s3, fx @ fx2 @ fx3))
          else Some (False, s2, fx @ fx2))"

text \<open>After the sleep, which a press ends early.\<close>

definition th_wake :: "u8 list \<Rightarrow> ThWorld \<Rightarrow> u8 list \<Rightarrow> ThNode \<Rightarrow> (u8 option \<times> ThNode \<times> th_effect list) option" where
  "th_wake buf w fid s =
     (let s1 = (if w_join_pressed w then joinButtonCb s else s) in
      if g_joinPressed s1 then provision_join buf w fid (s1\<lparr> g_joinPressed := False \<rparr>) else Some (None, s1, []))"

subsection \<open>The task\<close>

datatype th_mode = Boot | Shelf | Streaming u8

definition stream_start :: "ThNode \<Rightarrow> ThNode" where
  "stream_start s = s\<lparr> sBattMv := 0, sBattCtr := 0 \<rparr>"

definition stream_telemetry :: "u8 list \<Rightarrow> ThWorld \<Rightarrow> u8 \<Rightarrow> u8 list \<Rightarrow> ThNode \<Rightarrow> (th_mode \<times> ThNode \<times> th_effect list) option" where
  "stream_telemetry buf w a fid s = (case th_cycle buf w a fid s of
     None \<Rightarrow> None
   | Some (True, s1, fx) \<Rightarrow> Some (Boot, s1, fx)
   | Some (False, s1, fx) \<Rightarrow> (case th_wake buf w fid s1 of
       None \<Rightarrow> None
     | Some (r, s2, fx2) \<Rightarrow> Some (Streaming (case r of Some a' \<Rightarrow> a' | None \<Rightarrow> a), s2, fx @ fx2)))"

definition nodeTaskFunction :: "u8 list \<Rightarrow> ThWorld \<Rightarrow> u8 list \<Rightarrow> th_mode \<times> ThNode \<Rightarrow> (th_mode \<times> ThNode \<times> th_effect list) option" where
  "nodeTaskFunction buf w fid ms = (case ms of
     (Boot, s) \<Rightarrow>
       let savedAddr = nvs_load_address (w_nvs w) (w_nvs_reads w) s in
       if savedAddr = ADDR_UNPROVISIONED then Some (Shelf, s, []) else Some (Streaming savedAddr, stream_start s, [])
   | (Shelf, s) \<Rightarrow> (case th_wake buf w fid s of
       None \<Rightarrow> None
     | Some (Some a, s1, fx) \<Rightarrow> Some (Streaming a, stream_start s1, fx)
     | Some (None, s1, fx) \<Rightarrow> Some (Shelf, s1, fx))
   | (Streaming a, s) \<Rightarrow> stream_telemetry buf w a fid s)"

primrec th_run :: "u8 list \<Rightarrow> ThWorld list \<Rightarrow> u8 list \<Rightarrow> th_mode \<times> ThNode \<Rightarrow> (th_mode \<times> ThNode \<times> th_effect list) option" where
  "th_run buf [] fid ms = Some (fst ms, snd ms, [])"
| "th_run buf (w # ws) fid ms = (case nodeTaskFunction buf w fid ms of
     None \<Rightarrow> None
   | Some (m, s, fx) \<Rightarrow> (case th_run buf ws fid (m, s) of
       None \<Rightarrow> None | Some (m', s', fx') \<Rightarrow> Some (m', s', fx @ fx')))"

end
