(* ===== verification/NodeLink.thy ===== *)
theory NodeLink
  imports NodeRadio
begin

text \<open>
  The solar node's radio task against the concentrator's: what one of them puts on air is fed to the other.
  (The light switch runs the same function.)
\<close>

definition node_ok :: "NodeRadio \<Rightarrow> bool" where
  "node_ok s \<longleftrightarrow> length (nr_rxMsg s) = 70 \<and> length (gFactoryId (nr_identity s)) = 8"

lemma sc_scan: "sc_scan_ack own dest crc ps acked buf = scan_ack own dest crc ps acked buf"
  by (induction own dest crc ps acked buf rule: sc_scan_ack.induct) (simp_all add: Let_def rx_copy_def)

subsection \<open>The packet of a node\<close>

definition node_msg_ok :: "MessageStruct \<Rightarrow> bool" where
  "node_msg_ok m \<longleftrightarrow> wf_msg m \<and> 4 \<le> unat (m_length m) \<and> unat (m_length m) \<le> 44"

definition sent_bytes :: "MessageStruct \<Rightarrow> u8 list" where
  "sent_bytes m = take (unat (m_length m)) (msg_bytes m)"

lemma sent_bytes_ok: "node_msg_ok m \<Longrightarrow> length fid = 8 \<Longrightarrow> rf_ok fid (sent_bytes m)"
  by (simp add: node_msg_ok_def rf_ok_def sent_bytes_def wf_msg_def)

lemma sc_frame_packet:
  assumes buf: "length buf = 70" and fid: "length fid = 8" and m: "node_msg_ok m"
  shows "sc_frame buf fid m sq = Some (rf_pkt 0 (m_id m) fid (sent_bytes m) sq)"
proof -
  define L where "L = unat (m_length m)"
  define mb where "mb = sent_bytes m"
  have mb: "take L (msg_bytes m) = mb" by (simp add: mb_def sent_bytes_def L_def)
  have L: "L \<le> 44" "length mb = L" using m by (simp_all add: L_def mb_def sent_bytes_def node_msg_ok_def wf_msg_def)
  let ?pre = "[0, RF_FRAME_TAG_V2, m_id m] @ fid"
  have head: "blit (buf[0 := 0, 1 := RF_FRAME_TAG_V2, 2 := m_id m]) 3 (take NODE_FACTORY_ID_LEN fid) = ?pre @ drop 11 buf"
  proof -
    obtain a b c r where "buf = a # b # c # r" "length r = 67"
      using buf by (auto simp: numeral_eq_Suc length_Suc_conv)
    then show ?thesis using fid by (auto simp: blit_def numeral_eq_Suc)
  qed
  have pre: "length ?pre = 11" "(2 :: nat) \<le> 11" using fid by auto
  have rest: "L + 2 \<le> length (drop 11 buf)" "\<not> 44 < L" using buf L by simp_all
  have eq: "L + 10 = 11 - 2 + L + 1" by simp
  have "sc_frame buf fid m sq = Some (?pre @ mb @ [sq, calcChecksum (drop 2 ?pre @ mb @ [sq])])"
    unfolding sc_frame_def Let_def head L_def [symmetric] mb
      MESSAGE_SIZE_def node_checksums eq
    by (simp only: rest(2) if_False frame_build [OF pre L(2) rest(1)])
  moreover have "fid \<noteq> []" using fid by auto
  ultimately show ?thesis by (simp add: rf_pkt_def rf_body_def mb_def)
qed

text \<open>The message a queue item stands for, whatever the receiving variable held before.\<close>

lemma received_message:
  assumes m: "node_msg_ok m" and old: "wf_msg old"
  shows "node_msg_ok (node_mq_receive (sent_bytes m) old)" "m_id (node_mq_receive (sent_bytes m) old) = m_id m"
    "sent_bytes (node_mq_receive (sent_bytes m) old) = sent_bytes m"
proof -
  let ?r = "node_mq_receive (sent_bytes m) old" and ?L = "unat (m_length m)"
  define bs where "bs = blit (msg_bytes old) 0 (sent_bytes m)"
  have L: "length (sent_bytes m) = ?L" "4 \<le> ?L" "?L \<le> 44"
    using m by (simp_all add: sent_bytes_def node_msg_ok_def wf_msg_def)
  have bs: "length bs = 44" "take ?L bs = sent_bytes m"
    using old L by (simp_all add: bs_def blit_def wf_msg_def)
  have r: "?r = msg_of_bytes bs" by (simp add: node_mq_receive_def bs_def)
  have "bs ! k = msg_bytes m ! k" if "k < 4" for k
    using that L bs(2) by (metis nth_take less_le_trans sent_bytes_def)
  then have "bs ! 0 = msg_bytes m ! 0" "bs ! 3 = msg_bytes m ! 3" by simp_all
  then have f: "m_id ?r = m_id m" "m_length ?r = m_length m"
    by (simp_all add: r msg_of_bytes_def msg_bytes_def)
  show "m_id ?r = m_id m" by (rule f(1))
  show "node_msg_ok ?r" using m bs(1) by (simp add: node_msg_ok_def f(2)) (simp add: r)
  show "sent_bytes ?r = sent_bytes m"
    unfolding sent_bytes_def [of ?r] f(2) by (simp add: r msg_bytes_of_bytes [OF bs(1)] bs(2))
qed

subsection \<open>The transmissions of one message\<close>

text \<open>How many of \<open>n\<close> tries are made when the k-th is confirmed if \<open>ok k\<close>.\<close>

primrec tries_made :: "nat \<Rightarrow> (nat \<Rightarrow> bool) \<Rightarrow> nat \<Rightarrow> nat" where
  "tries_made 0 ok k = 0"
| "tries_made (Suc n) ok k = (if ok k then 1 else Suc (tries_made n ok (Suc k)))"

lemma tries_made_le: "tries_made n ok k \<le> n"
  by (induction n arbitrary: k) auto

lemma tries_exact:
  assumes "\<And>i. window_ok (air i)" "length buf = 70"
  shows "\<exists>r b. sc_tries n air k own pkt buf =
      Some (r, b, replicate (tries_made n (\<lambda>i. \<exists>p \<in> set (air i). acked_by own pkt p) k) (NodeTx pkt)) \<and> length b = 70"
  using assms(2)
proof (induction n arbitrary: k buf)
  case (Suc n)
  obtain b where b: "sc_scan_ack own (pkt ! 0) (last pkt) (air k) False buf = Some (\<exists>p \<in> set (air k). acked_by own pkt p, b)"
      "length b = 70"
    using scan_ack_exact [OF assms(1) Suc.prems, of own pkt k False] by (auto simp: sc_scan)
  show ?case
  proof (cases "\<exists>p \<in> set (air k). acked_by own pkt p")
    case True
    then have "sc_tries (Suc n) air k own pkt buf = Some (True, b, [NodeTx pkt])" using b by simp
    then show ?thesis using True b(2) by (intro exI [of _ True] exI [of _ b]) simp
  next
    case False
    obtain r b' where "sc_tries n air (Suc k) own pkt b =
        Some (r, b', replicate (tries_made n (\<lambda>i. \<exists>p \<in> set (air i). acked_by own pkt p) (Suc k)) (NodeTx pkt))" "length b' = 70"
      using Suc.IH [OF b(2)] by blast
    then show ?thesis using False b(1) by simp
  qed
qed (simp, metis)

lemma send_one:
  assumes s: "node_ok s" and buf: "length buf = 70" and m: "node_msg_ok m" and old: "wf_msg old"
    and q: "nr_radioQueue s = [sent_bytes m]" and air: "\<And>j i. window_ok (air j i)"
  defines "pkt \<equiv> rf_pkt 0 (m_id m) (gFactoryId (nr_identity s)) (sent_bytes m) (nr_txSeq s + 1)"
  shows "\<exists>s'. sc_send_event buf old air s = Some (s',
      replicate (tries_made 3 (\<lambda>i. \<exists>p \<in> set (air 0 i). acked_by (m_id m) pkt p) 0) (NodeTx pkt)) \<and>
    nr_radioQueue s' = [] \<and> nr_identity s' = nr_identity s \<and> node_ok s'"
proof -
  let ?r = "node_mq_receive (sent_bytes m) old"
  note rm = received_message [OF m old]
  have fid: "length (gFactoryId (nr_identity s)) = 8" "length (nr_rxMsg s) = 70" using s by (simp_all add: node_ok_def)
  have fr: "sc_frame buf (gFactoryId (nr_identity s)) ?r (nr_txSeq s + 1) = Some pkt"
    using sc_frame_packet [OF buf fid(1) rm(1)] by (simp add: rm(2,3) pkt_def)
  obtain r b where t: "sc_tries (Suc (Suc (Suc 0))) (air 0) 0 (m_id m) pkt (nr_rxMsg s) = Some (r, b,
      replicate (tries_made (Suc (Suc (Suc 0))) (\<lambda>i. \<exists>p \<in> set (air 0 i). acked_by (m_id m) pkt p) 0) (NodeTx pkt))" "length b = 70"
    using tries_exact [where air = "air 0" and pkt = pkt and own = "m_id m" and k = 0, OF air fid(2)] by blast
  show ?thesis using fr t fid
    by (simp add: sc_send_event_def q rm(2) node_ok_def numeral_3_eq_3 numeral_2_eq_2 Let_def)
qed

subsection \<open>A report\<close>

lemma report_exchange:
  fixes heard answered :: "nat \<Rightarrow> bool"
  assumes node: "node_ok s" "length buf = 70" "node_msg_ok m" "wf_msg old" "nr_radioQueue s = [sent_bytes m]"
    and gw: "radio_ok g"
  defines "fid \<equiv> gFactoryId (nr_identity s)"
  defines "pkt \<equiv> rf_pkt 0 (m_id m) fid (sent_bytes m) (nr_txSeq s + 1)"
  defines "reply \<equiv> rf_reply (pend_map (gPending g)) 0 (m_id m) fid (sent_bytes m) (nr_txSeq s + 1)"
  defines "acks_it \<equiv> (case pend_map (gPending g) fid of None \<Rightarrow> True | Some c \<Rightarrow> c = 0 \<or> c = m_cmd m)"
  defines "n \<equiv> tries_made 3 (\<lambda>k. heard k \<and> answered k \<and> acks_it) 0"
  defines "copies \<equiv> length (filter heard [0..<n])"
  shows "(\<exists>s'. sc_send_event buf old (\<lambda>j k. if heard k \<and> answered k then [reply] else []) s =
      Some (s', replicate n (NodeTx pkt)) \<and> nr_radioQueue s' = []) \<and>
    (\<exists>g'. radio_rx_event (replicate copies pkt) g = Some (g', concat (replicate copies [RfTx reply, UplinkEvent])) \<and>
      spiQueue g' = spiQueue g @ take (10 - length (spiQueue g)) (replicate copies (uplink_frame fid (sent_bytes m))))"
proof
  have fid: "length fid = 8" "fid \<noteq> []" using node(1) by (auto simp: node_ok_def fid_def)
  have ok: "rf_ok fid (sent_bytes m)" using sent_bytes_ok [OF node(3) fid(1)] .
  have cmd: "sent_bytes m ! 2 = m_cmd m"
    using node(3) by (simp add: sent_bytes_def node_msg_ok_def msg_bytes_def)
  define crc where "crc = calcChecksum (rf_body (m_id m) fid (sent_bytes m) (nr_txSeq s + 1))"
  have pk: "hd pkt = 0" "pkt ! 0 = 0" "last pkt = crc" by (simp_all add: pkt_def rf_pkt_def crc_def)
  have reply: "reply = (if acks_it then [m_id m, 0x41, 0, crc] else [m_id m, 0x4E, 0, the (pend_map (gPending g) fid)])"
    using fid by (auto simp: reply_def rf_reply_def reply_byte_def acks_it_def cmd crc_def split: option.split)
  have hit: "(\<exists>p \<in> set (if heard k \<and> answered k then [reply] else []). acked_by (m_id m) pkt p) \<longleftrightarrow>
      heard k \<and> answered k \<and> acks_it" for k
    by (auto simp: reply acked_by_def pk)
  have win: "window_ok (if heard k \<and> answered k then [reply] else [])" for k
    by (simp add: window_ok_def reply)
  show "\<exists>s'. sc_send_event buf old (\<lambda>j k. if heard k \<and> answered k then [reply] else []) s =
      Some (s', replicate n (NodeTx pkt)) \<and> nr_radioQueue s' = []"
    using send_one [OF node(1-5), of "\<lambda>j k. if heard k \<and> answered k then [reply] else []", OF win]
    unfolding fid_def [symmetric] pkt_def [symmetric] hit n_def [symmetric] by blast
  show "\<exists>g'. radio_rx_event (replicate copies pkt) g = Some (g', concat (replicate copies [RfTx reply, UplinkEvent])) \<and>
      spiQueue g' = spiQueue g @ take (10 - length (spiQueue g)) (replicate copies (uplink_frame fid (sent_bytes m)))"
    unfolding pkt_def reply_def using same_packets [OF gw ok] by blast
qed

text \<open>
  C6. A message that the node sends while no other command is pending for its chip goes out until the first
  try that the gateway hears and whose reply the node hears, three times at most; while another command is
  pending it goes out three times whatever happens. The gateway hands every copy it hears to the SPI task
  while there is room, with the chip id and the message bytes unchanged, and answers each with the same reply.
\<close>

theorem node_report_reaches_gateway:
  fixes heard answered :: "nat \<Rightarrow> bool"
  assumes node: "node_ok s" "length buf = 70" "node_msg_ok m" "wf_msg old" "nr_radioQueue s = [sent_bytes m]"
    and gw: "radio_ok g"
  defines "fid \<equiv> gFactoryId (nr_identity s)"
  defines "pkt \<equiv> rf_pkt 0 (m_id m) fid (sent_bytes m) (nr_txSeq s + 1)"
  defines "reply \<equiv> rf_reply (pend_map (gPending g)) 0 (m_id m) fid (sent_bytes m) (nr_txSeq s + 1)"
  defines "acks_it \<equiv> (case pend_map (gPending g) fid of None \<Rightarrow> True | Some c \<Rightarrow> c = 0 \<or> c = m_cmd m)"
  defines "n \<equiv> tries_made 3 (\<lambda>k. heard k \<and> answered k \<and> acks_it) 0"
  defines "copies \<equiv> length (filter heard [0..<n])"
  shows "(\<exists>s'. sc_send_event buf old (\<lambda>j k. if heard k \<and> answered k then [reply] else []) s =
      Some (s', replicate n (NodeTx pkt)) \<and> nr_radioQueue s' = []) \<and>
    (\<exists>g'. radio_rx_event (replicate copies pkt) g = Some (g', concat (replicate copies [RfTx reply, UplinkEvent])) \<and>
      spiQueue g' = spiQueue g @ take (10 - length (spiQueue g)) (replicate copies (uplink_frame fid (sent_bytes m))))"
  unfolding fid_def pkt_def reply_def acks_it_def n_def copies_def by (rule report_exchange [OF assms(1-6)])

definition demo_node :: NodeRadio where
  "demo_node = \<lparr> nr_identity = \<lparr> gNodeAddress = 0x21, gFactoryId = demo_fid, sNvs = True, id_flash = [] \<rparr>,
     nr_radioQueue = [[0x21, 0, 1, 5, 1]], nr_commandQueue = [], nr_txSeq = 0, nr_rxMsg = replicate 70 0 \<rparr>"

definition demo_status :: MessageStruct where
  "demo_status = \<lparr> m_id = 0x21, m_type = 0, m_cmd = 1, m_length = 5, m_payload = 1 # replicate 39 0 \<rparr>"

lemma demo_node_facts:
  "node_ok demo_node" "node_msg_ok demo_status" "sent_bytes demo_status = [0x21, 0, 1, 5, 1]"
  "nr_radioQueue demo_node = [sent_bytes demo_status]" "gFactoryId (nr_identity demo_node) = demo_fid"
  "gNodeAddress (nr_identity demo_node) = 0x21" "nr_txSeq demo_node = 0" "m_id demo_status = 0x21" "m_cmd demo_status = 1"
  by (simp_all add: node_ok_def demo_node_def demo_fid_def node_msg_ok_def demo_status_def wf_msg_def sent_bytes_def msg_bytes_def)

lemma demo_radio_ok: "radio_ok demo_radio"
  using pend_table.inv_arm [OF boot_inv(1)] by (simp add: radio_ok_def demo_radio_def)

text \<open>The command 6 is pending for the chip: its status report is sent and passed on three times.\<close>

theorem node_report_reaches_gateway_witness:
  "(\<exists>s'. sc_send_event (replicate 70 0) msg_zero (\<lambda>j k. [[0x21, 0x4E, 0, 6]]) demo_node =
      Some (s', replicate 3 (NodeTx ([0, 0x45, 0x21] @ demo_fid @ [0x21, 0, 1, 5, 1, 1, 0x0C])))) \<and>
   (\<exists>g'. radio_rx_event (replicate 3 ([0, 0x45, 0x21] @ demo_fid @ [0x21, 0, 1, 5, 1, 1, 0x0C])) demo_radio =
      Some (g', concat (replicate 3 [RfTx [0x21, 0x4E, 0, 6], UplinkEvent])) \<and> length (spiQueue g') = 3)"
proof -
  have n: "tries_made 3 (\<lambda>k. False) 0 = 3" by (simp add: numeral_3_eq_3)
  have b: "length (replicate 70 (0 :: u8)) = 70" by simp
  have p: "rf_pkt 0 0x21 demo_fid [0x21, 0, 1, 5, 1] 1 = [0, 0x45, 0x21] @ demo_fid @ [0x21, 0, 1, 5, 1, 1, 0x0C]"
    "rf_reply [demo_fid \<mapsto> 6] 0 0x21 demo_fid [0x21, 0, 1, 5, 1] 1 = [0x21, 0x4E, 0, 6]"
    by (simp_all add: rf_pkt_def rf_body_def calcChecksum_def checksum_step_def demo_fid_def rf_reply_def reply_byte_def)
  have q: "spiQueue demo_radio = []" by (simp add: demo_radio_def)
  note T = node_report_reaches_gateway [OF demo_node_facts(1) b demo_node_facts(2) wf_msg_zero demo_node_facts(4)
      demo_radio_ok, of "\<lambda>_. True" "\<lambda>_. True"]
  show ?thesis using T
    unfolding demo_node_facts demo_pending p q
    by (simp add: n p) (metis length_replicate)
qed

subsection \<open>A command\<close>

lemma node_deframe:
  assumes ok: "rf_ok fid mb" and b: "b = rf_pkt dest src fid mb sq @ rest"
  shows "sc_deframe b (5 + length fid + length mb) i =
    Some (fid = [] \<or> fid = gFactoryId i,
      if fid = [] \<or> fid = gFactoryId i then msg_of_bytes (blit (msg_bytes msg_zero) 0 mb) else msg_zero)"
proof (cases "fid = []")
  case True
  then show ?thesis using buffer_fields [OF ok b] ok by (simp add: sc_deframe_def rf_ok_def)
next
  case False
  then have "length fid = 8" using ok by (simp add: rf_ok_def)
  then show ?thesis using buffer_fields [OF ok b] ok False
    by (simp add: sc_deframe_def rf_ok_def factory_is_mine_def Let_def)
qed

lemma node_rx:
  assumes s: "node_ok s" and ok: "rf_ok fid mb"
  shows "\<exists>b. length b = 70 \<and> sc_rx_packet (rf_pkt dest src fid mb sq) s =
    (if dest = gNodeAddress (nr_identity s) \<and> (fid = [] \<or> fid = gFactoryId (nr_identity s))
     then Some (node_post_command (msg_of_bytes (blit (msg_bytes msg_zero) 0 mb)) (s\<lparr> nr_rxMsg := b \<rparr>),
       [NodeTx [src, RF_REPLY_ACK, dest, calcChecksum (rf_body src fid mb sq)], CommandEvent])
     else Some (s\<lparr> nr_rxMsg := b \<rparr>, []))"
proof -
  let ?p = "rf_pkt dest src fid mb sq" and ?n = "5 + length fid + length mb"
  have n: "9 \<le> ?n" "?n \<le> 57" using ok by (auto simp: rf_ok_def)
  define b where "b = (blit (nr_rxMsg s) 0 ?p)[?n := 0]"
  have b: "b = ?p @ (drop ?n (nr_rxMsg s))[0 := 0]"
    by (simp add: b_def blit_def list_update_append)
  have lb: "length b = 70" using s n by (simp add: b node_ok_def)
  note f = buffer_fields [OF ok b]
  have sum: "b ! (?n - 1) = calcChecksum (take (?n - 3) (drop 2 b))" "b ! (?n - 1) = calcChecksum (rf_body src fid mb sq)"
  proof -
    have "?n - 1 = 4 + length fid + length mb" "?n - 3 = 2 + length fid + length mb" by simp_all
    then show "b ! (?n - 1) = calcChecksum (take (?n - 3) (drop 2 b))" "b ! (?n - 1) = calcChecksum (rf_body src fid mb sq)"
      by (simp_all only: f(4,5))
  qed
  have tag: "b ! 1 = RF_FRAME_TAG_LEGACY \<or> b ! 1 = RF_FRAME_TAG_V2" using f(2) by auto
  have "sc_rx_packet ?p s = (if b ! 0 = gNodeAddress (nr_identity s) then
      (case sc_deframe b ?n (nr_identity s) of None \<Rightarrow> None
       | Some (forUs, m) \<Rightarrow> if forUs then
           Some (node_post_command m (s\<lparr> nr_rxMsg := b \<rparr>), [NodeTx [b ! 2, RF_REPLY_ACK, b ! 0, b ! (?n - 1)], CommandEvent])
         else Some (s\<lparr> nr_rxMsg := b \<rparr>, []))
     else Some (s\<lparr> nr_rxMsg := b \<rparr>, []))"
    using n tag sum(1) by (simp add: sc_rx_packet_def b_def [symmetric] Let_def node_checksums)
  then show ?thesis
    unfolding f(1,3) sum(2) node_deframe [OF ok b] using lb by (intro exI [of _ b]) simp
qed

lemma command_taken:
  fixes sq :: u8
  assumes "node_ok s" "job_ok nf" "4 \<le> unat (m_length (nf_msg nf))" "length (nr_commandQueue s) < 10"
  defines "mine \<equiv> m_id (nf_msg nf) = gNodeAddress (nr_identity s) \<and>
    (has_factory (nf_factory_id nf) \<longrightarrow> nf_factory_id nf = gFactoryId (nr_identity s))"
  defines "ack \<equiv> [0, 0x41, m_id (nf_msg nf), last (job_pkt nf sq)]"
  shows "\<exists>s'. sc_rx_packet (job_pkt nf sq) s = Some (s', if mine then [NodeTx ack, CommandEvent] else []) \<and>
    nr_commandQueue s' = nr_commandQueue s @ (if mine then [sent_bytes (nf_msg nf)] else []) \<and>
    acks (job_pkt nf sq) ack"
proof -
  define fid where "fid = (if has_factory (nf_factory_id nf) then nf_factory_id nf else [])"
  let ?m = "nf_msg nf"
  have m: "node_msg_ok ?m" using assms(2,3) by (simp add: job_ok_def node_msg_ok_def wf_frame_def)
  have "fid = [] \<or> length fid = 8" using assms(2) by (simp add: fid_def job_ok_def wf_frame_def)
  then have ok: "rf_ok fid (sent_bytes ?m)" using m by (simp add: rf_ok_def sent_bytes_def node_msg_ok_def wf_msg_def)
  have pkt: "job_pkt nf sq = rf_pkt (m_id ?m) 0 fid (sent_bytes ?m) sq" by (simp add: job_pkt_def fid_def sent_bytes_def)
  then have l: "last (job_pkt nf sq) = calcChecksum (rf_body 0 fid (sent_bytes ?m) sq)" "job_pkt nf sq ! 0 = m_id ?m"
    by (simp_all add: rf_pkt_def)
  have "fid \<noteq> [] \<longleftrightarrow> has_factory (nf_factory_id nf)" using assms(2) by (auto simp: fid_def job_ok_def wf_frame_def)
  then have mine: "mine \<longleftrightarrow> m_id ?m = gNodeAddress (nr_identity s) \<and> (fid = [] \<or> fid = gFactoryId (nr_identity s))"
    by (auto simp: mine_def fid_def)
  obtain b where b: "sc_rx_packet (job_pkt nf sq) s =
      (if mine then Some (node_post_command (msg_of_bytes (blit (msg_bytes msg_zero) 0 (sent_bytes ?m))) (s\<lparr> nr_rxMsg := b \<rparr>),
         [NodeTx ack, CommandEvent])
       else Some (s\<lparr> nr_rxMsg := b \<rparr>, []))"
    using node_rx [OF assms(1) ok, of "m_id ?m" 0 sq] unfolding pkt [symmetric] mine [symmetric] ack_def l(1) by auto
  have "node_post_command (msg_of_bytes (blit (msg_bytes msg_zero) 0 (sent_bytes ?m))) (s\<lparr> nr_rxMsg := b \<rparr>) =
      s\<lparr> nr_rxMsg := b, nr_commandQueue := nr_commandQueue s @ [sent_bytes ?m] \<rparr>"
    using received_message [OF m wf_msg_zero] assms(4)
    by (simp add: node_post_command_def node_mq_receive_def node_msg_ok_def sent_bytes_def)
  moreover have "acks (job_pkt nf sq) ack" by (simp add: acks_def acked_by_def ack_def l(2))
  ultimately show ?thesis using b by (cases mine) simp_all
qed

text \<open>
  C8. The packet of a command is taken by the node whose address and chip id it carries (a packet of the older
  format has no chip id and is taken by the address alone): the node queues exactly the message bytes for its
  application and answers with an ACK that ends the gateway's retries. Every other node leaves it alone,
  also one that still uses the address of the chip that was meant.
\<close>

theorem command_reaches_its_chip_only:
  fixes sq :: u8
  assumes "node_ok s" "job_ok nf" "4 \<le> unat (m_length (nf_msg nf))" "length (nr_commandQueue s) < 10"
  defines "mine \<equiv> m_id (nf_msg nf) = gNodeAddress (nr_identity s) \<and>
    (has_factory (nf_factory_id nf) \<longrightarrow> nf_factory_id nf = gFactoryId (nr_identity s))"
  defines "ack \<equiv> [0, 0x41, m_id (nf_msg nf), last (job_pkt nf sq)]"
  shows "\<exists>s'. sc_rx_packet (job_pkt nf sq) s = Some (s', if mine then [NodeTx ack, CommandEvent] else []) \<and>
    nr_commandQueue s' = nr_commandQueue s @ (if mine then [sent_bytes (nf_msg nf)] else []) \<and>
    acks (job_pkt nf sq) ack"
  unfolding mine_def ack_def by (rule command_taken [OF assms(1-4)])

theorem command_reaches_its_chip_only_witness:
  "\<exists>s'. sc_rx_packet (job_pkt demo_job 1) demo_node = Some (s', [NodeTx [0, 0x41, 0x21, 0x2E], CommandEvent]) \<and>
    nr_commandQueue s' = [[0x21, 0, 2, 5, 1]]"
proof -
  have j: "job_ok demo_job" "4 \<le> unat (m_length (nf_msg demo_job))" "length (nr_commandQueue demo_node) < 10"
    by (simp_all add: job_ok_def demo_job_def wf_frame_def demo_fid_def wf_msg_def demo_node_def)
  have l: "last (job_pkt demo_job 1) = 0x2E"
    by (simp add: demo_job_pkt rf_pkt_def rf_body_def calcChecksum_def checksum_step_def demo_fid_def)
  have f: "m_id (nf_msg demo_job) = 0x21" "nf_factory_id demo_job = demo_fid" "nr_commandQueue demo_node = []"
    "sent_bytes (nf_msg demo_job) = [0x21, 0, 2, 5, 1]"
    by (simp_all add: demo_job_def demo_node_def sent_bytes_def msg_bytes_def)
  show ?thesis
    using command_reaches_its_chip_only [OF demo_node_facts(1) j, of 1]
    unfolding l demo_node_facts by (simp add: f) blast
qed

end
