(* ===== verification/ThLink.thy ===== *)
theory ThLink
  imports ThTask NodeLink
begin

text \<open>The temperature and humidity node against the concentrator: what one of them puts on air is fed to the other.\<close>

subsection \<open>The packet of the node\<close>

lemma th_checksum: "th_calcChecksum = calcChecksum"
proof -
  have "(\<lambda>crc b. crc XOR b) = checksum_step" by (intro ext) (simp add: checksum_step_def)
  then show ?thesis by (intro ext) (simp add: th_calcChecksum_def calcChecksum_def)
qed

definition th_fid :: "u8 list option \<Rightarrow> u8 list" where
  "th_fid f = (case f of None \<Rightarrow> [] | Some i \<Rightarrow> i)"

lemma th_frame_packet:
  assumes buf: "length buf = 57" and f: "\<And>i. f = Some i \<Longrightarrow> length i = 8" and m: "node_msg_ok m"
  shows "th_frame buf m dest f sq = Some (rf_pkt dest (m_id m) (th_fid f) (sent_bytes m) sq)"
proof -
  define L where "L = unat (m_length m)"
  define mb where "mb = sent_bytes m"
  have mb: "take L (msg_bytes m) = mb" by (simp add: mb_def sent_bytes_def L_def)
  have L: "L \<le> 44" "length mb = L" using m by (simp_all add: L_def mb_def sent_bytes_def node_msg_ok_def wf_msg_def)
  obtain a b c r where b: "buf = a # b # c # r" "length r = 54"
    using buf by (auto simp: numeral_eq_Suc length_Suc_conv)
  have big: "\<not> 44 < L" using L by simp
  show ?thesis
  proof (cases f)
    case None
    let ?pre = "[dest, RF_FRAME_TAG_LEGACY, m_id m]"
    have head: "buf[0 := dest, 2 := m_id m, 1 := RF_FRAME_TAG_LEGACY] = ?pre @ drop 3 buf"
      using b by (simp add: numeral_eq_Suc)
    have pre: "length ?pre = 3" "(2 :: nat) \<le> 3" and rest: "L + 2 \<le> length (drop 3 buf)" using buf L by auto
    have "th_frame buf m dest f sq = Some (?pre @ mb @ [sq, calcChecksum (drop 2 ?pre @ mb @ [sq])])"
      unfolding th_frame_def Let_def None option.case prod.case head L_def [symmetric] mb th_checksum
        MESSAGE_SIZE_def
      using frame_build [OF pre L(2) rest, of sq] big by simp
    then show ?thesis using None by (simp add: rf_pkt_def rf_body_def mb_def th_fid_def)
  next
    case (Some i)
    let ?pre = "[dest, RF_FRAME_TAG_V2, m_id m] @ i"
    have i: "length i = 8" using f Some by simp
    have head: "blit (buf[0 := dest, 2 := m_id m, 1 := RF_FRAME_TAG_V2]) 3 (take NODE_FACTORY_ID_LEN i) = ?pre @ drop 11 buf"
      using b i by (auto simp: numeral_eq_Suc blit_def)
    have pre: "length ?pre = 11" "(2 :: nat) \<le> 11" and rest: "L + 2 \<le> length (drop 11 buf)" using buf L i by auto
    have "th_frame buf m dest f sq = Some (?pre @ mb @ [sq, calcChecksum (drop 2 ?pre @ mb @ [sq])])"
      unfolding th_frame_def Let_def Some option.case prod.case head L_def [symmetric] mb th_checksum
        MESSAGE_SIZE_def
      using frame_build [OF pre L(2) rest, of sq] big by simp
    moreover have "i \<noteq> []" using i by auto
    ultimately show ?thesis using Some by (simp add: rf_pkt_def rf_body_def mb_def th_fid_def)
  qed
qed

subsection \<open>The tries\<close>

lemma th_tries_answered:
  assumes "th_reply own (pkt ! 0) (last pkt) r (False, c0) = (True, c1)"
  shows "th_tries n (\<lambda>i. if ok i then [r] else []) k own pkt (False, c0) =
    ((\<exists>i < n. ok (k + i)), if \<exists>i < n. ok (k + i) then c1 else c0, replicate (tries_made n ok k) (ThTx pkt))"
proof (induction n arbitrary: k)
  case (Suc n)
  have split: "(\<exists>i < Suc n. ok (k + i)) \<longleftrightarrow> ok k \<or> (\<exists>i < n. ok (Suc k + i))"
    by (auto simp: less_Suc_eq_0_disj)
  have stop: "th_tries n air j own pkt (True, c1) = (True, c1, [])" for air j
    by (cases n) simp_all
  show ?case unfolding split using assms Suc.IH [of "Suc k"] by (auto simp: stop Let_def)
qed simp

lemma send_answered:
  fixes s :: ThNode and dest :: u8
  assumes buf: "length buf = 57" and f: "\<And>i. f = Some i \<Longrightarrow> length i = 8" and m: "node_msg_ok m"
  defines "pkt \<equiv> rf_pkt dest (m_id m) (th_fid f) (sent_bytes m) (th_txSeq s + 1)"
  assumes r: "th_reply (m_id m) dest (last pkt) r (False, 0) = (True, c)"
  shows "radio_send_message buf True (\<lambda>i. if ok i then [r] else []) m dest f s =
    Some ((\<exists>i < 4. ok i), if \<exists>i < 4. ok i then c else 0, s\<lparr> th_txSeq := th_txSeq s + 1 \<rparr>,
      replicate (tries_made 4 ok 0) (ThTx pkt))"
proof -
  have "pkt ! 0 = dest" by (simp add: pkt_def rf_pkt_def)
  then show ?thesis
    using th_tries_answered [of "m_id m" pkt r 0 c 4 ok 0] r th_frame_packet [OF buf f m, where dest = dest and sq = "th_txSeq s + 1"]
    by (simp add: radio_send_message_def pkt_def)
qed

subsection \<open>A reading\<close>

lemma wf_header: "wf_msg (msg_zero\<lparr> m_id := a, m_type := t, m_cmd := c, m_length := l \<rparr>)"
  by (simp add: wf_msg_def msg_zero_def)

lemma th_messages:
  "node_msg_ok (th_telemetry a v mv)" "m_id (th_telemetry a v mv) = a" "sent_bytes (th_telemetry a v mv) ! 2 = 0"
  "node_msg_ok (th_confirm a c)" "m_id (th_confirm a c) = a" "sent_bytes (th_confirm a c) ! 2 = c"
  "node_msg_ok (th_join_message fid)" "m_id (th_join_message fid) = 0xFF"
  by (simp_all add: th_telemetry_def th_confirm_def th_join_message_def node_msg_ok_def sent_bytes_def msg_bytes_def
      wf_header)

lemma measure_keeps:
  "th_measure w s = (th, s1, fx) \<Longrightarrow> th = sensors_read_th (w_i2c w) (w_sht w) \<and> fx = [Rail True, Rail False] \<and>
     th_txSeq s1 = th_txSeq s \<and> th_flash s1 = th_flash s"
  by (auto simp: th_measure_def Let_def split: option.splits if_splits)

text \<open>What the gateway sees of several copies of two packets, the second confirming the command that is pending.\<close>

lemma gateway_sees:
  fixes a sq sq' :: u8
  assumes g: "radio_ok g" "pend_map (gPending g) fid = Some cmd" "cmd \<noteq> 0" and fid: "length fid = 8"
    and m1: "rf_ok fid mb" "mb ! 2 = 0" and m2: "rf_ok fid mb'" "mb' ! 2 = cmd"
  defines "p \<equiv> rf_pkt 0 a fid mb sq" and "q \<equiv> rf_pkt 0 a fid mb' sq'"
  shows "\<exists>g'. radio_rx_event (replicate c p @ replicate d q) g = Some (g',
      concat (replicate c [RfTx [a, 0x4E, 0, cmd], UplinkEvent]) @ concat (replicate d [RfTx [a, 0x41, 0, last q], UplinkEvent])) \<and>
    pend_map (gPending g') = (if d = 0 then pend_map (gPending g) else (pend_map (gPending g))(fid := None))"
proof -
  have ne: "fid \<noteq> []" using fid by auto
  obtain g1 where g1: "radio_rx_event (replicate c p) g = Some (g1, concat (replicate c [RfTx [a, 0x4E, 0, cmd], UplinkEvent]))"
      "radio_ok g1" "pend_map (gPending g1) = pend_map (gPending g)"
    using same_packets [OF g(1) m1(1), of c a sq] g(2,3) m1(2) ne
    by (auto simp: p_def rf_reply_def reply_byte_def after_reply_def)
  have "last q = calcChecksum (rf_body a fid mb' sq')" by (simp add: q_def rf_pkt_def)
  then obtain g2 where g2: "radio_rx_event (replicate d q) g1 = Some (g2, concat (replicate d [RfTx [a, 0x41, 0, last q], UplinkEvent]))"
      "pend_map (gPending g2) = (if d = 0 then pend_map (gPending g) else (pend_map (gPending g))(fid := None))"
    using same_packets [OF g1(2) m2(1), of d a sq'] g(2,3) m2(2) ne g1(3)
    by (auto simp: q_def rf_reply_def reply_byte_def after_reply_def)
  show ?thesis using g1(1) g2 by (simp add: rx_event_append)
qed

subsection \<open>Joining\<close>

lemma send_returns:
  assumes "length buf = 57" "\<And>i. f = Some i \<Longrightarrow> length i = 8" "node_msg_ok m"
  shows "\<exists>got c fx. radio_send_message buf opens air m dest f s =
    Some (got, c, if opens then s\<lparr> th_txSeq := th_txSeq s + 1 \<rparr> else s, fx)"
  using th_frame_packet [OF assms] by (auto simp: radio_send_message_def split: prod.split)

text \<open>The first bytes of a message that was copied over a zeroed one.\<close>

lemma copied_nth: "k < length mb \<Longrightarrow> length mb \<le> 44 \<Longrightarrow> blit (msg_bytes msg_zero) 0 mb ! k = mb ! k"
  by (simp add: blit_def nth_append)

lemma length_copied: "length mb \<le> 44 \<Longrightarrow> length (blit (msg_bytes msg_zero) 0 mb) = 44"
  by (simp add: blit_def msg_zero_def)

lemma copied_accept:
  "13 \<le> length mb \<Longrightarrow> length mb \<le> 44 \<Longrightarrow> m_cmd (msg_of_bytes (blit (msg_bytes msg_zero) 0 mb)) = mb ! 2 \<and>
     joinAcceptData_assigned_addr (msg_of_bytes (blit (msg_bytes msg_zero) 0 mb)) = mb ! 12"
  by (simp add: msg_of_bytes_def joinAcceptData_assigned_addr_def copied_nth length_copied)

lemma accept_packet:
  assumes ok: "rf_ok f mb" "13 \<le> length mb" and fid: "length fid = 8"
  shows "th_join_accept fid (rf_pkt dest src f mb sq) =
    (if dest = 0xFF \<and> (f = [] \<or> f = fid) \<and> mb ! 2 = 5
     then Some (mb ! 12, [src, 0x41, dest, calcChecksum (rf_body src f mb sq)]) else None)"
proof -
  define p where "p = rf_pkt dest src f mb sq"
  have len: "length p = 5 + length f + length mb" by (simp add: p_def)
  note b = buffer_fields [OF ok(1), where b = p and rest = "[]", unfolded append_Nil2, OF p_def]
  have mb: "length mb \<le> 44" "f = [] \<or> length f = 8" using ok by (auto simp: rf_ok_def)
  note c = copied_accept [OF ok(2) mb(1)]
  show ?thesis
  proof (cases "f = []")
    case True
    then show ?thesis using b c ok(2) mb len unfolding p_def [symmetric]
      by (simp add: th_join_accept_def th_checksum Let_def)
  next
    case False
    then have f: "length f = 8" using mb by simp
    then show ?thesis using b c ok(2) mb len False unfolding p_def [symmetric]
      by (simp add: th_join_accept_def th_checksum Let_def)
  qed
qed

lemma listen_one:
  "th_listen n (\<lambda>i. if i = j then [p] else []) k fid =
     (if k \<le> j \<and> j < k + n then th_join_accept fid p else None)"
proof (induction n arbitrary: k)
  case (Suc n)
  show ?case
  proof (cases "k = j")
    case True
    then show ?thesis using Suc.IH [of "Suc k"] by (cases "th_join_accept fid p") (simp_all add: List.map_filter_def)
  next
    case False
    then show ?thesis using Suc.IH [of "Suc k"] by (auto simp: List.map_filter_def)
  qed
qed auto

lemma load_stored: "nvs_load_address True True (stream_start (nvs_save_address True True a s)) =
    (if 0x10 \<le> a \<and> a \<le> 0xEF then a else 0xFF)"
  by (simp add: nvs_load_address_def nvs_save_address_def stream_start_def reload)

text \<open>
  The comment on \<open>joinAcceptData\<close> says that a node acts only on its own \<open>factory_id\<close>; without a chip id in the frame it
  takes an acceptance whose body names any other chip.
\<close>

lemma acceptance_body_not_compared:
  assumes "length fid = 8" and "rf_ok [] mb" and "13 \<le> length mb" and "mb ! 2 = 5" and "take 8 (drop 4 mb) \<noteq> fid"
  shows "\<exists>ack. th_join_accept fid (rf_pkt 0xFF src [] mb sq) = Some (mb ! 12, ack)"
  using assms accept_packet [OF assms(2,3,1)] by simp

text \<open>
  C9. A node on the shelf whose button is pressed, and in whose listening window (180 turns of half a second)
  one acceptance of the gateway falls, takes exactly the address it carries, acknowledges it with the packet
  that the gateway is waiting for, streams under it, and, when it could store it, starts under it again after a
  reset, provided that it lies in the pool. An acceptance whose frame carries another chip's id leaves it on the shelf
  with its flash unchanged. A frame without a chip id is taken by whichever node listens, whatever chip the body of the
  acceptance names: the code does not compare that id.
\<close>

theorem acceptance_assigns_address:
  fixes s :: ThNode and sq :: u8
  assumes node: "length buf = 57" "length fid = 8" "w_join_pressed w" "w_rf_listen w"
    and nf: "job_ok nf" "m_id (nf_msg nf) = 0xFF" "m_cmd (nf_msg nf) = 5" "13 \<le> unat (m_length (nf_msg nf))"
    and air: "w_air_listen w = (\<lambda>i. if i = k then [job_pkt nf sq] else [])" "k < 180"
  defines "a \<equiv> joinAcceptData_assigned_addr (nf_msg nf)"
  defines "ours \<equiv> nf_factory_id nf = fid \<or> \<not> has_factory (nf_factory_id nf)"
  shows "\<exists>s' fx ack. nodeTaskFunction buf w fid (Shelf, s) =
      Some (if ours then Streaming a else Shelf, s', if ours then fx @ [ThTx ack] else fx) \<and>
    (ours \<longrightarrow> acks (job_pkt nf sq) ack \<and>
      (w_nvs w \<longrightarrow> w_nvs_writes w \<longrightarrow>
        nvs_load_address True True s' = (if 0x10 \<le> a \<and> a \<le> 0xEF then a else 0xFF))) \<and>
    (\<not> ours \<longrightarrow> th_flash s' = th_flash s)"
proof -
  define f where "f = (if has_factory (nf_factory_id nf) then nf_factory_id nf else [])"
  define mb where "mb = sent_bytes (nf_msg nf)"
  have p: "job_pkt nf sq = rf_pkt 0xFF 0 f mb sq" by (simp add: job_pkt_def f_def mb_def sent_bytes_def nf(2))
  have wf: "length (nf_factory_id nf) = 8" "length (m_payload (nf_msg nf)) = 40" "unat (m_length (nf_msg nf)) \<le> 44"
    using nf(1) by (auto simp: job_ok_def wf_frame_def wf_msg_def)
  have len: "13 \<le> length mb" using nf(4) wf by (simp add: mb_def sent_bytes_def)
  have ok: "rf_ok f mb" using len wf by (simp add: rf_ok_def f_def mb_def sent_bytes_def)
  have mb: "mb ! 2 = 5" "mb ! 12 = a"
    using nf(3,4) wf by (simp_all add: mb_def sent_bytes_def msg_bytes_def a_def joinAcceptData_assigned_addr_def)
  define ack where "ack = [0, 0x41, 0xFF, calcChecksum (rf_body 0 f mb sq)]"
  have ours: "ours \<longleftrightarrow> f = [] \<or> f = fid" using wf node(2) by (auto simp: ours_def f_def)
  have wait: "radio_wait_join_accept True (w_air_listen w) fid (NODE_JOIN_WINDOW_S * 1000) =
      (if ours then Some (a, [ThTx ack]) else None)"
    using air(2) accept_packet [OF ok len node(2), where dest = "0xFF" and src = 0 and sq = sq]
    by (simp add: radio_wait_join_accept_def air(1) listen_one p mb ours ack_def)
  let ?s = "joinButtonCb s\<lparr> g_joinPressed := False \<rparr>"
  define s1 where "s1 = (if w_rf_join w then ?s\<lparr> th_txSeq := th_txSeq ?s + 1 \<rparr> else ?s)"
  have "th_flash s1 = th_flash s" by (simp add: s1_def joinButtonCb_def)
  then obtain got c fx where send: "radio_send_message buf (w_rf_join w) (w_air_join w) (th_join_message fid) 0 None ?s =
      Some (got, c, s1, fx)" "th_flash s1 = th_flash s"
    using send_returns [OF node(1), where f = None and m = "th_join_message fid" and s = ?s] th_messages(7)
    unfolding s1_def by blast
  have task: "nodeTaskFunction buf w fid (Shelf, s) =
      (if ours then Some (Streaming a, stream_start (nvs_save_address (w_nvs w) (w_nvs_writes w) a s1), fx @ [ThTx ack])
       else Some (Shelf, s1, fx))"
    using node send(1) wait by (simp add: nodeTaskFunction_def th_wake_def provision_join_def joinButtonCb_def)
  have "acks (job_pkt nf sq) ack"
    by (simp add: acks_def acked_by_def ack_def p) (simp add: rf_pkt_def)
  then show ?thesis
    using task send(2) by (cases ours) (auto simp: load_stored)
qed

text \<open>The acceptance of address 0x33 comes in the last half second of the window.\<close>

definition demo_accept :: NodeFrame where
  "demo_accept = \<lparr> nf_factory_id = demo_fid, nf_msg = \<lparr> m_id = 0xFF, m_type = 6, m_cmd = 5, m_length = 13,
     m_payload = demo_fid @ [0x33] @ replicate 31 0 \<rparr> \<rparr>"

definition demo_th :: ThNode where
  "demo_th = \<lparr> th_txSeq = 0, th_flash = [], sBattMv = 3000, sBattCtr = 1, g_joinPressed = False \<rparr>"

definition demo_world :: ThWorld where
  "demo_world = \<lparr> w_i2c = True, w_sht = Some [0x66, 0x66, 0, 0x80, 0, 0], w_mcp_started = False, w_mcp = (\<lambda>_. None),
     w_rf = True, w_air = (\<lambda>k. if k = 1 then [[0x21, 0x4E, 0, 6]] else []),
     w_rf_confirm = True, w_air_confirm = (\<lambda>k. if k = 0 then [[0x21, 0x41, 0, 0x0E]] else []),
     w_rf_join = True, w_air_join = (\<lambda>_. []), w_rf_listen = True,
     w_air_listen = (\<lambda>i. if i = 179 then [job_pkt demo_accept 7] else []),
     w_nvs = True, w_nvs_reads = True, w_nvs_writes = True, w_join_pressed = True \<rparr>"

theorem acceptance_assigns_address_witness:
  "\<exists>s' fx. nodeTaskFunction (replicate 57 0) demo_world demo_fid (Shelf, demo_th) = Some (Streaming 0x33, s', fx) \<and>
     nvs_load_address True True s' = 0x33"
proof -
  have ok: "length (replicate 57 (0 :: u8)) = 57" "length demo_fid = 8" "w_join_pressed demo_world" "w_rf_listen demo_world"
    "job_ok demo_accept" "m_id (nf_msg demo_accept) = 0xFF" "m_cmd (nf_msg demo_accept) = 5"
    "13 \<le> unat (m_length (nf_msg demo_accept))"
    "w_air_listen demo_world = (\<lambda>i. if i = 179 then [job_pkt demo_accept 7] else [])" "(179 :: nat) < 180"
    "nf_factory_id demo_accept = demo_fid" "joinAcceptData_assigned_addr (nf_msg demo_accept) = 0x33"
    "w_nvs demo_world" "w_nvs_writes demo_world"
    by (simp_all add: demo_world_def demo_accept_def demo_fid_def job_ok_def wf_frame_def wf_msg_def joinAcceptData_assigned_addr_def)
  show ?thesis using acceptance_assigns_address [OF ok(1-10), of demo_th] ok(11-14) by auto
qed

subsection \<open>Unregistering\<close>

text \<open>
  C7. While the gateway holds the command 6 or 7 for the chip, a reading that the node reports is sent until
  the first of four tries that the gateway hears and whose refusal the node hears. Then, and only then, the
  node confirms the command, erases its address in the flash (so that it starts unprovisioned again) and
  leaves the telemetry loop; the gateway drops the command exactly when it hears one of the confirmations,
  and both sides' packets are the ones the other side expects. The sensors are unpowered again before the
  first packet.
\<close>

theorem unregister_carried_out:
  fixes heard answered heard' answered' :: "nat \<Rightarrow> bool" and a cmd :: u8 and s :: ThNode
  assumes node: "length buf = 57" "length fid = 8" "w_rf w" "w_rf_confirm w"
    and th: "sensors_read_th (w_i2c w) (w_sht w) = Some v"
    and gw: "radio_ok g" "pend_map (gPending g) fid = Some cmd" "cmd = 6 \<or> cmd = 7"
  defines "pkt \<equiv> rf_pkt 0 a fid (sent_bytes (th_telemetry a v (sBattMv (fst (snd (th_measure w s)))))) (th_txSeq s + 1)"
  defines "cf \<equiv> rf_pkt 0 a fid (sent_bytes (th_confirm a cmd)) (th_txSeq s + 2)"
  assumes air: "w_air w = (\<lambda>k. if heard k \<and> answered k then [[a, 0x4E, 0, cmd]] else [])"
    and air': "w_air_confirm w = (\<lambda>k. if heard' k \<and> answered' k then [[a, 0x41, 0, last cf]] else [])"
  defines "got \<equiv> \<exists>k < 4. heard k \<and> answered k"
  defines "n \<equiv> tries_made 4 (\<lambda>k. heard k \<and> answered k) 0"
  defines "n' \<equiv> (if got then tries_made 4 (\<lambda>k. heard' k \<and> answered' k) 0 else 0)"
  defines "copies \<equiv> length (filter heard [0..<n])"
  defines "copies' \<equiv> length (filter heard' [0..<n'])"
  shows "(\<exists>s'. th_cycle buf w a fid s = Some (got, s',
        [Rail True, Rail False] @ replicate n (ThTx pkt) @ replicate n' (ThTx cf)) \<and>
      (if got then w_nvs w \<longrightarrow> w_nvs_writes w \<longrightarrow> nvs_load_address opens reads s' = 0xFF else th_flash s' = th_flash s)) \<and>
    (\<exists>g'. radio_rx_event (replicate copies pkt @ replicate copies' cf) g = Some (g',
        concat (replicate copies [RfTx [a, 0x4E, 0, cmd], UplinkEvent]) @
        concat (replicate copies' [RfTx [a, 0x41, 0, last cf], UplinkEvent])) \<and>
      pend_map (gPending g') = (if copies' = 0 then pend_map (gPending g) else (pend_map (gPending g))(fid := None)))"
proof
  obtain t s1 fx where meas: "th_measure w s = (t, s1, fx)" by (cases "th_measure w s")
  note mk = measure_keeps [OF meas]
  have f: "length i = 8" if "Some fid = Some i" for i using that node(2) by simp
  have fid: "th_fid (Some fid) = fid" by (simp add: th_fid_def)
  have pk: "pkt = rf_pkt 0 a fid (sent_bytes (th_telemetry a v (sBattMv s1))) (th_txSeq s1 + 1)"
    using mk meas by (simp add: pkt_def)
  define s2 where "s2 = s1\<lparr> th_txSeq := th_txSeq s1 + 1 \<rparr>"
  have send: "radio_send_message buf True (w_air w) (th_telemetry a v (sBattMv s1)) 0 (Some fid) s1 =
      Some (got, if got then cmd else 0, s2, replicate n (ThTx pkt))"
    using send_answered [OF node(1), of "Some fid" "th_telemetry a v (sBattMv s1)", OF f th_messages(1), where dest = 0 and s = s1 and r = "[a, 0x4E, 0, cmd]" and c = cmd
        and ok = "\<lambda>k. heard k \<and> answered k"]
    by (simp add: air th_reply_def th_messages(2) fid pk [symmetric] got_def n_def s2_def)
  have cf: "cf = rf_pkt 0 a fid (sent_bytes (th_confirm a cmd)) (th_txSeq s2 + 1)"
    using mk by (simp add: cf_def s2_def add.commute)
  have conf: "radio_send_message buf True (w_air_confirm w) (th_confirm a cmd) 0 (Some fid) s2 =
      Some (\<exists>k < 4. heard' k \<and> answered' k, 0, s2\<lparr> th_txSeq := th_txSeq s2 + 1 \<rparr>, replicate n' (ThTx cf))" if got
    using send_answered [OF node(1), of "Some fid" "th_confirm a cmd", OF f th_messages(4), where dest = 0 and s = s2 and r = "[a, 0x41, 0, last cf]" and c = 0
        and ok = "\<lambda>k. heard' k \<and> answered' k"] that
    by (simp add: air' th_reply_def th_messages(5) fid cf [symmetric] n'_def)
  show "\<exists>s'. th_cycle buf w a fid s = Some (got, s',
        [Rail True, Rail False] @ replicate n (ThTx pkt) @ replicate n' (ThTx cf)) \<and>
      (if got then w_nvs w \<longrightarrow> w_nvs_writes w \<longrightarrow> nvs_load_address opens reads s' = 0xFF else th_flash s' = th_flash s)"
  proof (cases got)
    case True
    show ?thesis using True send conf gw(3) node mk th
      by (auto simp: th_cycle_def meas s2_def [symmetric] nvs_save_address_def nvs_load_address_def reload Let_def)
  next
    case False
    then have "n' = 0" by (simp add: n'_def)
    then show ?thesis using False send gw(3) node mk th by (simp add: th_cycle_def meas s2_def)
  qed
  show "\<exists>g'. radio_rx_event (replicate copies pkt @ replicate copies' cf) g = Some (g',
        concat (replicate copies [RfTx [a, 0x4E, 0, cmd], UplinkEvent]) @
        concat (replicate copies' [RfTx [a, 0x41, 0, last cf], UplinkEvent])) \<and>
      pend_map (gPending g') = (if copies' = 0 then pend_map (gPending g) else (pend_map (gPending g))(fid := None))"
    unfolding pkt_def cf_def
    by (rule gateway_sees [OF gw(1,2) _ node(2)])
      (use gw(3) in \<open>auto simp: th_messages intro: sent_bytes_ok th_messages node(2)\<close>)
qed

text \<open>The second try is heard and refused with command 6, the first confirmation is acknowledged.\<close>

theorem unregister_carried_out_witness:
  "\<exists>pkt s' g'. th_cycle (replicate 57 0) demo_world 0x21 demo_fid demo_th = Some (True, s',
      [Rail True, Rail False, ThTx pkt, ThTx pkt, ThTx ([0, 0x45, 0x21] @ demo_fid @ [0x21, 6, 6, 4, 2, 0x0E])]) \<and>
    nvs_load_address True True s' = 0xFF \<and>
    radio_rx_event [pkt, [0, 0x45, 0x21] @ demo_fid @ [0x21, 6, 6, 4, 2, 0x0E]] demo_radio = Some (g',
      [RfTx [0x21, 0x4E, 0, 6], UplinkEvent, RfTx [0x21, 0x41, 0, 0x0E], UplinkEvent]) \<and>
    pend_map (gPending g') = Map.empty"
proof -
  obtain v where v: "sensors_read_th (w_i2c demo_world) (w_sht demo_world) = Some v"
    by (simp add: demo_world_def sensors_read_th_def Let_def)
  have cf: "rf_pkt 0 0x21 demo_fid (sent_bytes (th_confirm 0x21 6)) (th_txSeq demo_th + 2) =
      [0, 0x45, 0x21] @ demo_fid @ [0x21, 6, 6, 4, 2, 0x0E]"
    by (simp add: rf_pkt_def rf_body_def demo_fid_def sent_bytes_def th_confirm_def msg_bytes_def demo_th_def calcChecksum_def checksum_step_def)
  have lst: "last ([0, 0x45, 0x21] @ demo_fid @ [0x21, 6, 6, 4, 2, 0x0E]) = (0x0E :: u8)" by simp
  have made: "tries_made 4 (\<lambda>k. k = 1 \<and> True) 0 = 2" "tries_made 4 (\<lambda>k. k = 0 \<and> True) 0 = 1"
    by (simp_all add: numeral_eq_Suc)
  have got: "\<exists>k < 4. k = (1 :: nat) \<and> True" by simp
  have f: "filter (\<lambda>k. k = 1) [0..<2] = [1 :: nat]" "filter (\<lambda>k. k = 0) [0..<1] = [0 :: nat]"
    by (simp_all add: upt_rec)
  have w: "length (replicate 57 (0 :: u8)) = 57" "length demo_fid = 8" "w_rf demo_world" "w_rf_confirm demo_world"
    "w_air demo_world = (\<lambda>k. if k = 1 \<and> True then [[0x21, 0x4E, 0, 6]] else [])"
    "w_air_confirm demo_world = (\<lambda>k. if k = 0 \<and> True then [[0x21, 0x41, 0,
       last (rf_pkt 0 0x21 demo_fid (sent_bytes (th_confirm 0x21 6)) (th_txSeq demo_th + 2))]] else [])"
    "w_nvs demo_world" "w_nvs_writes demo_world"
    unfolding cf lst by (simp_all add: demo_fid_def demo_world_def)
  have g: "pend_map (gPending demo_radio) demo_fid = Some 6" "(6 :: u8) = 6 \<or> (6 :: u8) = 7" by (simp_all add: demo_pending)
  note T = unregister_carried_out [where heard = "\<lambda>k. k = 1" and answered = "\<lambda>_. True" and heard' = "\<lambda>k. k = 0" and answered' = "\<lambda>_. True",
      OF w(1-4) v demo_radio_ok g w(5,6), of True True]
  show ?thesis using T
    unfolding cf lst made if_P [OF got] f demo_pending
    by (simp add: numeral_2_eq_2 w(7,8)) (metis fun_upd_upd)
qed

end
