(* ===== verification/BatterySoc.thy ===== *)
theory BatterySoc
  imports Prelude
begin

text \<open>
  The charge estimate of the battery-powered node (\<open>battery_soc.c\<close>): a table of voltages and percentages with
  linear interpolation in between. All intermediate values fit the C \<open>int\<close> easily, so plain integers stand
  for them; the result is stored in a byte.
\<close>

text \<open>The knees, as pairs of millivolts and percent, from high to low.\<close>

definition SOC_LUT :: "(int \<times> int) list" where
  "SOC_LUT = [(3400, 100), (3350, 98), (3320, 90), (3300, 80), (3280, 65), (3260, 50), (3240, 35), (3220, 22),
     (3200, 15), (3150, 10), (3100, 6), (3000, 3), (2900, 1), (2500, 0)]"

definition SOC_LOW_MV :: u16 where "SOC_LOW_MV = 3050"

fun soc_scan :: "(int \<times> int) list \<Rightarrow> int \<Rightarrow> int" where
  "soc_scan ((vHi, pHi) # (vLo, pLo) # knees) mv =
     (if mv \<le> vHi \<and> mv \<ge> vLo then pLo + ((mv - vLo) * (pHi - pLo)) div (vHi - vLo)
      else soc_scan ((vLo, pLo) # knees) mv)"
| "soc_scan _ mv = 0"

definition battery_soc_pct :: "u16 \<Rightarrow> u8" where
  "battery_soc_pct batt_mv =
     (if uint batt_mv \<ge> fst (hd SOC_LUT) then 100
      else if uint batt_mv \<le> fst (last SOC_LUT) then 0
      else word_of_int (soc_scan SOC_LUT (uint batt_mv)))"

definition battery_is_low :: "u16 \<Rightarrow> bool" where
  "battery_is_low batt_mv \<longleftrightarrow> batt_mv \<noteq> 0 \<and> batt_mv < SOC_LOW_MV"

subsection \<open>Interpolation over any table\<close>

text \<open>Voltages fall strictly, percentages do not rise.\<close>

fun falling :: "(int \<times> int) list \<Rightarrow> bool" where
  "falling ((vHi, pHi) # (vLo, pLo) # knees) \<longleftrightarrow> vLo < vHi \<and> pLo \<le> pHi \<and> falling ((vLo, pLo) # knees)"
| "falling _ \<longleftrightarrow> True"

lemma falling_last: "falling (k # knees) \<Longrightarrow> snd (last (k # knees)) \<le> snd k"
  by (induction "k # knees" arbitrary: k knees rule: falling.induct) fastforce+

lemma segment:
  fixes v p :: int
  assumes "vLo < vHi" "pLo \<le> pHi" "vLo \<le> v" "v \<le> vHi"
  shows "pLo \<le> pLo + ((v - vLo) * (pHi - pLo)) div (vHi - vLo)" "pLo + ((v - vLo) * (pHi - pLo)) div (vHi - vLo) \<le> pHi"
proof -
  show "pLo \<le> pLo + ((v - vLo) * (pHi - pLo)) div (vHi - vLo)"
    using assms by (simp add: pos_imp_zdiv_nonneg_iff)
  have "(v - vLo) * (pHi - pLo) \<le> (vHi - vLo) * (pHi - pLo)" using assms by (intro mult_right_mono) auto
  then have "((v - vLo) * (pHi - pLo)) div (vHi - vLo) \<le> ((vHi - vLo) * (pHi - pLo)) div (vHi - vLo)"
    using assms by (intro zdiv_mono1) auto
  then show "pLo + ((v - vLo) * (pHi - pLo)) div (vHi - vLo) \<le> pHi" using assms by simp
qed

lemma scan_bounds:
  "falling (k # knees) \<Longrightarrow> fst (last (k # knees)) \<le> v \<Longrightarrow> v \<le> fst k \<Longrightarrow> knees \<noteq> [] \<Longrightarrow>
   snd (last (k # knees)) \<le> soc_scan (k # knees) v \<and> soc_scan (k # knees) v \<le> snd k"
proof (induction "k # knees" v arbitrary: k knees rule: soc_scan.induct)
  case (1 vHi pHi vLo pLo knees mv)
  show ?case
  proof (cases "vLo \<le> mv")
    case True
    then show ?thesis using 1 segment [of vLo vHi pLo pHi mv] falling_last [of "(vLo, pLo)" knees] by auto
  next
    case False
    then have "knees \<noteq> []" using "1.prems"(2) by auto
    then show ?thesis using "1.hyps" "1.prems" False by auto
  qed
qed auto

lemma scan_mono:
  "falling (k # knees) \<Longrightarrow> fst (last (k # knees)) \<le> v \<Longrightarrow> v \<le> w \<Longrightarrow> w \<le> fst k \<Longrightarrow> knees \<noteq> [] \<Longrightarrow>
   soc_scan (k # knees) v \<le> soc_scan (k # knees) w"
proof (induction "k # knees" v arbitrary: k knees rule: soc_scan.induct)
  case (1 vHi pHi vLo pLo knees mv)
  consider "vLo \<le> mv" | "mv < vLo" "vLo \<le> w" | "w < vLo" using "1.prems"(3) by linarith
  then show ?case
  proof cases
    case a: 1
    have "(mv - vLo) * (pHi - pLo) \<le> (w - vLo) * (pHi - pLo)" using "1.prems" by (intro mult_right_mono) auto
    then have "((mv - vLo) * (pHi - pLo)) div (vHi - vLo) \<le> ((w - vLo) * (pHi - pLo)) div (vHi - vLo)"
      using "1.prems" by (intro zdiv_mono1) auto
    then show ?thesis using a "1.prems" by auto
  next
    case 2
    then have "knees \<noteq> []" using "1.prems"(2) by auto
    then have "soc_scan ((vLo, pLo) # knees) mv \<le> pLo"
      using scan_bounds [of "(vLo, pLo)" knees mv] "1.prems" 2 by auto
    then show ?thesis using 2 "1.prems" segment [of vLo vHi pLo pHi w] by auto
  next
    case 3
    then have "knees \<noteq> []" using "1.prems"(2,3) by auto
    then show ?thesis using "1.hyps" "1.prems" 3 by auto
  qed
qed auto

subsection \<open>The estimate\<close>

lemma lut: "SOC_LUT = (3400, 100) # tl SOC_LUT" "tl SOC_LUT \<noteq> []" "falling SOC_LUT"
    "fst (last SOC_LUT) = 2500" "snd (last SOC_LUT) = 0" "fst (hd SOC_LUT) = 3400"
  by (simp_all add: SOC_LUT_def)

text \<open>The estimate as an integer, before it is stored in a byte.\<close>

definition soc_value :: "int \<Rightarrow> int" where
  "soc_value v = (if v \<ge> 3400 then 100 else if v \<le> 2500 then 0 else soc_scan SOC_LUT v)"

lemma soc_value_range: "0 \<le> soc_value v \<and> soc_value v \<le> 100"
  using scan_bounds [of "(3400, 100)" "tl SOC_LUT" v] lut by (auto simp: soc_value_def)

lemma soc_value_mono:
  assumes "v \<le> w"
  shows "soc_value v \<le> soc_value w"
proof (cases "2500 < v \<and> w < 3400")
  case True
  then show ?thesis using scan_mono [of "(3400, 100)" "tl SOC_LUT" v w] lut assms by (auto simp: soc_value_def)
next
  case False
  then show ?thesis using soc_value_range [of v] soc_value_range [of w] assms by (auto simp: soc_value_def)
qed

lemma soc_pct: "uint (battery_soc_pct mv) = soc_value (uint mv)"
  using soc_value_range [of "uint mv"]
  by (auto simp: battery_soc_pct_def soc_value_def lut(4-6) take_bit_int_eq_self unsigned_of_int)

text \<open>
  The charge estimate is a percentage that never falls when the voltage rises, it is 100 from 3.4 V on and 0 up
  to 2.5 V, takes every value of the table at its knee, and a battery flagged low is estimated at 4 percent or
  less.
\<close>

theorem charge_estimate_sound:
  "battery_soc_pct a \<le> 100 \<and> (battery_soc_pct (min a b) \<le> battery_soc_pct (max a b)) \<and>
   battery_soc_pct (max a 3400) = 100 \<and> battery_soc_pct (min a 2500) = 0 \<and>
   map (\<lambda>(v, p). battery_soc_pct (word_of_int v)) SOC_LUT = map (\<lambda>(v, p). word_of_int p) SOC_LUT \<and>
   battery_soc_pct (min a 3049) \<le> 4 \<and> (battery_is_low a = (1 \<le> a \<and> a \<le> 3049))"
proof -
  have le: "(battery_soc_pct x \<le> battery_soc_pct y) = (soc_value (uint x) \<le> soc_value (uint y))" for x y
    by (simp add: word_le_def soc_pct)
  have "battery_soc_pct x \<le> battery_soc_pct y" if "x \<le> y" for x y
  proof -
    have "uint x \<le> uint y" using that by (simp only: word_le_def)
    then show ?thesis unfolding le by (rule soc_value_mono)
  qed
  note mono = this
  have k: "battery_soc_pct 3400 = 100" "battery_soc_pct 2500 = 0" "battery_soc_pct 3049 = 4"
    by (simp_all add: battery_soc_pct_def SOC_LUT_def)
  have top: "battery_soc_pct x \<le> 100" for x using soc_value_range by (simp add: word_le_def soc_pct)
  have hi: "battery_soc_pct (max a 3400) = 100" using mono [of 3400 "max a 3400"] top k(1) by (simp add: order_antisym)
  have lo: "battery_soc_pct (min a 2500) = 0" using mono [of "min a 2500" 2500] k(2) by simp
  have kn: "map (\<lambda>(v, p). battery_soc_pct (word_of_int v)) SOC_LUT = map (\<lambda>(v, p). word_of_int p) SOC_LUT"
    by (simp add: battery_soc_pct_def SOC_LUT_def)
  have "battery_is_low a = (1 \<le> a \<and> a \<le> 3049)"
    by (auto simp: battery_is_low_def SOC_LOW_MV_def word_le_nat_alt word_less_nat_alt word_unat_eq_iff)
  then show ?thesis using top hi lo kn mono [of "min a b" "max a b"] mono [of "min a 3049" 3049] k(3) by (auto simp: min_def max_def)
qed

end
