(* ===== verification/ThRev2.thy ===== *)
theory ThRev2
  imports ThTask BatterySoc NodeRadio
begin

text \<open>
  The second revision of the temperature and humidity node (\<open>rev2/mcp3421.c\<close>, \<open>th_sense.c\<close>,
  \<open>th_sensor_task.c\<close>), which runs the solar node's radio task and its identity module. The bus, the timer
  and the pins are outside; \<open>mq_send\<close> appends to the queue of the radio task while it has room.
\<close>

subsection \<open>The battery converter and the sensors\<close>

definition mcp3421_read_uv :: "bool \<Rightarrow> bool \<Rightarrow> (nat \<Rightarrow> u8 list option) \<Rightarrow> int option" where
  "mcp3421_read_uv i2c_open started reads =
     (if \<not> i2c_open \<or> \<not> started then None
      else map_option (\<lambda>rd. f32_to_int (f32_mul (f32_of_int (mcp3421_raw rd)) (th_f32 15625 1000))) (mcp3421_poll 40 reads 0))"

text \<open>The sum of the remaining samples, each a conversion of its own.\<close>

primrec mcp3421_sum :: "nat \<Rightarrow> bool \<Rightarrow> (nat \<Rightarrow> bool \<times> (nat \<Rightarrow> u8 list option)) \<Rightarrow> nat \<Rightarrow> int \<Rightarrow> int option" where
  "mcp3421_sum 0 i2c_open conv k acc = Some acc"
| "mcp3421_sum (Suc n) i2c_open conv k acc = (case mcp3421_read_uv i2c_open (fst (conv k)) (snd (conv k)) of
     None \<Rightarrow> None
   | Some uv \<Rightarrow> mcp3421_sum n i2c_open conv (Suc k) (acc + uv))"

definition mcp3421_read_batt_mv :: "bool \<Rightarrow> (nat \<Rightarrow> bool \<times> (nat \<Rightarrow> u8 list option)) \<Rightarrow> u8 \<Rightarrow> u16 option" where
  "mcp3421_read_batt_mv i2c_open conv samples0 =
     (let samples1 = (if samples0 < 1 then 1 else samples0); samples = (if samples1 > 16 then 16 else samples1) in
      case mcp3421_sum (unat samples) i2c_open conv 0 0 of
        None \<Rightarrow> None
      | Some acc \<Rightarrow>
          let vadc_mv = f32_div (f32_div (f32_of_int acc) (f32_of_int (uint samples))) (f32_of_int 1000);
              vbat_mv = f32_mul (f32_mul vadc_mv (f32_of_int 2)) (f32_of_int 1);
              v = (if f32_lt vbat_mv 0 then 0 else vbat_mv)
          in Some (word_of_int (f32_to_int (f32_add v (th_f32 5 10)))))"

definition th_sense_read_th :: "bool \<Rightarrow> u8 list option \<Rightarrow> (u32 \<times> u32) option" where
  "th_sense_read_th i2c_open answer = (case answer of
     Some rd \<Rightarrow>
       if \<not> i2c_open then None
       else let rawT = be16 (rd ! 0) (rd ! 1); rawH = be16 (rd ! 3) (rd ! 4) in
         Some (f32_add (f32_neg (f32_of_int 45)) (f32_mul (f32_of_int 175) (f32_div (f32_of_int (uint rawT)) (f32_of_int 65535))),
               f32_mul (f32_of_int 100) (f32_div (f32_of_int (uint rawH)) (f32_of_int 65535)))
   | None \<Rightarrow> None)"

definition BATT_SAMPLES :: u8 where "BATT_SAMPLES = 4"

definition th_sense_read_batt :: "bool \<Rightarrow> (nat \<Rightarrow> bool \<times> (nat \<Rightarrow> u8 list option)) \<Rightarrow> (u16 \<times> u8 \<times> bool) option" where
  "th_sense_read_batt i2c_open conv = (case mcp3421_read_batt_mv i2c_open conv BATT_SAMPLES of
     None \<Rightarrow> None | Some m \<Rightarrow> Some (m, battery_soc_pct m, battery_is_low m))"

subsection \<open>The task\<close>

definition TH_BATT_EVERY :: nat where [simp]: "TH_BATT_EVERY = 5"

datatype th2_effect = PeriphEn bool | SendPacketEvent

record ThRev2 =
  t2_identity :: Identity
  t2_radioQueue :: "u8 list list"
  t2_battMv :: u16
  sSocPct :: u8
  t2_battCtr :: u8

text \<open>What the outside answers during one measurement, and how many messages the radio queue takes.\<close>

record ThSensors =
  q_i2c :: bool
  q_sht :: "u8 list option"
  q_conv :: "nat \<Rightarrow> bool \<times> (nat \<Rightarrow> u8 list option)"

definition th2_telemetry :: "u8 \<Rightarrow> u32 \<times> u32 \<Rightarrow> u16 \<Rightarrow> u8 \<Rightarrow> MessageStruct" where
  "th2_telemetry a th mv soc = put_payload 12 (le32_bytes 0) (put_payload 10 [soc] (th_telemetry a th mv))"

definition measureAndSend :: "nat \<Rightarrow> ThSensors \<Rightarrow> ThRev2 \<Rightarrow> ThRev2 \<times> th2_effect list" where
  "measureAndSend room q s =
     (let th = th_sense_read_th (q_i2c q) (q_sht q);
          s1 = (if t2_battCtr s = 0 then
                  (case th_sense_read_batt (q_i2c q) (q_conv q) of
                     Some (mv, soc, low) \<Rightarrow> s\<lparr> t2_battMv := mv, sSocPct := soc \<rparr> | None \<Rightarrow> s)
                else s);
          s2 = s1\<lparr> t2_battCtr := word_of_nat ((unat (t2_battCtr s1) + 1) mod TH_BATT_EVERY) \<rparr>;
          rail = [PeriphEn True, PeriphEn False]
      in case th of
           None \<Rightarrow> (s2, rail)
         | Some v \<Rightarrow>
             if gNodeAddress (t2_identity s2) = ADDR_UNPROVISIONED then (s2, rail)
             else
               let m = th2_telemetry (gNodeAddress (t2_identity s2)) v (t2_battMv s2) (sSocPct s2);
                   item = take (unat (m_length m)) (msg_bytes m)
               in (if length (t2_radioQueue s2) < room then s2\<lparr> t2_radioQueue := t2_radioQueue s2 @ [item] \<rparr> else s2,
                   rail @ [SendPacketEvent]))"

definition handleCommand :: "nat \<Rightarrow> ThSensors \<Rightarrow> bool \<Rightarrow> MessageStruct \<Rightarrow> ThRev2 \<Rightarrow> ThRev2 \<times> th2_effect list" where
  "handleCommand room q nvs_writes cmd s =
     (if m_cmd cmd = CMD_JOIN_ACCEPT then
        let i = (t2_identity s)\<lparr> gNodeAddress := joinAcceptData_assigned_addr cmd \<rparr>;
            s1 = s\<lparr> t2_identity := snd (th_identity_persist nvs_writes i), t2_battCtr := 0 \<rparr>
        in measureAndSend room q s1
      else if m_cmd cmd = CMD_REMOVE \<or> m_cmd cmd = CMD_UNREGISTERED then
        let i = (t2_identity s)\<lparr> gNodeAddress := ADDR_UNPROVISIONED \<rparr>
        in (s\<lparr> t2_identity := snd (th_identity_persist nvs_writes i) \<rparr>, [])
      else (s, []))"

text \<open>
  The commands that wait, each with the answers of the sensors and of the flash while it is handled. The message
  variable \<open>old\<close> is not initialised and keeps the bytes of an earlier command behind a shorter one.
\<close>

primrec handle_commands :: "nat \<Rightarrow> MessageStruct \<Rightarrow> (ThSensors \<times> bool \<times> u8 list) list \<Rightarrow> ThRev2 \<Rightarrow> ThRev2 \<times> th2_effect list" where
  "handle_commands room old [] s = (s, [])"
| "handle_commands room old (c # cs) s = (case c of (q, w, item) \<Rightarrow>
     (let cmd = node_mq_receive item old;
          (s1, fx) = handleCommand room q w cmd s; (s2, fx') = handle_commands room cmd cs s1
      in (s2, fx @ fx')))"

text \<open>One turn of the task, for the events that are set: the measurement first, then the commands.\<close>

record Th2Turn =
  tt_measure :: "ThSensors option"
  tt_old :: MessageStruct
  tt_commands :: "(ThSensors \<times> bool \<times> u8 list) list option"

definition thSensorTaskFunction :: "nat \<Rightarrow> Th2Turn \<Rightarrow> ThRev2 \<Rightarrow> ThRev2 \<times> th2_effect list" where
  "thSensorTaskFunction room t s =
     (let (s1, fx) = (case tt_measure t of Some q \<Rightarrow> measureAndSend room q s | None \<Rightarrow> (s, []));
          (s2, fx') = (case tt_commands t of Some cs \<Rightarrow> handle_commands room (tt_old t) cs s1 | None \<Rightarrow> (s1, []))
      in (s2, fx @ fx'))"

primrec th2_run :: "nat \<Rightarrow> Th2Turn list \<Rightarrow> ThRev2 \<Rightarrow> ThRev2 \<times> th2_effect list" where
  "th2_run room [] s = (s, [])"
| "th2_run room (t # ts) s =
     (let (s1, fx) = thSensorTaskFunction room t s; (s2, fx') = th2_run room ts s1 in (s2, fx @ fx'))"

end
