(* ===== verification/ThSense.thy ===== *)
theory ThSense
  imports ThLink ThRev2 FloatOrder
begin

text \<open>What the temperature and humidity node measures, on both revisions of the board.\<close>

lemma th_constants:
  "th_f32 15625 1000 = 0x417A0000" "th_f32 12598 10000 = 0x3FA14120" "th_f32 5 10 = 0x3F000000"
  "f32_of_int 65535 = 0x477FFF00" "f32_of_int 175 = 0x432F0000" "f32_of_int 100 = 0x42C80000"
  "f32_of_int 2 = 0x40000000" "f32_of_int 1000 = 0x447A0000" "f32_of_int 4 = 0x40800000" "f32_of_int 1 = 0x3F800000"
  "f32_neg (f32_of_int 45) = 0xC2340000"
  by (simp_all add: th_f32_def f32_eval)

lemmas f32_field = f32_sign_def f32_mag_def

subsection \<open>Temperature and humidity\<close>

lemma fraction_upto: "f32_upto 0x3F800000 (f32_div (f32_of_int (uint (raw :: u16))) 0x477FFF00)"
proof (rule upto_div)
  have "uint raw \<le> 65535" using uint_lt2p [of raw] by simp
  then show "f32_upto 0x477FFF00 (f32_of_int (uint raw))"
    by (intro upto_int) (simp_all add: f32_unpack_def)
qed (simp_all add: f32_field f32_unpack_def)

lemma reading_bounds:
  assumes "sensors_read_th i2c ans = Some (t, h)"
  shows "f32_le (f32_of_int (- 45)) t \<and> f32_le t (f32_of_int 130) \<and> f32_le 0 h \<and> f32_le h (f32_of_int 100)"
proof -
  obtain a b where t: "t = f32_add 0xC2340000 (f32_mul 0x432F0000 (f32_div (f32_of_int (uint (a :: u16))) 0x477FFF00))"
    and h: "h = f32_mul 0x42C80000 (f32_div (f32_of_int (uint (b :: u16))) 0x477FFF00)"
    using assms by (auto simp: sensors_read_th_def th_constants Let_def split: option.splits if_splits)
  have c: "f32_upto 0x432F0000 0x432F0000" "f32_upto 0x42C80000 0x42C80000" by (simp_all add: f32_upto_def f32_field)
  have "f32_upto 0x432F0000 (f32_mul 0x432F0000 (f32_div (f32_of_int (uint a)) 0x477FFF00))"
    by (rule upto_mul [OF c(1) fraction_upto]) (simp_all add: f32_unpack_def)
  then have "f32_le 0xC2340000 t \<and> f32_le t (f32_mk False 0x43020000)" unfolding t
    by (rule add_between) (simp_all add: f32_field f32_unpack_def f32_fix_def)
  moreover have "f32_upto 0x42C80000 h" unfolding h
    by (rule upto_mul [OF c(2) fraction_upto]) (simp_all add: f32_unpack_def)
  then have "f32_le 0 h \<and> f32_le h (f32_mk False 0x42C80000)" by (rule upto_le) simp
  moreover have "f32_of_int (- 45) = 0xC2340000" "f32_of_int 130 = f32_mk False 0x43020000" "f32_of_int 100 = f32_mk False 0x42C80000"
    by (simp_all add: f32_eval)
  ultimately show ?thesis by simp
qed

subsection \<open>The battery\<close>

definition chip_range :: "(nat \<Rightarrow> u8 list option) \<Rightarrow> bool" where
  "chip_range reads \<longleftrightarrow> (\<forall>i rd. reads i = Some rd \<longrightarrow> - 131072 \<le> mcp3421_raw rd \<and> mcp3421_raw rd \<le> 131071)"

lemma poll_in_range: "mcp3421_poll n reads i = Some rd \<Longrightarrow> chip_range reads \<Longrightarrow> mcp3421_raw rd \<le> 131071"
  by (induction n arbitrary: i) (auto simp: chip_range_def split: option.splits if_splits)

lemma negative_int: "i < 0 \<Longrightarrow> f32_below 0x3F800000 (f32_of_int i)"
proof -
  assume i: "i < 0"
  have "f32_unpack 0x3F800000 * 1 \<le> nat \<bar>i\<bar> * 2 ^ 149" using i by (simp add: f32_unpack_def)
  from below_frac [OF this] show ?thesis using i by (simp add: f32_of_int_def)
qed

text \<open>The last step of both conversions: a value that is negative or bounded, clipped at zero, rounded to an integer.\<close>

lemma clipped_mv:
  fixes x :: u32
  assumes "f32_lt x 0 \<or> f32_upto m x" "m < 0x7F800000" "r < 0x7F800000"
    "f32_unpack m + f32_unpack 0x3F000000 \<le> f32_unpack r" "f32_unpack r div 2 ^ 149 \<le> B" "B < 65536"
  shows "uint (word_of_int (f32_to_int (f32_add (if f32_lt x 0 then 0 else x) 0x3F000000)) :: u16) \<le> int B"
proof -
  have "f32_upto m (if f32_lt x 0 then 0 else x)" using assms(1) by (auto simp: f32_upto_def f32_field)
  moreover have "f32_upto 0x3F000000 0x3F000000" by (simp add: f32_upto_def f32_field)
  ultimately have "f32_upto r (f32_add (if f32_lt x 0 then 0 else x) 0x3F000000)"
    by (rule upto_add) (use assms in simp_all)
  from upto_to_int [OF this] have "0 \<le> f32_to_int (f32_add (if f32_lt x 0 then 0 else x) 0x3F000000)"
    "f32_to_int (f32_add (if f32_lt x 0 then 0 else x) 0x3F000000) \<le> int B"
    using assms(5) by linarith+
  then show ?thesis using assms(6) by (simp add: uint_word_of_int_eq take_bit_int_eq_self)
qed

definition th_mv :: "int \<Rightarrow> u32" where
  "th_mv raw = f32_mul (f32_mul (f32_div (f32_mul (f32_of_int raw) 0x417A0000) 0x447A0000) 0x40000000) 0x3FA14120"

lemma th_mv_negative: "raw < 0 \<Longrightarrow> f32_lt (th_mv raw) 0"
proof -
  assume raw: "raw < 0"
  have 1: "f32_below 0x3F800000 (f32_mul (f32_of_int raw) 0x417A0000)"
    by (rule below_mul [OF negative_int [OF raw]]) (simp_all add: f32_field f32_unpack_def)
  have 2: "f32_below 0x30000000 (f32_div (f32_mul (f32_of_int raw) 0x417A0000) 0x447A0000)"
    by (rule below_div [OF 1]) (simp_all add: f32_field f32_unpack_def)
  have 3: "f32_below 0x30000000 (f32_mul (f32_div (f32_mul (f32_of_int raw) 0x417A0000) 0x447A0000) 0x40000000)"
    by (rule below_mul [OF 2]) (simp_all add: f32_field f32_unpack_def)
  have "f32_below 0x30000000 (th_mv raw)" unfolding th_mv_def
    by (rule below_mul [OF 3]) (simp_all add: f32_field f32_unpack_def)
  then show ?thesis by (rule below_lt) simp
qed

lemma th_mv_upto:
  assumes "0 \<le> raw" "raw \<le> 131071"
  shows "f32_upto 0x45A14800 (th_mv raw)"
proof -
  have 0: "f32_upto 0x47FFFF80 (f32_of_int raw)"
    using assms by (intro upto_int) (simp_all add: f32_unpack_def)
  have c: "f32_upto 0x417A0000 0x417A0000" "f32_upto 0x40000000 0x40000000" "f32_upto 0x3FA14120 0x3FA14120"
    by (simp_all add: f32_upto_def f32_field)
  have 1: "f32_upto 0x49F9FF83 (f32_mul (f32_of_int raw) 0x417A0000)"
    by (rule upto_mul [OF 0 c(1)]) (simp_all add: f32_unpack_def)
  have 2: "f32_upto 0x44FFFF80 (f32_div (f32_mul (f32_of_int raw) 0x417A0000) 0x447A0000)"
    by (rule upto_div [OF 1]) (simp_all add: f32_field f32_unpack_def)
  have 3: "f32_upto 0x457FFF80 (f32_mul (f32_div (f32_mul (f32_of_int raw) 0x417A0000) 0x447A0000) 0x40000000)"
    by (rule upto_mul [OF 2 c(2)]) (simp_all add: f32_unpack_def)
  show ?thesis unfolding th_mv_def
    by (rule upto_mul [OF 3 c(3)]) (simp_all add: f32_unpack_def)
qed

lemma th_mv_word:
  assumes "raw \<le> 131071"
  shows "unat (word_of_int (f32_to_int (f32_add (if f32_lt (th_mv raw) 0 then 0 else th_mv raw) 0x3F000000)) :: u16) \<le> 5161"
proof -
  have "f32_lt (th_mv raw) 0 \<or> f32_upto 0x45A14800 (th_mv raw)"
    using th_mv_negative [of raw] th_mv_upto [of raw] assms by linarith
  then have "uint (word_of_int (f32_to_int (f32_add (if f32_lt (th_mv raw) 0 then 0 else th_mv raw) 0x3F000000)) :: u16) \<le> int 5161"
    by (rule clipped_mv [where r = "0x45A14C00"]) (simp_all add: f32_unpack_def)
  then show ?thesis by (simp only: unat_eq_nat_uint nat_le_iff of_nat_numeral)
qed

lemma battery_bound:
  assumes "sensors_read_mcp3421_mv i2c started reads = Some mv" "chip_range reads"
  shows "unat mv \<le> 5161"
proof -
  obtain rd where poll: "mcp3421_poll 40 reads 0 = Some rd"
    using assms(1) by (auto simp only: sensors_read_mcp3421_mv_def split: option.splits if_splits)
  have "mv = word_of_int (f32_to_int (f32_add (if f32_lt (th_mv (mcp3421_raw rd)) 0 then 0 else th_mv (mcp3421_raw rd)) 0x3F000000))"
    using assms(1) by (auto simp only: sensors_read_mcp3421_mv_def th_constants Let_def poll th_mv_def option.case split: if_splits)
  then show ?thesis using th_mv_word [OF poll_in_range [OF poll assms(2)]] by simp
qed

text \<open>Four conversions averaged, as the second revision does it.\<close>

definition th2_mv :: "int \<Rightarrow> u32" where
  "th2_mv acc = f32_mul (f32_mul (f32_div (f32_div (f32_of_int acc) 0x40800000) 0x447A0000) 0x40000000) 0x3F800000"

lemma th2_mv_negative: "acc < 0 \<Longrightarrow> f32_lt (th2_mv acc) 0"
proof -
  assume acc: "acc < 0"
  have 1: "f32_below 0x3E800000 (f32_div (f32_of_int acc) 0x40800000)"
    by (rule below_div [OF negative_int [OF acc]]) (simp_all add: f32_field f32_unpack_def)
  have 2: "f32_below 0x30000000 (f32_div (f32_div (f32_of_int acc) 0x40800000) 0x447A0000)"
    by (rule below_div [OF 1]) (simp_all add: f32_field f32_unpack_def)
  have 3: "f32_below 0x30000000 (f32_mul (f32_div (f32_div (f32_of_int acc) 0x40800000) 0x447A0000) 0x40000000)"
    by (rule below_mul [OF 2]) (simp_all add: f32_field f32_unpack_def)
  have "f32_below 0x30000000 (th2_mv acc)" unfolding th2_mv_def
    by (rule below_mul [OF 3]) (simp_all add: f32_field f32_unpack_def)
  then show ?thesis by (rule below_lt) simp
qed

lemma th2_mv_upto:
  assumes "0 \<le> acc" "acc \<le> 8191936"
  shows "f32_upto 0x457FFF80 (th2_mv acc)"
proof -
  have 0: "f32_upto 0x4AF9FF80 (f32_of_int acc)"
    using assms by (intro upto_int) (simp_all add: f32_unpack_def)
  have c: "f32_upto 0x40000000 0x40000000" "f32_upto 0x3F800000 0x3F800000"
    by (simp_all add: f32_upto_def f32_field)
  have 1: "f32_upto 0x49F9FF80 (f32_div (f32_of_int acc) 0x40800000)"
    by (rule upto_div [OF 0]) (simp_all add: f32_field f32_unpack_def)
  have 2: "f32_upto 0x44FFFF80 (f32_div (f32_div (f32_of_int acc) 0x40800000) 0x447A0000)"
    by (rule upto_div [OF 1]) (simp_all add: f32_field f32_unpack_def)
  have 3: "f32_upto 0x457FFF80 (f32_mul (f32_div (f32_div (f32_of_int acc) 0x40800000) 0x447A0000) 0x40000000)"
    by (rule upto_mul [OF 2 c(1)]) (simp_all add: f32_unpack_def)
  show ?thesis unfolding th2_mv_def
    by (rule upto_mul [OF 3 c(2)]) (simp_all add: f32_unpack_def)
qed

lemma below_to_int: "f32_below m x \<Longrightarrow> f32_to_int x \<le> 0"
  by (simp add: f32_to_int_def f32_below_def Let_def)

lemma sample_bound:
  assumes "mcp3421_read_uv i2c started reads = Some uv" "chip_range reads"
  shows "uv \<le> 2047984"
proof -
  obtain rd where poll: "mcp3421_poll 40 reads 0 = Some rd"
    and uv: "uv = f32_to_int (f32_mul (f32_of_int (mcp3421_raw rd)) 0x417A0000)"
    using assms(1) by (auto simp only: mcp3421_read_uv_def th_constants map_option_case split: option.splits if_splits)
  show ?thesis
  proof (cases "mcp3421_raw rd < 0")
    case True
    have "f32_below 0x3F800000 (f32_mul (f32_of_int (mcp3421_raw rd)) 0x417A0000)"
      by (rule below_mul [OF negative_int [OF True]]) (simp_all add: f32_field f32_unpack_def)
    then show ?thesis using below_to_int uv by fastforce
  next
    case False
    have 0: "f32_upto 0x47FFFF80 (f32_of_int (mcp3421_raw rd))"
      using False poll_in_range [OF poll assms(2)] by (intro upto_int) (simp_all add: f32_unpack_def)
    have c: "f32_upto 0x417A0000 0x417A0000" by (simp add: f32_upto_def f32_field)
    have "f32_upto 0x49F9FF83 (f32_mul (f32_of_int (mcp3421_raw rd)) 0x417A0000)"
      by (rule upto_mul [OF 0 c]) (simp_all add: f32_unpack_def)
    from upto_to_int(2) [OF this] show ?thesis unfolding uv by (simp add: f32_unpack_def)
  qed
qed

lemma sum_bound:
  "mcp3421_sum n i2c conv k acc = Some r \<Longrightarrow> (\<And>j. chip_range (snd (conv j))) \<Longrightarrow> r \<le> acc + int n * 2047984"
proof (induction n arbitrary: k acc)
  case (Suc n)
  then obtain uv where uv: "mcp3421_read_uv i2c (fst (conv k)) (snd (conv k)) = Some uv"
      "mcp3421_sum n i2c conv (Suc k) (acc + uv) = Some r" by (auto split: option.splits)
  show ?case using Suc.IH [OF uv(2) Suc.prems(2)] sample_bound [OF uv(1) Suc.prems(2)] by (simp add: algebra_simps)
qed simp

lemma th2_mv_word:
  assumes "acc \<le> 8191936"
  shows "unat (word_of_int (f32_to_int (f32_add (if f32_lt (th2_mv acc) 0 then 0 else th2_mv acc) 0x3F000000)) :: u16) \<le> 4096"
proof -
  have "f32_lt (th2_mv acc) 0 \<or> f32_upto 0x457FFF80 (th2_mv acc)"
    using th2_mv_negative [of acc] th2_mv_upto [of acc] assms by linarith
  then have "uint (word_of_int (f32_to_int (f32_add (if f32_lt (th2_mv acc) 0 then 0 else th2_mv acc) 0x3F000000)) :: u16) \<le> int 4096"
    by (rule clipped_mv [where r = "0x45800400"]) (simp_all add: f32_unpack_def)
  then show ?thesis by (simp only: unat_eq_nat_uint nat_le_iff of_nat_numeral)
qed

lemma battery2_bound:
  assumes "th_sense_read_batt i2c conv = Some (mv, soc, low)" "\<And>j. chip_range (snd (conv j))"
  shows "unat mv \<le> 4096 \<and> soc = battery_soc_pct mv \<and> low = battery_is_low mv"
proof -
  have b: "mcp3421_read_batt_mv i2c conv BATT_SAMPLES = Some mv" "soc = battery_soc_pct mv" "low = battery_is_low mv"
    using assms(1) by (auto simp: th_sense_read_batt_def split: option.splits)
  have four: "\<not> (4 :: u8) < 1" "\<not> 16 < (4 :: u8)" "unat (4 :: u8) = 4" "uint (4 :: u8) = 4" by simp_all
  obtain acc where acc: "mcp3421_sum 4 i2c conv 0 0 = Some acc"
    and mv: "mv = word_of_int (f32_to_int (f32_add (if f32_lt (th2_mv acc) 0 then 0 else th2_mv acc) 0x3F000000))"
    using b(1) by (auto simp only: mcp3421_read_batt_mv_def BATT_SAMPLES_def Let_def four if_False th_constants th2_mv_def
        split: option.splits)
  have "acc \<le> 8191936" using sum_bound [OF acc assms(2)] by simp
  then show ?thesis using th2_mv_word mv b by blast
qed

text \<open>
  C38. Whatever bytes the sensor answers, a reading lies between -45 and 130 degrees and between 0 and 100 percent
  humidity, on both revisions, which compute the same. When the battery converter delivers 18-bit results, no
  conversion to an integer overflows: the first revision reports at most 5161 mV, the second at most 4096 mV,
  with the percentage and the warning of that voltage.
\<close>

theorem measurements_in_range:
  assumes "chip_range reads" and "\<And>j. chip_range (snd (conv j))"
  shows "th_sense_read_th i2c ans = sensors_read_th i2c ans \<and>
    (case sensors_read_th i2c ans of None \<Rightarrow> True
     | Some (t, h) \<Rightarrow> f32_le (f32_of_int (- 45)) t \<and> f32_le t (f32_of_int 130) \<and> f32_le 0 h \<and> f32_le h (f32_of_int 100)) \<and>
    (case sensors_read_mcp3421_mv i2c started reads of None \<Rightarrow> True | Some mv \<Rightarrow> unat mv \<le> 5161) \<and>
    (case th_sense_read_batt i2c conv of None \<Rightarrow> True
     | Some (mv, soc, low) \<Rightarrow> unat mv \<le> 4096 \<and> soc = battery_soc_pct mv \<and> low = battery_is_low mv)"
proof (intro conjI)
  show "th_sense_read_th i2c ans = sensors_read_th i2c ans"
    by (simp add: th_sense_read_th_def sensors_read_th_def)
qed (use reading_bounds battery_bound [OF _ assms(1)] battery2_bound [OF _ assms(2)] in
  \<open>auto simp only: prod.case split: option.split prod.split\<close>)

text \<open>A full battery converter: raw value 131071.\<close>

theorem measurements_in_range_witness:
  "\<exists>mv. sensors_read_mcp3421_mv True True (\<lambda>_. Some [0x01, 0xFF, 0xFF, 0x0C]) = Some mv \<and> unat mv \<le> 5161"
proof -
  have raw: "mcp3421_raw [0x01, 0xFF, 0xFF, 0x0C] = 131071" by (simp add: mcp3421_raw_def)
  have r: "chip_range (\<lambda>_. Some [0x01, 0xFF, 0xFF, 0x0C])" "chip_range (snd ((True, \<lambda>_. Some [0x01, 0xFF, 0xFF, 0x0C])))"
    using raw by (simp_all add: chip_range_def)
  have "mcp3421_poll 40 (\<lambda>_. Some [0x01, 0xFF, 0xFF, 0x0C]) 0 = Some [0x01, 0xFF, 0xFF, 0x0C]"
    by (simp add: numeral_eq_Suc)
  then obtain mv where mv: "sensors_read_mcp3421_mv True True (\<lambda>_. Some [0x01, 0xFF, 0xFF, 0x0C]) = Some mv"
    by (simp add: sensors_read_mcp3421_mv_def Let_def)
  show ?thesis
    using measurements_in_range [OF r(1), of "\<lambda>_. (True, \<lambda>_. Some [0x01, 0xFF, 0xFF, 0x0C])" True None True, OF r(2)] mv
    by simp
qed

end
