(* ===== verification/ThCycle.thy ===== *)
theory ThCycle
  imports ThSense
begin

text \<open>What the temperature and humidity node does over many cycles, on both revisions of the board.\<close>

subsection \<open>The battery\<close>

definition ws_batt :: "ThWorld \<Rightarrow> u16 option" where
  "ws_batt w = sensors_read_mcp3421_mv (w_i2c w) (w_mcp_started w) (w_mcp w)"

definition take_batt :: "'a option \<Rightarrow> 'a \<Rightarrow> 'a" where
  "take_batt r v = (case r of None \<Rightarrow> v | Some x \<Rightarrow> x)"

definition th_after :: "ThWorld list \<Rightarrow> ThNode \<Rightarrow> ThNode" where
  "th_after ws s = fold (\<lambda>w s. fst (snd (th_measure w s))) ws s"

definition th2_after :: "nat \<Rightarrow> ThSensors list \<Rightarrow> ThRev2 \<Rightarrow> ThRev2" where
  "th2_after room qs s = fold (\<lambda>q s. fst (measureAndSend room q s)) qs s"

lemma th_measure_battery:
  "sBattMv (fst (snd (th_measure w s))) = (if sBattCtr s = 0 then take_batt (ws_batt w) (sBattMv s) else sBattMv s)"
  "unat (sBattCtr (fst (snd (th_measure w s)))) = (unat (sBattCtr s) + 1) mod 5"
proof -
  have m: "n mod 5 < (256 :: nat)" for n using mod_less_divisor [of 5 n] by linarith
  show "sBattMv (fst (snd (th_measure w s))) = (if sBattCtr s = 0 then take_batt (ws_batt w) (sBattMv s) else sBattMv s)"
    by (simp add: th_measure_def Let_def ws_batt_def take_batt_def split: option.split)
  show "unat (sBattCtr (fst (snd (th_measure w s)))) = (unat (sBattCtr s) + 1) mod 5"
    using m by (simp add: th_measure_def Let_def NODE_BATT_EVERY_def unat_of_nat split: option.split)
qed

lemma measure2_battery:
  "(t2_battMv (fst (measureAndSend room q s)), sSocPct (fst (measureAndSend room q s))) =
     (if t2_battCtr s = 0
      then take_batt (map_option (\<lambda>(mv, soc, low). (mv, soc)) (th_sense_read_batt (q_i2c q) (q_conv q))) (t2_battMv s, sSocPct s)
      else (t2_battMv s, sSocPct s))"
  "unat (t2_battCtr (fst (measureAndSend room q s))) = (unat (t2_battCtr s) + 1) mod 5"
proof -
  have m: "n mod 5 < (256 :: nat)" for n using mod_less_divisor [of 5 n] by linarith
  show "(t2_battMv (fst (measureAndSend room q s)), sSocPct (fst (measureAndSend room q s))) =
     (if t2_battCtr s = 0
      then take_batt (map_option (\<lambda>(mv, soc, low). (mv, soc)) (th_sense_read_batt (q_i2c q) (q_conv q))) (t2_battMv s, sSocPct s)
      else (t2_battMv s, sSocPct s))"
    by (auto simp: measureAndSend_def Let_def take_batt_def split: option.split)
  show "unat (t2_battCtr (fst (measureAndSend room q s))) = (unat (t2_battCtr s) + 1) mod 5"
    using m by (auto simp: measureAndSend_def Let_def unat_of_nat split: option.split)
qed

text \<open>Any counter that runs modulo five and lets a reading through at zero.\<close>

lemma every_fifth:
  assumes step: "\<And>x s. v (f x s) = (if c s = (0 :: nat) then take_batt (r x) (v s) else v s)" "\<And>x s. c (f x s) = (c s + 1) mod 5"
    and init: "c s = 0"
  shows "v (fold f xs s) = fold (\<lambda>i. take_batt (r (xs ! i))) (filter (\<lambda>i. 5 dvd i) [0..<length xs]) (v s) \<and>
    c (fold f xs s) = length xs mod 5"
proof (induction xs rule: rev_induct)
  case (snoc x xs)
  have e: "fold (\<lambda>i. take_batt (r ((xs @ [x]) ! i))) (filter (\<lambda>i. 5 dvd i) [0..<length xs]) (v s) =
      fold (\<lambda>i. take_batt (r (xs ! i))) (filter (\<lambda>i. 5 dvd i) [0..<length xs]) (v s)"
    by (rule fold_cong) (auto simp: nth_append)
  have d: "c (fold f xs s) = 0 \<longleftrightarrow> 5 dvd length xs" using snoc.IH by (simp add: dvd_eq_mod_eq_0)
  show ?case using snoc.IH d e step by (simp add: mod_Suc_eq)
qed (simp add: init)

text \<open>
  The battery is measured in the first cycle and in every fifth after it, and in between the last result is
  reported: after any number of cycles from the start of streaming, the voltage held is the one of the latest
  successful conversion among the cycles 0, 5, 10 and so on, on the first revision; on the second also the
  percentage.
\<close>

theorem battery_read_every_fifth_cycle:
  assumes "sBattCtr s = 0" and "t2_battCtr s2 = 0"
  shows "sBattMv (th_after ws s) =
      fold (\<lambda>i. take_batt (ws_batt (ws ! i))) (filter (\<lambda>i. 5 dvd i) [0..<length ws]) (sBattMv s) \<and>
    (t2_battMv (th2_after room qs s2), sSocPct (th2_after room qs s2)) =
      fold (\<lambda>i. take_batt (map_option (\<lambda>(mv, soc, low). (mv, soc)) (th_sense_read_batt (q_i2c (qs ! i)) (q_conv (qs ! i)))))
        (filter (\<lambda>i. 5 dvd i) [0..<length qs]) (t2_battMv s2, sSocPct s2)"
proof
  show "sBattMv (th_after ws s) =
      fold (\<lambda>i. take_batt (ws_batt (ws ! i))) (filter (\<lambda>i. 5 dvd i) [0..<length ws]) (sBattMv s)"
    unfolding th_after_def
    by (rule conjunct1, rule every_fifth [where c = "\<lambda>s. unat (sBattCtr s)"])
      (use assms(1) in \<open>simp_all add: th_measure_battery unat_eq_0\<close>)
  show "(t2_battMv (th2_after room qs s2), sSocPct (th2_after room qs s2)) =
      fold (\<lambda>i. take_batt (map_option (\<lambda>(mv, soc, low). (mv, soc)) (th_sense_read_batt (q_i2c (qs ! i)) (q_conv (qs ! i)))))
        (filter (\<lambda>i. 5 dvd i) [0..<length qs]) (t2_battMv s2, sSocPct s2)"
    unfolding th2_after_def
    by (rule conjunct1, rule every_fifth [where c = "\<lambda>s. unat (t2_battCtr s)" and v = "\<lambda>s. (t2_battMv s, sSocPct s)"])
      (use assms(2) in \<open>simp_all only: measure2_battery unat_eq_0 unat_0\<close>)
qed

text \<open>An empty battery that is measured in the sixth cycle is noticed there, one that only answers in the fifth is not.\<close>

definition empty_world :: ThWorld where
  "empty_world = demo_world\<lparr> w_mcp_started := True, w_mcp := (\<lambda>_. Some [0, 0, 0, 0]) \<rparr>"

definition demo_th2 :: ThRev2 where
  "demo_th2 = \<lparr> t2_identity = \<lparr> gNodeAddress = 0x21, gFactoryId = demo_fid, sNvs = True, id_flash = [] \<rparr>,
     t2_radioQueue = [], t2_battMv = 0, sSocPct = 0, t2_battCtr = 0 \<rparr>"

lemma demo_batteries: "ws_batt demo_world = None" "ws_batt empty_world = Some 0"
proof -
  show "ws_batt demo_world = None" by (simp add: ws_batt_def demo_world_def sensors_read_mcp3421_mv_def)
  have p: "mcp3421_poll 40 (\<lambda>_. Some [0, 0, 0, 0]) 0 = Some [0, 0, 0, 0]" by (simp add: numeral_eq_Suc)
  have z: "mcp3421_raw [0, 0, 0, 0] = 0" by (simp add: mcp3421_raw_def)
  have f: "f32_mul (f32_mul (f32_div (f32_mul (f32_of_int 0) 0x417A0000) 0x447A0000) 0x40000000) 0x3FA14120 = 0"
    "f32_to_int (f32_add 0 0x3F000000) = 0"
    by (simp_all add: f32_eval)
  show "ws_batt empty_world = Some 0"
    by (simp add: ws_batt_def empty_world_def demo_world_def sensors_read_mcp3421_mv_def p z th_constants Let_def f)
qed

theorem battery_read_every_fifth_cycle_witness:
  "sBattMv (th_after [demo_world, demo_world, demo_world, demo_world, demo_world, empty_world] (demo_th\<lparr> sBattCtr := 0 \<rparr>)) = 0 \<and>
   sBattMv (th_after [demo_world, demo_world, demo_world, demo_world, empty_world, demo_world] (demo_th\<lparr> sBattCtr := 0 \<rparr>)) = 3000"
proof -
  have i: "filter (\<lambda>i. 5 dvd i) [0..<6] = [0, 5 :: nat]" by code_simp
  have c: "sBattCtr (demo_th\<lparr> sBattCtr := 0 \<rparr>) = 0" "t2_battCtr demo_th2 = 0" by (simp_all add: demo_th2_def)
  note T = battery_read_every_fifth_cycle [OF c, THEN conjunct1]
  have n: "length [a, b, c, d, e, f :: ThWorld] = 6" for a b c d e f by simp
  show ?thesis unfolding T n i
    by (simp add: demo_batteries take_batt_def demo_th_def)
qed

subsection \<open>Provisioning of the second revision\<close>

text \<open>A turn brings no acceptance; the effects it has while the node is silent.\<close>

definition plain_item :: "ThSensors \<times> bool \<times> u8 list \<Rightarrow> bool" where
  "plain_item c \<longleftrightarrow> (case c of (q, w, item) \<Rightarrow> 4 \<le> length item \<and> length item \<le> 44 \<and> item ! 2 \<noteq> CMD_JOIN_ACCEPT)"

definition no_accept :: "Th2Turn \<Rightarrow> bool" where
  "no_accept t \<longleftrightarrow> wf_msg (tt_old t) \<and> (case tt_commands t of None \<Rightarrow> True | Some cs \<Rightarrow> list_all plain_item cs)"

definition silent :: "ThRev2 \<Rightarrow> bool" where
  "silent s \<longleftrightarrow> gNodeAddress (t2_identity s) = 0xFF"

lemma item_command:
  "wf_msg old \<Longrightarrow> 4 \<le> length item \<Longrightarrow> length item \<le> 44 \<Longrightarrow>
     m_cmd (node_mq_receive item old) = item ! 2 \<and> wf_msg (node_mq_receive item old)"
  by (simp add: node_mq_receive_def msg_of_bytes_def wf_msg_def blit_def nth_append)

lemma persist_address: "gNodeAddress (snd (th_identity_persist w i)) = gNodeAddress i"
  by (simp add: th_identity_persist_def identity_persist_def Let_def)

lemma measure_silent:
  "silent s \<Longrightarrow> silent (fst (measureAndSend room q s)) \<and> t2_radioQueue (fst (measureAndSend room q s)) = t2_radioQueue s \<and>
     snd (measureAndSend room q s) = [PeriphEn True, PeriphEn False]"
  by (auto simp: measureAndSend_def silent_def Let_def split: option.split)

lemma command_silent:
  "silent s \<Longrightarrow> m_cmd cmd \<noteq> 5 \<Longrightarrow> silent (fst (handleCommand room q w cmd s)) \<and>
     t2_radioQueue (fst (handleCommand room q w cmd s)) = t2_radioQueue s \<and> snd (handleCommand room q w cmd s) = []"
  by (simp add: handleCommand_def silent_def Let_def persist_address)

lemma commands_silent:
  "silent s \<Longrightarrow> wf_msg old \<Longrightarrow> list_all plain_item cs \<Longrightarrow>
     silent (fst (handle_commands room old cs s)) \<and> t2_radioQueue (fst (handle_commands room old cs s)) = t2_radioQueue s \<and>
     snd (handle_commands room old cs s) = []"
proof (induction cs arbitrary: s old)
  case (Cons c cs)
  obtain q w item where c: "c = (q, w, item)" by (metis prod_cases3)
  have m: "m_cmd (node_mq_receive item old) \<noteq> 5" "wf_msg (node_mq_receive item old)"
    using item_command [of old item] Cons.prems by (auto simp: c plain_item_def)
  obtain s1 fx where s1: "handleCommand room q w (node_mq_receive item old) s = (s1, fx)" by fastforce
  show ?case using command_silent [OF Cons.prems(1) m(1), of room q w] Cons.IH [OF _ m(2)] Cons.prems(3)
    by (auto simp: c s1 Let_def split: prod.split)
qed simp

lemma turn_silent:
  assumes "silent s" "no_accept t"
  shows "silent (fst (thSensorTaskFunction room t s)) \<and> t2_radioQueue (fst (thSensorTaskFunction room t s)) = t2_radioQueue s \<and>
    snd (thSensorTaskFunction room t s) = (if tt_measure t = None then [] else [PeriphEn True, PeriphEn False])"
proof -
  obtain s1 fx where s1: "(case tt_measure t of Some q \<Rightarrow> measureAndSend room q s | None \<Rightarrow> (s, [])) = (s1, fx)" by fastforce
  have 1: "silent s1 \<and> t2_radioQueue s1 = t2_radioQueue s \<and> fx = (if tt_measure t = None then [] else [PeriphEn True, PeriphEn False])"
  proof (cases "tt_measure t")
    case (Some q)
    then show ?thesis using s1 measure_silent [OF assms(1), of room q] by simp
  qed (use s1 assms(1) in auto)
  then show ?thesis using assms(2) commands_silent [of s1 "tt_old t" _ room]
    by (cases "tt_commands t") (simp_all add: thSensorTaskFunction_def s1 no_accept_def case_prod_beta)
qed

lemma run_silent:
  "silent s \<Longrightarrow> list_all no_accept ts \<Longrightarrow> silent (fst (th2_run room ts s)) \<and> t2_radioQueue (fst (th2_run room ts s)) = t2_radioQueue s \<and>
     snd (th2_run room ts s) = concat (map (\<lambda>t. if tt_measure t = None then [] else [PeriphEn True, PeriphEn False]) ts)"
proof (induction ts arbitrary: s)
  case (Cons t ts)
  obtain s1 fx where s1: "thSensorTaskFunction room t s = (s1, fx)" by fastforce
  show ?case using turn_silent [OF Cons.prems(1), of t room] Cons.prems(2) Cons.IH [of s1]
    by (auto simp: s1 Let_def split: prod.split)
qed simp

text \<open>
  C14. A node of the second revision that is told to leave erases its address, and whatever happens then except an
  acceptance, it hands nothing to the radio task, goes on powering the sensors only for each measurement, and
  starts unprovisioned after a reset. An acceptance makes it adopt the address, store it and, when the sensor
  answers, report at once under that address with a battery that was just measured.
\<close>

theorem second_revision_provisioning:
  assumes "m_cmd leave = 6 \<or> m_cmd leave = 7" and "list_all no_accept ts"
    and "m_cmd accept = 5" and "sensors_read_th (q_i2c q) (q_sht q) = Some th"
    and "sNvs (t2_identity s)" and "length (t2_radioQueue s) < room"
  defines "a \<equiv> joinAcceptData_assigned_addr accept"
  assumes a: "a \<noteq> 0xFF"
  shows "(case handleCommand room q True leave s of (s1, fx) \<Rightarrow> (case th2_run room ts s1 of (s2, fx') \<Rightarrow>
      t2_radioQueue s2 = t2_radioQueue s \<and> silent s2 \<and>
      fx @ fx' = concat (map (\<lambda>t. if tt_measure t = None then [] else [PeriphEn True, PeriphEn False]) ts) \<and>
      gNodeAddress (th_identity_init lo hi True True (t2_identity s1)) = 0xFF)) \<and>
    (case handleCommand room q True accept s of (s1, fx) \<Rightarrow>
      gNodeAddress (t2_identity s1) = a \<and>
      gNodeAddress (th_identity_init lo hi True True (t2_identity s1)) = (if pool_or_none a then a else 0xFF) \<and>
      fx = [PeriphEn True, PeriphEn False, SendPacketEvent] \<and>
      t2_radioQueue s1 = t2_radioQueue s @ [sent_bytes (th2_telemetry a th
        (fst (take_batt (map_option (\<lambda>(mv, soc, low). (mv, soc)) (th_sense_read_batt (q_i2c q) (q_conv q))) (t2_battMv s, sSocPct s)))
        (snd (take_batt (map_option (\<lambda>(mv, soc, low). (mv, soc)) (th_sense_read_batt (q_i2c q) (q_conv q))) (t2_battMv s, sSocPct s))))])"
proof
  obtain s1 fx where s1: "handleCommand room q True leave s = (s1, fx)" by fastforce
  have 1: "silent s1" "t2_radioQueue s1 = t2_radioQueue s" "fx = []"
    "t2_identity s1 = snd (th_identity_persist True ((t2_identity s)\<lparr> gNodeAddress := 0xFF \<rparr>))"
    using s1 assms(1) by (auto simp: handleCommand_def silent_def Let_def persist_address)
  have i: "t2_identity s1 = snd (th_identity_persist True ((t2_identity s)\<lparr> gNodeAddress := 0xFF, sNvs := True \<rparr>))"
    using 1(4) assms(5) by (simp add: th_identity_persist_def identity_persist_def)
  have "gNodeAddress (th_identity_init lo hi True True (t2_identity s1)) = 0xFF"
    using init_after_persist [of TH_IDENTITY_MAGIC lo hi TH_IDENTITY_MAGIC "(t2_identity s)\<lparr> gNodeAddress := 0xFF \<rparr>"] i
    by (simp add: th_identity_init_def th_identity_persist_def)
  then show "case handleCommand room q True leave s of (s1, fx) \<Rightarrow> (case th2_run room ts s1 of (s2, fx') \<Rightarrow>
      t2_radioQueue s2 = t2_radioQueue s \<and> silent s2 \<and>
      fx @ fx' = concat (map (\<lambda>t. if tt_measure t = None then [] else [PeriphEn True, PeriphEn False]) ts) \<and>
      gNodeAddress (th_identity_init lo hi True True (t2_identity s1)) = 0xFF)"
    using run_silent [OF 1(1) assms(2), of room] 1(2,3) by (auto simp: s1)
next
  let ?s = "s\<lparr> t2_identity := snd (th_identity_persist True ((t2_identity s)\<lparr> gNodeAddress := a \<rparr>)), t2_battCtr := 0 \<rparr>"
  have h: "handleCommand room q True accept s = measureAndSend room q ?s"
    using assms(3) by (simp add: handleCommand_def a_def)
  have i: "t2_identity ?s = snd (th_identity_persist True ((t2_identity s)\<lparr> gNodeAddress := a, sNvs := True \<rparr>))"
    using assms(5) by (simp add: th_identity_persist_def identity_persist_def)
  have load: "gNodeAddress (th_identity_init lo hi True True (t2_identity ?s)) = (if pool_or_none a then a else 0xFF)"
    using init_after_persist [of TH_IDENTITY_MAGIC lo hi TH_IDENTITY_MAGIC "(t2_identity s)\<lparr> gNodeAddress := a \<rparr>"] i
    by (simp add: th_identity_init_def th_identity_persist_def)
  have addr: "gNodeAddress (t2_identity ?s) = a" by (simp add: persist_address)
  have th: "th_sense_read_th (q_i2c q) (q_sht q) = Some th"
    using assms(4) by (simp add: th_sense_read_th_def sensors_read_th_def)
  show "case handleCommand room q True accept s of (s1, fx) \<Rightarrow>
      gNodeAddress (t2_identity s1) = a \<and>
      gNodeAddress (th_identity_init lo hi True True (t2_identity s1)) = (if pool_or_none a then a else 0xFF) \<and>
      fx = [PeriphEn True, PeriphEn False, SendPacketEvent] \<and>
      t2_radioQueue s1 = t2_radioQueue s @ [sent_bytes (th2_telemetry a th
        (fst (take_batt (map_option (\<lambda>(mv, soc, low). (mv, soc)) (th_sense_read_batt (q_i2c q) (q_conv q))) (t2_battMv s, sSocPct s)))
        (snd (take_batt (map_option (\<lambda>(mv, soc, low). (mv, soc)) (th_sense_read_batt (q_i2c q) (q_conv q))) (t2_battMv s, sSocPct s))))]"
    unfolding h using load addr th assms(6) a
    by (cases "th_sense_read_batt (q_i2c q) (q_conv q)")
      (auto simp: measureAndSend_def Let_def take_batt_def sent_bytes_def)
qed

text \<open>A node at 0x21 is removed, then accepted at 0x33.\<close>

theorem second_revision_provisioning_witness:
  "\<exists>v. (case handleCommand 1 \<lparr> q_i2c = True, q_sht = Some [0x66, 0x66, 0, 0x80, 0, 0], q_conv = (\<lambda>_. (False, \<lambda>_. None)) \<rparr> True
        (msg_zero\<lparr> m_cmd := 5, m_payload := demo_fid @ [0x33] @ replicate 31 0 \<rparr>) demo_th2 of (s1, fx) \<Rightarrow>
      gNodeAddress (t2_identity s1) = 0x33 \<and> t2_radioQueue s1 = [sent_bytes (th2_telemetry 0x33 v 0 0)])"
proof -
  let ?q = "\<lparr> q_i2c = True, q_sht = Some [0x66, 0x66, 0, 0x80, 0, 0], q_conv = (\<lambda>_. (False, \<lambda>_. None)) \<rparr>"
  let ?accept = "msg_zero\<lparr> m_cmd := 5, m_payload := demo_fid @ [0x33] @ replicate 31 0 \<rparr>"
  obtain v where v: "sensors_read_th (q_i2c ?q) (q_sht ?q) = Some v" by (simp add: sensors_read_th_def Let_def)
  have c: "m_cmd (msg_zero\<lparr> m_cmd := 6 \<rparr>) = 6 \<or> m_cmd (msg_zero\<lparr> m_cmd := 6 \<rparr>) = 7" "list_all no_accept []" "m_cmd ?accept = 5"
    "sNvs (t2_identity demo_th2)" "length (t2_radioQueue demo_th2) < 1" "joinAcceptData_assigned_addr ?accept \<noteq> 0xFF"
    "joinAcceptData_assigned_addr ?accept = 0x33" "t2_radioQueue demo_th2 = []" "t2_battMv demo_th2 = 0" "sSocPct demo_th2 = 0"
    by (simp_all add: demo_th2_def joinAcceptData_assigned_addr_def demo_fid_def)
  have b: "th_sense_read_batt (q_i2c ?q) (q_conv ?q) = None"
  proof -
    have "mcp3421_sum 4 True (\<lambda>_. (False, \<lambda>_. None)) 0 0 = None" by (simp add: numeral_eq_Suc mcp3421_read_uv_def)
    then show ?thesis by (simp add: th_sense_read_batt_def mcp3421_read_batt_mv_def BATT_SAMPLES_def)
  qed
  show ?thesis
    using second_revision_provisioning [OF c(1-3) v c(4-6), of 0 0, THEN conjunct2] unfolding b c(7-10)
    by (intro exI [of _ v]) (auto simp: take_batt_def)
qed

end
