(* ===== verification/RfSettings.thy ===== *)
theory RfSettings
  imports Prelude
begin

text \<open>
  The radio settings of the three CC1310 programs (\<open>smartrf_settings.c\<close>, one copy in each of them): the commands for
  the radio core as the files initialise them, field by field, and the list of register overrides. A command starts
  with the fields every radio operation has; the bit fields of the source are records of their own.
\<close>

subsection \<open>The commands\<close>

text \<open>A pointer is null, names an object of the program, or stands for the bytes it points to.\<close>

datatype rf_ptr = RfNull | RfObj string | RfBuf "u8 list"

record RfTrigger =
  triggerType :: nat
  bEnaCmd :: nat
  triggerNo :: nat
  pastTrig :: nat

record RfCondition =
  cond_rule :: nat
  nSkip :: nat

record RfModulation =
  modType :: nat
  deviation :: nat

record RfSymbolRate =
  preScale :: nat
  rateWord :: nat
  decimMode :: nat

record RfPreamble =
  nPreamBytes :: nat
  preamMode :: nat

record RfFormat =
  nSwBits :: nat
  bBitReversal :: nat
  bMsbFirst :: nat
  fecMode :: nat
  whitenMode :: nat

record RfFrontEnd =
  frontEndMode :: nat
  biasMode :: nat
  analogCfgMode :: nat
  bNoFsPowerUp :: nat

record RfSynth =
  bTxMode :: nat
  refFreq :: nat

record RfTxPktConf =
  tx_bFsOff :: nat
  tx_bUseCrc :: nat
  tx_bVarLen :: nat

record RfRxPktConf =
  rx_bFsOff :: nat
  bRepeatOk :: nat
  bRepeatNok :: nat
  rx_bUseCrc :: nat
  rx_bVarLen :: nat
  bChkAddress :: nat
  endType :: nat
  filterOp :: nat

record RfRxConf =
  bAutoFlushIgnored :: nat
  bAutoFlushCrcErr :: nat
  bIncludeHdr :: nat
  bIncludeCrc :: nat
  bAppendRssi :: nat
  bAppendTimestamp :: nat
  bAppendStatus :: nat

record RfTestConf =
  bUseCw :: nat
  tt_bFsOff :: nat
  tt_whitenMode :: nat

record RfOp =
  commandNo :: nat
  op_status :: nat
  pNextOp :: rf_ptr
  startTime :: nat
  startTrigger :: RfTrigger
  condition :: RfCondition

record CmdRadioDivSetup = RfOp +
  modulation :: RfModulation
  symbolRate :: RfSymbolRate
  rxBw :: nat
  preamConf :: RfPreamble
  formatConf :: RfFormat
  frontEnd :: RfFrontEnd
  txPower :: nat
  pRegOverride :: rf_ptr
  centerFreq :: nat
  intFreq :: nat
  loDivider :: nat

record CmdFs = RfOp +
  frequency :: nat
  fractFreq :: nat
  synthConf :: RfSynth
  fs_dummy0 :: nat
  fs_dummy1 :: nat
  fs_dummy2 :: nat
  fs_dummy3 :: nat

record CmdPropTx = RfOp +
  txPktConf :: RfTxPktConf
  pktLen :: u8
  txSyncWord :: nat
  pPkt :: rf_ptr

record CmdPropRx = RfOp +
  rxPktConf :: RfRxPktConf
  rxConf :: RfRxConf
  rxSyncWord :: nat
  maxPktLen :: u8
  address0 :: nat
  address1 :: nat
  endTrigger :: RfTrigger
  endTime :: nat
  pQueue :: rf_ptr
  pOutput :: rf_ptr

record CmdTxTest = RfOp +
  testConf :: RfTestConf
  tt_dummy0 :: nat
  txWord :: nat
  tt_dummy1 :: nat
  tt_endTrigger :: RfTrigger
  tt_syncWord :: nat
  tt_endTime :: nat

text \<open>The patches of the radio core are functions of the vendor's library, kept by name.\<close>

record RfMode =
  rfMode :: string
  cpePatchFxn :: rf_ptr
  mcePatchFxn :: rf_ptr
  rfePatchFxn :: rf_ptr

text \<open>The overrides: the macros of the vendor's library with their arguments, and plain words.\<close>

datatype rf_override =
    MCE_RFE_OVERRIDE nat nat nat nat nat nat
  | HW_REG_OVERRIDE nat nat
  | ADI_REG_OVERRIDE nat nat nat
  | ADI_HALFREG_OVERRIDE nat nat nat nat
  | OverrideWord u32

subsection \<open>The settings of the concentrator\<close>

definition gw_RF_prop :: RfMode where
  "gw_RF_prop = \<lparr> rfMode = ''RF_MODE_PROPRIETARY_SUB_1'', cpePatchFxn = RfObj ''rf_patch_cpe_genfsk'',
     mcePatchFxn = RfNull, rfePatchFxn = RfObj ''rf_patch_rfe_genfsk'' \<rparr>"

definition gw_pOverrides :: "bool \<Rightarrow> rf_override list" where
  "gw_pOverrides CCFG_FORCE_VDDR_HH =
     [MCE_RFE_OVERRIDE 0 4 0 1 0 0, HW_REG_OVERRIDE 0x4038 0x0037, OverrideWord 0x000684A3, 
      HW_REG_OVERRIDE 0x4020 0x7F00, HW_REG_OVERRIDE 0x4064 0x0040, OverrideWord 0xB1070503, 
      OverrideWord 0x05330523, OverrideWord 0x0A480583, OverrideWord 0x7AB80603, 
      ADI_REG_OVERRIDE 1 4 0x9F, ADI_HALFREG_OVERRIDE 1 7 0x4 0x4, OverrideWord 0x02010403, 
      OverrideWord 0x00108463, OverrideWord 0x04B00243, ADI_HALFREG_OVERRIDE 0 61 0xF 0xD, 
      OverrideWord 0x00038883, HW_REG_OVERRIDE 0x6084 0x35F1, HW_REG_OVERRIDE 0x6088 0x411A, 
      HW_REG_OVERRIDE 0x608C 0x8213, OverrideWord 0x00FB88A3] @
     (if CCFG_FORCE_VDDR_HH then [ADI_REG_OVERRIDE 0 12 0xF8] else []) @
     [OverrideWord 0xFFFFFFFF]"

definition gw_RF_cmdPropRadioDivSetup :: CmdRadioDivSetup where
  "gw_RF_cmdPropRadioDivSetup = \<lparr>
     commandNo = 0x3807, op_status = 0x0000, pNextOp = RfNull, startTime = 0x00000000,
     startTrigger = \<lparr> triggerType = 0x0, bEnaCmd = 0x0, triggerNo = 0x0, pastTrig = 0x0 \<rparr>,
     condition = \<lparr> cond_rule = 0x1, nSkip = 0x0 \<rparr>,
     modulation = \<lparr> modType = 0x1, deviation = 0x64 \<rparr>,
     symbolRate = \<lparr> preScale = 0xF, rateWord = 0x8000, decimMode = 0x0 \<rparr>, rxBw = 0x24,
     preamConf = \<lparr> nPreamBytes = 0x4, preamMode = 0x0 \<rparr>,
     formatConf = \<lparr> nSwBits = 0x20, bBitReversal = 0x0, bMsbFirst = 0x1, fecMode = 0x0, whitenMode = 0x0 \<rparr>,
     frontEnd = \<lparr> frontEndMode = 0x0, biasMode = 0x1, analogCfgMode = 0x0, bNoFsPowerUp = 0x0 \<rparr>,
     txPower = 0xA73F, pRegOverride = RfObj ''pOverrides'', centerFreq = 0x0364, intFreq = 0x8000,
     loDivider = 0x05 \<rparr>"

definition gw_RF_cmdFs :: CmdFs where
  "gw_RF_cmdFs = \<lparr>
     commandNo = 0x0803, op_status = 0x0000, pNextOp = RfNull, startTime = 0x00000000,
     startTrigger = \<lparr> triggerType = 0x0, bEnaCmd = 0x0, triggerNo = 0x0, pastTrig = 0x0 \<rparr>,
     condition = \<lparr> cond_rule = 0x1, nSkip = 0x0 \<rparr>, frequency = 0x0364, fractFreq = 0x0000,
     synthConf = \<lparr> bTxMode = 0x0, refFreq = 0x0 \<rparr>, fs_dummy0 = 0x00, fs_dummy1 = 0x00,
     fs_dummy2 = 0x00, fs_dummy3 = 0x0000 \<rparr>"

definition gw_RF_cmdPropTx :: CmdPropTx where
  "gw_RF_cmdPropTx = \<lparr>
     commandNo = 0x3801, op_status = 0x0000, pNextOp = RfNull, startTime = 0x00000000,
     startTrigger = \<lparr> triggerType = 0x0, bEnaCmd = 0x0, triggerNo = 0x0, pastTrig = 0x0 \<rparr>,
     condition = \<lparr> cond_rule = 0x1, nSkip = 0x0 \<rparr>,
     txPktConf = \<lparr> tx_bFsOff = 0x0, tx_bUseCrc = 0x1, tx_bVarLen = 0x1 \<rparr>, pktLen = 0x1E,
     txSyncWord = 0x930B51DE, pPkt = RfNull \<rparr>"

definition gw_RF_cmdPropRx :: CmdPropRx where
  "gw_RF_cmdPropRx = \<lparr>
     commandNo = 0x3802, op_status = 0x0000, pNextOp = RfNull, startTime = 0x00000000,
     startTrigger = \<lparr> triggerType = 0x0, bEnaCmd = 0x0, triggerNo = 0x0, pastTrig = 0x0 \<rparr>,
     condition = \<lparr> cond_rule = 0x1, nSkip = 0x0 \<rparr>,
     rxPktConf = \<lparr> rx_bFsOff = 0x0, bRepeatOk = 0x0, bRepeatNok = 0x0, rx_bUseCrc = 0x1, rx_bVarLen = 0x1, bChkAddress = 0x0, endType = 0x0, filterOp = 0x0 \<rparr>,
     rxConf = \<lparr> bAutoFlushIgnored = 0x0, bAutoFlushCrcErr = 0x0, bIncludeHdr = 0x1, bIncludeCrc = 0x0, bAppendRssi = 0x0, bAppendTimestamp = 0x0, bAppendStatus = 0x1 \<rparr>,
     rxSyncWord = 0x930B51DE, maxPktLen = 0xFF, address0 = 0xAA, address1 = 0xBB,
     endTrigger = \<lparr> triggerType = 0x1, bEnaCmd = 0x0, triggerNo = 0x0, pastTrig = 0x0 \<rparr>,
     endTime = 0x00000000, pQueue = RfNull, pOutput = RfNull \<rparr>"

definition gw_RF_cmdTxTest :: CmdTxTest where
  "gw_RF_cmdTxTest = \<lparr>
     commandNo = 0x0808, op_status = 0x0000, pNextOp = RfNull, startTime = 0x00000000,
     startTrigger = \<lparr> triggerType = 0x0, bEnaCmd = 0x0, triggerNo = 0x0, pastTrig = 0x0 \<rparr>,
     condition = \<lparr> cond_rule = 0x1, nSkip = 0x0 \<rparr>,
     testConf = \<lparr> bUseCw = 0x0, tt_bFsOff = 0x1, tt_whitenMode = 0x2 \<rparr>, tt_dummy0 = 0x00,
     txWord = 0xABCD, tt_dummy1 = 0x00,
     tt_endTrigger = \<lparr> triggerType = 0x1, bEnaCmd = 0x0, triggerNo = 0x0, pastTrig = 0x0 \<rparr>,
     tt_syncWord = 0x930B51DE, tt_endTime = 0x00000000 \<rparr>"

subsection \<open>The settings of the solar node\<close>

definition sc_RF_prop :: RfMode where
  "sc_RF_prop = \<lparr> rfMode = ''RF_MODE_PROPRIETARY_SUB_1'', cpePatchFxn = RfObj ''rf_patch_cpe_genfsk'',
     mcePatchFxn = RfNull, rfePatchFxn = RfObj ''rf_patch_rfe_genfsk'' \<rparr>"

definition sc_pOverrides :: "bool \<Rightarrow> rf_override list" where
  "sc_pOverrides CCFG_FORCE_VDDR_HH =
     [MCE_RFE_OVERRIDE 0 4 0 1 0 0, HW_REG_OVERRIDE 0x4038 0x0037, OverrideWord 0x000684A3, 
      HW_REG_OVERRIDE 0x4020 0x7F00, HW_REG_OVERRIDE 0x4064 0x0040, OverrideWord 0xB1070503, 
      OverrideWord 0x05330523, OverrideWord 0x0A480583, OverrideWord 0x7AB80603, 
      ADI_REG_OVERRIDE 1 4 0x9F, ADI_HALFREG_OVERRIDE 1 7 0x4 0x4, OverrideWord 0x02010403, 
      OverrideWord 0x00108463, OverrideWord 0x04B00243, ADI_HALFREG_OVERRIDE 0 61 0xF 0xD, 
      OverrideWord 0x00038883, HW_REG_OVERRIDE 0x6084 0x35F1, HW_REG_OVERRIDE 0x6088 0x411A, 
      HW_REG_OVERRIDE 0x608C 0x8213, OverrideWord 0x00FB88A3] @
     (if CCFG_FORCE_VDDR_HH then [ADI_REG_OVERRIDE 0 12 0xF8] else []) @
     [OverrideWord 0xFFFFFFFF]"

definition sc_RF_cmdPropRadioDivSetup :: CmdRadioDivSetup where
  "sc_RF_cmdPropRadioDivSetup = \<lparr>
     commandNo = 0x3807, op_status = 0x0000, pNextOp = RfNull, startTime = 0x00000000,
     startTrigger = \<lparr> triggerType = 0x0, bEnaCmd = 0x0, triggerNo = 0x0, pastTrig = 0x0 \<rparr>,
     condition = \<lparr> cond_rule = 0x1, nSkip = 0x0 \<rparr>,
     modulation = \<lparr> modType = 0x1, deviation = 0x64 \<rparr>,
     symbolRate = \<lparr> preScale = 0xF, rateWord = 0x8000, decimMode = 0x0 \<rparr>, rxBw = 0x24,
     preamConf = \<lparr> nPreamBytes = 0x4, preamMode = 0x0 \<rparr>,
     formatConf = \<lparr> nSwBits = 0x20, bBitReversal = 0x0, bMsbFirst = 0x1, fecMode = 0x0, whitenMode = 0x0 \<rparr>,
     frontEnd = \<lparr> frontEndMode = 0x0, biasMode = 0x1, analogCfgMode = 0x0, bNoFsPowerUp = 0x0 \<rparr>,
     txPower = 0xA73F, pRegOverride = RfObj ''pOverrides'', centerFreq = 0x0364, intFreq = 0x8000,
     loDivider = 0x05 \<rparr>"

definition sc_RF_cmdFs :: CmdFs where
  "sc_RF_cmdFs = \<lparr>
     commandNo = 0x0803, op_status = 0x0000, pNextOp = RfNull, startTime = 0x00000000,
     startTrigger = \<lparr> triggerType = 0x0, bEnaCmd = 0x0, triggerNo = 0x0, pastTrig = 0x0 \<rparr>,
     condition = \<lparr> cond_rule = 0x1, nSkip = 0x0 \<rparr>, frequency = 0x0364, fractFreq = 0x0000,
     synthConf = \<lparr> bTxMode = 0x0, refFreq = 0x0 \<rparr>, fs_dummy0 = 0x00, fs_dummy1 = 0x00,
     fs_dummy2 = 0x00, fs_dummy3 = 0x0000 \<rparr>"

definition sc_RF_cmdPropTx :: CmdPropTx where
  "sc_RF_cmdPropTx = \<lparr>
     commandNo = 0x3801, op_status = 0x0000, pNextOp = RfNull, startTime = 0x00000000,
     startTrigger = \<lparr> triggerType = 0x0, bEnaCmd = 0x0, triggerNo = 0x0, pastTrig = 0x0 \<rparr>,
     condition = \<lparr> cond_rule = 0x1, nSkip = 0x0 \<rparr>,
     txPktConf = \<lparr> tx_bFsOff = 0x0, tx_bUseCrc = 0x1, tx_bVarLen = 0x1 \<rparr>, pktLen = 0x1E,
     txSyncWord = 0x930B51DE, pPkt = RfNull \<rparr>"

definition sc_RF_cmdPropRx :: CmdPropRx where
  "sc_RF_cmdPropRx = \<lparr>
     commandNo = 0x3802, op_status = 0x0000, pNextOp = RfNull, startTime = 0x00000000,
     startTrigger = \<lparr> triggerType = 0x0, bEnaCmd = 0x0, triggerNo = 0x0, pastTrig = 0x0 \<rparr>,
     condition = \<lparr> cond_rule = 0x1, nSkip = 0x0 \<rparr>,
     rxPktConf = \<lparr> rx_bFsOff = 0x0, bRepeatOk = 0x0, bRepeatNok = 0x0, rx_bUseCrc = 0x1, rx_bVarLen = 0x1, bChkAddress = 0x0, endType = 0x0, filterOp = 0x0 \<rparr>,
     rxConf = \<lparr> bAutoFlushIgnored = 0x0, bAutoFlushCrcErr = 0x0, bIncludeHdr = 0x1, bIncludeCrc = 0x0, bAppendRssi = 0x0, bAppendTimestamp = 0x0, bAppendStatus = 0x1 \<rparr>,
     rxSyncWord = 0x930B51DE, maxPktLen = 0xFF, address0 = 0xAA, address1 = 0xBB,
     endTrigger = \<lparr> triggerType = 0x1, bEnaCmd = 0x0, triggerNo = 0x0, pastTrig = 0x0 \<rparr>,
     endTime = 0x00000000, pQueue = RfNull, pOutput = RfNull \<rparr>"

definition sc_RF_cmdTxTest :: CmdTxTest where
  "sc_RF_cmdTxTest = \<lparr>
     commandNo = 0x0808, op_status = 0x0000, pNextOp = RfNull, startTime = 0x00000000,
     startTrigger = \<lparr> triggerType = 0x0, bEnaCmd = 0x0, triggerNo = 0x0, pastTrig = 0x0 \<rparr>,
     condition = \<lparr> cond_rule = 0x1, nSkip = 0x0 \<rparr>,
     testConf = \<lparr> bUseCw = 0x0, tt_bFsOff = 0x1, tt_whitenMode = 0x2 \<rparr>, tt_dummy0 = 0x00,
     txWord = 0xABCD, tt_dummy1 = 0x00,
     tt_endTrigger = \<lparr> triggerType = 0x1, bEnaCmd = 0x0, triggerNo = 0x0, pastTrig = 0x0 \<rparr>,
     tt_syncWord = 0x930B51DE, tt_endTime = 0x00000000 \<rparr>"

subsection \<open>The settings of the temperature and humidity node\<close>

definition th_RF_prop :: RfMode where
  "th_RF_prop = \<lparr> rfMode = ''RF_MODE_PROPRIETARY_SUB_1'', cpePatchFxn = RfObj ''rf_patch_cpe_genfsk'',
     mcePatchFxn = RfNull, rfePatchFxn = RfObj ''rf_patch_rfe_genfsk'' \<rparr>"

definition th_pOverrides :: "bool \<Rightarrow> rf_override list" where
  "th_pOverrides CCFG_FORCE_VDDR_HH =
     [MCE_RFE_OVERRIDE 0 4 0 1 0 0, HW_REG_OVERRIDE 0x4038 0x0037, OverrideWord 0x000684A3, 
      HW_REG_OVERRIDE 0x4020 0x7F00, HW_REG_OVERRIDE 0x4064 0x0040, OverrideWord 0xB1070503, 
      OverrideWord 0x05330523, OverrideWord 0x0A480583, OverrideWord 0x7AB80603, 
      ADI_REG_OVERRIDE 1 4 0x9F, ADI_HALFREG_OVERRIDE 1 7 0x4 0x4, OverrideWord 0x02010403, 
      OverrideWord 0x00108463, OverrideWord 0x04B00243, ADI_HALFREG_OVERRIDE 0 61 0xF 0xD, 
      OverrideWord 0x00038883, HW_REG_OVERRIDE 0x6084 0x35F1, HW_REG_OVERRIDE 0x6088 0x411A, 
      HW_REG_OVERRIDE 0x608C 0x8213, OverrideWord 0x00FB88A3] @
     (if CCFG_FORCE_VDDR_HH then [ADI_REG_OVERRIDE 0 12 0xF8] else []) @
     [OverrideWord 0xFFFFFFFF]"

definition th_RF_cmdPropRadioDivSetup :: CmdRadioDivSetup where
  "th_RF_cmdPropRadioDivSetup = \<lparr>
     commandNo = 0x3807, op_status = 0x0000, pNextOp = RfNull, startTime = 0x00000000,
     startTrigger = \<lparr> triggerType = 0x0, bEnaCmd = 0x0, triggerNo = 0x0, pastTrig = 0x0 \<rparr>,
     condition = \<lparr> cond_rule = 0x1, nSkip = 0x0 \<rparr>,
     modulation = \<lparr> modType = 0x1, deviation = 0x64 \<rparr>,
     symbolRate = \<lparr> preScale = 0xF, rateWord = 0x8000, decimMode = 0x0 \<rparr>, rxBw = 0x24,
     preamConf = \<lparr> nPreamBytes = 0x4, preamMode = 0x0 \<rparr>,
     formatConf = \<lparr> nSwBits = 0x20, bBitReversal = 0x0, bMsbFirst = 0x1, fecMode = 0x0, whitenMode = 0x0 \<rparr>,
     frontEnd = \<lparr> frontEndMode = 0x0, biasMode = 0x1, analogCfgMode = 0x0, bNoFsPowerUp = 0x0 \<rparr>,
     txPower = 0xA73F, pRegOverride = RfObj ''pOverrides'', centerFreq = 0x0364, intFreq = 0x8000,
     loDivider = 0x05 \<rparr>"

definition th_RF_cmdFs :: CmdFs where
  "th_RF_cmdFs = \<lparr>
     commandNo = 0x0803, op_status = 0x0000, pNextOp = RfNull, startTime = 0x00000000,
     startTrigger = \<lparr> triggerType = 0x0, bEnaCmd = 0x0, triggerNo = 0x0, pastTrig = 0x0 \<rparr>,
     condition = \<lparr> cond_rule = 0x1, nSkip = 0x0 \<rparr>, frequency = 0x0364, fractFreq = 0x0000,
     synthConf = \<lparr> bTxMode = 0x0, refFreq = 0x0 \<rparr>, fs_dummy0 = 0x00, fs_dummy1 = 0x00,
     fs_dummy2 = 0x00, fs_dummy3 = 0x0000 \<rparr>"

definition th_RF_cmdPropTx :: CmdPropTx where
  "th_RF_cmdPropTx = \<lparr>
     commandNo = 0x3801, op_status = 0x0000, pNextOp = RfNull, startTime = 0x00000000,
     startTrigger = \<lparr> triggerType = 0x0, bEnaCmd = 0x0, triggerNo = 0x0, pastTrig = 0x0 \<rparr>,
     condition = \<lparr> cond_rule = 0x1, nSkip = 0x0 \<rparr>,
     txPktConf = \<lparr> tx_bFsOff = 0x0, tx_bUseCrc = 0x1, tx_bVarLen = 0x1 \<rparr>, pktLen = 0x1E,
     txSyncWord = 0x930B51DE, pPkt = RfNull \<rparr>"

definition th_RF_cmdPropRx :: CmdPropRx where
  "th_RF_cmdPropRx = \<lparr>
     commandNo = 0x3802, op_status = 0x0000, pNextOp = RfNull, startTime = 0x00000000,
     startTrigger = \<lparr> triggerType = 0x0, bEnaCmd = 0x0, triggerNo = 0x0, pastTrig = 0x0 \<rparr>,
     condition = \<lparr> cond_rule = 0x1, nSkip = 0x0 \<rparr>,
     rxPktConf = \<lparr> rx_bFsOff = 0x0, bRepeatOk = 0x0, bRepeatNok = 0x0, rx_bUseCrc = 0x1, rx_bVarLen = 0x1, bChkAddress = 0x0, endType = 0x0, filterOp = 0x0 \<rparr>,
     rxConf = \<lparr> bAutoFlushIgnored = 0x0, bAutoFlushCrcErr = 0x0, bIncludeHdr = 0x1, bIncludeCrc = 0x0, bAppendRssi = 0x0, bAppendTimestamp = 0x0, bAppendStatus = 0x1 \<rparr>,
     rxSyncWord = 0x930B51DE, maxPktLen = 0xFF, address0 = 0xAA, address1 = 0xBB,
     endTrigger = \<lparr> triggerType = 0x1, bEnaCmd = 0x0, triggerNo = 0x0, pastTrig = 0x0 \<rparr>,
     endTime = 0x00000000, pQueue = RfNull, pOutput = RfNull \<rparr>"

definition th_RF_cmdTxTest :: CmdTxTest where
  "th_RF_cmdTxTest = \<lparr>
     commandNo = 0x0808, op_status = 0x0000, pNextOp = RfNull, startTime = 0x00000000,
     startTrigger = \<lparr> triggerType = 0x0, bEnaCmd = 0x0, triggerNo = 0x0, pastTrig = 0x0 \<rparr>,
     condition = \<lparr> cond_rule = 0x1, nSkip = 0x0 \<rparr>,
     testConf = \<lparr> bUseCw = 0x0, tt_bFsOff = 0x1, tt_whitenMode = 0x2 \<rparr>, tt_dummy0 = 0x00,
     txWord = 0xABCD, tt_dummy1 = 0x00,
     tt_endTrigger = \<lparr> triggerType = 0x1, bEnaCmd = 0x0, triggerNo = 0x0, pastTrig = 0x0 \<rparr>,
     tt_syncWord = 0x930B51DE, tt_endTime = 0x00000000 \<rparr>"

subsection \<open>The copies agree\<close>

lemmas rf_settings_defs =
  gw_RF_cmdPropRadioDivSetup_def gw_RF_cmdFs_def gw_RF_cmdPropTx_def gw_RF_cmdPropRx_def gw_RF_cmdTxTest_def gw_RF_prop_def gw_pOverrides_def
  sc_RF_cmdPropRadioDivSetup_def sc_RF_cmdFs_def sc_RF_cmdPropTx_def sc_RF_cmdPropRx_def sc_RF_cmdTxTest_def sc_RF_prop_def sc_pOverrides_def
  th_RF_cmdPropRadioDivSetup_def th_RF_cmdFs_def th_RF_cmdPropTx_def th_RF_cmdPropRx_def th_RF_cmdTxTest_def th_RF_prop_def th_pOverrides_def

lemma rf_settings_equal:
  "sc_RF_cmdPropRadioDivSetup = gw_RF_cmdPropRadioDivSetup" "th_RF_cmdPropRadioDivSetup = gw_RF_cmdPropRadioDivSetup"
  "sc_RF_cmdFs = gw_RF_cmdFs" "th_RF_cmdFs = gw_RF_cmdFs"
  "sc_RF_cmdPropTx = gw_RF_cmdPropTx" "th_RF_cmdPropTx = gw_RF_cmdPropTx"
  "sc_RF_cmdPropRx = gw_RF_cmdPropRx" "th_RF_cmdPropRx = gw_RF_cmdPropRx"
  "sc_RF_cmdTxTest = gw_RF_cmdTxTest" "th_RF_cmdTxTest = gw_RF_cmdTxTest"
  "sc_RF_prop = gw_RF_prop" "th_RF_prop = gw_RF_prop"
  "sc_pOverrides v = gw_pOverrides v" "th_pOverrides v = gw_pOverrides v"
  by (simp_all add: rf_settings_defs)

end
