(* ===== verification/RfQueue.thy ===== *)
theory RfQueue
  imports Prelude
begin

text \<open>
  The queue of receive buffers shared with the radio (\<open>RFQueue.c\<close>; the four programs have the same file). It
  cuts one byte array into entries that are linked to a ring; addresses are offsets in this array. The radio
  fills the entries and marks them finished, the program takes finished ones from the read pointer on.
\<close>

definition RF_QUEUE_DATA_ENTRY_HEADER_SIZE :: nat where [simp]: "RF_QUEUE_DATA_ENTRY_HEADER_SIZE = 8"

definition RF_QUEUE_QUEUE_ALIGN_PADDING :: "nat \<Rightarrow> nat" where
  "RF_QUEUE_QUEUE_ALIGN_PADDING len = 4 - (len + RF_QUEUE_DATA_ENTRY_HEADER_SIZE) mod 4"

definition RF_QUEUE_DATA_ENTRY_BUFFER_SIZE :: "nat \<Rightarrow> nat \<Rightarrow> nat \<Rightarrow> nat" where
  "RF_QUEUE_DATA_ENTRY_BUFFER_SIZE numEntries dataSize appendedBytes =
     numEntries * (RF_QUEUE_DATA_ENTRY_HEADER_SIZE + dataSize + appendedBytes +
       RF_QUEUE_QUEUE_ALIGN_PADDING (dataSize + appendedBytes))"

datatype entry_status = DATA_ENTRY_PENDING | DATA_ENTRY_ACTIVE | DATA_ENTRY_BUSY | DATA_ENTRY_FINISHED

record DataEntry =
  de_status :: entry_status
  de_type :: u8
  de_lenSz :: u8
  de_length :: u16
  de_next :: nat
  de_data :: "u8 list"

record RfQueue =
  rq_mem :: "nat \<Rightarrow> DataEntry"
  readEntry :: nat
  pCurrEntry :: nat
  pLastEntry :: "nat option"

definition rq_entry :: "nat \<Rightarrow> nat \<Rightarrow> nat \<Rightarrow> (nat \<Rightarrow> DataEntry) \<Rightarrow> (nat \<Rightarrow> DataEntry)" where
  "rq_entry len pad i mem =
     (let buf = i * (RF_QUEUE_DATA_ENTRY_HEADER_SIZE + len + pad) in
      mem(buf := (mem buf)\<lparr> de_status := DATA_ENTRY_PENDING, de_type := 0, de_lenSz := 0, de_length := word_of_nat len,
        de_next := buf + RF_QUEUE_DATA_ENTRY_HEADER_SIZE + len + pad \<rparr>))"

text \<open>The flag is the result: nonzero when the entries do not fit.\<close>

definition RFQueue_defineQueue :: "nat \<Rightarrow> nat \<Rightarrow> nat \<Rightarrow> RfQueue \<Rightarrow> bool \<times> RfQueue" where
  "RFQueue_defineQueue buf_len numEntries len q =
     (if buf_len < numEntries * (len + RF_QUEUE_DATA_ENTRY_HEADER_SIZE + RF_QUEUE_QUEUE_ALIGN_PADDING len) then (True, q)
      else
        let pad = 4 - (len + RF_QUEUE_DATA_ENTRY_HEADER_SIZE) mod 4;
            mem = fold (rq_entry len pad) [0..<numEntries] (rq_mem q);
            last_entry = (numEntries - 1) * (RF_QUEUE_DATA_ENTRY_HEADER_SIZE + len + pad)
        in (False, q\<lparr> rq_mem := mem(last_entry := (mem last_entry)\<lparr> de_next := 0 \<rparr>), pCurrEntry := 0, pLastEntry := None,
             readEntry := 0 \<rparr>))"

definition RFQueue_getDataEntry :: "RfQueue \<Rightarrow> DataEntry" where
  "RFQueue_getDataEntry q = rq_mem q (readEntry q)"

definition RFQueue_nextEntry :: "RfQueue \<Rightarrow> entry_status \<times> RfQueue" where
  "RFQueue_nextEntry q =
     (let mem = (rq_mem q)(readEntry q := (rq_mem q (readEntry q))\<lparr> de_status := DATA_ENTRY_PENDING \<rparr>);
          r = de_next (mem (readEntry q))
      in (de_status (mem r), q\<lparr> rq_mem := mem, readEntry := r \<rparr>))"

text \<open>The packet in an entry: a length byte and the bytes behind it.\<close>

definition entry_packet :: "DataEntry \<Rightarrow> u8 list" where
  "entry_packet e = take (unat (hd (de_data e))) (tl (de_data e))"

text \<open>The loop of the radio tasks over the finished entries; it collects the packets it hands on. That it ends is
  proved below.\<close>

partial_function (option) rq_drain :: "RfQueue \<Rightarrow> (u8 list list \<times> RfQueue) option" where
  "rq_drain q =
     (if de_status (RFQueue_getDataEntry q) = DATA_ENTRY_FINISHED then
        Option.bind (rq_drain (snd (RFQueue_nextEntry q)))
          (\<lambda>(ps, q'). Some (entry_packet (RFQueue_getDataEntry q) # ps, q'))
      else Some ([], q))"

subsection \<open>The ring\<close>

definition rq_stride :: "nat \<Rightarrow> nat" where
  "rq_stride len = RF_QUEUE_DATA_ENTRY_HEADER_SIZE + len + RF_QUEUE_QUEUE_ALIGN_PADDING len"

definition rq_at :: "nat \<Rightarrow> RfQueue \<Rightarrow> nat \<Rightarrow> DataEntry" where
  "rq_at len q i = rq_mem q (i * rq_stride len)"

text \<open>\<open>n\<close> linked entries, the read pointer at entry \<open>r\<close>.\<close>

definition rq_ring :: "nat \<Rightarrow> nat \<Rightarrow> nat \<Rightarrow> RfQueue \<Rightarrow> bool" where
  "rq_ring n len r q \<longleftrightarrow> r < n \<and> readEntry q = r * rq_stride len \<and>
     (\<forall>i < n. de_next (rq_at len q i) = (Suc i mod n) * rq_stride len)"

lemma stride_pos [simp]: "rq_stride len \<noteq> 0"
  by (simp add: rq_stride_def)

lemma rq_entry_stride:
  "rq_entry len (RF_QUEUE_QUEUE_ALIGN_PADDING len) i mem = mem(i * rq_stride len := (mem (i * rq_stride len))
     \<lparr> de_status := DATA_ENTRY_PENDING, de_type := 0, de_lenSz := 0, de_length := word_of_nat len,
       de_next := Suc i * rq_stride len \<rparr>)"
proof -
  have "i * rq_stride len + RF_QUEUE_DATA_ENTRY_HEADER_SIZE + len + RF_QUEUE_QUEUE_ALIGN_PADDING len = Suc i * rq_stride len"
    by (simp add: rq_stride_def)
  then show ?thesis unfolding rq_entry_def Let_def by (simp only: rq_stride_def [symmetric])
qed

lemma stride_aligned: "rq_stride len mod 4 = 0"
proof -
  define a where "a = (len + 8) div 4"
  define b where "b = (len + 8) mod 4"
  have "len + 8 = 4 * a + b" "b < 4" by (simp_all add: a_def b_def)
  then have "8 + len + (4 - b) = 4 * (a + 1)" by simp
  then show ?thesis by (simp add: rq_stride_def RF_QUEUE_QUEUE_ALIGN_PADDING_def b_def)
qed

lemma fold_entries:
  "fold (rq_entry len (RF_QUEUE_QUEUE_ALIGN_PADDING len)) [0..<n] mem (i * rq_stride len) =
     (if i < n then (mem (i * rq_stride len))\<lparr> de_status := DATA_ENTRY_PENDING, de_type := 0, de_lenSz := 0,
        de_length := word_of_nat len, de_next := Suc i * rq_stride len \<rparr>
      else mem (i * rq_stride len))"
proof (induction n)
  case (Suc n)
  show ?case using Suc.IH by (auto simp: rq_entry_stride less_Suc_eq)
qed simp

lemma define_ring:
  assumes "0 < n" "n * rq_stride len \<le> buf_len"
  shows "\<not> fst (RFQueue_defineQueue buf_len n len q)"
    "rq_ring n len 0 (snd (RFQueue_defineQueue buf_len n len q))"
    "i < n \<Longrightarrow> de_status (rq_at len (snd (RFQueue_defineQueue buf_len n len q)) i) = DATA_ENTRY_PENDING"
proof -
  define mem where "mem = fold (rq_entry len (RF_QUEUE_QUEUE_ALIGN_PADDING len)) [0..<n] (rq_mem q)"
  have fit: "\<not> buf_len < n * (len + 8 + RF_QUEUE_QUEUE_ALIGN_PADDING len)"
    using assms(2) by (simp add: rq_stride_def add.commute)
  have d: "RFQueue_defineQueue buf_len n len q = (False, q\<lparr> rq_mem := mem((n - 1) * rq_stride len :=
      (mem ((n - 1) * rq_stride len))\<lparr> de_next := 0 \<rparr>), readEntry := 0, pCurrEntry := 0, pLastEntry := None \<rparr>)"
    using fit by (simp add: RFQueue_defineQueue_def mem_def rq_stride_def RF_QUEUE_QUEUE_ALIGN_PADDING_def Let_def)
  show "\<not> fst (RFQueue_defineQueue buf_len n len q)" by (simp add: d)
  show "rq_ring n len 0 (snd (RFQueue_defineQueue buf_len n len q))"
    using assms(1) by (auto simp: rq_ring_def d rq_at_def mem_def fold_entries mod_Suc split: if_splits)
  show "de_status (rq_at len (snd (RFQueue_defineQueue buf_len n len q)) i) = DATA_ENTRY_PENDING" if "i < n"
    using that by (simp add: d rq_at_def mem_def fold_entries)
qed

lemma next_ring:
  assumes "rq_ring n len r q"
  shows "rq_ring n len (Suc r mod n) (snd (RFQueue_nextEntry q))"
    "rq_at len (snd (RFQueue_nextEntry q)) i =
      (if i = r then (rq_at len q r)\<lparr> de_status := DATA_ENTRY_PENDING \<rparr> else rq_at len q i)"
  using assms by (auto simp: rq_ring_def RFQueue_nextEntry_def rq_at_def Let_def)

subsection \<open>Draining\<close>

lemma mod_window: "r < n \<Longrightarrow> Suc k < n \<Longrightarrow> (r + Suc k) mod n \<noteq> (r :: nat)"
  by (cases "r + Suc k < n") (auto simp: mod_if)

text \<open>
  The entries from the read pointer on hold the packets \<open>ps\<close>, finished in this order, all others are pending: what
  the radio leaves behind.
\<close>

definition rq_holds :: "nat \<Rightarrow> nat \<Rightarrow> nat \<Rightarrow> RfQueue \<Rightarrow> u8 list list \<Rightarrow> bool" where
  "rq_holds n len r q ps \<longleftrightarrow> rq_ring n len r q \<and> length ps \<le> n \<and>
     (\<forall>k < n. (de_status (rq_at len q ((r + k) mod n)) = DATA_ENTRY_FINISHED) = (k < length ps)) \<and>
     (\<forall>k < length ps. entry_packet (rq_at len q ((r + k) mod n)) = ps ! k)"

lemma holds_head:
  assumes "rq_holds n len r q ps"
  shows "RFQueue_getDataEntry q = rq_at len q r" "r < n" "r mod n = r"
    "(de_status (rq_at len q r) = DATA_ENTRY_FINISHED) = (ps \<noteq> [])"
    "ps \<noteq> [] \<Longrightarrow> entry_packet (rq_at len q r) = hd ps"
proof -
  show r: "r < n" "RFQueue_getDataEntry q = rq_at len q r"
    using assms by (simp_all add: rq_holds_def rq_ring_def RFQueue_getDataEntry_def rq_at_def)
  then show m: "r mod n = r" by simp
  have "(de_status (rq_at len q ((r + 0) mod n)) = DATA_ENTRY_FINISHED) = (0 < length ps)"
    using assms r(1) unfolding rq_holds_def by (metis gr_implies_not0 not_gr_zero)
  then show "(de_status (rq_at len q r) = DATA_ENTRY_FINISHED) = (ps \<noteq> [])" using m by simp
  assume ne: "ps \<noteq> []"
  then have "entry_packet (rq_at len q ((r + 0) mod n)) = ps ! 0"
    using assms unfolding rq_holds_def by (metis length_greater_0_conv)
  then show "entry_packet (rq_at len q r) = hd ps" using m ne by (simp add: hd_conv_nth)
qed

lemma holds_next:
  assumes "rq_holds n len r q (p # ps)"
  shows "rq_holds n len (Suc r mod n) (snd (RFQueue_nextEntry q)) ps"
proof -
  have ring: "rq_ring n len r q" and n: "length ps < n" and r: "r < n"
    using assms by (simp_all add: rq_holds_def rq_ring_def Suc_le_eq)
  note nx = next_ring [OF ring]
  have idx: "(Suc r mod n + k) mod n = (r + Suc k) mod n" for k by (simp add: mod_simps)
  have st: "(de_status (rq_at len q ((r + k) mod n)) = DATA_ENTRY_FINISHED) = (k < Suc (length ps))" if "k < n" for k
    using assms that by (simp add: rq_holds_def)
  have pk: "entry_packet (rq_at len q ((r + k) mod n)) = (p # ps) ! k" if "k < Suc (length ps)" for k
    using assms that by (simp add: rq_holds_def)
  show ?thesis unfolding rq_holds_def
  proof (intro conjI allI impI)
    show "rq_ring n len (Suc r mod n) (snd (RFQueue_nextEntry q))" "length ps \<le> n" using nx(1) n by simp_all
  next
    fix k assume k: "k < n"
    show "(de_status (rq_at len (snd (RFQueue_nextEntry q)) ((Suc r mod n + k) mod n)) = DATA_ENTRY_FINISHED) = (k < length ps)"
    proof (cases "Suc k = n")
      case True
      then show ?thesis using r n unfolding idx by (simp add: nx(2))
    next
      case False
      then have "Suc k < n" using k by simp
      then show ?thesis using mod_window [OF r, of k] st [of "Suc k"] unfolding idx by (simp add: nx(2))
    qed
  next
    fix k assume k: "k < length ps"
    then have "Suc k < n" using n by simp
    then show "entry_packet (rq_at len (snd (RFQueue_nextEntry q)) ((Suc r mod n + k) mod n)) = ps ! k"
      using mod_window [OF r, of k] pk [of "Suc k"] k unfolding idx by (simp add: nx(2))
  qed
qed

lemma drain_all:
  "rq_holds n len r q ps \<Longrightarrow> \<exists>q'. rq_drain q = Some (ps, q') \<and> rq_holds n len ((r + length ps) mod n) q' []"
proof (induction ps arbitrary: r q)
  case Nil
  then show ?case using holds_head [OF Nil] by (subst rq_drain.simps) simp
next
  case (Cons p ps)
  note h = holds_head [OF Cons.prems]
  obtain q' where "rq_drain (snd (RFQueue_nextEntry q)) = Some (ps, q')" "rq_holds n len ((Suc r mod n + length ps) mod n) q' []"
    using Cons.IH [OF holds_next [OF Cons.prems]] by blast
  then show ?case using h by (subst rq_drain.simps) (simp add: mod_simps)
qed

text \<open>
  C39. A queue whose entries fit into its buffer is a ring of aligned entries that do not overlap and end before the
  buffer does; the buffer sizes that the four programs reserve fit. When the radio has finished some of its entries
  in order, the loop of the radio tasks ends, hands on exactly the packets in them, in this order, and leaves every
  entry to the radio again, with the read pointer behind the last one taken.
\<close>

theorem receive_queue_is_fifo:
  assumes "0 < n" "n * rq_stride len \<le> buf_len"
  shows "RF_QUEUE_DATA_ENTRY_BUFFER_SIZE n a b = n * rq_stride (a + b) \<and> rq_stride len mod 4 = 0 \<and>
    (case RFQueue_defineQueue buf_len n len q of (failed, q0) \<Rightarrow> \<not> failed \<and> rq_holds n len 0 q0 []) \<and>
    (rq_holds n len r q1 ps \<longrightarrow> (\<exists>q2. rq_drain q1 = Some (ps, q2) \<and> rq_holds n len ((r + length ps) mod n) q2 []))"
proof -
  obtain failed q0 where q0: "RFQueue_defineQueue buf_len n len q = (failed, q0)" by fastforce
  note d = define_ring [OF assms, where q = q, unfolded q0 fst_conv snd_conv]
  have "rq_holds n len 0 q0 []" using d(2,3) by (simp add: rq_holds_def)
  then show ?thesis using d(1) drain_all [of n len r q1 ps] stride_aligned
    by (simp add: q0 RF_QUEUE_DATA_ENTRY_BUFFER_SIZE_def rq_stride_def add.assoc)
qed

text \<open>The two entries of 66 bytes of the programs; one packet has arrived in the second.\<close>

definition demo_queue :: RfQueue where
  "demo_queue = \<lparr> rq_mem = (\<lambda>a. \<lparr> de_status = (if a = 76 then DATA_ENTRY_FINISHED else DATA_ENTRY_PENDING), de_type = 0,
     de_lenSz = 0, de_length = 66, de_next = (if a = 0 then 76 else 0), de_data = [2, 7, 8, 9] \<rparr>),
     readEntry = 76, pCurrEntry = 0, pLastEntry = None \<rparr>"

theorem receive_queue_is_fifo_witness:
  "\<exists>q2. rq_drain demo_queue = Some ([[7, 8]], q2) \<and> readEntry q2 = 0"
proof -
  have s: "rq_stride 66 = 76" by (simp add: rq_stride_def RF_QUEUE_QUEUE_ALIGN_PADDING_def)
  have two: "(\<forall>k < 2. P k) \<longleftrightarrow> P 0 \<and> P (1 :: nat)" for P by (auto simp: numeral_2_eq_2 less_Suc_eq)
  have "rq_holds 2 66 1 demo_queue [[7, 8]]"
    by (simp add: rq_holds_def rq_ring_def rq_at_def s two demo_queue_def entry_packet_def)
  moreover have "0 < (2 :: nat)" "2 * rq_stride 66 \<le> 152" by (simp_all add: s)
  ultimately obtain q2 where "rq_drain demo_queue = Some ([[7, 8]], q2)" "rq_holds 2 66 ((1 + length [[7, 8 :: u8]]) mod 2) q2 []"
    using receive_queue_is_fifo [of 2 66 152 0 0 demo_queue 1 demo_queue "[[7, 8]]"] by blast
  then show ?thesis by (simp add: rq_holds_def rq_ring_def)
qed

end
