(* ===== verification/RfCommands.thy ===== *)
theory RfCommands
  imports RfSettings RfQueue NodeLink ThLink
begin

text \<open>
  How the programs use the commands of the radio core. The two commands for sending and receiving are global structures
  that the radio tasks change before each submission, so what a submission means depends on what earlier code left in
  them. The settings of the light switch come from a generated file that is not part of the sources; for its task
  they are a parameter. The numbers behind the names of triggers and conditions belong to the vendor's headers; they
  are a parameter as well, of which only their being different is used.
\<close>

record RfNames =
  TRIG_NOW :: nat
  TRIG_ABSTIME :: nat
  TRIG_REL_START :: nat
  TRIG_REL_PREVEND :: nat
  TRIG_NEVER :: nat
  COND_STOP_ON_FALSE :: nat
  COND_NEVER :: nat

definition rf_names_ok :: "RfNames \<Rightarrow> bool" where
  "rf_names_ok n \<longleftrightarrow>
     distinct [TRIG_NOW n, TRIG_ABSTIME n, TRIG_REL_START n, TRIG_REL_PREVEND n, TRIG_NEVER n] \<and>
     COND_STOP_ON_FALSE n \<noteq> COND_NEVER n"

definition NUM_APPENDED_BYTES :: nat where [simp]: "NUM_APPENDED_BYTES = 2"
definition GW_RX_TIMEOUT :: nat where [simp]: "GW_RX_TIMEOUT = 10 * (4000000 div 1000)"
definition GW_ACK_TIMEOUT_TICKS :: nat where [simp]: "GW_ACK_TIMEOUT_TICKS = 11 * (4000000 div 1000)"
definition SC_RX_TIMEOUT :: nat where [simp]: "SC_RX_TIMEOUT = 50 * (4000000 div 1000)"
definition SC_ACK_TIMEOUT_TICKS :: nat where [simp]: "SC_ACK_TIMEOUT_TICKS = 50 * (4000000 div 1000)"
definition LS_RX_TIMEOUT :: nat where [simp]: "LS_RX_TIMEOUT = 50 * (4000000 div 1000)"
definition ACK_WINDOW_TICKS :: nat where [simp]: "ACK_WINDOW_TICKS = 50000 * 4"

text \<open>The two global structures, and what a program hands to the radio: a send command is followed by the receive
  command it is chained to, as that stands at the time.\<close>

record RfCmds =
  rf_tx :: CmdPropTx
  rf_rx :: CmdPropRx

datatype rf_submit =
    RfOpen RfMode CmdRadioDivSetup
  | SubmitFs CmdFs
  | SubmitRx CmdPropRx
  | SubmitTx CmdPropTx CmdPropRx

datatype rf_request = Listen | SendFrame "u8 list" | SendReply "u8 list"

subsection \<open>The concentrator\<close>

definition gw_rf_setup :: "RfNames \<Rightarrow> RfCmds \<Rightarrow> RfCmds" where
  "gw_rf_setup n c = (let tx = rf_tx c; rx = rf_rx c in c\<lparr>
     rf_tx := tx\<lparr> pktLen := word_of_nat PAYLOAD_LENGTH, pPkt := RfObj ''txPacket'',
       startTrigger := (startTrigger tx)\<lparr> triggerType := TRIG_ABSTIME n, pastTrig := 1 \<rparr>, startTime := 0,
       pNextOp := RfObj ''RF_cmdPropRx'', condition := (condition tx)\<lparr> cond_rule := COND_STOP_ON_FALSE n \<rparr> \<rparr>,
     rf_rx := rx\<lparr> pQueue := RfObj ''dataQueue'',
       rxConf := (rxConf rx)\<lparr> bAutoFlushIgnored := 1, bAutoFlushCrcErr := 1 \<rparr>,
       maxPktLen := word_of_nat PAYLOAD_LENGTH, rxPktConf := (rxPktConf rx)\<lparr> bRepeatOk := 0, bRepeatNok := 0 \<rparr>,
       pOutput := RfObj ''rxStatistics'', endTrigger := (endTrigger rx)\<lparr> triggerType := TRIG_REL_PREVEND n \<rparr>,
       endTime := GW_RX_TIMEOUT \<rparr> \<rparr>)"

definition gw_rf_listen :: "RfNames \<Rightarrow> RfCmds \<Rightarrow> RfCmds \<times> rf_submit" where
  "gw_rf_listen n c =
     (let rx = (rf_rx c)\<lparr> endTrigger := (endTrigger (rf_rx c))\<lparr> triggerType := TRIG_NEVER n \<rparr> \<rparr>
      in (c\<lparr> rf_rx := rx \<rparr>, SubmitRx rx))"

text \<open>The frame ends with its checksum, so its length is \<open>crcIdx + 1\<close>.\<close>

definition gw_rf_send :: "RfNames \<Rightarrow> u8 list \<Rightarrow> RfCmds \<Rightarrow> RfCmds \<times> rf_submit" where
  "gw_rf_send n frame c =
     (let tx = (rf_tx c)\<lparr> pktLen := word_of_nat (length frame), pPkt := RfBuf frame,
            startTrigger := (startTrigger (rf_tx c))\<lparr> triggerType := TRIG_NOW n, pastTrig := 1 \<rparr>,
            condition := (condition (rf_tx c))\<lparr> cond_rule := COND_STOP_ON_FALSE n \<rparr> \<rparr>;
          rx = (rf_rx c)\<lparr> endTrigger := (endTrigger (rf_rx c))\<lparr> triggerType := TRIG_REL_PREVEND n \<rparr> \<rparr>
      in (c\<lparr> rf_tx := tx, rf_rx := rx \<rparr>, SubmitTx tx rx))"

definition gw_rf_reply :: "RfNames \<Rightarrow> u8 list \<Rightarrow> RfCmds \<Rightarrow> RfCmds \<times> rf_submit" where
  "gw_rf_reply n txMsg c =
     (let tx = (rf_tx c)\<lparr> pktLen := 4, pPkt := RfBuf txMsg,
            startTrigger := (startTrigger (rf_tx c))\<lparr> triggerType := TRIG_NOW n, pastTrig := 1 \<rparr>, startTime := 0,
            condition := (condition (rf_tx c))\<lparr> cond_rule := COND_NEVER n \<rparr> \<rparr>
      in (c\<lparr> rf_tx := tx \<rparr>, SubmitTx tx (rf_rx c)))"

fun gw_rf_step :: "RfNames \<Rightarrow> rf_request \<Rightarrow> RfCmds \<Rightarrow> RfCmds \<times> rf_submit" where
  "gw_rf_step n Listen c = gw_rf_listen n c"
| "gw_rf_step n (SendFrame f) c = gw_rf_send n f c"
| "gw_rf_step n (SendReply f) c = gw_rf_reply n f c"

text \<open>The submissions of a sequence of requests.\<close>

primrec rf_run :: "(rf_request \<Rightarrow> RfCmds \<Rightarrow> RfCmds \<times> rf_submit) \<Rightarrow> rf_request list \<Rightarrow> RfCmds \<Rightarrow> rf_submit list" where
  "rf_run step [] c = []"
| "rf_run step (q # qs) c = (let (c1, s) = step q c in s # rf_run step qs c1)"

definition gw_radio :: "RfNames \<Rightarrow> rf_request list \<Rightarrow> rf_submit list" where
  "gw_radio n qs = RfOpen gw_RF_prop gw_RF_cmdPropRadioDivSetup # SubmitFs gw_RF_cmdFs #
     rf_run (gw_rf_step n) qs (gw_rf_setup n \<lparr> rf_tx = gw_RF_cmdPropTx, rf_rx = gw_RF_cmdPropRx \<rparr>)"

subsection \<open>The solar node\<close>

definition sc_rf_setup :: "RfNames \<Rightarrow> RfCmds \<Rightarrow> RfCmds" where
  "sc_rf_setup n c = (let tx = rf_tx c; rx = rf_rx c in c\<lparr>
     rf_tx := tx\<lparr> pktLen := word_of_nat PAYLOAD_LENGTH, pPkt := RfObj ''txPacket'',
       startTrigger := (startTrigger tx)\<lparr> triggerType := TRIG_ABSTIME n, pastTrig := 1 \<rparr>, startTime := 0,
       pNextOp := RfObj ''RF_cmdPropRx'', condition := (condition tx)\<lparr> cond_rule := COND_STOP_ON_FALSE n \<rparr> \<rparr>,
     rf_rx := rx\<lparr> pQueue := RfObj ''dataQueue'',
       rxConf := (rxConf rx)\<lparr> bAutoFlushIgnored := 1, bAutoFlushCrcErr := 1 \<rparr>,
       maxPktLen := word_of_nat PAYLOAD_LENGTH, rxPktConf := (rxPktConf rx)\<lparr> bRepeatOk := 0, bRepeatNok := 0 \<rparr>,
       pOutput := RfObj ''rxStatistics'', endTrigger := (endTrigger rx)\<lparr> triggerType := TRIG_REL_PREVEND n \<rparr>,
       endTime := SC_RX_TIMEOUT \<rparr> \<rparr>)"

definition sc_rf_listen :: "RfNames \<Rightarrow> RfCmds \<Rightarrow> RfCmds \<times> rf_submit" where
  "sc_rf_listen n c =
     (let rx = (rf_rx c)\<lparr> endTrigger := (endTrigger (rf_rx c))\<lparr> triggerType := TRIG_NEVER n \<rparr> \<rparr>
      in (c\<lparr> rf_rx := rx \<rparr>, SubmitRx rx))"

definition sc_rf_send :: "RfNames \<Rightarrow> u8 list \<Rightarrow> RfCmds \<Rightarrow> RfCmds \<times> rf_submit" where
  "sc_rf_send n msg c =
     (let tx = (rf_tx c)\<lparr> pktLen := word_of_nat (length msg), pPkt := RfBuf msg,
            startTrigger := (startTrigger (rf_tx c))\<lparr> triggerType := TRIG_NOW n, pastTrig := 1 \<rparr>,
            condition := (condition (rf_tx c))\<lparr> cond_rule := COND_STOP_ON_FALSE n \<rparr> \<rparr>;
          rx = (rf_rx c)\<lparr> endTrigger := (endTrigger (rf_rx c))\<lparr> triggerType := TRIG_REL_PREVEND n \<rparr> \<rparr>
      in (c\<lparr> rf_tx := tx, rf_rx := rx \<rparr>, SubmitTx tx rx))"

definition sc_rf_reply :: "RfNames \<Rightarrow> u8 list \<Rightarrow> RfCmds \<Rightarrow> RfCmds \<times> rf_submit" where
  "sc_rf_reply n txMsg c =
     (let tx = (rf_tx c)\<lparr> pktLen := 4, pPkt := RfBuf txMsg,
            startTrigger := (startTrigger (rf_tx c))\<lparr> triggerType := TRIG_NOW n, pastTrig := 1 \<rparr>, startTime := 0,
            condition := (condition (rf_tx c))\<lparr> cond_rule := COND_NEVER n \<rparr> \<rparr>
      in (c\<lparr> rf_tx := tx \<rparr>, SubmitTx tx (rf_rx c)))"

fun sc_rf_step :: "RfNames \<Rightarrow> rf_request \<Rightarrow> RfCmds \<Rightarrow> RfCmds \<times> rf_submit" where
  "sc_rf_step n Listen c = sc_rf_listen n c"
| "sc_rf_step n (SendFrame f) c = sc_rf_send n f c"
| "sc_rf_step n (SendReply f) c = sc_rf_reply n f c"

definition sc_radio :: "RfNames \<Rightarrow> rf_request list \<Rightarrow> rf_submit list" where
  "sc_radio n qs = RfOpen sc_RF_prop sc_RF_cmdPropRadioDivSetup # SubmitFs sc_RF_cmdFs #
     rf_run (sc_rf_step n) qs (sc_rf_setup n \<lparr> rf_tx = sc_RF_cmdPropTx, rf_rx = sc_RF_cmdPropRx \<rparr>)"

subsection \<open>The light switch\<close>

definition ls_rf_setup :: "RfNames \<Rightarrow> RfCmds \<Rightarrow> RfCmds" where
  "ls_rf_setup n c = (let tx = rf_tx c; rx = rf_rx c in c\<lparr>
     rf_tx := tx\<lparr> pktLen := word_of_nat PAYLOAD_LENGTH, pPkt := RfObj ''txPacket'',
       startTrigger := (startTrigger tx)\<lparr> triggerType := TRIG_ABSTIME n, pastTrig := 1 \<rparr>, startTime := 0,
       pNextOp := RfObj ''RF_cmdPropRx'', condition := (condition tx)\<lparr> cond_rule := COND_STOP_ON_FALSE n \<rparr> \<rparr>,
     rf_rx := rx\<lparr> pQueue := RfObj ''dataQueue'',
       rxConf := (rxConf rx)\<lparr> bAutoFlushIgnored := 1, bAutoFlushCrcErr := 1 \<rparr>,
       maxPktLen := word_of_nat PAYLOAD_LENGTH, rxPktConf := (rxPktConf rx)\<lparr> bRepeatOk := 0, bRepeatNok := 0 \<rparr>,
       pOutput := RfObj ''rxStatistics'', endTrigger := (endTrigger rx)\<lparr> triggerType := TRIG_REL_PREVEND n \<rparr>,
       endTime := LS_RX_TIMEOUT \<rparr> \<rparr>)"

definition ls_rf_listen :: "RfNames \<Rightarrow> RfCmds \<Rightarrow> RfCmds \<times> rf_submit" where
  "ls_rf_listen n c =
     (let rx = (rf_rx c)\<lparr> endTrigger := (endTrigger (rf_rx c))\<lparr> triggerType := TRIG_NEVER n \<rparr> \<rparr>
      in (c\<lparr> rf_rx := rx \<rparr>, SubmitRx rx))"

definition ls_rf_send :: "RfNames \<Rightarrow> u8 list \<Rightarrow> RfCmds \<Rightarrow> RfCmds \<times> rf_submit" where
  "ls_rf_send n msg c =
     (let tx = (rf_tx c)\<lparr> pktLen := word_of_nat (length msg), pPkt := RfBuf msg,
            startTrigger := (startTrigger (rf_tx c))\<lparr> triggerType := TRIG_NOW n, pastTrig := 1 \<rparr>,
            condition := (condition (rf_tx c))\<lparr> cond_rule := COND_STOP_ON_FALSE n \<rparr> \<rparr>;
          rx = (rf_rx c)\<lparr> endTrigger := (endTrigger (rf_rx c))\<lparr> triggerType := TRIG_REL_PREVEND n \<rparr> \<rparr>
      in (c\<lparr> rf_tx := tx, rf_rx := rx \<rparr>, SubmitTx tx rx))"

definition ls_rf_reply :: "RfNames \<Rightarrow> u8 list \<Rightarrow> RfCmds \<Rightarrow> RfCmds \<times> rf_submit" where
  "ls_rf_reply n txMsg c =
     (let tx = (rf_tx c)\<lparr> pktLen := 4, pPkt := RfBuf txMsg,
            startTrigger := (startTrigger (rf_tx c))\<lparr> triggerType := TRIG_NOW n, pastTrig := 1 \<rparr>, startTime := 0,
            condition := (condition (rf_tx c))\<lparr> cond_rule := COND_NEVER n \<rparr> \<rparr>
      in (c\<lparr> rf_tx := tx \<rparr>, SubmitTx tx (rf_rx c)))"

fun ls_rf_step :: "RfNames \<Rightarrow> rf_request \<Rightarrow> RfCmds \<Rightarrow> RfCmds \<times> rf_submit" where
  "ls_rf_step n Listen c = ls_rf_listen n c"
| "ls_rf_step n (SendFrame f) c = ls_rf_send n f c"
| "ls_rf_step n (SendReply f) c = ls_rf_reply n f c"

definition ls_radio :: "RfNames \<Rightarrow> RfMode \<Rightarrow> CmdRadioDivSetup \<Rightarrow> CmdFs \<Rightarrow> RfCmds \<Rightarrow> rf_request list \<Rightarrow> rf_submit list" where
  "ls_radio n mode setup_cmd fs c qs = RfOpen mode setup_cmd # SubmitFs fs # rf_run (ls_rf_step n) qs (ls_rf_setup n c)"

subsection \<open>The temperature and humidity node\<close>

text \<open>This program opens the radio for each message and for each wait, and sets up the commands each time.\<close>

definition th_rf_send_setup :: "RfNames \<Rightarrow> RfCmds \<Rightarrow> RfCmds" where
  "th_rf_send_setup n c = (let tx = rf_tx c; rx = rf_rx c in c\<lparr>
     rf_rx := rx\<lparr> pQueue := RfObj ''dataQueue'',
       rxConf := (rxConf rx)\<lparr> bAutoFlushIgnored := 1, bAutoFlushCrcErr := 1 \<rparr>,
       maxPktLen := word_of_nat PAYLOAD_LENGTH, rxPktConf := (rxPktConf rx)\<lparr> bRepeatOk := 0, bRepeatNok := 0 \<rparr>,
       pOutput := RfObj ''rxStatistics'', endTrigger := (endTrigger rx)\<lparr> triggerType := TRIG_REL_PREVEND n \<rparr>,
       endTime := ACK_WINDOW_TICKS \<rparr>,
     rf_tx := tx\<lparr> startTrigger := (startTrigger tx)\<lparr> triggerType := TRIG_NOW n, pastTrig := 1 \<rparr>,
       pNextOp := RfObj ''RF_cmdPropRx'', condition := (condition tx)\<lparr> cond_rule := COND_STOP_ON_FALSE n \<rparr> \<rparr> \<rparr>)"

definition th_rf_try :: "u8 list \<Rightarrow> RfCmds \<Rightarrow> RfCmds \<times> rf_submit" where
  "th_rf_try frame c =
     (let tx = (rf_tx c)\<lparr> pPkt := RfBuf frame, pktLen := word_of_nat (length frame) \<rparr>
      in (c\<lparr> rf_tx := tx \<rparr>, SubmitTx tx (rf_rx c)))"

primrec th_rf_tries :: "nat \<Rightarrow> u8 list \<Rightarrow> RfCmds \<Rightarrow> RfCmds \<times> rf_submit list" where
  "th_rf_tries 0 frame c = (c, [])"
| "th_rf_tries (Suc k) frame c =
     (let (c1, s) = th_rf_try frame c; (c2, ss) = th_rf_tries k frame c1 in (c2, s # ss))"

definition th_rf_wait_setup :: "RfNames \<Rightarrow> RfCmds \<Rightarrow> RfCmds" where
  "th_rf_wait_setup n c = (let rx = rf_rx c in c\<lparr>
     rf_rx := rx\<lparr> pQueue := RfObj ''dataQueue'',
       rxConf := (rxConf rx)\<lparr> bAutoFlushIgnored := 1, bAutoFlushCrcErr := 1 \<rparr>,
       maxPktLen := word_of_nat PAYLOAD_LENGTH, rxPktConf := (rxPktConf rx)\<lparr> bRepeatOk := 0, bRepeatNok := 0 \<rparr>,
       pOutput := RfObj ''rxStatistics'', pNextOp := RfNull,
       startTrigger := (startTrigger rx)\<lparr> triggerType := TRIG_NOW n, pastTrig := 1 \<rparr>,
       endTrigger := (endTrigger rx)\<lparr> triggerType := TRIG_REL_START n \<rparr>, endTime := 500 * 4000 \<rparr> \<rparr>)"

definition th_rf_ack :: "RfNames \<Rightarrow> u8 list \<Rightarrow> RfCmds \<Rightarrow> RfCmds \<times> rf_submit" where
  "th_rf_ack n ack c =
     (let tx = (rf_tx c)\<lparr> pPkt := RfBuf ack, pktLen := 4, pNextOp := RfNull,
            condition := (condition (rf_tx c))\<lparr> cond_rule := COND_NEVER n \<rparr>,
            startTrigger := (startTrigger (rf_tx c))\<lparr> triggerType := TRIG_NOW n, pastTrig := 1 \<rparr> \<rparr>
      in (c\<lparr> rf_tx := tx \<rparr>, SubmitTx tx (rf_rx c)))"

text \<open>A message with the number of tries that were made, or a wait with its half-second windows and the confirmation
  that ended it.\<close>

datatype th_rf_request = ThMessage "u8 list" nat | ThWait nat "u8 list option"

definition th_rf_open :: "rf_submit list" where
  "th_rf_open = [RfOpen th_RF_prop th_RF_cmdPropRadioDivSetup, SubmitFs th_RF_cmdFs]"

fun th_rf_step :: "RfNames \<Rightarrow> th_rf_request \<Rightarrow> RfCmds \<Rightarrow> RfCmds \<times> rf_submit list" where
  "th_rf_step n (ThMessage frame tries) c =
     (let (c1, ss) = th_rf_tries tries frame (th_rf_send_setup n c) in (c1, th_rf_open @ ss))"
| "th_rf_step n (ThWait windows ack) c =
     (let c1 = th_rf_wait_setup n c; ss = th_rf_open @ replicate windows (SubmitRx (rf_rx c1)) in
      case ack of None \<Rightarrow> (c1, ss) | Some a \<Rightarrow> (let (c2, s) = th_rf_ack n a c1 in (c2, ss @ [s])))"

primrec th_rf_run :: "RfNames \<Rightarrow> th_rf_request list \<Rightarrow> RfCmds \<Rightarrow> rf_submit list" where
  "th_rf_run n [] c = []"
| "th_rf_run n (q # qs) c = (let (c1, ss) = th_rf_step n q c in ss @ th_rf_run n qs c1)"

definition th_radio :: "RfNames \<Rightarrow> th_rf_request list \<Rightarrow> rf_submit list" where
  "th_radio n qs = th_rf_run n qs \<lparr> rf_tx = th_RF_cmdPropTx, rf_rx = th_RF_cmdPropRx \<rparr>"

subsection \<open>What the submissions ask of the radio\<close>

text \<open>
  The reading of a submission: tuning, receiving one packet into the data queue, waited for until cancelled or for a
  time, or sending at once, alone or followed by a reply window, in which again one packet is received. The receive
  command ends with the first packet, be its checksum right or wrong, when neither repeat bit is set; a packet that is
  ignored or damaged leaves no entry in the queue. The start trigger and the condition of the receive command are not
  looked at: they come from the settings, and only the wait of the temperature node sets the trigger, to at once. The radio leaves out the chained command when the condition says never; it chains when
  the condition stops on failure and the next command is the receive command, whose window then starts at the end
  of the transmission. Anything else has no meaning here.
\<close>

datatype rf_action = PowerUp | Tune nat nat | Receive "nat option" | Transmit "u8 list" "nat option"

definition rf_one_packet :: "CmdPropRx \<Rightarrow> bool" where
  "rf_one_packet rx = (pQueue rx = RfObj ''dataQueue'' \<and> bRepeatOk (rxPktConf rx) = 0 \<and> bRepeatNok (rxPktConf rx) = 0 \<and>
     bAutoFlushIgnored (rxConf rx) = 1 \<and> bAutoFlushCrcErr (rxConf rx) = 1)"

definition rf_meaning :: "RfNames \<Rightarrow> rf_submit \<Rightarrow> rf_action option" where
  "rf_meaning n s = (case s of
     RfOpen mode st \<Rightarrow> Some PowerUp
   | SubmitFs fs \<Rightarrow> Some (Tune (frequency fs) (fractFreq fs))
   | SubmitRx rx \<Rightarrow>
       if \<not> rf_one_packet rx then None
       else if triggerType (endTrigger rx) = TRIG_NEVER n then Some (Receive None)
       else if triggerType (endTrigger rx) = TRIG_REL_START n then Some (Receive (Some (endTime rx))) else None
   | SubmitTx tx rx \<Rightarrow> (case pPkt tx of
       RfBuf b \<Rightarrow>
         if triggerType (startTrigger tx) \<noteq> TRIG_NOW n \<or> length b < unat (pktLen tx) then None
         else if cond_rule (condition tx) = COND_NEVER n then Some (Transmit (take (unat (pktLen tx)) b) None)
         else if cond_rule (condition tx) = COND_STOP_ON_FALSE n \<and> pNextOp tx = RfObj ''RF_cmdPropRx'' \<and>
           triggerType (endTrigger rx) = TRIG_REL_PREVEND n \<and> rf_one_packet rx
         then Some (Transmit (take (unat (pktLen tx)) b) (Some (endTime rx))) else None
     | _ \<Rightarrow> None))"

fun rf_request_ok :: "rf_request \<Rightarrow> bool" where
  "rf_request_ok Listen = True"
| "rf_request_ok (SendFrame f) = (length f \<le> PAYLOAD_LENGTH)"
| "rf_request_ok (SendReply f) = (4 \<le> length f)"

fun rf_request_action :: "nat \<Rightarrow> rf_request \<Rightarrow> rf_action" where
  "rf_request_action w Listen = Receive None"
| "rf_request_action w (SendFrame f) = Transmit f (Some w)"
| "rf_request_action w (SendReply f) = Transmit (take 4 f) None"

fun th_request_ok :: "th_rf_request \<Rightarrow> bool" where
  "th_request_ok (ThMessage f tries) = (length f \<le> PAYLOAD_LENGTH)"
| "th_request_ok (ThWait windows ack) = (case ack of None \<Rightarrow> True | Some a \<Rightarrow> length a = 4)"

fun th_request_actions :: "th_rf_request \<Rightarrow> rf_action list" where
  "th_request_actions (ThMessage f tries) = PowerUp # Tune 868 0 # replicate tries (Transmit f (Some 200000))"
| "th_request_actions (ThWait windows ack) = PowerUp # Tune 868 0 # replicate windows (Receive (Some 2000000)) @
     (case ack of None \<Rightarrow> [] | Some a \<Rightarrow> [Transmit a None])"

subsection \<open>Every submission means its request\<close>

text \<open>What the set-up establishes and no request changes.\<close>

definition rf_set_up :: "nat \<Rightarrow> RfCmds \<Rightarrow> bool" where
  "rf_set_up w c \<longleftrightarrow> pNextOp (rf_tx c) = RfObj ''RF_cmdPropRx'' \<and> endTime (rf_rx c) = w \<and> rf_one_packet (rf_rx c)"

lemmas rf_step_defs =
  gw_rf_listen_def gw_rf_send_def gw_rf_reply_def sc_rf_listen_def sc_rf_send_def sc_rf_reply_def
  ls_rf_listen_def ls_rf_send_def ls_rf_reply_def

lemma node_steps_same: "sc_rf_step n = gw_rf_step n" "ls_rf_step n = gw_rf_step n"
proof -
  have "sc_rf_step n q c = gw_rf_step n q c \<and> ls_rf_step n q c = gw_rf_step n q c" for q c
    by (cases q) (simp_all add: rf_step_defs)
  then show "sc_rf_step n = gw_rf_step n" "ls_rf_step n = gw_rf_step n" by (auto intro!: ext)
qed

lemma setups_set_up:
  "rf_set_up 40000 (gw_rf_setup n c)" "rf_set_up 200000 (sc_rf_setup n c)" "rf_set_up 200000 (ls_rf_setup n c)"
  by (simp_all add: rf_set_up_def rf_one_packet_def gw_rf_setup_def sc_rf_setup_def ls_rf_setup_def Let_def)

lemma unat_length: "length f \<le> PAYLOAD_LENGTH \<Longrightarrow> unat (word_of_nat (length f) :: u8) = length f"
  by (simp add: unat_of_nat take_bit_nat_eq_self)

lemma step_meaning:
  assumes "rf_names_ok n" "rf_set_up w c" "rf_request_ok q" "gw_rf_step n q c = (c1, s)"
  shows "rf_set_up w c1 \<and> rf_meaning n s = Some (rf_request_action w q)"
  using assms by (cases q) (auto simp: rf_step_defs rf_meaning_def rf_set_up_def rf_one_packet_def rf_names_ok_def Let_def unat_length)

lemma run_meaning:
  "rf_names_ok n \<Longrightarrow> rf_set_up w c \<Longrightarrow> list_all rf_request_ok qs \<Longrightarrow>
    map (rf_meaning n) (rf_run (gw_rf_step n) qs c) = map (\<lambda>q. Some (rf_request_action w q)) qs"
proof (induction qs arbitrary: c)
  case (Cons q qs)
  obtain c1 s where s: "gw_rf_step n q c = (c1, s)" by fastforce
  show ?case using step_meaning [OF Cons.prems(1,2) _ s] Cons.IH [OF Cons.prems(1), of c1] Cons.prems(3) by (simp add: s)
qed simp

lemma tries_meaning:
  assumes "triggerType (startTrigger (rf_tx c)) = TRIG_NOW n" "cond_rule (condition (rf_tx c)) = COND_STOP_ON_FALSE n"
    "pNextOp (rf_tx c) = RfObj ''RF_cmdPropRx''" "triggerType (endTrigger (rf_rx c)) = TRIG_REL_PREVEND n"
    "rf_one_packet (rf_rx c)" "rf_names_ok n" "length f \<le> PAYLOAD_LENGTH" "th_rf_tries k f c = (c1, ss)"
  shows "map (rf_meaning n) ss = replicate k (Some (Transmit f (Some (endTime (rf_rx c)))))"
  using assms
proof (induction k arbitrary: c c1 ss)
  case (Suc k)
  obtain c2 ss2 where t: "th_rf_tries k f (fst (th_rf_try f c)) = (c2, ss2)" by fastforce
  have "map (rf_meaning n) ss2 = replicate k (Some (Transmit f (Some (endTime (rf_rx c)))))"
    using Suc.IH [OF _ _ _ _ _ Suc.prems(6,7) t] Suc.prems(1-5) by (simp add: th_rf_try_def Let_def)
  moreover have "rf_meaning n (snd (th_rf_try f c)) = Some (Transmit f (Some (endTime (rf_rx c))))"
    using Suc.prems(1-7) by (auto simp: th_rf_try_def Let_def rf_meaning_def rf_names_ok_def unat_length)
  ultimately show ?case using Suc.prems(8) t by (auto simp: case_prod_unfold)
qed simp

lemma th_open_meaning: "map (rf_meaning n) th_rf_open = [Some PowerUp, Some (Tune 868 0)]"
  by (simp add: th_rf_open_def rf_meaning_def th_RF_cmdFs_def)

lemma th_step_meaning:
  assumes "rf_names_ok n" "th_request_ok q" "th_rf_step n q c = (c1, ss)"
  shows "map (rf_meaning n) ss = map Some (th_request_actions q)"
proof (cases q)
  case (ThMessage f tries)
  obtain c2 ts where t: "th_rf_tries tries f (th_rf_send_setup n c) = (c2, ts)" by fastforce
  have "map (rf_meaning n) ts = replicate tries (Some (Transmit f (Some 200000)))"
    using tries_meaning [OF _ _ _ _ _ assms(1) _ t] assms(2)
    by (simp add: ThMessage th_rf_send_setup_def rf_one_packet_def Let_def)
  then show ?thesis using assms(3) t by (auto simp: ThMessage th_open_meaning)
next
  case (ThWait windows ack)
  have rx: "rf_meaning n (SubmitRx (rf_rx (th_rf_wait_setup n c))) = Some (Receive (Some 2000000))"
    using assms(1) by (simp add: rf_meaning_def rf_one_packet_def th_rf_wait_setup_def Let_def rf_names_ok_def)
  have "rf_meaning n (snd (th_rf_ack n a (th_rf_wait_setup n c))) = Some (Transmit a None)" if "ack = Some a" for a
    using assms(1,2) that by (simp add: rf_meaning_def th_rf_ack_def Let_def rf_names_ok_def ThWait)
  then show ?thesis using assms(3) rx
    by (auto simp: ThWait th_open_meaning Let_def case_prod_unfold split: option.splits)
qed

lemma th_run_meaning:
  "rf_names_ok n \<Longrightarrow> list_all th_request_ok qs \<Longrightarrow>
    map (rf_meaning n) (th_rf_run n qs c) = map Some (concat (map th_request_actions qs))"
proof (induction qs arbitrary: c)
  case (Cons q qs)
  obtain c1 ss where s: "th_rf_step n q c = (c1, ss)" by fastforce
  show ?case using th_step_meaning [OF Cons.prems(1) _ s] Cons.IH [OF Cons.prems(1)] Cons.prems(2) by (simp add: s)
qed simp

definition some_names :: RfNames where
  "some_names = \<lparr> TRIG_NOW = 0, TRIG_ABSTIME = 3, TRIG_REL_START = 4, TRIG_REL_PREVEND = 6, TRIG_NEVER = 1,
     COND_STOP_ON_FALSE = 2, COND_NEVER = 1 \<rparr>"

text \<open>
  C31. Whatever was submitted before, each submission to the radio means what the code asks for at that point:
  listening is for one packet and waits for it until it is cancelled, a frame goes out at once, whole, with the reply window of the program (10 ms
  in the concentrator, 50 ms in the nodes) behind it, a reply goes out at once with no window; the temperature node tunes
  the radio before each message and each wait, and waits in windows of half a second.
\<close>

theorem radio_commands_mean_requests:
  assumes "rf_names_ok n" "list_all rf_request_ok qs" "list_all th_request_ok ths"
  shows "map (rf_meaning n) (gw_radio n qs) =
      map Some (PowerUp # Tune 868 0 # map (rf_request_action 40000) qs) \<and>
    map (rf_meaning n) (sc_radio n qs) =
      map Some (PowerUp # Tune 868 0 # map (rf_request_action 200000) qs) \<and>
    map (rf_meaning n) (ls_radio n mode st fs c qs) =
      map Some (PowerUp # Tune (frequency fs) (fractFreq fs) # map (rf_request_action 200000) qs) \<and>
    map (rf_meaning n) (th_radio n ths) = map Some (concat (map th_request_actions ths))"
  using run_meaning [OF assms(1) setups_set_up(1) assms(2)] run_meaning [OF assms(1) setups_set_up(2) assms(2)]
    run_meaning [OF assms(1) setups_set_up(3) assms(2)] th_run_meaning [OF assms(1,3)]
  by (simp add: gw_radio_def sc_radio_def ls_radio_def th_radio_def node_steps_same rf_meaning_def
      gw_RF_cmdFs_def sc_RF_cmdFs_def)

theorem radio_commands_mean_requests_witness:
  "map (rf_meaning some_names) (gw_radio some_names [Listen, SendFrame [0x21, 0x44, 0, 9, 9], SendReply [1, 2, 3, 4, 0], Listen]) =
     map Some [PowerUp, Tune 868 0, Receive None, Transmit [0x21, 0x44, 0, 9, 9] (Some 40000), Transmit [1, 2, 3, 4] None,
       Receive None] \<and>
   map (rf_meaning some_names) (th_radio some_names [ThWait 2 (Some [1, 2, 3, 4]), ThMessage [0, 0x44] 1]) =
     map Some [PowerUp, Tune 868 0, Receive (Some 2000000), Receive (Some 2000000), Transmit [1, 2, 3, 4] None,
       PowerUp, Tune 868 0, Transmit [0, 0x44] (Some 200000)]"
  using radio_commands_mean_requests [of some_names "[Listen, SendFrame [0x21, 0x44, 0, 9, 9], SendReply [1, 2, 3, 4, 0], Listen]"
      "[ThWait 2 (Some [1, 2, 3, 4]), ThMessage [0, 0x44] 1]"]
  by (simp add: rf_names_ok_def some_names_def numeral_2_eq_2)

subsection \<open>The programs can hear each other\<close>

text \<open>What the two ends of a link have to agree on, as the commands give it.\<close>

record RfLink =
  lk_modulation :: RfModulation
  lk_symbolRate :: RfSymbolRate
  lk_preamble :: RfPreamble
  lk_format :: RfFormat
  lk_centerFreq :: nat
  lk_frequency :: "nat \<times> nat"
  lk_syncWord :: nat
  lk_crc_varLen :: "nat \<times> nat"

definition rf_link :: "CmdRadioDivSetup \<Rightarrow> CmdFs \<Rightarrow> nat \<Rightarrow> nat \<times> nat \<Rightarrow> RfLink" where
  "rf_link st fs sync cv = \<lparr> lk_modulation = modulation st, lk_symbolRate = symbolRate st, lk_preamble = preamConf st,
     lk_format = formatConf st, lk_centerFreq = centerFreq st, lk_frequency = (frequency fs, fractFreq fs),
     lk_syncWord = sync, lk_crc_varLen = cv \<rparr>"

definition tx_link :: "CmdRadioDivSetup \<Rightarrow> CmdFs \<Rightarrow> CmdPropTx \<Rightarrow> RfLink" where
  "tx_link st fs tx = rf_link st fs (txSyncWord tx) (tx_bUseCrc (txPktConf tx), tx_bVarLen (txPktConf tx))"

definition rx_link :: "CmdRadioDivSetup \<Rightarrow> CmdFs \<Rightarrow> CmdPropRx \<Rightarrow> RfLink" where
  "rx_link st fs rx = rf_link st fs (rxSyncWord rx) (rx_bUseCrc (rxPktConf rx), rx_bVarLen (rxPktConf rx))"

text \<open>The transmissions and the receptions of a program: the link, and the number of bytes sent or the command.\<close>

definition rf_sends :: "rf_submit list \<Rightarrow> (RfLink \<times> nat) list" where
  "rf_sends ss = concat (map (\<lambda>a. case a of RfOpen mode st \<Rightarrow> concat (map (\<lambda>b. case b of SubmitFs fs \<Rightarrow>
       concat (map (\<lambda>s. case s of SubmitTx tx rx \<Rightarrow> [(tx_link st fs tx, unat (pktLen tx))] | _ \<Rightarrow> []) ss) | _ \<Rightarrow> []) ss) | _ \<Rightarrow> []) ss)"

fun rf_rx_of :: "rf_submit \<Rightarrow> CmdPropRx list" where
  "rf_rx_of (SubmitRx rx) = [rx]"
| "rf_rx_of (SubmitTx tx rx) = [rx]"
| "rf_rx_of _ = []"

definition rf_receives :: "rf_submit list \<Rightarrow> (RfLink \<times> CmdPropRx) list" where
  "rf_receives ss = concat (map (\<lambda>a. case a of RfOpen mode st \<Rightarrow> concat (map (\<lambda>b. case b of SubmitFs fs \<Rightarrow>
       concat (map (\<lambda>s. map (\<lambda>rx. (rx_link st fs rx, rx)) (rf_rx_of s)) ss) | _ \<Rightarrow> []) ss) | _ \<Rightarrow> []) ss)"

text \<open>What the radio writes into an entry of the queue for a packet of the greatest length it lets through.\<close>

definition rf_entry_bytes :: "CmdPropRx \<Rightarrow> nat" where
  "rf_entry_bytes rx = (let c = rxConf rx in
     bIncludeHdr c + unat (maxPktLen rx) + 2 * bIncludeCrc c + bAppendRssi c + 4 * bAppendTimestamp c + bAppendStatus c)"

datatype rf_program = Concentrator "rf_request list" | SolarNode "rf_request list" | TempHumNode "th_rf_request list"

fun rf_trace :: "RfNames \<Rightarrow> rf_program \<Rightarrow> rf_submit list" where
  "rf_trace n (Concentrator qs) = gw_radio n qs"
| "rf_trace n (SolarNode qs) = sc_radio n qs"
| "rf_trace n (TempHumNode qs) = th_radio n qs"

fun rf_program_ok :: "rf_program \<Rightarrow> bool" where
  "rf_program_ok (Concentrator qs) = list_all rf_request_ok qs"
| "rf_program_ok (SolarNode qs) = list_all rf_request_ok qs"
| "rf_program_ok (TempHumNode qs) = list_all th_request_ok qs"

text \<open>What every submission of a program has in common.\<close>

definition rf_rx_static :: "CmdPropRx \<Rightarrow> bool" where
  "rf_rx_static rx \<longleftrightarrow> rxSyncWord rx = 0x930B51DE \<and> rx_bUseCrc (rxPktConf rx) = 1 \<and> rx_bVarLen (rxPktConf rx) = 1 \<and>
     bChkAddress (rxPktConf rx) = 0 \<and> bIncludeHdr (rxConf rx) = 1 \<and> bIncludeCrc (rxConf rx) = 0 \<and>
     bAppendRssi (rxConf rx) = 0 \<and> bAppendTimestamp (rxConf rx) = 0 \<and> bAppendStatus (rxConf rx) = 1"

definition rf_rx_ok :: "CmdPropRx \<Rightarrow> bool" where
  "rf_rx_ok rx \<longleftrightarrow> rf_rx_static rx \<and> maxPktLen rx = 64 \<and> pQueue rx = RfObj ''dataQueue'' \<and>
     bAutoFlushIgnored (rxConf rx) = 1 \<and> bAutoFlushCrcErr (rxConf rx) = 1"

definition rf_tx_ok :: "CmdPropTx \<Rightarrow> bool" where
  "rf_tx_ok tx \<longleftrightarrow> txSyncWord tx = 0x930B51DE \<and> tx_bUseCrc (txPktConf tx) = 1 \<and> tx_bVarLen (txPktConf tx) = 1"

definition rf_submit_ok :: "rf_submit \<Rightarrow> bool" where
  "rf_submit_ok s = (case s of
     RfOpen mode st \<Rightarrow> st = gw_RF_cmdPropRadioDivSetup
   | SubmitFs fs \<Rightarrow> fs = gw_RF_cmdFs
   | SubmitRx rx \<Rightarrow> rf_rx_ok rx
   | SubmitTx tx rx \<Rightarrow> rf_tx_ok tx \<and> rf_rx_ok rx \<and> unat (pktLen tx) \<le> 64)"

lemma rf_step_ok:
  assumes "rf_tx_ok (rf_tx c)" "rf_rx_ok (rf_rx c)" "rf_request_ok q" "gw_rf_step n q c = (c1, s)"
  shows "rf_tx_ok (rf_tx c1) \<and> rf_rx_ok (rf_rx c1) \<and> rf_submit_ok s"
  using assms by (cases q) (auto simp: rf_step_defs Let_def rf_tx_ok_def rf_rx_ok_def rf_rx_static_def rf_submit_ok_def unat_length)

lemma rf_run_ok:
  "rf_tx_ok (rf_tx c) \<Longrightarrow> rf_rx_ok (rf_rx c) \<Longrightarrow> list_all rf_request_ok qs \<Longrightarrow> list_all rf_submit_ok (rf_run (gw_rf_step n) qs c)"
proof (induction qs arbitrary: c)
  case (Cons q qs)
  obtain c1 s where s: "gw_rf_step n q c = (c1, s)" by fastforce
  show ?case using rf_step_ok [OF Cons.prems(1,2) _ s] Cons.IH [of c1] Cons.prems(3) by (simp add: s)
qed simp

lemma th_tries_ok:
  "rf_tx_ok (rf_tx c) \<Longrightarrow> rf_rx_ok (rf_rx c) \<Longrightarrow> length f \<le> PAYLOAD_LENGTH \<Longrightarrow> th_rf_tries k f c = (c1, ss) \<Longrightarrow>
    rf_tx_ok (rf_tx c1) \<and> rf_rx_ok (rf_rx c1) \<and> list_all rf_submit_ok ss"
proof (induction k arbitrary: c c1 ss)
  case (Suc k)
  obtain c2 ss2 where t: "th_rf_tries k f (fst (th_rf_try f c)) = (c2, ss2)" by fastforce
  show ?case using Suc.IH [OF _ _ Suc.prems(3) t] Suc.prems t
    by (auto simp: th_rf_try_def Let_def rf_submit_ok_def unat_length rf_tx_ok_def)
qed simp

lemma th_step_ok:
  assumes "rf_tx_ok (rf_tx c)" "rf_names_ok n" "th_request_ok q" "th_rf_step n q c = (c1, ss)"
    and "rf_rx_static (rf_rx c)"
  shows "rf_tx_ok (rf_tx c1) \<and> rf_rx_ok (rf_rx c1) \<and> list_all rf_submit_ok ss"
proof -
  have op: "list_all rf_submit_ok th_rf_open"
    by (simp add: th_rf_open_def rf_submit_ok_def rf_settings_equal)
  show ?thesis
  proof (cases q)
    case (ThMessage f tries)
    let ?c = "th_rf_send_setup n c"
    obtain c2 ts where t: "th_rf_tries tries f ?c = (c2, ts)" by fastforce
    have "rf_tx_ok (rf_tx ?c)" "rf_rx_ok (rf_rx ?c)"
      using assms(1,5) by (simp_all add: th_rf_send_setup_def Let_def rf_tx_ok_def rf_rx_ok_def rf_rx_static_def)
    then show ?thesis using th_tries_ok [OF _ _ _ t] assms(3,4) t op by (auto simp: ThMessage)
  next
    case (ThWait windows ack)
    let ?c = "th_rf_wait_setup n c"
    have rx: "rf_rx_ok (rf_rx ?c)" "rf_tx_ok (rf_tx ?c)"
      using assms(1,5) by (simp_all add: th_rf_wait_setup_def Let_def rf_tx_ok_def rf_rx_ok_def rf_rx_static_def)
    then have "rf_tx_ok (rf_tx (fst (th_rf_ack n a ?c))) \<and> rf_rx_ok (rf_rx (fst (th_rf_ack n a ?c))) \<and>
        rf_submit_ok (snd (th_rf_ack n a ?c))" for a
      by (simp add: th_rf_ack_def Let_def rf_tx_ok_def rf_submit_ok_def)
    moreover have "list_all rf_submit_ok (replicate windows (SubmitRx (rf_rx ?c)))"
      using rx by (simp add: list_all_iff rf_submit_ok_def)
    ultimately show ?thesis using rx assms(4) op
      by (auto simp: ThWait Let_def case_prod_unfold split: option.splits)
  qed
qed

lemma th_run_ok:
  "rf_names_ok n \<Longrightarrow> rf_tx_ok (rf_tx c) \<Longrightarrow> rf_rx_static (rf_rx c) \<Longrightarrow> list_all th_request_ok qs \<Longrightarrow>
    list_all rf_submit_ok (th_rf_run n qs c)"
proof (induction qs arbitrary: c)
  case (Cons q qs)
  obtain c1 ss where s: "th_rf_step n q c = (c1, ss)" by fastforce
  show ?case using th_step_ok [OF Cons.prems(2,1) _ s Cons.prems(3)] Cons.IH [OF Cons.prems(1), of c1] Cons.prems(4)
    by (simp add: s rf_rx_ok_def)
qed simp

lemma commands_trace_ok:
  assumes "rf_names_ok n" "rf_program_ok p"
  shows "list_all rf_submit_ok (rf_trace n p)"
proof (cases p)
  case (Concentrator qs)
  have "rf_tx_ok (rf_tx (gw_rf_setup n \<lparr> rf_tx = gw_RF_cmdPropTx, rf_rx = gw_RF_cmdPropRx \<rparr>))"
    "rf_rx_ok (rf_rx (gw_rf_setup n \<lparr> rf_tx = gw_RF_cmdPropTx, rf_rx = gw_RF_cmdPropRx \<rparr>))"
    by (simp_all add: gw_rf_setup_def Let_def rf_tx_ok_def rf_rx_ok_def rf_rx_static_def gw_RF_cmdPropTx_def gw_RF_cmdPropRx_def)
  from rf_run_ok [OF this] show ?thesis using assms(2) by (simp add: Concentrator gw_radio_def rf_submit_ok_def)
next
  case (SolarNode qs)
  have "rf_tx_ok (rf_tx (sc_rf_setup n \<lparr> rf_tx = sc_RF_cmdPropTx, rf_rx = sc_RF_cmdPropRx \<rparr>))"
    "rf_rx_ok (rf_rx (sc_rf_setup n \<lparr> rf_tx = sc_RF_cmdPropTx, rf_rx = sc_RF_cmdPropRx \<rparr>))"
    by (simp_all add: sc_rf_setup_def Let_def rf_tx_ok_def rf_rx_ok_def rf_rx_static_def sc_RF_cmdPropTx_def sc_RF_cmdPropRx_def)
  from rf_run_ok [OF this] show ?thesis
    using assms(2) by (simp add: SolarNode sc_radio_def rf_submit_ok_def rf_settings_equal node_steps_same)
next
  case (TempHumNode qs)
  have "rf_tx_ok th_RF_cmdPropTx" "rf_rx_static th_RF_cmdPropRx"
    by (simp_all add: rf_tx_ok_def rf_rx_static_def th_RF_cmdPropTx_def th_RF_cmdPropRx_def)
  then show ?thesis using th_run_ok assms by (simp add: TempHumNode th_radio_def)
qed

text \<open>The frames that the programs build fit into the packets they let through, and a packet that is let through fits
  into the 70-byte buffer it is copied to.\<close>

lemma built_frames_fit:
  "radio_frame buf nf sq = Some f \<Longrightarrow> length f \<le> 57"
  "sc_frame buf fid m sq = Some f \<Longrightarrow> length f \<le> 57"
  "ls_frame buf fid m sq = Some f \<Longrightarrow> length f \<le> 57"
  "th_frame buf m dest i sq = Some f \<Longrightarrow> length f \<le> 57"
  by (auto simp: radio_frame_def sc_frame_def ls_frame_def th_frame_def Let_def min_def split: if_splits option.splits)

lemma sends_link:
  assumes "list_all rf_submit_ok ss" "(l, k) \<in> set (rf_sends ss)"
  shows "l = rf_link gw_RF_cmdPropRadioDivSetup gw_RF_cmdFs 0x930B51DE (1, 1) \<and> k \<le> 64"
proof -
  obtain mode st fs tx rx where m: "RfOpen mode st \<in> set ss" "SubmitFs fs \<in> set ss" "SubmitTx tx rx \<in> set ss"
    and l: "l = tx_link st fs tx" "k = unat (pktLen tx)"
    using assms(2) by (auto simp: rf_sends_def split: rf_submit.splits)
  note ok = m [THEN list_all_iff [THEN iffD1, OF assms(1), THEN bspec]]
  show ?thesis using ok by (simp add: rf_submit_ok_def tx_link_def rf_tx_ok_def l)
qed

lemma receives_link:
  assumes "list_all rf_submit_ok ss" "(l, rx) \<in> set (rf_receives ss)"
  shows "l = rf_link gw_RF_cmdPropRadioDivSetup gw_RF_cmdFs 0x930B51DE (1, 1) \<and> rf_rx_ok rx"
proof -
  obtain mode st fs s where m: "RfOpen mode st \<in> set ss" "SubmitFs fs \<in> set ss" "s \<in> set ss"
    and l: "l = rx_link st fs rx" "rx \<in> set (rf_rx_of s)"
    using assms(2) by (auto simp: rf_receives_def split: rf_submit.split_asm)
  note ok = m [THEN list_all_iff [THEN iffD1, OF assms(1), THEN bspec]]
  show ?thesis using ok l by (cases s) (auto simp: rf_submit_ok_def rx_link_def rf_rx_ok_def rf_rx_static_def)
qed

text \<open>
  C32. Whatever the concentrator, the solar node and the temperature node have submitted before, any transmission of one
  and any reception of another use the same modulation, symbol rate, preamble, bit order, frequency, sync word, checksum
  and packet format; the receiver's length filter lets the packet through, does not filter by address, and an entry of
  its queue has room for the longest packet that passes with the bytes the radio adds.
\<close>

theorem radio_programs_hear_each_other:
  assumes "rf_names_ok n" "rf_program_ok p" "rf_program_ok q"
    and "(l, k) \<in> set (rf_sends (rf_trace n p))" "(l', rx) \<in> set (rf_receives (rf_trace n q))"
  shows "l = l' \<and> k \<le> unat (maxPktLen rx) \<and> bChkAddress (rxPktConf rx) = 0 \<and>
    rf_entry_bytes rx \<le> PAYLOAD_LENGTH + NUM_APPENDED_BYTES"
  using sends_link [OF commands_trace_ok [OF assms(1,2)] assms(4)] receives_link [OF commands_trace_ok [OF assms(1,3)] assms(5)]
  by (simp add: rf_rx_ok_def rf_rx_static_def rf_entry_bytes_def Let_def)

theorem radio_programs_hear_each_other_witness:
  "\<exists>l rx. (l, 5) \<in> set (rf_sends (rf_trace some_names (TempHumNode [ThMessage [0, 0x44, 0xFF, 1, 2] 1]))) \<and>
     (l, rx) \<in> set (rf_receives (rf_trace some_names (Concentrator [Listen]))) \<and> 5 \<le> unat (maxPktLen rx)"
proof -
  let ?p = "TempHumNode [ThMessage [0, 0x44, 0xFF, 1, 2] 1]" and ?q = "Concentrator [Listen]"
  have n: "rf_names_ok some_names" by (simp add: rf_names_ok_def some_names_def)
  obtain l where l: "(l, 5) \<in> set (rf_sends (rf_trace some_names ?p))"
    by (simp add: rf_sends_def th_radio_def th_rf_open_def th_rf_try_def Let_def)
  obtain l' rx where rx: "(l', rx) \<in> set (rf_receives (rf_trace some_names ?q))"
    by (simp add: rf_receives_def gw_radio_def rf_step_defs Let_def)
  show ?thesis using radio_programs_hear_each_other [OF n _ _ l rx] l rx by auto
qed

text \<open>The events that end a reply window are waited for longer than the window is open. The wait is in ticks of the
  system clock (100 kHz, as the retry timer of the concentrator has it) although its constant is computed in ticks of the
  radio timer (4 MHz): it is 440 ms in the concentrator and 2 s in the solar node.\<close>

definition radio_us :: "nat \<Rightarrow> nat" where "radio_us t = t div 4"
definition system_us :: "nat \<Rightarrow> nat" where "system_us t = t * 10"

lemma waits_outlast_windows:
  "radio_us GW_RX_TIMEOUT = 10000" "system_us GW_ACK_TIMEOUT_TICKS = 440000"
  "radio_us SC_RX_TIMEOUT = 50000" "system_us SC_ACK_TIMEOUT_TICKS = 2000000"
  "radio_us ACK_WINDOW_TICKS = 50000"
  by (simp_all add: radio_us_def system_us_def)

end
