(* ===== verification/EndToEnd.thy ===== *)
theory EndToEnd
  imports NodeLink SpiBridge IpcLoop
begin

text \<open>
  The programs put together: a report on its way from the application of a node to the Linux service, and a command
  from the service to the application of a node. Each step hands to the next what it leaves in a queue or puts on
  the wire; the theorems of the single programs are composed.
\<close>

subsection \<open>A report to Linux\<close>

text \<open>The bytes of a report as Linux receives them: the chip id, the message, zeros up to the size of the struct.\<close>

definition report_bytes :: "u8 list \<Rightarrow> MessageStruct \<Rightarrow> u8 list" where
  "report_bytes fid m = fid @ sent_bytes m @ replicate (44 - unat (m_length m)) 0"

lemma uplink_frame_report:
  assumes m: "node_msg_ok m" and fid: "length fid = 8"
  shows "frame_bytes (uplink_frame fid (sent_bytes m)) = report_bytes fid m" "wf_frame (uplink_frame fid (sent_bytes m))"
    "m_type (nf_msg (uplink_frame fid (sent_bytes m))) = m_type m"
proof -
  define bs where "bs = blit (msg_bytes msg_zero) 0 (sent_bytes m)"
  have L: "length (sent_bytes m) = unat (m_length m)" "4 \<le> unat (m_length m)" "unat (m_length m) \<le> 44"
    using m by (simp_all add: sent_bytes_def node_msg_ok_def wf_msg_def)
  have bs: "bs = sent_bytes m @ replicate (44 - unat (m_length m)) 0" "length bs = 44"
  proof -
    have "msg_bytes msg_zero = replicate 44 0" by (simp add: msg_bytes_def msg_zero_def numeral_eq_Suc)
    then show "bs = sent_bytes m @ replicate (44 - unat (m_length m)) 0" using L by (simp add: bs_def blit_def)
    then show "length bs = 44" using L by simp
  qed
  have f: "uplink_frame fid (sent_bytes m) = \<lparr> nf_factory_id = fid, nf_msg = msg_of_bytes bs \<rparr>"
    using fid by (auto simp: uplink_frame_def bs_def)
  show "frame_bytes (uplink_frame fid (sent_bytes m)) = report_bytes fid m"
    using msg_bytes_of_bytes [OF bs(2)] by (simp add: f frame_bytes_def report_bytes_def bs(1))
  show "wf_frame (uplink_frame fid (sent_bytes m))" using fid bs(2) by (simp add: f wf_frame_def)
  have "bs ! 1 = msg_bytes m ! 1" using L by (simp add: bs(1) nth_append sent_bytes_def)
  then show "m_type (nf_msg (uplink_frame fid (sent_bytes m))) = m_type m"
    by (simp add: f msg_of_bytes_def msg_bytes_def)
qed

text \<open>A transfer that the driver completes and that brings the slave's frame; the master receives frame after frame.\<close>

definition good_xfer :: "SpiFrame \<Rightarrow> Xfer" where
  "good_xfer f = \<lparr> x_starts = True, x_callback = True, x_late = False, x_rx = spi_bytes f, x_completed = True \<rparr>"

definition master_receives :: "SpiFrame list \<Rightarrow> SpiMaster \<Rightarrow> SpiMaster" where
  "master_receives fs s = fold (\<lambda>f t. fst (spi_rx_from_slave (good_xfer f) t)) fs s"

lemma receive_queue:
  "gNodeInQueue (fst (spi_rx_from_slave (good_xfer f) s)) =
    gNodeInQueue s @ (case route_rx_frame (spi_of_bytes (spi_bytes f)) of None \<Rightarrow> []
      | Some nf \<Rightarrow> if length (gNodeInQueue s) < 8 then [nf] else [])"
  by (simp add: spi_rx_from_slave_def good_xfer_def spi_do_transfer_def spiMcspiCallback_def route_rx_def Let_def
      split: option.split)

lemma ships_all:
  assumes "\<And>k. \<exists>i < 3. try_ok (air k i)" "wf_frame nf"
  shows "map (\<lambda>f. route_rx_frame (spi_of_bytes (spi_bytes f))) (ships air k sq (replicate c nf)) = replicate c (Some nf)"
  using assms by (induction c arbitrary: k sq) (simp_all add: node_data_arrives)

lemma master_queue:
  "map (\<lambda>f. route_rx_frame (spi_of_bytes (spi_bytes f))) fs = replicate c (Some nf) \<Longrightarrow> length (gNodeInQueue s) + c \<le> 8 \<Longrightarrow>
    gNodeInQueue (master_receives fs s) = gNodeInQueue s @ replicate c nf"
proof (induction c arbitrary: fs s)
  case (Suc c)
  then obtain f fs' where fs: "fs = f # fs'" "route_rx_frame (spi_of_bytes (spi_bytes f)) = Some nf"
    by auto
  define s1 where "s1 = fst (spi_rx_from_slave (good_xfer f) s)"
  have s1: "gNodeInQueue s1 = gNodeInQueue s @ [nf]" using Suc.prems(2) by (simp add: s1_def receive_queue fs(2))
  have "gNodeInQueue (master_receives fs' s1) = gNodeInQueue s1 @ replicate c nf"
    using Suc.prems fs s1 by (intro Suc.IH) simp_all
  then show ?case by (simp add: fs(1) master_receives_def s1_def [symmetric] s1)
qed (simp add: master_receives_def)

text \<open>The engine's pass over a frame returns unless an active rule declares more conditions than it has.\<close>

lemma engine_takes_frame:
  assumes "m_type (nf_msg frame) \<noteq> ENGINE_NODEIN_TIME_RESYNC" "list_all rule_ok (active_rules e)"
  shows "\<exists>e' items. engineTask (Some frame) now clk e = Inr (e', items)"
  using assms by (simp add: engineTask_def Let_def evaluate_pass repeated_minute_def)

text \<open>
  C4. A report that the gateway hears at the first try ends at Linux unchanged: the node sends it \<open>n\<close> times (until
  it hears an ACK, three times at most), the concentrator queues every copy it hears and answers it, the
  slave ships the copies over a link that carries each of them within three tries and ends with an empty queue, the
  master passes them to the engine in the same number, and the engine's pass over such a frame, with well-formed rules,
  returns and makes the communication task, connected and with a free slot, send a telemetry message with the chip id
  and the bytes the application queued.
\<close>

theorem report_travels_to_linux:
  fixes heard answered :: "nat \<Rightarrow> bool"
  assumes node: "node_ok nd" "length buf = 70" "node_msg_ok m" "wf_msg old" "nr_radioQueue nd = [sent_bytes m]"
    and gw: "radio_ok g" "spiQueue g = []" "heard 0"
    and spi: "\<not> sv_slaveReady sl" "\<And>k. \<exists>i < 3. try_ok (air k i)" "length (gNodeInQueue sm) \<le> 5"
    and m4f: "m_type m \<noteq> ENGINE_NODEIN_TIME_RESYNC" "gLinuxEndpoint c \<noteq> 0" "g_tx_event (c_callbacks c)"
      "findFreePendingSlot c = Some slot" "list_all rule_ok (active_rules e)"
  defines "fid \<equiv> gFactoryId (nr_identity nd)"
  defines "pkt \<equiv> rf_pkt 0 (m_id m) fid (sent_bytes m) (nr_txSeq nd + 1)"
  defines "reply \<equiv> rf_reply (pend_map (gPending g)) 0 (m_id m) fid (sent_bytes m) (nr_txSeq nd + 1)"
  defines "acks_it \<equiv> (case pend_map (gPending g) fid of None \<Rightarrow> True | Some c \<Rightarrow> c = 0 \<or> c = m_cmd m)"
  defines "n \<equiv> tries_made 3 (\<lambda>k. heard k \<and> answered k \<and> acks_it) 0"
  defines "copies \<equiv> length (filter heard [0..<n])"
  shows "\<exists>nd' g' sl' fx frame.
    sc_send_event buf old (\<lambda>j k. if heard k \<and> answered k then [reply] else []) nd = Some (nd', replicate n (NodeTx pkt)) \<and>
    radio_rx_event (replicate copies pkt) g = Some (g', concat (replicate copies [RfTx reply, UplinkEvent])) \<and>
    slave_turn master_initiate air (sl\<lparr> sv_radio := g' \<rparr>) = (sl', fx) \<and> spiQueue (sv_radio sl') = [] \<and>
    1 \<le> copies \<and> gNodeInQueue (master_receives (shipped fx) sm) = gNodeInQueue sm @ replicate copies frame \<and>
    (\<exists>e' items sq rest. engineTask (Some frame) now clk e = Inr (e', items) \<and>
      on_wire (snd (drainEngineOutbox env items c)) = Inr (MSG_NODE_TELEMETRY, sq, report_bytes fid m) # rest)"
proof -
  let ?F = "uplink_frame fid (sent_bytes m)"
  have fid: "length fid = 8" using node(1) by (simp add: node_ok_def fid_def)
  note F = uplink_frame_report [OF node(3) fid]
  note ex = report_exchange [OF node gw(1), of heard answered, folded fid_def, folded pkt_def reply_def acks_it_def,
    folded n_def, folded copies_def]
  obtain nd' g' where 1: "sc_send_event buf old (\<lambda>j k. if heard k \<and> answered k then [reply] else []) nd =
      Some (nd', replicate n (NodeTx pkt))"
    "radio_rx_event (replicate copies pkt) g = Some (g', concat (replicate copies [RfTx reply, UplinkEvent]))"
    "spiQueue g' = take 10 (replicate copies ?F)"
    using ex gw(2) by auto
  have "1 \<le> n" by (simp add: n_def numeral_3_eq_3)
  then have c: "1 \<le> copies" using gw(3) by (simp add: copies_def Suc_le_eq filter_empty_conv) (metis atLeastLessThan_iff less_eq_Suc_le One_nat_def zero_le)
  have "copies \<le> 3" using tries_made_le [of 3 _ 0] length_filter_le [of heard "[0..<n]"] by (simp add: copies_def n_def) (meson le_trans)
  then have q: "spiQueue g' = replicate copies ?F" "spiQueue g' \<noteq> []" using 1(3) c by (auto simp: min_def)
  obtain sl1 fx1 where d: "slave_drain air 0 (sl\<lparr> sv_radio := g' \<rparr>) = (sl1, fx1)" by fastforce
  have "shipped fx1 = ships air 0 (sv_txSeq sl) (replicate copies ?F) \<and> spiQueue (sv_radio sl1) = []"
    using drain_ships [OF d _ refl] spi(1) q(1) by simp
  moreover have "slave_turn master_initiate air (sl\<lparr> sv_radio := g' \<rparr>) = (sl1, fx1)" using d q(2) by (simp add: slave_turn_def)
  moreover have "gNodeInQueue (master_receives (ships air 0 (sv_txSeq sl) (replicate copies ?F)) sm) =
      gNodeInQueue sm @ replicate copies ?F"
    using master_queue [OF ships_all [OF spi(2) F(2)]] spi(3) \<open>copies \<le> 3\<close> by simp
  moreover have "\<exists>e' items sq rest. engineTask (Some ?F) now clk e = Inr (e', items) \<and>
      on_wire (snd (drainEngineOutbox env items c)) = Inr (MSG_NODE_TELEMETRY, sq, report_bytes fid m) # rest"
  proof -
    have t: "m_type (nf_msg ?F) \<noteq> ENGINE_NODEIN_TIME_RESYNC" using m4f(1) F(3) by simp
    obtain e' items where e: "engineTask (Some ?F) now clk e = Inr (e', items)"
      using engine_takes_frame [OF t m4f(5)] by blast
    obtain c' gx where d: "drainEngineOutbox env items c = (c', gx)" by fastforce
    show ?thesis using report_reaches_linux [OF t F(2) e m4f(2-4) d] e d F(1) by auto
  qed
  ultimately show ?thesis using 1(1,2) c
    by (intro exI [of _ nd'] exI [of _ g'] exI [of _ sl1] exI [of _ fx1] exI [of _ ?F]) simp
qed

text \<open>A command is pending for the chip: the report goes out and reaches the engine three times.\<close>

definition fair_air :: "nat \<Rightarrow> nat \<Rightarrow> SXfer" where
  "fair_air j k = \<lparr> sx_arms = True, sx_done = True, sx_rx = spi_bytes frame_make_nop \<rparr>"

theorem report_travels_to_linux_witness:
  "\<exists>g' sl' fx frame e' items sq rest.
    radio_rx_event (replicate 3 ([0, 0x45, 0x21] @ demo_fid @ [0x21, 0, 1, 5, 1, 1, 0x0C])) demo_radio =
      Some (g', concat (replicate 3 [RfTx [0x21, 0x4E, 0, 6], UplinkEvent])) \<and>
    slave_turn False fair_air (demo_slave\<lparr> sv_radio := g' \<rparr>) = (sl', fx) \<and>
    gNodeInQueue (master_receives (shipped fx) spi_boot) = [frame, frame, frame] \<and>
    engineTask (Some frame) 0 (\<lambda>_ _. 0) engine_blank = Inr (e', items) \<and>
    on_wire (snd (drainEngineOutbox (\<lambda>_. (True, 0)) items comms_blank)) =
      Inr (MSG_NODE_TELEMETRY, sq, demo_fid @ [0x21, 0, 1, 5, 1] @ replicate 39 0) # rest"
proof -
  have n: "tries_made 3 (\<lambda>k. False) 0 = 3" by (simp add: numeral_3_eq_3)
  have b: "length (replicate 70 (0 :: u8)) = 70" by simp
  have p: "rf_pkt 0 0x21 demo_fid [0x21, 0, 1, 5, 1] 1 = [0, 0x45, 0x21] @ demo_fid @ [0x21, 0, 1, 5, 1, 1, 0x0C]"
    "rf_reply [demo_fid \<mapsto> 6] 0 0x21 demo_fid [0x21, 0, 1, 5, 1] 1 = [0x21, 0x4E, 0, 6]"
    by (simp_all add: rf_pkt_def rf_body_def calcChecksum_def checksum_step_def demo_fid_def rf_reply_def reply_byte_def)
  have st: "spiQueue demo_radio = []" "\<not> sv_slaveReady demo_slave" "gNodeInQueue spi_boot = []"
    by (simp_all add: demo_radio_def demo_slave_def spi_boot_def)
  have air: "\<exists>i < 3. try_ok (fair_air k i)" for k by (rule exI [of _ 0]) (simp add: fair_air_def try_ok_def)
  have m: "m_type demo_status \<noteq> ENGINE_NODEIN_TIME_RESYNC" "unat (m_length demo_status) = 5"
    by (simp_all add: demo_status_def ENGINE_NODEIN_TIME_RESYNC_def)
  have c: "gLinuxEndpoint comms_blank \<noteq> 0" "g_tx_event (c_callbacks comms_blank)"
    by (simp_all add: comms_blank_def engine_rpmsg_init_def)
  have free: "findFreePendingSlot comms_blank = Some 0"
    by (simp add: findFreePendingSlot_def comms_blank_def numeral_eq_Suc)
  have r3: "replicate 3 (x :: NodeFrame) = [x, x, x]" for x by (simp add: numeral_3_eq_3)
  have e: "list_all rule_ok (active_rules engine_blank)" by (simp add: active_rules_def engine_blank_def)
  have q: "length (gNodeInQueue spi_boot) \<le> 5" using st by simp
  note T = report_travels_to_linux [where air = fair_air and heard = "\<lambda>_. True" and answered = "\<lambda>_. True" and env = "\<lambda>_. (True, 0)"
      and now = 0 and clk = "\<lambda>_ _. 0" and master_initiate = False,
      OF demo_node_facts(1) b demo_node_facts(2) wf_msg_zero demo_node_facts(4) demo_radio_ok st(1) TrueI st(2) air q m(1) c free e]
  show ?thesis using T
    unfolding demo_node_facts demo_pending p report_bytes_def m(2) st
    by (simp add: n p r3) blast
qed

subsection \<open>A command from Linux\<close>

text \<open>A command as the Linux service sends it: the struct with the chip id, in a message of its own.\<close>

lemma command_relayed:
  assumes "wf_frame nf" "g_reply (c_callbacks c)" "g_tx_node (c_callbacks c)"
  shows "handleLinuxMessage st now (protocol_wire MSG_NODE_CMD sq (frame_bytes nf)) c =
    (c, PostCmd nf # sendReply st MSG_ACK sq c)"
  using assms by (simp add: handleLinuxMessage_def decode_wire control_types_def dispatch_def run_effect_def ackIf_def
      frame_of_bytes_bytes)

text \<open>The SPI task sends a single command in three steps of a round: no control frame, the command, nothing more.\<close>

lemma command_clocked:
  assumes "sp_pc s = SpCtrl" "gSpiCtrlQueue s = []" "gSpiOutQueue s = [nf]" "slave_arms b (gIrqActive s)" "x_starts (sl_xfer b)"
  shows "\<exists>t. spi_run [x, b, y] s = (t, [Clocked (frame_make_node_cmd nf (gTxSeq s) 0)]) \<and> gSpiOutQueue t = []"
proof -
  define s1 where "s1 = s\<lparr> sp_pc := SpOut \<rparr>"
  have 1: "spi_run [x] s = (s1, [])" using assms(1,2) by (simp add: spiTask_def s1_def)
  have "length [b] = length [nf]" by simp
  then obtain t where t: "spi_run [b] s1 = (t, clocked (gIrqActive s1) [b] (numbered frame_make_node_cmd (gTxSeq s1) [nf]))"
      "sp_pc t = SpOut" "gSpiOutQueue t = []"
    using out_drain [of s1 "[nf]" "[b]"] assms(3) by (auto simp: s1_def)
  have y: "spi_run [y] t = (t\<lparr> sp_pc := SpSlave \<rparr>, [])" using t(2,3) by (simp add: spiTask_def)
  have "spi_run ([x] @ [b] @ [y]) s = (t\<lparr> sp_pc := SpSlave \<rparr>, [Clocked (frame_make_node_cmd nf (gTxSeq s) 0)])"
    using 1 t(1) y assms(4,5) by (simp only: spi_run_append) (simp add: clocked_simps s1_def)
  then show ?thesis using t(3) by simp
qed

text \<open>
  C5. A node command that Linux sends reaches the application of the node it names: the M4F acknowledges the message
  and posts the command, the SPI task sends it in its next round when the slave is ready for it, the concentrator
  queues it and puts it on air, the node with its address and chip id queues exactly the message bytes for its
  application and answers with an ACK, and when the concentrator hears that ACK the command is gone from its queue after
  one transmission.
\<close>

theorem linux_command_reaches_application:
  assumes cmd: "job_ok nf" "4 \<le> unat (m_length (nf_msg nf))"
    and m4f: "g_reply (c_callbacks c)" "g_tx_node (c_callbacks c)"
    and spi: "sp_ready sm" "sp_pc sm = SpCtrl" "gSpiCtrlQueue sm = []" "gSpiOutQueue sm = []"
      "slave_arms slot (gIrqActive sm)" "x_starts (sl_xfer slot)"
    and gw: "radio_ok r" "radioQueue r = []" "length buf = 70"
    and node: "node_ok nd" "length (nr_commandQueue nd) < 10" "m_id (nf_msg nf) = gNodeAddress (nr_identity nd)"
      "has_factory (nf_factory_id nf)" "nf_factory_id nf = gFactoryId (nr_identity nd)"
  defines "pkt \<equiv> job_pkt nf (txSequenceNumber r + 1)"
  shows "\<exists>sm1 sm2 frame r1 r2 nd' ack.
    handleLinuxMessage st now (protocol_wire MSG_NODE_CMD sq (frame_bytes nf)) c =
      (c, PostCmd nf # sendReply st MSG_ACK sq c) \<and>
    spi_master_post_cmd (Some nf) sm = (True, sm1) \<and>
    spi_run [x, slot, y] sm1 = (sm2, [Clocked frame]) \<and> gSpiOutQueue sm2 = [] \<and>
    slave_route_rx_frame (spi_of_bytes (spi_bytes frame)) r = (r1, [SendEvent]) \<and>
    radio_send_event buf (\<lambda>_. [ack]) 0 r1 = Some (r2, [RfTx pkt]) \<and> radioQueue r2 = [] \<and>
    sc_rx_packet pkt nd = Some (nd', [NodeTx ack, CommandEvent]) \<and>
    nr_commandQueue nd' = nr_commandQueue nd @ [sent_bytes (nf_msg nf)]"
proof -
  have wf: "wf_frame nf" using cmd(1) by (simp add: job_ok_def)
  define sm1 where "sm1 = sm\<lparr> gSpiOutQueue := [nf], gSrSem := True \<rparr>"
  have post: "spi_master_post_cmd (Some nf) sm = (True, sm1)" using spi by (simp add: spi_master_post_cmd_def sm1_def)
  obtain sm2 where run: "spi_run [x, slot, y] sm1 = (sm2, [Clocked (frame_make_node_cmd nf (gTxSeq sm1) 0)])" "gSpiOutQueue sm2 = []"
    using command_clocked [of sm1 nf slot x y] spi by (auto simp: sm1_def)
  define r1 where "r1 = r\<lparr> radioQueue := [\<lparr> rm_frame = nf, rm_retryCounter = 0 \<rparr>] \<rparr>"
  have route: "slave_route_rx_frame (spi_of_bytes (spi_bytes (frame_make_node_cmd nf (gTxSeq sm1) 0))) r = (r1, [SendEvent])"
    using node_cmd_arrives [OF wf] gw(2) by (simp add: r1_def)
  obtain nd' ack where n: "sc_rx_packet pkt nd = Some (nd', [NodeTx ack, CommandEvent])"
      "nr_commandQueue nd' = nr_commandQueue nd @ [sent_bytes (nf_msg nf)]" "acks pkt ack" "length ack = 4"
    using command_taken [OF node(1) cmd node(2), of "txSequenceNumber r + 1"] node(3-5)
    by (auto simp: pkt_def)
  have "window_ok [ack]" using n(4) by (simp add: window_ok_def)
  then obtain r2 where "radio_send_event buf (\<lambda>_. [ack]) 0 r1 = Some (r2, [RfTx pkt])" "radioQueue r2 = []"
    using single_job_event [of "\<lparr> rm_frame = nf, rm_retryCounter = 0 \<rparr>" buf "[ack]" r1] cmd(1) gw(1,3) n(3)
    by (auto simp: r1_def radio_ok_def pkt_def)
  then show ?thesis using command_relayed [OF wf m4f] post run route n(1,2) by metis
qed

definition idle_spi :: SpiMaster where
  "idle_spi = spi_boot\<lparr> sp_ready := True, gIrqActive := True, gIrqOutp := 4, sp_pc := SpCtrl \<rparr>"

theorem linux_command_reaches_application_witness:
  "\<exists>sm1 sm2 frame r1 r2 nd' ack.
    snd (handleLinuxMessage True 0 (protocol_wire MSG_NODE_CMD 9 (frame_bytes demo_job)) comms_blank) =
      PostCmd demo_job # sendReply True MSG_ACK 9 comms_blank \<and>
    spi_master_post_cmd (Some demo_job) idle_spi = (True, sm1) \<and>
    spi_run [prompt_slot, prompt_slot, prompt_slot] sm1 = (sm2, [Clocked frame]) \<and>
    slave_route_rx_frame (spi_of_bytes (spi_bytes frame)) (demo_radio\<lparr> radioQueue := [] \<rparr>) = (r1, [SendEvent]) \<and>
    radio_send_event (replicate 70 0) (\<lambda>_. [ack]) 0 r1 = Some (r2, [RfTx (job_pkt demo_job 1)]) \<and>
    sc_rx_packet (job_pkt demo_job 1) demo_node = Some (nd', [NodeTx ack, CommandEvent]) \<and>
    nr_commandQueue nd' = [[0x21, 0, 2, 5, 1]]"
proof -
  have j: "job_ok demo_job" "4 \<le> unat (m_length (nf_msg demo_job))"
    by (simp_all add: job_ok_def demo_job_def wf_frame_def demo_fid_def wf_msg_def)
  have c: "g_reply (c_callbacks comms_blank)" "g_tx_node (c_callbacks comms_blank)"
    by (simp_all add: comms_blank_def engine_rpmsg_init_def)
  have sm: "sp_ready idle_spi" "sp_pc idle_spi = SpCtrl" "gSpiCtrlQueue idle_spi = []" "gSpiOutQueue idle_spi = []"
    "slave_arms prompt_slot (gIrqActive idle_spi)" "x_starts (sl_xfer prompt_slot)"
    by (simp_all add: idle_spi_def spi_boot_def prompt_slot_def slave_arms_def)
  have r: "radio_ok (demo_radio\<lparr> radioQueue := [] \<rparr>)" "radioQueue (demo_radio\<lparr> radioQueue := [] \<rparr>) = []"
    "length (replicate 70 (0 :: u8)) = 70" "txSequenceNumber (demo_radio\<lparr> radioQueue := [] \<rparr>) = 0"
    using demo_radio_ok by (simp_all add: radio_ok_def) (simp add: demo_radio_def)
  have n: "length (nr_commandQueue demo_node) < 10" "m_id (nf_msg demo_job) = gNodeAddress (nr_identity demo_node)"
    "has_factory (nf_factory_id demo_job)" "nf_factory_id demo_job = gFactoryId (nr_identity demo_node)"
    "nr_commandQueue demo_node = []" "sent_bytes (nf_msg demo_job) = [0x21, 0, 2, 5, 1]"
    by (simp_all add: demo_node_def demo_job_def has_factory_def demo_fid_def sent_bytes_def msg_bytes_def)
  show ?thesis
    using linux_command_reaches_application [OF j c sm r(1-3) demo_node_facts(1) n(1-4),
        where st = True and now = 0 and sq = 9 and x = prompt_slot and y = prompt_slot]
    unfolding n(5,6) r(4) by auto
qed

end
