(* ===== verification/StartUp.thy ===== *)
theory StartUp
  imports Prelude
begin

text \<open>
  The start of the programs: what \<open>main\<close>, the \<open>_init\<close> functions and the first lines of the tasks do, as the list of
  their calls, and a scheduler that runs them. Calls, tasks and interrupt handlers use drivers, queues, events,
  semaphores and handles that other calls create; the question is whether any of them can run before what it uses
  exists, and what becomes of the program when something cannot be created. A handler can be called at any time from
  its enabling on, once the scheduler runs; a task that waits can be woken at any time. Tasks of one priority do not
  share time: TI-RTOS does not do so, and on the M4F those that could have no calls before their loops.
\<close>

subsection \<open>Calls, tasks and handlers\<close>

text \<open>
  The objects: drivers that an \<open>_init\<close> function makes usable (in capitals), and what the programs create, by the
  names of their variables. \<open>O_pthread\<close> is the thread of the light switch and its attributes.
\<close>

datatype boot_object =
    O_GPIO | O_UART | O_SPI | O_PWM | O_WATCHDOG | O_MCU | O_BOARD
  | O_display | O_spiQueue | O_radioQueue | O_spiMasterEventHandle | O_radioEventHandle | O_timeoutClock | O_spiHandle
  | O_dataQueue | O_rfHandle | O_gFactoryId | O_solarControllerQueue | O_solarControllerEventHandle | O_adcSpi | O_hTimer
  | O_watchdogHandle | O_pwm1 | O_pthread | O_joinSem
  | O_rxRing | O_linuxReady | O_gRecvMsgObject | O_engine | O_callbacks | O_gOutboxQueue | O_gNodeInQueue | O_gSpiOutQueue
  | O_gSpiCtrlQueue | O_gXferDoneSem | O_gSrSem

datatype boot_proc =
    P_main | P_spi | P_radio | P_solar | P_mainThread | P_app | P_node | P_comms | P_engine | P_monitor | P_spiMaster
  | H_masterReady | H_spiTransfer | H_timeoutClock | H_echo | H_button | H_timer | H_ctrlReady | H_taskAlert
  | H_joinButton | H_linuxMsg | H_mbox | H_srBank

text \<open>
  \<open>Call\<close> is a call of the named function, which uses the given objects and returns; \<open>Print\<close> a call of
  \<open>Display_printf\<close>, which waits for the UART; \<open>Block\<close> another call that waits; \<open>Halt\<close> an endless loop; \<open>Loop\<close> stands
  for the endless loop of a task.
\<close>

datatype boot_call =
    Call string "boot_object list"
  | Create boot_object
  | Enable boot_proc
  | Spawn boot_proc nat
  | Print
  | Block
  | Scheduler
  | Halt
  | Loop

text \<open>
  The order that the drivers ask for is the documented one: \<open>GPIO_init\<close>, \<open>SPI_init\<close> and so on come before the other
  functions of the driver. \<open>ok\<close> says which objects can be created; \<open>opened\<close> is a call that creates one, with what the
  code does when it fails.
\<close>

definition opened :: "(boot_object \<Rightarrow> bool) \<Rightarrow> string \<Rightarrow> boot_object list \<Rightarrow> boot_object \<Rightarrow> boot_call list \<Rightarrow> boot_call list" where
  "opened ok f us x fails = [Call f us] @ (if ok x then [Create x] else fails)"

definition if_display :: "(boot_object \<Rightarrow> bool) \<Rightarrow> boot_call list" where
  "if_display ok = (if ok O_display then [Print] else [])"

subsection \<open>The concentrator\<close>

definition gw_spiSlaveTaskInit :: "(boot_object \<Rightarrow> bool) \<Rightarrow> boot_call list" where
  "gw_spiSlaveTaskInit ok =
     opened ok ''mq_open'' [] O_spiQueue (if_display ok) @ [Call ''Task_Params_init'' [], Spawn P_spi 2]"

definition gw_radioTaskInit :: "(boot_object \<Rightarrow> bool) \<Rightarrow> boot_call list" where
  "gw_radioTaskInit ok =
     opened ok ''mq_open'' [] O_radioQueue (if_display ok) @
     [Call ''GPIO_setConfig'' [O_GPIO], Call ''GPIO_setCallback'' [O_GPIO], Call ''GPIO_enableInt'' [O_GPIO], Enable H_button,
      Call ''Task_Params_init'' [], Spawn P_radio 2]"

definition gw_main :: "(boot_object \<Rightarrow> bool) \<Rightarrow> boot_call list" where
  "gw_main ok =
     [Call ''Board_initGeneral'' [], Call ''Display_init'' [], Call ''GPIO_init'' [], Create O_GPIO, Call ''UART_init'' [], Create O_UART,
      Call ''SPI_init'' [], Create O_SPI, Call ''Display_Params_init'' []] @
     opened ok ''Display_open'' [O_UART] O_display [] @
     (if ok O_display then gw_spiSlaveTaskInit ok @ gw_radioTaskInit ok else []) @ [Scheduler]"

definition gw_spiSlaveTask :: "(boot_object \<Rightarrow> bool) \<Rightarrow> boot_call list" where
  "gw_spiSlaveTask ok =
     [Call ''Event_Params_init'' [], Call ''Event_construct'' [], Create O_spiMasterEventHandle, Call ''SPI_Params_init'' []] @
     opened ok ''SPI_open'' [O_SPI] O_spiHandle (if_display ok @ [Halt]) @ [Enable H_spiTransfer,
      Call ''GPIO_setConfig'' [O_GPIO], Call ''GPIO_setConfig'' [O_GPIO], Call ''GPIO_setCallback'' [O_GPIO],
      Call ''GPIO_enableInt'' [O_GPIO], Enable H_masterReady] @ if_display ok"

definition gw_radioTask :: "(boot_object \<Rightarrow> bool) \<Rightarrow> boot_call list" where
  "gw_radioTask ok =
     [Call ''Event_Params_init'' [], Call ''Event_construct'' [], Create O_radioEventHandle, Call ''Clock_Params_init'' [],
      Call ''Clock_create'' [], Create O_timeoutClock, Enable H_timeoutClock, Call ''RF_Params_init'' []] @
     opened ok ''RFQueue_defineQueue'' [] O_dataQueue [Print, Halt] @
     [Call ''RF_open'' [], Create O_rfHandle, Call ''RF_runCmd'' [O_rfHandle], Block, Enable H_echo]"

text \<open>The calls that the loops and the handlers make, with what they use.\<close>

definition gw_spiSlaveTask_loop :: "boot_call list" where
  "gw_spiSlaveTask_loop =
     [Call ''Event_pend'' [O_spiMasterEventHandle], Call ''mq_receive'' [O_spiQueue], Call ''SPI_transferCancel'' [O_spiHandle],
      Call ''SPI_transfer'' [O_spiHandle], Call ''GPIO_write'' [O_GPIO], Call ''mq_send'' [O_radioQueue],
      Call ''Event_post'' [O_radioEventHandle], Call ''Display_printf'' [O_display]]"

definition gw_radioTask_loop :: "boot_call list" where
  "gw_radioTask_loop =
     [Call ''RF_postCmd'' [O_rfHandle, O_dataQueue], Call ''Event_pend'' [O_radioEventHandle], Call ''RF_cancelCmd'' [O_rfHandle],
      Call ''RF_pendCmd'' [O_rfHandle], Call ''mq_receive'' [O_radioQueue], Call ''RFQueue_getDataEntry'' [O_dataQueue],
      Call ''mq_send'' [O_radioQueue], Call ''Clock_start'' [O_timeoutClock], Call ''mq_send'' [O_spiQueue],
      Call ''Event_post'' [O_spiMasterEventHandle], Call ''Display_printf'' [O_display]]"

definition gw_masterReadyFxn :: "boot_call list" where
  "gw_masterReadyFxn = [Call ''Event_post'' [O_spiMasterEventHandle]]"
definition gw_spiTransferCallback :: "boot_call list" where
  "gw_spiTransferCallback = [Call ''Event_post'' [O_spiMasterEventHandle]]"
definition gw_timeoutClockFxn :: "boot_call list" where
  "gw_timeoutClockFxn = [Call ''Event_post'' [O_radioEventHandle]]"
definition gw_echoCallback :: "boot_call list" where
  "gw_echoCallback = [Call ''Event_post'' [O_radioEventHandle]]"
definition gw_buttonCallback2 :: "boot_call list" where
  "gw_buttonCallback2 = [Call ''Clock_getTicks'' []]"

subsection \<open>The solar node\<close>

definition sc_radioTaskInit_boot :: "(boot_object \<Rightarrow> bool) \<Rightarrow> boot_call list" where
  "sc_radioTaskInit_boot ok =
     [Call ''identity_init'' [], Create O_gFactoryId] @ opened ok ''mq_open'' [] O_radioQueue (if_display ok) @
     [Call ''GPIO_setConfig'' [O_GPIO], Call ''GPIO_setCallback'' [O_GPIO], Call ''GPIO_enableInt'' [O_GPIO], Enable H_button,
      Call ''Task_Params_init'' [], Spawn P_radio 2]"

definition sc_solarControllerTaskInit :: "(boot_object \<Rightarrow> bool) \<Rightarrow> boot_call list" where
  "sc_solarControllerTaskInit ok =
     [Call ''Event_Params_init'' [], Call ''Event_construct'' [], Create O_solarControllerEventHandle] @
     opened ok ''mq_open'' [] O_solarControllerQueue (if_display ok) @ [Call ''Task_Params_init'' [], Spawn P_solar 2]"

definition sc_main :: "(boot_object \<Rightarrow> bool) \<Rightarrow> boot_call list" where
  "sc_main ok =
     [Call ''Board_initGeneral'' [], Call ''Display_init'' [], Call ''GPIO_init'' [], Create O_GPIO, Call ''UART_init'' [], Create O_UART,
      Call ''SPI_init'' [], Create O_SPI, Call ''PWM_init'' [], Create O_PWM, Call ''Watchdog_init'' [], Create O_WATCHDOG,
      Call ''Display_Params_init'' []] @
     opened ok ''Display_open'' [O_UART] O_display [] @
     (if ok O_display then sc_radioTaskInit_boot ok @ sc_solarControllerTaskInit ok else []) @ [Scheduler]"

definition sc_radioTask_boot :: "(boot_object \<Rightarrow> bool) \<Rightarrow> boot_call list" where
  "sc_radioTask_boot ok =
     [Call ''Event_Params_init'' [], Call ''Event_construct'' [], Create O_radioEventHandle, Call ''RF_Params_init'' []] @
     opened ok ''RFQueue_defineQueue'' [] O_dataQueue (if_display ok @ [Halt]) @
     [Call ''RF_open'' [], Create O_rfHandle, Call ''RF_postCmd'' [O_rfHandle], Call ''Display_printf'' [O_gFactoryId]] @ if_display ok @
     [Enable H_echo]"

text \<open>
  \<open>ADS1256_HardwareInit\<close> says by its result whether the SPI driver could be opened; the task goes on in any case.
  \<open>watchdogCallback\<close>, an endless loop until the watchdog resets the chip, is not among the handlers: it runs when the
  task has not come round for the watchdog's period.
\<close>

definition sc_ADS1256_HardwareInit :: "(boot_object \<Rightarrow> bool) \<Rightarrow> boot_call list" where
  "sc_ADS1256_HardwareInit ok =
     [Call ''GPIO_setConfig'' [O_GPIO], Call ''GPIO_setConfig'' [O_GPIO], Call ''GPIO_setConfig'' [O_GPIO], Call ''SPI_Params_init'' []] @
     opened ok ''SPI_open'' [O_SPI] O_adcSpi [] @ if_display ok"

definition sc_solarTask_boot :: "(boot_object \<Rightarrow> bool) \<Rightarrow> boot_call list" where
  "sc_solarTask_boot ok =
     [Call ''GPIO_setConfig'' [O_GPIO], Call ''GPIO_write'' [O_GPIO], Call ''GPIO_setConfig'' [O_GPIO], Call ''GPIO_write'' [O_GPIO],
      Call ''GPIO_setConfig'' [O_GPIO], Call ''GPIO_write'' [O_GPIO]] @ sc_ADS1256_HardwareInit ok @
     [Call ''ADS1256_Init'' [O_GPIO, O_adcSpi], Block,
      Call ''GPTimerCC26XX_Params_init'' [], Call ''GPTimerCC26XX_open'' [], Create O_hTimer, Call ''GPTimerCC26XX_setLoadValue'' [O_hTimer],
      Call ''GPTimerCC26XX_registerInterrupt'' [O_hTimer], Enable H_timer, Call ''Watchdog_Params_init'' []] @
     opened ok ''Watchdog_open'' [O_WATCHDOG] O_watchdogHandle (if_display ok) @ [Call ''PWM_Params_init'' []] @
     opened ok ''PWM_open'' [O_PWM] O_pwm1 (if_display ok) @
     [Call ''PWM_start'' [O_pwm1], Call ''GPTimerCC26XX_start'' [O_hTimer], Call ''ADS1256_ReadTemperature'' [O_GPIO, O_adcSpi], Block] @
     if_display ok @ if_display ok"

definition sc_radioTask_loop :: "boot_call list" where
  "sc_radioTask_loop =
     [Call ''RF_postCmd'' [O_rfHandle, O_dataQueue], Call ''Event_pend'' [O_radioEventHandle], Call ''RF_cancelCmd'' [O_rfHandle],
      Call ''RF_pendCmd'' [O_rfHandle], Call ''mq_receive'' [O_radioQueue], Call ''memcpy'' [O_gFactoryId],
      Call ''RFQueue_getDataEntry'' [O_dataQueue], Call ''factory_is_mine'' [O_gFactoryId], Call ''mq_send'' [O_solarControllerQueue],
      Call ''Event_post'' [O_solarControllerEventHandle]]"

definition sc_solarTask_loop :: "boot_call list" where
  "sc_solarTask_loop =
     [Call ''Event_pend'' [O_solarControllerEventHandle], Call ''Watchdog_clear'' [O_watchdogHandle],
      Call ''ADS1256_ReadTemperature'' [O_GPIO, O_adcSpi], Call ''GPIO_write'' [O_GPIO], Call ''PWM_setDuty'' [O_pwm1],
      Call ''mq_send'' [O_radioQueue], Call ''Event_post'' [O_radioEventHandle], Call ''mq_receive'' [O_solarControllerQueue]]"

definition sc_buttonCallback2_boot :: "boot_call list" where
  "sc_buttonCallback2_boot = [Call ''memcpy'' [O_gFactoryId], Call ''mq_send'' [O_radioQueue], Call ''Event_post'' [O_radioEventHandle]]"
definition sc_echoCallback_boot :: "boot_call list" where
  "sc_echoCallback_boot = [Call ''Event_post'' [O_radioEventHandle]]"
definition sc_timerCallback :: "boot_call list" where
  "sc_timerCallback = [Call ''Event_post'' [O_solarControllerEventHandle]]"

subsection \<open>The light switch\<close>

definition ls_radioTaskInit_boot :: "(boot_object \<Rightarrow> bool) \<Rightarrow> boot_call list" where
  "ls_radioTaskInit_boot ok =
     [Call ''identity_init'' [], Create O_gFactoryId] @ opened ok ''mq_open'' [] O_radioQueue (if_display ok) @
     [Call ''Task_Params_init'' [], Spawn P_radio 2]"

definition ls_appTaskInit :: "(boot_object \<Rightarrow> bool) \<Rightarrow> boot_call list" where
  "ls_appTaskInit ok =
     [Call ''Event_Params_init'' [], Call ''Event_construct'' [], Create O_solarControllerEventHandle] @
     opened ok ''mq_open'' [] O_solarControllerQueue (if_display ok) @ [Call ''Task_Params_init'' [], Spawn P_app 1]"

definition ls_main :: "(boot_object \<Rightarrow> bool) \<Rightarrow> boot_call list" where
  "ls_main ok = [Call ''Board_init'' [], Call ''pthread_attr_init'' []] @
     opened ok ''pthread_create'' [] O_pthread [Halt] @ [Spawn P_mainThread 1, Scheduler]"

definition ls_mainThread :: "(boot_object \<Rightarrow> bool) \<Rightarrow> boot_call list" where
  "ls_mainThread ok =
     [Call ''GPIO_init'' [], Create O_GPIO] @ opened ok ''Display_open'' [] O_display [] @
     [Call ''GPIO_setConfig'' [O_GPIO]] @ if_display ok @ [Call ''scifOsalInit'' [], Enable H_ctrlReady, Enable H_taskAlert,
      Call ''scifInit'' [], Call ''scifWaitOnNbl'' [], Block, Call ''scifStartTasksNbl'' []] @
     ls_radioTaskInit_boot ok @ ls_appTaskInit ok @ if_display ok"

definition ls_radioTask_boot :: "(boot_object \<Rightarrow> bool) \<Rightarrow> boot_call list" where
  "ls_radioTask_boot ok =
     [Call ''Event_Params_init'' [], Call ''Event_construct'' [], Create O_radioEventHandle, Call ''RF_Params_init'' []] @
     opened ok ''RFQueue_defineQueue'' [] O_dataQueue (if_display ok @ [Halt]) @
     [Call ''RF_open'' [], Create O_rfHandle, Call ''RF_postCmd'' [O_rfHandle], Call ''Display_printf'' [O_gFactoryId]] @ if_display ok @
     [Enable H_echo]"

definition ls_appTask_boot :: "boot_call list" where
  "ls_appTask_boot = [Call ''GPIO_setConfig'' [O_GPIO], Call ''GPIO_write'' [O_GPIO], Call ''GPIO_setConfig'' [O_GPIO],
     Call ''GPIO_read'' [O_GPIO], Call ''GPIO_write'' [O_GPIO]]"

definition ls_radioTask_loop :: "boot_call list" where
  "ls_radioTask_loop =
     [Call ''RF_postCmd'' [O_rfHandle, O_dataQueue], Call ''Event_pend'' [O_radioEventHandle], Call ''RF_cancelCmd'' [O_rfHandle],
      Call ''RF_pendCmd'' [O_rfHandle], Call ''mq_receive'' [O_radioQueue], Call ''memcpy'' [O_gFactoryId],
      Call ''RFQueue_getDataEntry'' [O_dataQueue], Call ''factory_is_mine'' [O_gFactoryId], Call ''mq_send'' [O_solarControllerQueue],
      Call ''Event_post'' [O_solarControllerEventHandle]]"

definition ls_appTask_loop :: "boot_call list" where
  "ls_appTask_loop =
     [Call ''Event_pend'' [O_solarControllerEventHandle], Call ''mq_receive'' [O_solarControllerQueue], Call ''GPIO_write'' [O_GPIO],
      Call ''GPIO_read'' [O_GPIO], Call ''mq_send'' [O_radioQueue], Call ''Event_post'' [O_radioEventHandle]]"

definition ls_mainThread_loop :: "boot_call list" where
  "ls_mainThread_loop =
     [Call ''memcpy'' [O_gFactoryId], Call ''mq_send'' [O_radioQueue], Call ''Event_post'' [O_radioEventHandle],
      Call ''GPIO_toggle'' [O_GPIO], Call ''GPIO_read'' [O_GPIO], Call ''GPIO_write'' [O_GPIO]]"

definition ls_echoCallback_boot :: "boot_call list" where
  "ls_echoCallback_boot = [Call ''Event_post'' [O_radioEventHandle]]"

subsection \<open>The temperature and humidity node\<close>

definition th_main :: "boot_call list" where
  "th_main = [Call ''Board_initGeneral'' [], Call ''GPIO_init'' [], Create O_GPIO, Call ''Task_Params_init'' [], Spawn P_node 2, Scheduler]"

definition th_nodeTask_boot :: "boot_call list" where
  "th_nodeTask_boot = [Call ''UART_init'' [], Create O_UART, Call ''read_factory_id'' [], Create O_gFactoryId,
     Call ''Semaphore_Params_init'' [], Call ''Semaphore_construct'' [], Create O_joinSem,
     Call ''GPIO_setConfig'' [O_GPIO], Call ''GPIO_setCallback'' [O_GPIO], Call ''GPIO_enableInt'' [O_GPIO], Enable H_joinButton]"

definition th_nodeTask_loop :: "boot_call list" where
  "th_nodeTask_loop = [Call ''nvs_load_address'' [], Call ''dbg_uart'' [O_UART, O_gFactoryId], Call ''Semaphore_pend'' [O_joinSem],
     Call ''provision_join'' [O_gFactoryId], Call ''stream_telemetry'' [O_GPIO, O_gFactoryId, O_joinSem]]"

definition th_joinButtonCb_boot :: "boot_call list" where
  "th_joinButtonCb_boot = [Call ''Semaphore_post'' [O_joinSem]]"

subsection \<open>The M4F\<close>

text \<open>
  The main task has the highest priority, here 31, and goes on as the communication task. \<open>DebugP_assert\<close> stops the
  program when its condition fails. The completion callback of the SPI driver runs only during a transfer of the SPI
  task. \<open>O_MCU\<close> and \<open>O_BOARD\<close> are what \<open>Drivers_open\<close> and \<open>Board_driversOpen\<close> open.
\<close>

definition m4f_main :: "boot_call list" where
  "m4f_main = [Call ''System_init'' [], Call ''Board_init'' [], Spawn P_comms 31, Scheduler]"

definition m4f_spi_master_init :: "(boot_object \<Rightarrow> bool) \<Rightarrow> boot_call list" where
  "m4f_spi_master_init ok =
     opened ok ''xQueueCreateStatic'' [] O_gSpiOutQueue [Halt] @ opened ok ''xQueueCreateStatic'' [] O_gSpiCtrlQueue [Halt] @
     [Call ''SemaphoreP_constructBinary'' [], Create O_gXferDoneSem, Call ''SemaphoreP_constructBinary'' [], Create O_gSrSem,
      Call ''AddrTranslateP_getLocalAddr'' [], Call ''AddrTranslateP_getLocalAddr'' [], Call ''GPIO_setDirMode'' [O_MCU],
      Call ''GPIO_pinWriteHigh'' [O_MCU], Call ''GPIO_setDirMode'' [O_MCU], Call ''spi_setup_slave_ready_irq'' [O_MCU], Enable H_srBank,
      Spawn P_spiMaster 2]"

definition m4f_ipc_rpmsg_echo_main :: "(boot_object \<Rightarrow> bool) \<Rightarrow> boot_call list" where
  "m4f_ipc_rpmsg_echo_main ok =
     [Call ''installCustomHardFaultHandler'' [], Create O_rxRing, Block] @
     opened ok ''RPMessage_waitForLinuxReady'' [O_MCU] O_linuxReady [Halt] @ [Call ''RPMessage_CreateParams_init'' []] @
     opened ok ''RPMessage_construct'' [O_MCU] O_gRecvMsgObject [Halt] @ [Enable H_linuxMsg,
      Call ''RPMessage_announce'' [O_MCU, O_linuxReady], Call ''IpcNotify_registerClient'' [O_MCU], Enable H_mbox,
      Call ''engine_init'' [], Create O_engine, Call ''engine_rpmsg_init'' [], Create O_callbacks] @
     opened ok ''xQueueCreateStatic'' [] O_gOutboxQueue [Halt] @ opened ok ''xQueueCreateStatic'' [] O_gNodeInQueue [Halt] @
     [Spawn P_engine 2, Spawn P_monitor 3, Call ''spi_master_init'' [O_gNodeInQueue]] @ m4f_spi_master_init ok"

definition m4f_freertos_main :: "(boot_object \<Rightarrow> bool) \<Rightarrow> boot_call list" where
  "m4f_freertos_main ok = [Call ''Drivers_open'' [], Create O_MCU] @
     opened ok ''Board_driversOpen'' [O_MCU] O_BOARD [Halt] @ m4f_ipc_rpmsg_echo_main ok"

definition m4f_comms_loop :: "boot_call list" where
  "m4f_comms_loop =
     [Call ''handleLinuxMessage'' [O_rxRing, O_engine, O_callbacks], Call ''RPMessage_send'' [O_gRecvMsgObject],
      Call ''xQueueSend'' [O_gNodeInQueue], Call ''xQueueReceive'' [O_gOutboxQueue],
      Call ''spi_master_post_cmd'' [O_gSpiOutQueue, O_gSrSem], Call ''spi_master_post_ctrl'' [O_gSpiCtrlQueue, O_gSrSem]]"

definition m4f_engineTask_loop :: "boot_call list" where
  "m4f_engineTask_loop =
     [Call ''engine_ms_to_next_minute'' [O_engine], Call ''xQueueReceive'' [O_gNodeInQueue], Call ''xQueueSend'' [O_gOutboxQueue],
      Call ''engine_update_node'' [O_engine], Call ''engine_evaluate'' [O_engine]]"

definition m4f_spiTask_loop :: "boot_call list" where
  "m4f_spiTask_loop =
     [Call ''SemaphoreP_pend'' [O_gSrSem], Call ''xQueueReceive'' [O_gSpiCtrlQueue], Call ''xQueueReceive'' [O_gSpiOutQueue],
      Call ''GPIO_pinRead'' [O_MCU], Call ''MCSPI_transfer'' [O_MCU], Call ''SemaphoreP_pend'' [O_gXferDoneSem],
      Call ''xQueueSend'' [O_gNodeInQueue]]"

definition m4f_linuxMsgCallback :: "boot_call list" where
  "m4f_linuxMsgCallback = [Call ''ring_push'' [O_rxRing]]"
definition m4f_sr_bank_isr :: "boot_call list" where
  "m4f_sr_bank_isr = [Call ''GPIO_getBankIntrStatus'' [O_MCU], Call ''GPIO_clearBankIntrStatus'' [O_MCU], Call ''SemaphoreP_post'' [O_gSrSem]]"

subsection \<open>The programs\<close>

text \<open>The five programs, by what they can create.\<close>

datatype BootProgram =
    Boot_gw "boot_object \<Rightarrow> bool" | Boot_sc "boot_object \<Rightarrow> bool" | Boot_ls "boot_object \<Rightarrow> bool" | Boot_th
  | Boot_m4f "boot_object \<Rightarrow> bool"

fun bp_main :: "BootProgram \<Rightarrow> boot_call list" where
  "bp_main (Boot_gw ok) = gw_main ok"
| "bp_main (Boot_sc ok) = sc_main ok"
| "bp_main (Boot_ls ok) = ls_main ok"
| "bp_main Boot_th = th_main"
| "bp_main (Boot_m4f ok) = m4f_main"

fun bp_body :: "BootProgram \<Rightarrow> boot_proc \<Rightarrow> boot_call list" where
  "bp_body (Boot_gw ok) = (\<lambda>p. case p of P_spi \<Rightarrow> gw_spiSlaveTask ok | P_radio \<Rightarrow> gw_radioTask ok | _ \<Rightarrow> [])"
| "bp_body (Boot_sc ok) = (\<lambda>p. case p of P_radio \<Rightarrow> sc_radioTask_boot ok | P_solar \<Rightarrow> sc_solarTask_boot ok | _ \<Rightarrow> [])"
| "bp_body (Boot_ls ok) = (\<lambda>p. case p of P_mainThread \<Rightarrow> ls_mainThread ok | P_radio \<Rightarrow> ls_radioTask_boot ok
     | P_app \<Rightarrow> ls_appTask_boot | _ \<Rightarrow> [])"
| "bp_body Boot_th = (\<lambda>p. case p of P_node \<Rightarrow> th_nodeTask_boot | _ \<Rightarrow> [])"
| "bp_body (Boot_m4f ok) = (\<lambda>p. case p of P_comms \<Rightarrow> m4f_freertos_main ok | _ \<Rightarrow> [])"

text \<open>The loop of a task, or what a handler does.\<close>

fun bp_loop :: "BootProgram \<Rightarrow> boot_proc \<Rightarrow> boot_call list" where
  "bp_loop (Boot_gw ok) = (\<lambda>p. case p of P_spi \<Rightarrow> gw_spiSlaveTask_loop | P_radio \<Rightarrow> gw_radioTask_loop
     | H_masterReady \<Rightarrow> gw_masterReadyFxn | H_spiTransfer \<Rightarrow> gw_spiTransferCallback | H_timeoutClock \<Rightarrow> gw_timeoutClockFxn
     | H_echo \<Rightarrow> gw_echoCallback | H_button \<Rightarrow> gw_buttonCallback2 | _ \<Rightarrow> [])"
| "bp_loop (Boot_sc ok) = (\<lambda>p. case p of P_radio \<Rightarrow> sc_radioTask_loop | P_solar \<Rightarrow> sc_solarTask_loop
     | H_button \<Rightarrow> sc_buttonCallback2_boot | H_echo \<Rightarrow> sc_echoCallback_boot | H_timer \<Rightarrow> sc_timerCallback | _ \<Rightarrow> [])"
| "bp_loop (Boot_ls ok) = (\<lambda>p. case p of P_radio \<Rightarrow> ls_radioTask_loop | P_app \<Rightarrow> ls_appTask_loop | P_mainThread \<Rightarrow> ls_mainThread_loop
     | H_echo \<Rightarrow> ls_echoCallback_boot | _ \<Rightarrow> [])"
| "bp_loop Boot_th = (\<lambda>p. case p of P_node \<Rightarrow> th_nodeTask_loop | H_joinButton \<Rightarrow> th_joinButtonCb_boot | _ \<Rightarrow> [])"
| "bp_loop (Boot_m4f ok) = (\<lambda>p. case p of P_comms \<Rightarrow> m4f_comms_loop | P_engine \<Rightarrow> m4f_engineTask_loop | P_spiMaster \<Rightarrow> m4f_spiTask_loop
     | H_linuxMsg \<Rightarrow> m4f_linuxMsgCallback | H_srBank \<Rightarrow> m4f_sr_bank_isr | _ \<Rightarrow> [])"

fun call_uses :: "boot_call \<Rightarrow> boot_object list" where
  "call_uses (Call f us) = us"
| "call_uses c = []"

definition loop_uses :: "BootProgram \<Rightarrow> boot_proc \<Rightarrow> boot_object list" where
  "loop_uses prog p = remdups (concat (map call_uses (bp_loop prog p)))"

subsection \<open>The scheduler\<close>

text \<open>
  A task with what it still has to do: its calls up to its loop, each with the objects that have been used by the time
  it comes. A \<open>Call\<close> changes nothing, so those before another call are taken in one step with it; since objects are
  never destroyed, nothing can be missing later that was not missing at the start of the step.

  The ready tasks are ordered by priority and, within one priority, by the time they became ready; the first one runs
  until it waits or a task of higher priority becomes ready. The order of the waiting tasks has no meaning; they are kept
  by number. \<open>main\<close> runs alone before the scheduler and has a priority above all. \<open>sy_hung\<close> says that the program
  stopped: in an endless loop of the highest priority that is ready, or in a call that waits before the scheduler runs.
\<close>

fun boot_plan :: "boot_object list \<Rightarrow> boot_object list \<Rightarrow> boot_call list \<Rightarrow> (boot_object list \<times> boot_call) list" where
  "boot_plan ls us [] = [(us @ ls, Loop)]"
| "boot_plan ls us (c # cs) = (case c of Call f vs \<Rightarrow> boot_plan ls (us @ vs) cs | _ \<Rightarrow> (remdups us, c) # boot_plan ls [] cs)"

record BootTask =
  bt_proc :: boot_proc
  bt_prio :: nat
  bt_rest :: "(boot_object list \<times> boot_call) list"

record BootSystem =
  sy_made :: "boot_object list"
  sy_live :: "boot_proc list"
  sy_on :: bool
  sy_ready :: "BootTask list"
  sy_wait :: "BootTask list"
  sy_hung :: bool


fun enqueue :: "BootTask \<Rightarrow> BootTask list \<Rightarrow> BootTask list" where
  "enqueue t [] = [t]"
| "enqueue t (u # us) = (if bt_prio t \<le> bt_prio u then u # enqueue t us else t # u # us)"

fun task_number :: "boot_proc \<Rightarrow> nat" where
  "task_number P_main = 0"
| "task_number P_engine = 1"
| "task_number P_monitor = 2"
| "task_number P_spiMaster = 3"
| "task_number P_solar = 1"
| "task_number P_app = 1"
| "task_number P_spi = 1"
| "task_number P_radio = 2"
| "task_number p = 4"

fun park :: "BootTask \<Rightarrow> BootTask list \<Rightarrow> BootTask list" where
  "park t [] = [t]"
| "park t (u # us) = (if task_number (bt_proc t) \<le> task_number (bt_proc u) then t # u # us else u # park t us)"

definition boot_task :: "BootProgram \<Rightarrow> boot_proc \<Rightarrow> nat \<Rightarrow> BootTask" where
  "boot_task prog p n = \<lparr> bt_proc = p, bt_prio = n, bt_rest = boot_plan (loop_uses prog p) [] (bp_body prog p) \<rparr>"

text \<open>The next step of the running task; in its loop a task goes round and waits for the next event.\<close>

definition boot_run :: "BootProgram \<Rightarrow> BootTask \<Rightarrow> BootTask list \<Rightarrow> BootSystem \<Rightarrow> BootSystem" where
  "boot_run prog t ts s = (case bt_rest t of
     [] \<Rightarrow> s\<lparr> sy_ready := ts \<rparr>
   | (us, c) # cs \<Rightarrow> let t' = t\<lparr> bt_rest := cs \<rparr> in (case c of
       Call f vs \<Rightarrow> s\<lparr> sy_ready := t' # ts \<rparr>
     | Create x \<Rightarrow> s\<lparr> sy_made := List.insert x (sy_made s), sy_ready := t' # ts \<rparr>
     | Enable p \<Rightarrow> s\<lparr> sy_live := List.insert p (sy_live s), sy_ready := t' # ts \<rparr>
     | Spawn p n \<Rightarrow> s\<lparr> sy_ready := enqueue (boot_task prog p n) (t' # ts) \<rparr>
     | Print \<Rightarrow> if sy_on s then s\<lparr> sy_ready := ts, sy_wait := park t' (sy_wait s) \<rparr> else s\<lparr> sy_hung := True \<rparr>
     | Block \<Rightarrow> if sy_on s then s\<lparr> sy_ready := ts, sy_wait := park t' (sy_wait s) \<rparr> else s\<lparr> sy_hung := True \<rparr>
     | Scheduler \<Rightarrow> s\<lparr> sy_on := True, sy_ready := ts \<rparr>
     | Halt \<Rightarrow> s\<lparr> sy_hung := True \<rparr>
     | Loop \<Rightarrow> s\<lparr> sy_ready := ts, sy_wait := park t (sy_wait s) \<rparr>))"

text \<open>Once the scheduler runs, any waiting task can become ready at any time; what handlers do is to cause this.\<close>

definition boot_wake :: "BootTask \<Rightarrow> BootSystem \<Rightarrow> BootSystem" where
  "boot_wake t s = s\<lparr> sy_ready := enqueue t (sy_ready s), sy_wait := remove1 t (sy_wait s) \<rparr>"

inductive boot_step :: "BootProgram \<Rightarrow> BootSystem \<Rightarrow> BootSystem \<Rightarrow> bool" for prog where
  run: "\<not> sy_hung s \<Longrightarrow> sy_ready s = t # ts \<Longrightarrow> boot_step prog s (boot_run prog t ts s)"
| wake: "\<not> sy_hung s \<Longrightarrow> sy_on s \<Longrightarrow> t \<in> set (sy_wait s) \<Longrightarrow> boot_step prog s (boot_wake t s)"

definition boot_init :: "BootProgram \<Rightarrow> BootSystem" where
  "boot_init prog = \<lparr> sy_made = [], sy_live = [], sy_on = False,
     sy_ready = [\<lparr> bt_proc = P_main, bt_prio = 100, bt_rest = boot_plan [] [] (bp_main prog) \<rparr>],
     sy_wait = [], sy_hung = False \<rparr>"

definition boot_reaches :: "BootProgram \<Rightarrow> BootSystem \<Rightarrow> bool" where
  "boot_reaches prog s = (boot_step prog)\<^sup>*\<^sup>* (boot_init prog) s"

text \<open>
  Who can now use an object that does not exist: a handler, which can run at any time from its enabling on once the
  scheduler runs, and the running task in its next step.
\<close>

definition missing :: "BootSystem \<Rightarrow> boot_proc \<Rightarrow> boot_object list \<Rightarrow> (boot_proc \<times> boot_object) list" where
  "missing s p us = map (Pair p) (filter (\<lambda>x. \<not> List.member (sy_made s) x) us)"

definition boot_faults :: "BootProgram \<Rightarrow> BootSystem \<Rightarrow> (boot_proc \<times> boot_object) list" where
  "boot_faults prog s =
     (if sy_on s then concat (map (\<lambda>p. missing s p (loop_uses prog p)) (sy_live s)) else []) @
     (case sy_ready s of t # ts \<Rightarrow> (case bt_rest t of (us, c) # cs \<Rightarrow> missing s (bt_proc t) us | [] \<Rightarrow> []) | [] \<Rightarrow> [])"

subsection \<open>All states of a program\<close>

definition boot_succs :: "BootProgram \<Rightarrow> BootSystem \<Rightarrow> BootSystem list" where
  "boot_succs prog s = (if sy_hung s then [] else
     (case sy_ready s of [] \<Rightarrow> [] | t # ts \<Rightarrow> [boot_run prog t ts s]) @
     (if sy_on s then map (\<lambda>t. boot_wake t s) (sy_wait s) else []))"

lemma boot_step_succs: "boot_step prog s s' \<longleftrightarrow> s' \<in> set (boot_succs prog s)"
  by (cases "sy_ready s") (auto simp: boot_succs_def boot_step.simps)

text \<open>The states seen so far, in a search tree by a number computed from how far the tasks are.\<close>

datatype boot_tree = Empty | Fork boot_tree int "BootSystem list" boot_tree

fun tree_set :: "boot_tree \<Rightarrow> BootSystem set" where
  "tree_set Empty = {}"
| "tree_set (Fork l k ss r) = tree_set l \<union> set ss \<union> tree_set r"


fun tree_add :: "int \<Rightarrow> BootSystem \<Rightarrow> boot_tree \<Rightarrow> boot_tree" where
  "tree_add k s Empty = Fork Empty k [s] Empty"
| "tree_add k s (Fork l j ss r) = (if k = j then Fork l j (s # ss) r else if k < j then Fork (tree_add k s l) j ss r
     else Fork l j ss (tree_add k s r))"



lemma tree_add_set [simp]: "tree_set (tree_add k s t) = insert s (tree_set t)"
  by (induction t) auto










subsection \<open>What can happen\<close>

definition all_ok :: "boot_object \<Rightarrow> bool" where
  "all_ok x = True"

definition all_but :: "boot_object \<Rightarrow> boot_object \<Rightarrow> bool" where
  "all_but y x = (x \<noteq> y)"




































subsection \<open>Every start ends\<close>





lemma sum_enqueue [simp]: "(\<Sum>u\<leftarrow>enqueue t us. f u) = f t + (\<Sum>u\<leftarrow>us. f u :: nat)"
  by (induction us) auto

lemma sum_park [simp]: "(\<Sum>u\<leftarrow>park t us. f u) = f t + (\<Sum>u\<leftarrow>us. f u :: nat)"
  by (induction us) auto

lemma set_park [simp]: "set (park t us) = insert t (set us)"
  by (induction us) auto










text \<open>A way through the states, as the numbers of the steps taken.\<close>

fun boot_path :: "BootProgram \<Rightarrow> nat list \<Rightarrow> BootSystem \<Rightarrow> BootSystem" where
  "boot_path prog [] s = s"
| "boot_path prog (i # is) s =
     boot_path prog is (let ss = boot_succs prog s in if i < length ss then ss ! i else s)"

lemma boot_path_steps: "(boot_step prog)\<^sup>*\<^sup>* s (boot_path prog is s)"
proof (induction "is" arbitrary: s)
  case (Cons i "is")
  have "boot_step prog s (boot_succs prog s ! i)" if "i < length (boot_succs prog s)"
    using that by (simp add: boot_step_succs)
  then show ?case using Cons.IH by (auto simp: Let_def intro: converse_rtranclp_into_rtranclp)
qed simp

lemma boot_path_reaches: "boot_reaches prog (boot_path prog is (boot_init prog))"
  unfolding boot_reaches_def by (rule boot_path_steps)



text \<open>
  The two exceptions of order can happen: on the solar node when \<open>BIOS_start\<close> has just been called, and on the light
  switch when the radio task, which has the higher priority, ends its message while the main thread has not yet called
  \<open>appTaskInit\<close>.
\<close>

lemma path_fault:
  assumes "List.member (boot_faults prog (boot_path prog is (boot_init prog))) f"
  shows "\<exists>s. boot_reaches prog s \<and> f \<in> set (boot_faults prog s)"
  using assms boot_path_reaches by (auto simp: List.member_iff)

lemma button_before_event:
  "\<exists>s. boot_reaches (Boot_sc all_ok) s \<and> (H_button, O_radioEventHandle) \<in> set (boot_faults (Boot_sc all_ok) s)"
  by (rule path_fault[of _ "replicate 14 0"]) code_simp

lemma radio_before_application:
  "\<exists>s. boot_reaches (Boot_ls all_ok) s \<and> (P_radio, O_solarControllerQueue) \<in> set (boot_faults (Boot_ls all_ok) s)"
  by (rule path_fault[of _ "replicate 18 0 @ [1, 0]"]) code_simp

text \<open>
  When the solar node cannot open the PWM, the watchdog or the SPI driver of the ADC it says so, if at all, and then
  starts the PWM, clears the watchdog and reads the ADC all the same.
\<close>

lemma solar_uses_what_failed:
  assumes "x \<in> {O_pwm1, O_watchdogHandle, O_adcSpi}"
  shows "\<exists>s. boot_reaches (Boot_sc (all_but x)) s \<and> (P_solar, x) \<in> set (boot_faults (Boot_sc (all_but x)) s)"
proof -
  have "\<exists>s. boot_reaches (Boot_sc (all_but O_pwm1)) s \<and> (P_solar, O_pwm1) \<in> set (boot_faults (Boot_sc (all_but O_pwm1)) s)"
    by (rule path_fault[of _ "replicate 28 0"]) code_simp
  moreover have "\<exists>s. boot_reaches (Boot_sc (all_but O_watchdogHandle)) s \<and>
      (P_solar, O_watchdogHandle) \<in> set (boot_faults (Boot_sc (all_but O_watchdogHandle)) s)"
    by (rule path_fault[of _ "replicate 34 0"]) code_simp
  moreover have "\<exists>s. boot_reaches (Boot_sc (all_but O_adcSpi)) s \<and>
      (P_solar, O_adcSpi) \<in> set (boot_faults (Boot_sc (all_but O_adcSpi)) s)"
    by (rule path_fault[of _ "replicate 20 0"]) code_simp
  ultimately show ?thesis using assms by blast
qed

text \<open>
  When a queue cannot be opened in \<open>main\<close>, the message about it waits for the UART before the scheduler runs: the
  program stops before it has started a task.
\<close>

lemma queue_failure_hangs:
  assumes "prog \<in> {Boot_gw (all_but O_spiQueue), Boot_gw (all_but O_radioQueue), Boot_sc (all_but O_radioQueue),
    Boot_sc (all_but O_solarControllerQueue)}"
  shows "\<exists>s. boot_reaches prog s \<and> sy_hung s \<and> \<not> sy_on s"
proof -
  have hang: "\<exists>s. boot_reaches prog s \<and> sy_hung s \<and> \<not> sy_on s"
    if "let s = boot_path prog (replicate 40 0) (boot_init prog) in sy_hung s \<and> \<not> sy_on s" for prog
    using that boot_path_reaches by (auto simp: Let_def)
  have "\<exists>s. boot_reaches (Boot_gw (all_but O_spiQueue)) s \<and> sy_hung s \<and> \<not> sy_on s" by (rule hang) code_simp
  moreover have "\<exists>s. boot_reaches (Boot_gw (all_but O_radioQueue)) s \<and> sy_hung s \<and> \<not> sy_on s" by (rule hang) code_simp
  moreover have "\<exists>s. boot_reaches (Boot_sc (all_but O_radioQueue)) s \<and> sy_hung s \<and> \<not> sy_on s" by (rule hang) code_simp
  moreover have "\<exists>s. boot_reaches (Boot_sc (all_but O_solarControllerQueue)) s \<and> sy_hung s \<and> \<not> sy_on s" by (rule hang) code_simp
  ultimately show ?thesis using assms by blast
qed

end
