(* ===== verification/Outbox.thy ===== *)
theory Outbox
  imports Ipc
begin

text \<open>
  The queue between the engine task and the COMMS task (\<open>gOutboxQueue\<close> in \<open>ipc_rpmsg_echo.c\<close>): what the engine task
  posts while there is room, and what one pass of the COMMS loop takes.
\<close>

definition OUTBOX_DEPTH :: nat where "OUTBOX_DEPTH = 16"

text \<open>\<open>xQueueSend\<close> and \<open>xQueueReceive\<close> without waiting; \<open>None\<close> is \<open>errQUEUE_FULL\<close> and \<open>errQUEUE_EMPTY\<close>.\<close>

definition outbox_send :: "outbox_item \<Rightarrow> outbox_item list \<Rightarrow> outbox_item list option" where
  "outbox_send it q = (if length q < OUTBOX_DEPTH then Some (q @ [it]) else None)"

definition outbox_receive :: "outbox_item list \<Rightarrow> (outbox_item \<times> outbox_item list) option" where
  "outbox_receive q = (case q of [] \<Rightarrow> None | it # q' \<Rightarrow> Some (it, q'))"

definition outbox_ok :: "outbox_item list \<Rightarrow> bool" where
  "outbox_ok q = (length q \<le> OUTBOX_DEPTH)"

interpretation outbox: bounded_fifo outbox_send outbox_receive id id OUTBOX_DEPTH outbox_ok
  by unfold_locales (auto simp: outbox_send_def outbox_receive_def outbox_ok_def OUTBOX_DEPTH_def)

text \<open>What the task posts in one wake-up; an item for which there is no room is logged and dropped.\<close>

primrec outbox_post :: "outbox_item list \<Rightarrow> outbox_item list \<Rightarrow> outbox_item list" where
  "outbox_post [] q = q"
| "outbox_post (it # items) q = outbox_post items (case outbox_send it q of None \<Rightarrow> q | Some q' \<Rightarrow> q')"

definition engine_turn ::
  "NodeFrame option \<Rightarrow> u64 \<Rightarrow> (nat \<Rightarrow> nat \<Rightarrow> u64) \<Rightarrow> Engine \<times> outbox_item list \<Rightarrow> engine_fault + Engine \<times> outbox_item list" where
  "engine_turn received now clk s = (case s of (e, q) \<Rightarrow>
     (case engineTask received now clk e of Inl err \<Rightarrow> Inl err | Inr (e', items) \<Rightarrow> Inr (e', outbox_post items q)))"

text \<open>The loop that empties the queue, with the environment of each item's calls.\<close>

function outbox_drain :: "call_env \<Rightarrow> outbox_item list \<Rightarrow> Comms \<Rightarrow> Comms \<times> comms_effect list \<times> outbox_item list" where
  "outbox_drain env q c = (case outbox_receive q of
     None \<Rightarrow> (c, [], q)
   | Some (it, q') \<Rightarrow> (case drainEngineOutbox env [it] c of (c1, fx) \<Rightarrow>
       (case outbox_drain (env \<circ> Suc) q' c1 of (c2, fx', q2) \<Rightarrow> (c2, fx @ fx', q2))))"
  by auto
termination by (relation "measure (\<lambda>(env, q, c). length q)") (auto simp: outbox_receive_def split: list.splits)

declare outbox_drain.simps [simp del]

subsection \<open>What gets through\<close>

lemma outbox_post_all: "outbox_post items q = outbox.push_all items q"
  by (induction items arbitrary: q) (simp_all split: option.splits)

lemma outbox_post_keeps:
  "outbox_ok q \<Longrightarrow> outbox_post items q = q @ take (OUTBOX_DEPTH - length q) items \<and> outbox_ok (outbox_post items q)"
  using outbox.push_all_items [of q items] by (auto simp: outbox_post_all)

lemma outbox_drain_all:
  "outbox_drain env q c = (case drainEngineOutbox env q c of (c', fx) \<Rightarrow> (c', fx, []))"
proof (induction q arbitrary: env c)
  case Nil
  show ?case by (subst outbox_drain.simps) (simp add: outbox_receive_def)
next
  case (Cons it q)
  show ?case by (subst outbox_drain.simps) (auto simp: outbox_receive_def Cons.IH comp_def split: prod.splits)
qed

text \<open>
  Several wake-ups of the engine task between two passes of the COMMS loop: the queue then holds the first sixteen of
  all items that they posted, in order.
\<close>

fun engine_turns ::
  "(NodeFrame option \<times> u64 \<times> (nat \<Rightarrow> nat \<Rightarrow> u64)) list \<Rightarrow> Engine \<times> outbox_item list \<Rightarrow> engine_fault + Engine \<times> outbox_item list" where
  "engine_turns [] s = Inr s"
| "engine_turns ((received, now, clk) # ws) s = (case engine_turn received now clk s of
     Inl err \<Rightarrow> Inl err | Inr s' \<Rightarrow> engine_turns ws s')"

fun engine_posts ::
  "(NodeFrame option \<times> u64 \<times> (nat \<Rightarrow> nat \<Rightarrow> u64)) list \<Rightarrow> Engine \<Rightarrow> engine_fault + Engine \<times> outbox_item list" where
  "engine_posts [] e = Inr (e, [])"
| "engine_posts ((received, now, clk) # ws) e = (case engineTask received now clk e of
     Inl err \<Rightarrow> Inl err
   | Inr (e1, items) \<Rightarrow> (case engine_posts ws e1 of Inl err \<Rightarrow> Inl err | Inr (e2, items') \<Rightarrow> Inr (e2, items @ items')))"

lemma engine_turns_keep:
  assumes "engine_posts ws e = Inr (e', items)" and "outbox_ok q"
  shows "engine_turns ws (e, q) = Inr (e', q @ take (OUTBOX_DEPTH - length q) items)"
  using assms
proof (induction ws arbitrary: e items q rule: list.induct)
  case (Cons w ws)
  obtain received now clk where w: "w = (received, now, clk)" by (cases w)
  obtain e1 items1 items2 where t: "engineTask received now clk e = Inr (e1, items1)" "engine_posts ws e1 = Inr (e', items2)"
      "items = items1 @ items2"
    using Cons.prems(1) by (auto simp: w split: sum.splits)
  note q1 = outbox_post_keeps[OF Cons.prems(2), of items1]
  have "take (OUTBOX_DEPTH - length q) (items1 @ items2) =
      take (OUTBOX_DEPTH - length q) items1 @ take (OUTBOX_DEPTH - length (outbox_post items1 q)) items2"
    using q1 Cons.prems(2) by (auto simp: outbox_ok_def min_def)
  then show ?case using Cons.IH[OF t(2) conjunct2[OF q1]] t q1 by (simp add: w engine_turn_def)
qed simp

text \<open>A reading that finds room is reported, whatever rules it fires.\<close>

lemma reading_kept:
  assumes "outbox_ok q" and "length q < OUTBOX_DEPTH" and "m_type (nf_msg frame) \<noteq> ENGINE_NODEIN_TIME_RESYNC"
    and "engine_turn (Some frame) now clk (e, q) = Inr (e', q')"
  shows "OUTBOX_TELEMETRY frame \<in> set q'"
proof -
  obtain items where i: "engineTask (Some frame) now clk e = Inr (e', items)" "q' = outbox_post items q"
    using assms(4) by (auto simp: engine_turn_def split: sum.splits)
  obtain fs where "items = OUTBOX_TELEMETRY frame # fs"
    using i(1) assms(3) by (auto simp: engineTask_def Let_def split: sum.splits)
  then show ?thesis
    using outbox_post_keeps[OF assms(1), of items] assms(2) i(2) by (cases "OUTBOX_DEPTH - length q") auto
qed

text \<open>A pass of the COMMS loop after wake-ups that found the queue empty delivers their first sixteen items.\<close>

lemma pass_delivers:
  assumes "engine_posts ws e = Inr (e', items)"
  shows "\<exists>q. engine_turns ws (e, []) = Inr (e', q) \<and>
    outbox_drain env q c = (case drainEngineOutbox env (take OUTBOX_DEPTH items) c of (c', fx) \<Rightarrow> (c', fx, []))"
  using engine_turns_keep[OF assms, of "[]"] by (simp add: outbox_ok_def outbox_drain_all)

end
