(* ===== verification/Gauge.thy ===== *)
theory Gauge
  imports ThTask
begin

text \<open>
  The fuel gauge of the first node board (BQ35100, the rest of \<open>sensors.c\<close>) and the measuring program that uses
  it (\<open>read_and_send\<close> of \<open>rfWsnNode.c\<close>, which the present configuration does not reach). The chip is outside: it
  is a function that answers a transfer from the history of all transfers before it, so that it may keep any state.
\<close>

datatype bus_op = BusWrite "u8 list" | BusRead u8 nat

type_synonym Bus = "bus_op list"

text \<open>The bytes that a transfer reads, or a failed transfer.\<close>

type_synonym Chip = "Bus \<Rightarrow> bus_op \<Rightarrow> (nat \<Rightarrow> u8) option"

subsection \<open>Registers and data flash\<close>

abbreviation (input) "BQ_CMD_CONTROL \<equiv> 0x00 :: u8"
abbreviation (input) "BQ_CMD_ACC_CAP \<equiv> 0x02 :: u8"
abbreviation (input) "BQ_CMD_VOLTAGE \<equiv> 0x08 :: u8"
abbreviation (input) "BQ_CMD_SOH \<equiv> 0x2E :: u8"
abbreviation (input) "BQ_CMD_DESIGN_CAP \<equiv> 0x3C :: u8"
abbreviation (input) "BQ_CMD_MAC \<equiv> 0x3E :: u8"
abbreviation (input) "BQ_CMD_MAC_DATA \<equiv> 0x40 :: u8"
abbreviation (input) "BQ_CMD_MAC_DATA_SUM \<equiv> 0x60 :: u8"
abbreviation (input) "BQ_CMD_MAC_DATA_LEN \<equiv> 0x61 :: u8"
abbreviation (input) "BQ_DF_OPCONFIG_A \<equiv> 0x41B1 :: u16"
abbreviation (input) "BQ_DF_DESIGN_CAP \<equiv> 0x41FE :: u16"
abbreviation (input) "DESIGN_CAP_MAH \<equiv> 1500 :: u16"

definition bus_transfer :: "Chip \<Rightarrow> bus_op \<Rightarrow> Bus \<Rightarrow> (nat \<Rightarrow> u8) option \<times> Bus" where
  "bus_transfer c op l = (c l op, l @ [op])"

definition bq_cmd_write :: "Chip \<Rightarrow> u8 \<Rightarrow> u8 list \<Rightarrow> Bus \<Rightarrow> bool \<times> Bus" where
  "bq_cmd_write c reg data l = (let (r, l1) = bus_transfer c (BusWrite (reg # data)) l in (r \<noteq> None, l1))"

definition bq_cmd_read :: "Chip \<Rightarrow> u8 \<Rightarrow> nat \<Rightarrow> Bus \<Rightarrow> (nat \<Rightarrow> u8) option \<times> Bus" where
  "bq_cmd_read c reg len l = bus_transfer c (BusRead reg len) l"

definition bq_read_u16 :: "Chip \<Rightarrow> u8 \<Rightarrow> Bus \<Rightarrow> u16 option \<times> Bus" where
  "bq_read_u16 c reg l = (let (r, l1) = bq_cmd_read c reg 2 l in (map_option (\<lambda>d. be16 (d 1) (d 0)) r, l1))"

definition bq_subcmd :: "Chip \<Rightarrow> u16 \<Rightarrow> Bus \<Rightarrow> bool \<times> Bus" where
  "bq_subcmd c sub l = bq_cmd_write c BQ_CMD_MAC [ucast (sub AND 0xFF), ucast (drop_bit 8 sub)] l"

definition bq_df_write :: "Chip \<Rightarrow> u16 \<Rightarrow> u8 list \<Rightarrow> Bus \<Rightarrow> bool \<times> Bus" where
  "bq_df_write c addr data l =
     (let blk = [ucast (addr AND 0xFF), ucast (drop_bit 8 addr)] @ data;
          (ok, l1) = bq_cmd_write c BQ_CMD_MAC blk l
      in if \<not> ok then (False, l1)
         else
           let cks = 0xFF - foldl (+) 0 blk; (ok, l2) = bq_cmd_write c BQ_CMD_MAC_DATA_SUM [cks] l1
           in if \<not> ok then (False, l2)
              else
                let maclen = word_of_nat (4 + length data); (ok, l3) = bq_cmd_write c BQ_CMD_MAC_DATA_LEN [maclen] l2
                in if \<not> ok then (False, l3)
                   else
                     let (st, l4) = bq_read_u16 c BQ_CMD_CONTROL l3
                     in (case st of Some w \<Rightarrow> w AND 0x8000 = 0 | None \<Rightarrow> True, l4))"

definition bq_df_read :: "Chip \<Rightarrow> u16 \<Rightarrow> nat \<Rightarrow> Bus \<Rightarrow> (nat \<Rightarrow> u8) option \<times> Bus" where
  "bq_df_read c addr len l =
     (let (ok, l1) = bq_cmd_write c BQ_CMD_MAC [ucast (addr AND 0xFF), ucast (drop_bit 8 addr)] l
      in if \<not> ok then (None, l1) else bq_cmd_read c BQ_CMD_MAC_DATA len l1)"

subsection \<open>Commissioning and gauging\<close>

text \<open>\<open>None\<close> is the transfer on a bus that was never opened.\<close>

definition gauge_configured :: "Chip \<Rightarrow> Bus \<Rightarrow> bool \<times> Bus" where
  "gauge_configured c l =
     (let (dcap, l1) = bq_read_u16 c BQ_CMD_DESIGN_CAP l; (oc, l2) = bq_df_read c BQ_DF_OPCONFIG_A 1 l1
      in (dcap = Some DESIGN_CAP_MAH \<and> (case oc of Some d \<Rightarrow> d 0 AND 0x03 = 0 | None \<Rightarrow> False), l2))"

definition sensors_commission :: "bool \<Rightarrow> Chip \<Rightarrow> Bus \<Rightarrow> (bool \<times> Bus) option" where
  "sensors_commission i2c_open c l =
     (if \<not> i2c_open then None
      else let (ok, l1) = gauge_configured c l in
        if ok then Some (True, l1)
        else
          let (st, l2) = bq_read_u16 c BQ_CMD_CONTROL l1;
              l3 = (if drop_bit 13 (case st of Some w \<Rightarrow> w | None \<Rightarrow> 0) AND 0x03 = 0x03
                    then snd (bq_cmd_write c BQ_CMD_MAC [0x36, 0x72] (snd (bq_cmd_write c BQ_CMD_MAC [0x04, 0x14] l2)))
                    else l2);
              (oc, l4) = bq_df_read c BQ_DF_OPCONFIG_A 1 l3;
              l5 = (case oc of Some d \<Rightarrow> snd (bq_df_write c BQ_DF_OPCONFIG_A [d 0 AND NOT 0x03] l4) | None \<Rightarrow> l4);
              l6 = snd (bq_df_write c BQ_DF_DESIGN_CAP [ucast (drop_bit 8 DESIGN_CAP_MAH), ucast (DESIGN_CAP_MAH AND 0xFF)] l5)
          in Some (gauge_configured c l6))"

text \<open>Polling the status until a bit is set.\<close>

primrec bq_poll :: "nat \<Rightarrow> Chip \<Rightarrow> u16 \<Rightarrow> Bus \<Rightarrow> bool \<times> Bus" where
  "bq_poll 0 c bits l = (False, l)"
| "bq_poll (Suc n) c bits l =
     (let (st, l1) = bq_read_u16 c BQ_CMD_CONTROL l in
      if (case st of Some w \<Rightarrow> w AND bits \<noteq> 0 | None \<Rightarrow> False) then (True, l1) else bq_poll n c bits l1)"

definition sensors_gauge_begin :: "bool \<Rightarrow> Chip \<Rightarrow> Bus \<Rightarrow> (bool \<times> Bus) option" where
  "sensors_gauge_begin i2c_open c l = (if i2c_open then Some (bq_poll 100 c 0x0001 (snd (bq_subcmd c 0x0011 l))) else None)"

definition sensors_gauge_end :: "bool \<Rightarrow> Chip \<Rightarrow> Bus \<Rightarrow> Bus option" where
  "sensors_gauge_end i2c_open c l = (if i2c_open then Some (snd (bq_poll 200 c 0x0040 (snd (bq_subcmd c 0x0012 l)))) else None)"

definition sensors_read_batt_mv :: "bool \<Rightarrow> Chip \<Rightarrow> Bus \<Rightarrow> u16 option \<times> Bus" where
  "sensors_read_batt_mv i2c_open c l = (if i2c_open then bq_read_u16 c BQ_CMD_VOLTAGE l else (None, l))"

definition sensors_read_soh :: "bool \<Rightarrow> Chip \<Rightarrow> Bus \<Rightarrow> u8 option \<times> Bus" where
  "sensors_read_soh i2c_open c l =
     (if i2c_open then let (r, l1) = bq_cmd_read c BQ_CMD_SOH 1 l in (map_option (\<lambda>d. d 0) r, l1) else (None, l))"

definition sensors_read_opconfig :: "bool \<Rightarrow> Chip \<Rightarrow> Bus \<Rightarrow> u8 option \<times> Bus" where
  "sensors_read_opconfig i2c_open c l =
     (if i2c_open then let (r, l1) = bq_df_read c BQ_DF_OPCONFIG_A 1 l in (map_option (\<lambda>d. d 0) r, l1) else (None, l))"

definition sensors_read_used_uah :: "bool \<Rightarrow> Chip \<Rightarrow> Bus \<Rightarrow> u32 option \<times> Bus" where
  "sensors_read_used_uah i2c_open c l =
     (if i2c_open then
        let (r, l1) = bq_cmd_read c BQ_CMD_ACC_CAP 4 l in (map_option (\<lambda>d. - le32_at (map d [0..<4]) 0) r, l1)
      else (None, l))"

subsection \<open>The measuring program\<close>

record Bench =
  g_cycle :: u32
  g_temp :: u32
  g_hum :: u32
  g_batt_mv :: u16
  g_soh :: u8
  g_acc_uah :: u32
  g_acked :: bool

abbreviation (input) "NODE_ADDRESS \<equiv> 0x1A :: u8"

definition bench_message :: "Bench \<Rightarrow> bool \<Rightarrow> bool \<Rightarrow> MessageStruct" where
  "bench_message b okBatt okAcc =
     put_payload 12 (le32_bytes (if okAcc then g_acc_uah b else 0)) (put_payload 10 [g_soh b]
       (put_payload 8 (le16_bytes (if okBatt then g_batt_mv b else 0)) (put_payload 4 (le32_bytes (g_hum b))
         (put_payload 0 (le32_bytes (g_temp b))
           (msg_zero\<lparr> m_id := NODE_ADDRESS, m_type := NODE_TH_SENSOR, m_cmd := CMD_SEND_DATA_TO_DB, m_length := 4 + 16 \<rparr>)))))"

text \<open>The sensor on the same bus answers \<open>sht\<close>; a value that cannot be read keeps the one of the cycle before.\<close>

definition read_and_send :: "u8 list \<Rightarrow> bool \<Rightarrow> Chip \<Rightarrow> u8 list option \<Rightarrow> bool \<Rightarrow> (nat \<Rightarrow> u8 list list) \<Rightarrow> Bench \<Rightarrow> ThNode \<Rightarrow> Bus \<Rightarrow>
    (Bench \<times> ThNode \<times> Bus \<times> th_effect list) option" where
  "read_and_send buf i2c_open c sht rf_opens air b s l =
     (let b1 = b\<lparr> g_cycle := g_cycle b + 1 \<rparr>;
          (acc, l1) = sensors_read_used_uah i2c_open c l;
          (oc, l2) = sensors_read_opconfig i2c_open c l1;
          th = sensors_read_th i2c_open sht;
          (mv, l3) = sensors_read_batt_mv i2c_open c l2;
          b2 = b1\<lparr> g_acc_uah := (case acc of Some v \<Rightarrow> v | None \<Rightarrow> g_acc_uah b1), g_soh := (case oc of Some v \<Rightarrow> v | None \<Rightarrow> g_soh b1),
                    g_temp := (case th of Some v \<Rightarrow> fst v | None \<Rightarrow> g_temp b1), g_hum := (case th of Some v \<Rightarrow> snd v | None \<Rightarrow> g_hum b1),
                    g_batt_mv := (case mv of Some v \<Rightarrow> v | None \<Rightarrow> g_batt_mv b1) \<rparr>
      in if th = None then Some (b2, s, l3, [])
         else (case radio_send_message buf rf_opens air (bench_message b2 (mv \<noteq> None) (acc \<noteq> None)) ADDR_GATEWAY None s of
             None \<Rightarrow> None
           | Some (acked, cmd, s1, fx) \<Rightarrow> Some (b2\<lparr> g_acked := acked \<rparr>, s1, l3, fx)))"

subsection \<open>What it writes to the gauge\<close>

lemmas bq_defs = bus_transfer_def bq_cmd_write_def bq_cmd_read_def bq_read_u16_def bq_subcmd_def bq_df_read_def

text \<open>The transfers of one data flash block, up to the first that fails.\<close>

definition df_block :: "u16 \<Rightarrow> u8 list \<Rightarrow> Bus" where
  "df_block addr data =
     (let blk = [ucast (addr AND 0xFF), ucast (drop_bit 8 addr)] @ data in
      [BusWrite (BQ_CMD_MAC # blk), BusWrite [BQ_CMD_MAC_DATA_SUM, 0xFF - sum_list blk],
       BusWrite [BQ_CMD_MAC_DATA_LEN, word_of_nat (4 + length data)], BusRead BQ_CMD_CONTROL 2])"

lemma foldl_sum: "foldl (+) (a :: u8) xs = a + sum_list xs"
  by (induction xs arbitrary: a) (simp_all add: add.assoc)

lemma df_write_log: "\<exists>n. snd (bq_df_write c addr data l) = l @ take n (df_block addr data)"
proof -
  have "snd (bq_df_write c addr data l) \<in> (\<lambda>n. l @ take n (df_block addr data)) ` {1, 2, 3, 4}"
    by (simp add: bq_df_write_def bq_defs Let_def foldl_sum df_block_def add.assoc)
  then show ?thesis by blast
qed

lemma read_logs:
  "snd (bq_read_u16 c reg l) = l @ [BusRead reg 2]"
  "\<exists>n. snd (bq_df_read c addr len l) =
     l @ take n [BusWrite [BQ_CMD_MAC, ucast (addr AND 0xFF), ucast (drop_bit 8 addr)], BusRead BQ_CMD_MAC_DATA len]"
proof -
  show "snd (bq_read_u16 c reg l) = l @ [BusRead reg 2]" by (simp add: bq_defs)
  have "snd (bq_df_read c addr len l) \<in> (\<lambda>n. l @ take n [BusWrite [BQ_CMD_MAC, ucast (addr AND 0xFF), ucast (drop_bit 8 addr)],
      BusRead BQ_CMD_MAC_DATA len]) ` {1, 2}"
    by (simp add: bq_defs)
  then show "\<exists>n. snd (bq_df_read c addr len l) =
     l @ take n [BusWrite [BQ_CMD_MAC, ucast (addr AND 0xFF), ucast (drop_bit 8 addr)], BusRead BQ_CMD_MAC_DATA len]"
    by blast
qed

text \<open>Transfers that program nothing: the data flash is written when the length register is.\<close>

definition no_flash :: "Bus \<Rightarrow> bool" where
  "no_flash ops \<longleftrightarrow> (\<forall>d. BusWrite (BQ_CMD_MAC_DATA_LEN # d) \<notin> set ops)"

definition quiet_step :: "Bus \<Rightarrow> Bus \<Rightarrow> bool" where
  "quiet_step l l' \<longleftrightarrow> (\<exists>ops. l' = l @ ops \<and> no_flash ops)"

lemma quiet_refl [simp]: "quiet_step l l"
  by (simp add: quiet_step_def no_flash_def)

lemma quiet_trans: "quiet_step l l1 \<Longrightarrow> quiet_step l1 l2 \<Longrightarrow> quiet_step l l2"
  by (auto simp: quiet_step_def no_flash_def)

lemma no_flash_take: "no_flash ops \<Longrightarrow> no_flash (take n ops)"
  by (auto simp: no_flash_def dest: in_set_takeD)

lemma quiet_reads:
  "quiet_step l (snd (bq_read_u16 c reg l))" "quiet_step l (snd (bq_df_read c addr len l))"
  "quiet_step l (snd (bq_cmd_write c BQ_CMD_MAC k l))" "quiet_step l (snd (gauge_configured c l))"
proof -
  show r: "quiet_step l (snd (bq_read_u16 c reg l))" for l reg
    by (simp add: read_logs quiet_step_def no_flash_def)
  show f: "quiet_step l (snd (bq_df_read c addr len l))" for l addr len
  proof -
    obtain n where n: "snd (bq_df_read c addr len l) =
        l @ take n [BusWrite [BQ_CMD_MAC, ucast (addr AND 0xFF), ucast (drop_bit 8 addr)], BusRead BQ_CMD_MAC_DATA len]"
      using read_logs(2) by blast
    have "no_flash [BusWrite [BQ_CMD_MAC, ucast (addr AND 0xFF), ucast (drop_bit 8 addr)], BusRead BQ_CMD_MAC_DATA len]"
      by (simp add: no_flash_def)
    from no_flash_take [OF this, of n] show ?thesis unfolding n quiet_step_def by blast
  qed
  show "quiet_step l (snd (bq_cmd_write c BQ_CMD_MAC k l))" by (simp add: bq_defs quiet_step_def no_flash_def)
  show "quiet_step l (snd (gauge_configured c l))"
    using quiet_trans [OF r f] by (simp add: gauge_configured_def case_prod_beta Let_def)
qed

text \<open>
  Commissioning programs at most two blocks, the mode byte with its two low bits cleared and the design capacity,
  in this order; on a gauge that already has both it programs nothing. It reports success exactly when a last look
  at the gauge shows both.
\<close>

lemma commission_writes:
  assumes "sensors_commission True c l = Some (ok, l')"
  shows "\<exists>l1 oc n l2 k l3. quiet_step l l1 \<and> l2 = l1 @ take n (df_block BQ_DF_OPCONFIG_A [oc AND NOT 0x03]) \<and>
    l3 = l2 @ take k (df_block BQ_DF_DESIGN_CAP [0x05, 0xDC]) \<and> (ok, l') = gauge_configured c l3 \<and>
    (fst (gauge_configured c l) \<longrightarrow> ok \<and> n = 0 \<and> k = 0)"
proof (cases "fst (gauge_configured c l)")
  case True
  then have "(ok, l') = gauge_configured c l"
    using assms by (simp add: sensors_commission_def case_prod_beta Let_def prod_eq_iff)
  then show ?thesis using True
    by (intro exI [of _ l] exI [of _ 0]) (auto simp: prod_eq_iff)
next
  case False
  define l1 where "l1 = snd (gauge_configured c l)"
  define st where "st = (case fst (bq_read_u16 c BQ_CMD_CONTROL l1) of Some w \<Rightarrow> w | None \<Rightarrow> 0)"
  define l2 where "l2 = snd (bq_read_u16 c BQ_CMD_CONTROL l1)"
  define l3 where "l3 = (if drop_bit 13 st AND 0x03 = 0x03
      then snd (bq_cmd_write c BQ_CMD_MAC [0x36, 0x72] (snd (bq_cmd_write c BQ_CMD_MAC [0x04, 0x14] l2))) else l2)"
  define oc where "oc = fst (bq_df_read c BQ_DF_OPCONFIG_A 1 l3)"
  define l4 where "l4 = snd (bq_df_read c BQ_DF_OPCONFIG_A 1 l3)"
  define l5 where "l5 = (case oc of Some d \<Rightarrow> snd (bq_df_write c BQ_DF_OPCONFIG_A [d 0 AND NOT 0x03] l4) | None \<Rightarrow> l4)"
  define l6 where "l6 = snd (bq_df_write c BQ_DF_DESIGN_CAP [0x05, 0xDC] l5)"
  have q: "quiet_step l l4"
  proof -
    have "quiet_step l l1" "quiet_step l1 l2" "quiet_step l2 l3" "quiet_step l3 l4"
      using quiet_reads quiet_trans [OF quiet_reads(3) quiet_reads(3)] by (simp_all add: l1_def l2_def l3_def l4_def)
    then show ?thesis using quiet_trans by blast
  qed
  have "\<exists>b n. l5 = l4 @ take n (df_block BQ_DF_OPCONFIG_A [b AND NOT 0x03])"
  proof (cases oc)
    case None
    then show ?thesis by (intro exI [of _ 0]) (simp add: l5_def)
  next
    case (Some d)
    then show ?thesis using df_write_log by (simp add: l5_def) blast
  qed
  moreover obtain k where "l6 = l5 @ take k (df_block BQ_DF_DESIGN_CAP [0x05, 0xDC])"
    using df_write_log unfolding l6_def by blast
  moreover have cap: "[ucast (drop_bit 8 DESIGN_CAP_MAH), ucast (DESIGN_CAP_MAH AND 0xFF)] = [0x05, 0xDC :: u8]" by simp
  moreover have "sensors_commission True c l = Some (gauge_configured c l6)"
    unfolding l6_def l5_def l4_def oc_def l3_def st_def l2_def l1_def sensors_commission_def cap using False
    by (simp add: case_prod_beta Let_def del: One_nat_def)
  then have "(ok, l') = gauge_configured c l6" using assms by simp
  ultimately show ?thesis using q False by blast
qed

text \<open>Each block carries the checksum that the chip expects.\<close>

lemma block_checksum: "take 2 (df_block addr data) = [BusWrite (BQ_CMD_MAC # blk), BusWrite [BQ_CMD_MAC_DATA_SUM, cks]] \<Longrightarrow>
    sum_list blk + cks = 0xFF"
  by (auto simp: df_block_def Let_def)

text \<open>Waiting for the gauge ends after as many reads of the status as were asked for, or earlier with the bit found.\<close>

lemma poll_ends:
  "\<exists>k \<le> n. snd (bq_poll n c bits l) = l @ replicate k (BusRead BQ_CMD_CONTROL 2) \<and> (\<not> fst (bq_poll n c bits l) \<longrightarrow> k = n)"
proof (induction n arbitrary: l)
  case (Suc n)
  obtain r l1 where r: "bq_read_u16 c BQ_CMD_CONTROL l = (r, l1)" by fastforce
  then have l1: "l1 = l @ [BusRead BQ_CMD_CONTROL 2]" using read_logs(1) [of c BQ_CMD_CONTROL l] by simp
  show ?case
  proof (cases "case r of Some w \<Rightarrow> w AND bits \<noteq> 0 | None \<Rightarrow> False")
    case True
    then show ?thesis by (intro exI [of _ 1]) (simp add: r l1)
  next
    case False
    obtain k where "k \<le> n" "snd (bq_poll n c bits l1) = l1 @ replicate k (BusRead BQ_CMD_CONTROL 2)"
        "\<not> fst (bq_poll n c bits l1) \<longrightarrow> k = n" using Suc.IH by blast
    then show ?thesis using False by (intro exI [of _ "Suc k"]) (simp add: r l1)
  qed
qed simp

end
