(* ===== verification/Baseline.thy ===== *)
theory Baseline
  imports RxRing
begin

text \<open>
  The firmware template of the set-up (\<open>src/Gateway/Setup/examples/m4f-baseline/ipc_rpmsg_echo.c\<close>): a one-message
  mailbox between the RPMsg callback and a loop that answers text commands, counts seconds and shuts down on
  request. The clock, the IPC driver and the log are outside.
\<close>

record Baseline =
  bl_data :: "u8 list"
  bl_dataLen :: nat
  bl_core :: u16
  bl_ept :: u16
  bl_pending :: bool
  bl_gTickCount :: u32
  bl_gLastTickTime :: u64
  bl_gbShutdown :: bool
  bl_gbShutdownRemotecoreID :: u8

datatype bl_effect = BlSend u16 u16 "u8 list" | DriversClose | SystemDeinit | ShutdownAck u8 | Halt

definition bl_linuxMsgCallback :: "u8 list \<Rightarrow> u16 \<Rightarrow> u16 \<Rightarrow> Baseline \<Rightarrow> Baseline" where
  "bl_linuxMsgCallback d core ept s =
     (if bl_pending s then s
      else
        let dataLen = (if length d > MAX_MSG_SIZE - 1 then MAX_MSG_SIZE - 1 else length d) in
        s\<lparr> bl_data := (blit (bl_data s) 0 (take dataLen d))[dataLen := 0], bl_dataLen := dataLen, bl_core := core, bl_ept := ept,
           bl_pending := True \<rparr>)"

definition bl_ipc_rp_mbox_callback :: "u16 \<Rightarrow> bool \<Rightarrow> bool \<Rightarrow> Baseline \<Rightarrow> Baseline" where
  "bl_ipc_rp_mbox_callback core is_mbox_client is_shutdown s =
     (if is_mbox_client \<and> is_shutdown then s\<lparr> bl_gbShutdown := True, bl_gbShutdownRemotecoreID := ucast core \<rparr> else s)"

subsection \<open>Text\<close>

definition ascii :: "string \<Rightarrow> u8 list" where
  "ascii s = map of_char s"

fun bl_dec :: "nat \<Rightarrow> u8 list" where
  "bl_dec n = (if n < 10 then [48 + word_of_nat n] else bl_dec (n div 10) @ [48 + word_of_nat (n mod 10)])"

declare bl_dec.simps [simp del]

definition cstr :: "u8 list \<Rightarrow> u8 list" where
  "cstr bs = takeWhile (\<lambda>b. b \<noteq> 0) bs"

text \<open>The answer to the text in the buffer; the last argument is the time at which it is written.\<close>

definition bl_reply :: "u8 list \<Rightarrow> u32 \<Rightarrow> u64 \<Rightarrow> u8 list" where
  "bl_reply d tick now = take (MAX_MSG_SIZE + 32 - 1)
     (if take 4 d = ascii ''ping'' then ascii ''pong from M4F (tick='' @ bl_dec (unat tick) @ ascii '')''
      else if take 6 d = ascii ''status''
        then ascii ''M4F status: tick='' @ bl_dec (unat tick) @ ascii '', uptime_ms='' @ bl_dec (unat now div 1000)
      else ascii ''M4F got: '' @ cstr d)"

definition bl_handleLinuxMessage :: "u64 \<Rightarrow> Baseline \<Rightarrow> Baseline \<times> bl_effect list" where
  "bl_handleLinuxMessage now s =
     (s\<lparr> bl_pending := False \<rparr>, [BlSend (bl_core s) (bl_ept s) (cstr (bl_reply (bl_data s) (bl_gTickCount s) now) @ [0])])"

definition bl_doPeriodicTick :: "u64 \<Rightarrow> Baseline \<Rightarrow> Baseline" where
  "bl_doPeriodicTick now s =
     (if now - bl_gLastTickTime s \<ge> 1000000 then s\<lparr> bl_gTickCount := bl_gTickCount s + 1, bl_gLastTickTime := now \<rparr> else s)"

definition bl_doShutdown :: "Baseline \<Rightarrow> bl_effect list" where
  "bl_doShutdown s =
     [DriversClose, SystemDeinit] @
     (if bl_gbShutdownRemotecoreID s \<noteq> 0 then [ShutdownAck (bl_gbShutdownRemotecoreID s)] else []) @ [Halt]"

subsection \<open>The loop\<close>

text \<open>What the callbacks bring: a message with its sender, or the request of a core to shut down.\<close>

datatype bl_event = Message "u8 list" u16 u16 | Notify u16 bool bool

fun bl_callback :: "bl_event \<Rightarrow> Baseline \<Rightarrow> Baseline" where
  "bl_callback (Message d core ept) s = bl_linuxMsgCallback d core ept s"
| "bl_callback (Notify core client sd) s = bl_ipc_rp_mbox_callback core client sd s"

text \<open>A turn of the loop: the events before its condition is evaluated, those until the mailbox is looked at, and the
  clock when an answer is written and when the tick is checked. While a message is handled the mailbox is full, so
  that no event changes it.\<close>

record BlTurn =
  bt_before :: "bl_event list"
  bt_after :: "bl_event list"
  bt_answer :: u64
  bt_tick :: u64

text \<open>The result says whether the loop has been left.\<close>

primrec ipc_rpmsg_echo_main :: "BlTurn list \<Rightarrow> Baseline \<Rightarrow> bool \<times> Baseline \<times> bl_effect list" where
  "ipc_rpmsg_echo_main [] s = (False, s, [])"
| "ipc_rpmsg_echo_main (t # ts) s =
     (let s1 = fold bl_callback (bt_before t) s in
      if bl_gbShutdown s1 then (True, s1, bl_doShutdown s1)
      else
        let s2 = fold bl_callback (bt_after t) s1;
            (s3, fx) = (if bl_pending s2 then bl_handleLinuxMessage (bt_answer t) s2 else (s2, []));
            (ended, s4, fx') = ipc_rpmsg_echo_main ts (bl_doPeriodicTick (bt_tick t) s3)
        in (ended, s4, fx @ fx'))"

definition bl_start :: "u64 \<Rightarrow> Baseline" where
  "bl_start now = \<lparr> bl_data = replicate MAX_MSG_SIZE 0, bl_dataLen = 0, bl_core = 0, bl_ept = 0, bl_pending = False,
     bl_gTickCount = 0, bl_gLastTickTime = now, bl_gbShutdown = False, bl_gbShutdownRemotecoreID = 0 \<rparr>"

subsection \<open>What the loop does, without the mailbox\<close>

fun first_message :: "bl_event list \<Rightarrow> (u8 list \<times> u16 \<times> u16) option" where
  "first_message [] = None"
| "first_message (Message d core ept # es) = Some (d, core, ept)"
| "first_message (e # es) = first_message es"

fun shutdown_core :: "u8 option \<Rightarrow> bl_event list \<Rightarrow> u8 option" where
  "shutdown_core sd [] = sd"
| "shutdown_core sd (Notify core True True # es) = shutdown_core (Some (ucast core)) es"
| "shutdown_core sd (e # es) = shutdown_core sd es"

definition bl_answer :: "u8 list \<Rightarrow> u32 \<Rightarrow> u64 \<Rightarrow> u8 list" where
  "bl_answer d tick now =
     (let text = cstr (rx_clip d) in
      if take 4 text = ascii ''ping'' then ascii ''pong from M4F (tick='' @ bl_dec (unat tick) @ ascii '')'' @ [0]
      else if take 6 text = ascii ''status''
        then ascii ''M4F status: tick='' @ bl_dec (unat tick) @ ascii '', uptime_ms='' @ bl_dec (unat now div 1000) @ [0]
      else ascii ''M4F got: '' @ text @ [0])"

text \<open>Each turn answers the first message that came since the last one, and counts a second when one has gone by.\<close>

fun bl_spec :: "BlTurn list \<Rightarrow> u8 option \<Rightarrow> u32 \<Rightarrow> u64 \<Rightarrow> bl_effect list" where
  "bl_spec [] sd tick last_time = []"
| "bl_spec (t # ts) sd tick last_time = (case shutdown_core sd (bt_before t) of
     Some core \<Rightarrow> [DriversClose, SystemDeinit] @ (if core \<noteq> 0 then [ShutdownAck core] else []) @ [Halt]
   | None \<Rightarrow>
       (case first_message (bt_before t @ bt_after t) of
          None \<Rightarrow> [] | Some (d, core, ept) \<Rightarrow> [BlSend core ept (bl_answer d tick (bt_answer t))]) @
       (if bt_tick t - last_time \<ge> 1000000 then bl_spec ts (shutdown_core None (bt_after t)) (tick + 1) (bt_tick t)
        else bl_spec ts (shutdown_core None (bt_after t)) tick last_time))"

subsection \<open>The mailbox\<close>

lemma dec_digits: "\<forall>b \<in> set (bl_dec n). b \<noteq> 0" "n < 10 ^ Suc k \<Longrightarrow> length (bl_dec n) \<le> Suc k"
proof (induction n arbitrary: k rule: bl_dec.induct)
  case (1 n)
  have digit: "48 + word_of_nat d \<noteq> (0 :: u8)" if "d < 10" for d
  proof -
    have "unat (48 + word_of_nat d :: u8) = 48 + d" using that by (simp add: unat_word_ariths unat_of_nat)
    then show ?thesis by auto
  qed
  { case 1
    show ?case using "1.IH"(1) digit [of n] digit [of "n mod 10"] by (simp add: bl_dec.simps [of n])
  next
    case 2
    show ?case
    proof (cases "n < 10")
      case False
      then obtain j where k: "k = Suc j" using 2 by (cases k) simp_all
      then have "n div 10 < 10 ^ Suc j" using 2 by (simp add: less_mult_imp_div_less)
      from "1.IH"(2) [OF False this] show ?thesis using False by (simp add: bl_dec.simps [of n] k)
    qed (simp add: bl_dec.simps [of n]) }
qed

lemma cstr_id: "0 \<notin> set bs \<Longrightarrow> cstr bs = bs"
  by (auto simp: cstr_def takeWhile_eq_all_conv)

lemma cstr_idem: "\<forall>b \<in> set (cstr bs). b \<noteq> 0"
  unfolding cstr_def by (metis (mono_tags, lifting) set_takeWhileD)

text \<open>A prefix without a zero is a prefix of the text in the buffer.\<close>

lemma cstr_prefix: "\<forall>b \<in> set w. b \<noteq> 0 \<Longrightarrow> take (length w) bs = w \<longleftrightarrow> take (length w) (cstr bs) = w"
proof (induction w arbitrary: bs)
  case (Cons x w)
  then show ?case by (cases bs) (auto simp: cstr_def)
qed simp

lemma ascii_texts:
  "\<forall>b \<in> set (ascii ''ping''). b \<noteq> 0" "\<forall>b \<in> set (ascii ''status''). b \<noteq> 0"
  "\<forall>b \<in> set (ascii ''pong from M4F (tick=''). b \<noteq> 0" "\<forall>b \<in> set (ascii '')''). b \<noteq> 0"
  "\<forall>b \<in> set (ascii ''M4F status: tick=''). b \<noteq> 0" "\<forall>b \<in> set (ascii '', uptime_ms=''). b \<noteq> 0"
  "\<forall>b \<in> set (ascii ''M4F got: ''). b \<noteq> 0"
  by (simp_all add: ascii_def)

lemma ball_neq: "\<forall>b \<in> set xs. b \<noteq> (0 :: u8) \<Longrightarrow> 0 \<notin> set xs"
  by blast

lemma ascii_length [simp]: "length (ascii s) = length s"
  by (simp add: ascii_def)

lemma reply_answer:
  assumes "cstr data = cstr (rx_clip d)"
  shows "cstr (bl_reply data tick now) @ [0] = bl_answer d tick now"
proof -
  let ?text = "cstr (rx_clip d)"
  have len: "length (ascii ''ping'') = 4" "length (ascii ''status'') = 6" by simp_all
  have pre: "take 4 data = ascii ''ping'' \<longleftrightarrow> take 4 ?text = ascii ''ping''"
    "take 6 data = ascii ''status'' \<longleftrightarrow> take 6 ?text = ascii ''status''"
    using cstr_prefix [OF ascii_texts(1), of data] cstr_prefix [OF ascii_texts(2), of data] unfolding len assms by blast+
  have "length ?text \<le> length (rx_clip d)" by (simp add: cstr_def length_takeWhile_le)
  then have short: "length ?text \<le> 255" by (simp add: rx_clip_def)
  have "unat tick < 10 ^ Suc 9" by (rule less_le_trans [OF unsigned_less]) simp
  then have tk: "length (bl_dec (unat tick)) \<le> 10" using dec_digits(2) by fastforce
  have "unat now < 10 ^ Suc 16 * 1000" by (rule less_le_trans [OF unsigned_less]) simp
  then have "unat now div 1000 < 10 ^ Suc 16" by (rule less_mult_imp_div_less)
  then have up: "length (bl_dec (unat now div 1000)) \<le> 17" using dec_digits(2) by fastforce
  have nz: "0 \<notin> set (bl_dec k)" "0 \<notin> set (cstr bs)" for k bs using dec_digits(1) cstr_idem by blast+
  note nz = nz ascii_texts [THEN ball_neq]
  show ?thesis unfolding bl_reply_def bl_answer_def Let_def pre assms
    using short tk up nz by (simp add: cstr_id)
qed

text \<open>The mailbox holds \<open>mail\<close>, and the other variables have the values of the specification.\<close>

definition bl_rel :: "(u8 list \<times> u16 \<times> u16) option \<Rightarrow> u8 option \<Rightarrow> u32 \<Rightarrow> u64 \<Rightarrow> Baseline \<Rightarrow> bool" where
  "bl_rel mail sd tick lt s \<longleftrightarrow> length (bl_data s) = 256 \<and> bl_gTickCount s = tick \<and> bl_gLastTickTime s = lt \<and>
     sd = (if bl_gbShutdown s then Some (bl_gbShutdownRemotecoreID s) else None) \<and>
     (case mail of None \<Rightarrow> \<not> bl_pending s
      | Some (d, core, ept) \<Rightarrow> bl_pending s \<and> cstr (bl_data s) = cstr (rx_clip d) \<and> bl_core s = core \<and> bl_ept s = ept)"

lemma stop_at_zero: "takeWhile (\<lambda>b. b \<noteq> 0) (ys @ 0 # rest) = takeWhile (\<lambda>b. b \<noteq> (0 :: u8)) ys"
  by (induction ys) auto

lemma cstr_copy: "length buf = 256 \<Longrightarrow> n = length (take n d) \<Longrightarrow> n < 256 \<Longrightarrow> cstr ((blit buf 0 (take n d))[n := 0]) = cstr (take n d)"
proof -
  assume a: "length buf = 256" "n = length (take n d)" "n < 256"
  obtain x rest where "drop n buf = x # rest" using a by (metis drop_eq_Nil list.exhaust not_le)
  define ys where "ys = take n d"
  have ys: "length ys = n" using a(2) by (simp add: ys_def)
  have "blit buf 0 ys = ys @ x # rest" using \<open>drop n buf = x # rest\<close> ys by (simp add: blit_def)
  then have "(blit buf 0 ys)[n := 0] = ys @ 0 # rest" using ys by (metis list_update_length)
  then show ?thesis unfolding ys_def [symmetric] cstr_def by (simp add: stop_at_zero)
qed

lemma rel_callback:
  assumes "bl_rel mail sd tick lt s"
  shows "bl_rel (case mail of None \<Rightarrow> first_message [e] | Some m \<Rightarrow> Some m) (shutdown_core sd [e]) tick lt (bl_callback e s)"
proof (cases e)
  case (Message d core ept)
  show ?thesis
  proof (cases mail)
    case None
    define n where "n = (if length d > 255 then 255 else length d)"
    have n: "n = length (take n d)" "n < 256" "take n d = rx_clip d" by (auto simp: n_def rx_clip_def)
    have "length ((blit (bl_data s) 0 (take n d))[n := 0]) = 256"
      using assms n by (simp add: bl_rel_def)
    moreover have "bl_linuxMsgCallback d core ept s = s\<lparr> bl_data := (blit (bl_data s) 0 (take n d))[n := 0], bl_dataLen := n,
        bl_core := core, bl_ept := ept, bl_pending := True \<rparr>"
      using assms None unfolding bl_linuxMsgCallback_def Let_def n_def by (simp add: bl_rel_def)
    moreover have "cstr ((blit (bl_data s) 0 (take n d))[n := 0]) = cstr (rx_clip d)"
      using cstr_copy [OF _ n(1,2), of "bl_data s"] assms n(3) by (simp add: bl_rel_def)
    ultimately show ?thesis using assms None Message by (simp add: bl_rel_def)
  next
    case (Some m)
    then show ?thesis using assms Message by (cases m) (simp add: bl_rel_def bl_linuxMsgCallback_def)
  qed
next
  case (Notify core client shut)
  then show ?thesis using assms
    by (cases client; cases shut; cases mail) (auto simp: bl_rel_def bl_ipc_rp_mbox_callback_def)
qed

lemma first_message_cons: "first_message (e # es) = (case first_message [e] of None \<Rightarrow> first_message es | Some m \<Rightarrow> Some m)"
  by (cases e) simp_all

lemma shutdown_core_cons: "shutdown_core sd (e # es) = shutdown_core (shutdown_core sd [e]) es"
proof (cases e)
  case (Notify core client shut)
  then show ?thesis by (cases client; cases shut) simp_all
qed simp

lemma rel_events:
  "bl_rel mail sd tick lt s \<Longrightarrow>
   bl_rel (case mail of None \<Rightarrow> first_message es | Some m \<Rightarrow> Some m) (shutdown_core sd es) tick lt (fold bl_callback es s)"
proof (induction es arbitrary: mail sd s)
  case Nil
  then show ?case by (cases mail) simp_all
next
  case (Cons e es)
  show ?case using Cons.IH [OF rel_callback [OF Cons.prems, of e]]
    unfolding first_message_cons [of e es] shutdown_core_cons [of sd e es]
    by (cases mail; cases "first_message [e]") simp_all
qed

lemma first_message_append:
  "first_message (es @ es') = (case first_message es of None \<Rightarrow> first_message es' | Some m \<Rightarrow> Some m)"
  by (induction es rule: first_message.induct) simp_all

lemma rel_shutdown: "bl_rel mail (Some core) tick lt s \<Longrightarrow>
    bl_gbShutdown s \<and> bl_doShutdown s = [DriversClose, SystemDeinit] @ (if core \<noteq> 0 then [ShutdownAck core] else []) @ [Halt]"
  by (auto simp: bl_rel_def bl_doShutdown_def split: if_splits)

lemma rel_none: "bl_rel mail None tick lt s \<Longrightarrow> \<not> bl_gbShutdown s"
  by (auto simp: bl_rel_def split: if_splits)

lemma rel_handle:
  assumes "bl_rel mail sd tick lt s"
  shows "\<exists>s'. (if bl_pending s then bl_handleLinuxMessage now s else (s, [])) =
      (s', case mail of None \<Rightarrow> [] | Some (d, core, ept) \<Rightarrow> [BlSend core ept (bl_answer d tick now)]) \<and> bl_rel None sd tick lt s'"
proof (cases mail)
  case None
  then show ?thesis using assms by (auto simp: bl_rel_def)
next
  case (Some m)
  obtain d core ept where m: "m = (d, core, ept)" by (metis prod_cases3)
  then show ?thesis using assms Some reply_answer [of "bl_data s" d tick now]
    by (auto simp: bl_rel_def bl_handleLinuxMessage_def)
qed

lemma rel_tick:
  "bl_rel None sd tick lt s \<Longrightarrow>
   bl_rel None sd (if now - lt \<ge> 1000000 then tick + 1 else tick) (if now - lt \<ge> 1000000 then now else lt) (bl_doPeriodicTick now s)"
  by (auto simp: bl_rel_def bl_doPeriodicTick_def)

lemma run_spec: "bl_rel None sd tick lt s \<Longrightarrow> snd (snd (ipc_rpmsg_echo_main ts s)) = bl_spec ts sd tick lt"
proof (induction ts arbitrary: sd tick lt s)
  case (Cons t ts)
  define s1 where "s1 = fold bl_callback (bt_before t) s"
  have r1: "bl_rel (first_message (bt_before t)) (shutdown_core sd (bt_before t)) tick lt s1"
    using rel_events [OF Cons.prems] by (simp add: s1_def)
  show ?case
  proof (cases "shutdown_core sd (bt_before t)")
    case (Some core)
    then show ?thesis using rel_shutdown [OF r1 [unfolded Some]] by (simp add: s1_def [symmetric] Let_def)
  next
    case None
    define s2 where "s2 = fold bl_callback (bt_after t) s1"
    have r2: "bl_rel (first_message (bt_before t @ bt_after t)) (shutdown_core None (bt_after t)) tick lt s2"
      using rel_events [OF r1 [unfolded None], of "bt_after t"] by (simp add: s2_def first_message_append)
    obtain s3 where s3: "(if bl_pending s2 then bl_handleLinuxMessage (bt_answer t) s2 else (s2, [])) =
        (s3, case first_message (bt_before t @ bt_after t) of None \<Rightarrow> [] | Some (d, core, ept) \<Rightarrow> [BlSend core ept (bl_answer d tick (bt_answer t))])"
        "bl_rel None (shutdown_core None (bt_after t)) tick lt s3"
      using rel_handle [OF r2] by blast
    show ?thesis using rel_none [OF r1 [unfolded None]] Cons.IH [OF rel_tick [OF s3(2), of "bt_tick t"]] None
      by (simp add: s1_def [symmetric] s2_def [symmetric] s3(1) Let_def case_prod_beta)
  qed
qed simp

text \<open>
  The loop behaves as its specification without a mailbox says: every turn answers the first message that has
  come since the last turn, cut to 255 bytes and read up to its first zero, to the endpoint it came from, and drops
  the others; seconds are counted by the clock; after a request to shut down the loop ends at its next test, and the
  drivers are closed and the system is deinitialised before the request is acknowledged.
\<close>

theorem template_answers_first_message:
  "snd (snd (ipc_rpmsg_echo_main ts (bl_start now))) = bl_spec ts None 0 now"
  by (rule run_spec) (simp add: bl_rel_def bl_start_def)

end
