(* ===== verification/ScifImage.thy ===== *)
theory ScifImage
  imports Prelude
begin

text \<open>
  The program and the data of the light switch's Sensor Controller (\<open>scif.c\<close>): the words that the driver copies
  to the start of the AUX RAM. The first part is machine code, which is not interpreted here; the data
  part begins with the tables of the driver and holds the initial buffers of the touch task.
\<close>

definition auxRamImage :: "u16 list" where
  "auxRamImage =
   [0x140E, 0x0417, 0x140E, 0x0440, 0x140E, 0x044A, 0x140E, 0x0467, 0x140E, 0x0470, 0x140E, 0x0479, 0x140E, 0x0482, 0x8953, 0x9954,
    0x8D29, 0xBEFD, 0x4553, 0x2554, 0xAEFE, 0x445C, 0xADB7, 0x745B, 0x545B, 0x7000, 0x7CAC, 0x68B5, 0x00A7, 0x1439, 0x68B6, 0x00A8,
    0x1439, 0x68B7, 0x00A9, 0x1439, 0x78AC, 0xF801, 0xFA01, 0xBEF2, 0x78B3, 0x68B5, 0xFD0E, 0x68B7, 0xED92, 0xFD06, 0x7CB3, 0x78B2,
    0xFA01, 0xBE05, 0x7002, 0x7CB2, 0x78B2, 0xFA00, 0xBEFD, 0x6440, 0x0487, 0x78AC, 0x8F1F, 0xED8F, 0xEC01, 0xBE01, 0xADB7, 0x8DB7,
    0x755B, 0x555B, 0x78B1, 0x60BF, 0xEF27, 0xE240, 0xEF27, 0x7000, 0x7CB1, 0x0487, 0x6477, 0x0000, 0x18B3, 0x9D88, 0x9C01, 0xB60E,
    0x10A6, 0xAF19, 0xAA00, 0xB60A, 0xA8FF, 0xAF39, 0xBE07, 0x0CAC, 0x8600, 0x88A8, 0x8F08, 0xFD47, 0x9DB7, 0x08AC, 0x8801, 0x8A01,
    0xBEEB, 0x254F, 0xAEFE, 0x645B, 0x445B, 0x4477, 0x0487, 0x5656, 0x655B, 0x455B, 0x0000, 0x0CAC, 0x0001, 0x0CAD, 0x1533, 0x0487,
    0x5657, 0x665B, 0x465B, 0x0000, 0x0CAC, 0x0002, 0x0CAD, 0x1416, 0x0487, 0x5658, 0x675B, 0x475B, 0x0000, 0x0CAC, 0x0004, 0x0CAD,
    0x1416, 0x0487, 0x765B, 0x565B, 0x86FF, 0x03FF, 0x0CAF, 0x645C, 0x78AE, 0x68AF, 0xED37, 0xB605, 0x0000, 0x0CAE, 0x7CB4, 0x6540,
    0x0CAF, 0x78AF, 0x68B0, 0xFD0E, 0xF801, 0xE95A, 0xFD0E, 0xBE01, 0x6553, 0xBDB7, 0x700B, 0xFB96, 0x4453, 0x2454, 0xAEFE, 0xADB7,
    0x6453, 0x2454, 0xA6FE, 0x7000, 0xFB96, 0xADB7, 0x0000, 0x011D, 0x0132, 0x02D1, 0x0000, 0x0000, 0x0000, 0x0000, 0x0000, 0xFFFF,
    0x0000, 0x0000, 0x0000, 0x0000, 0x0000, 0x0000, 0x0000, 0x0000, 0x0011, 0x0080, 0x0028, 0x0016, 0x0014, 0x0180, 0x0181, 0x00C0,
    0x0000, 0x0000, 0x0000, 0x0000, 0x0000, 0x0000, 0x0000, 0x0000, 0x0000, 0x0000, 0x0000, 0x0000, 0x0000, 0x0000, 0x0000, 0x0000,
    0x0000, 0x0000, 0x0000, 0x0000, 0x0000, 0x0000, 0x0000, 0x0000, 0x0000, 0x0000, 0x0000, 0x0000, 0x0000, 0x0000, 0x0000, 0x0000,
    0x0000, 0x0000, 0x0000, 0x0000, 0x0000, 0x0000, 0x0000, 0x0000, 0x0000, 0x0000, 0x0000, 0x0000, 0x0001, 0x0000, 0x0000, 0x0000,
    0x0000, 0x0000, 0x0000, 0x0000, 0x0000, 0x0000, 0x0000, 0x0000, 0x0000, 0x0000, 0x0000, 0x0000, 0x0000, 0x0000, 0x0000, 0x0000,
    0x0000, 0x0000, 0x0000, 0x0000, 0x0000, 0x0000, 0x0000, 0x0000, 0x0000, 0x0000, 0x0000, 0x0000, 0x0000, 0x0000, 0x0000, 0x0000,
    0x0000, 0x0000, 0x0000, 0x0000, 0x0000, 0x0004, 0x0004, 0x0000, 0x0000, 0x0000, 0x0000, 0x0028, 0x0000, 0x0000, 0x50BB, 0xFF1D,
    0x4492, 0x16D5, 0x8801, 0x8A02, 0xAEF9, 0x45BD, 0x0001, 0x8B82, 0x8623, 0x0352, 0x8B7E, 0x0035, 0x8B56, 0x655B, 0x455B, 0x7656,
    0x6480, 0xADB7, 0xADB7, 0x2488, 0xA6FE, 0x2486, 0xA6FE, 0x16DE, 0x7019, 0x16E8, 0x08B8, 0x8B9C, 0x8B9C, 0x0180, 0x86A1, 0x8B00,
    0x0000, 0x86A0, 0x8B80, 0x86A0, 0x8900, 0x0001, 0x862E, 0x122E, 0x9B36, 0x8B38, 0x6439, 0x16F6, 0x2105, 0x30F3, 0x0000, 0x10BB,
    0xFF19, 0x16FA, 0x9D42, 0x9806, 0x4000, 0x9D2A, 0xAE05, 0xDF11, 0xDF29, 0x98FE, 0xCD25, 0x0555, 0x7002, 0x1706, 0x10BB, 0xFF19,
    0x1711, 0x6492, 0x9950, 0x9DAE, 0x9001, 0x9A00, 0xB6FB, 0x65BD, 0x8680, 0x1000, 0x9BA4, 0x100A, 0x8500, 0xFD47, 0x45BD, 0x1064,
    0x5060, 0xDB3C, 0x5037, 0xDB3D, 0x9801, 0x9B49, 0xFDB1, 0x9941, 0x9DAE, 0x9001, 0x50BB, 0xFF1D, 0x4492, 0x16D5, 0x8680, 0x5000,
    0xDB9C, 0xD933, 0x68BF, 0xE808, 0xDF3E, 0x6115, 0xEF1E, 0x9A01, 0xBE02, 0x6000, 0x0596, 0xDF0A, 0xEA05, 0xB601, 0xE801, 0xEA05,
    0xBE05, 0x7001, 0xFD80, 0x18EA, 0x9D0F, 0x1CEA, 0x1115, 0xEF39, 0x861F, 0xDAFF, 0xAE07, 0x861F, 0x53FF, 0x6001, 0xED80, 0x18EB,
    0x9D0E, 0x1CEB, 0x191C, 0x9A08, 0x9E10, 0x10ED, 0x9F19, 0x60EF, 0xEF1E, 0xED19, 0xFD41, 0xFD1E, 0xEDA1, 0x9D26, 0xDD2F, 0xA602,
    0xDD47, 0x05B5, 0xDD29, 0x9E01, 0xDD41, 0xDF2A, 0xCD25, 0xCDAB, 0x18BF, 0x9806, 0xCF39, 0x1103, 0x9F19, 0x9A08, 0xAE27, 0x1103,
    0x9F19, 0x9C07, 0xBE23, 0x9D43, 0x9806, 0x5000, 0x9D2B, 0xAE09, 0xEF11, 0xEF29, 0x98FE, 0xEA00, 0xBE02, 0xDD24, 0x05D0, 0xDD26,
    0x05C6, 0xCF2B, 0xDD24, 0xDDAB, 0x191C, 0x9A40, 0xA603, 0x10F1, 0xDF39, 0x05E6, 0x10F1, 0x9F19, 0x9DA1, 0x60F1, 0xEF1E, 0xEDB9,
    0x9D1E, 0xDDA9, 0x9D25, 0x9DA9, 0x50F1, 0x9F3D, 0x191C, 0x9A08, 0xA60D, 0x1103, 0x9F19, 0x9801, 0x5103, 0x9F3D, 0x10ED, 0xCF39,
    0x9D44, 0xCDAD, 0x9D24, 0x40EF, 0x9F3C, 0x0677, 0x10ED, 0x9F19, 0x50EF, 0xDF1D, 0x6117, 0xEF1E, 0xEA00, 0xBE1F, 0x60F1, 0xEF1E,
    0x7103, 0xFF1F, 0xFA60, 0x9E18, 0xED29, 0xA607, 0xFD41, 0xFDA1, 0xFD19, 0xFD26, 0x9D47, 0x9DA9, 0x0615, 0xFD41, 0xFDA1, 0x9DAA,
    0xFD19, 0xEDAA, 0xFD26, 0x9D47, 0x9DA9, 0x60ED, 0x9F3E, 0x6103, 0xEF1E, 0xE8E0, 0x7103, 0xEF3F, 0x0626, 0xED45, 0xEDA1, 0xDDAB,
    0xED1D, 0xDD44, 0xDDAB, 0xED25, 0xDD46, 0xDDA9, 0x68BF, 0xE802, 0x9F3E, 0xED41, 0xFD41, 0xFDAD, 0xED27, 0xDD2E, 0xA601, 0xDD46,
    0xED41, 0xFD41, 0xFDAA, 0xED27, 0xDD2E, 0x9E01, 0xDD46, 0x60EF, 0xDF3E, 0x68BF, 0xE804, 0xDF3E, 0x5117, 0xDF1D, 0xDA00, 0xB602,
    0x9806, 0x0643, 0x980C, 0x58BF, 0xD80A, 0x9F3D, 0xCD29, 0x9E17, 0x1001, 0x5000, 0x6103, 0xDF3E, 0x58BA, 0x5D1B, 0x5119, 0xDF1D,
    0xD801, 0x6119, 0xDF3E, 0x5119, 0xDF1D, 0x8605, 0xDADC, 0x9E06, 0x10ED, 0xCF39, 0x1000, 0x4119, 0x9F3C, 0x1000, 0x0668, 0x1000,
    0x4103, 0xCF1C, 0xC801, 0x5103, 0xCF3D, 0x4000, 0x5119, 0xCF3D, 0x4117, 0xCF1C, 0x9D2C, 0xB605, 0x4117, 0x9F3C, 0x4001, 0x4CEC,
    0x0674, 0x48EC, 0xCD09, 0x4CEC, 0x48BF, 0xC80C, 0x9F3C, 0xA808, 0xB808, 0x8801, 0x8A02, 0xA601, 0x054F, 0x171A, 0x70FF, 0xFBA4,
    0xFBA4, 0x1720, 0x70FE, 0x172E, 0x6488, 0x6486, 0x091B, 0x191C, 0x9A64, 0xA605, 0x091C, 0x8801, 0x0D1C, 0x08BA, 0x069D, 0x18BA,
    0x8D29, 0xA601, 0x8D41, 0xAD40, 0xAD19, 0xADAC, 0x8D22, 0x18B9, 0x8D29, 0xA602, 0x8801, 0x069D, 0x8D41, 0x0D1B, 0x08AB, 0x8A00,
    0xB602, 0x0001, 0x0CEC, 0x08EA, 0x18BF, 0x8F29, 0x08EB, 0x18BF, 0x9801, 0x8F29, 0x08EC, 0x8A00, 0xB618, 0x08BD, 0x881C, 0x8601,
    0x8AD4, 0xAE02, 0x88AC, 0x8401, 0x2001, 0x18BE, 0x8D29, 0xBE01, 0x8E03, 0x0CBD, 0x8DA9, 0x0CBF, 0x08AE, 0x8D0A, 0x0CAE, 0x0000,
    0x0CEC, 0x000C, 0x18AB, 0x8D01, 0x0CAA, 0x091B, 0x8B82, 0x8623, 0x0302, 0x8B7E, 0x0035, 0x8B56, 0x655B, 0x455B, 0x7656, 0x6480,
    0xADB7, 0x5656, 0x655B, 0x455B, 0xADB7, 0xED47, 0xEDAB, 0x8600, 0xE8C6, 0xF007, 0x5001, 0xDD87, 0xDF26, 0xADB7, 0x700F, 0xFBA2,
    0x86FF, 0x7300, 0xFBA5, 0x86C1, 0x7100, 0xFB9C, 0xFB9C, 0xADB7, 0xF8ED, 0xF007, 0x600F, 0xEBA2, 0x86FF, 0x6300, 0xEBA5, 0x4693,
    0x8680, 0x6000, 0xED8F, 0xEB9D, 0xEB9D, 0xADB7, 0x6468, 0x2568, 0xA6FE, 0xADB7, 0xF8ED, 0xF007, 0x86FF, 0x6330, 0xEBA2, 0x5493,
    0x8680, 0x6000, 0xED8F, 0xEB9A, 0xEB9A, 0xADB7, 0x6003, 0xEB31, 0x600F, 0xEB35, 0x6000, 0xEB31, 0xFB31, 0x7643, 0xA500, 0xFD47,
    0xADB7, 0xED47, 0xEDAB, 0x8600, 0xE8C2, 0xF007, 0x5001, 0xDD87, 0xDF26, 0xADB7, 0x7003, 0xFB31, 0x4468, 0x2568, 0xAEFE, 0xADB7,
    0x86FF, 0x7300, 0xFBA4, 0xADB7, 0x2494, 0xAE04, 0x6494, 0x6010, 0xEB49, 0x8DB1, 0x6B34, 0xED0F, 0x6F34, 0xADB7, 0x6B34, 0xED07,
    0x6F34, 0xBE01, 0x4494, 0xADB7, 0x0000]"

definition aux_image_bytes :: "u8 list" where
  "aux_image_bytes = concat (map le16_bytes auxRamImage)"

lemma length_concat_le16: "length (concat (map le16_bytes ws)) = 2 * length ws"
  by (induction ws) simp_all

lemma length_auxRamImage: "length auxRamImage = 821"
  by (simp add: auxRamImage_def)

lemma le16_at_concat:
  "i < length ws \<Longrightarrow> le16_at (concat (map le16_bytes ws)) (2 * i) = ws ! i"
proof (induction ws arbitrary: i)
  case (Cons w ws)
  then show ?case
    by (cases i) (simp_all add: le16_at_def le16_bytes_def le16_join)
qed simp

text \<open>The words of the image that the driver reads: schedule, alerts and the buffer pointers of the task.\<close>

lemma image_word:
  "i < 821 \<Longrightarrow> le16_at aux_image_bytes (2 * i) = auxRamImage ! i"
  by (simp add: aux_image_bytes_def le16_at_concat length_auxRamImage)

lemma image_pointers: "auxRamImage ! 189 = 0x0180" "auxRamImage ! 190 = 0x0181"
  "auxRamImage ! 174 = 0" "auxRamImage ! 180 = 0"
  by (simp_all add: auxRamImage_def)

lemma length_aux_image: "length aux_image_bytes = 1642"
  by (simp add: aux_image_bytes_def length_concat_le16 length_auxRamImage)

end
