(* ===== verification/Scif.thy ===== *)
theory Scif
  imports ScifImage
begin

text \<open>
  The driver of the light switch's Sensor Controller (\<open>scif_framework.c\<close>, \<open>scif_osal_tirtos.c\<close> and the set-up in
  \<open>scif.c\<close>): exchange of buffers with the running task through the AUX RAM, control of the task, the
  interrupts, and start-up. The Sensor Controller itself is outside: what it writes to the AUX RAM and what the
  registers it drives read is an argument. Addresses in the AUX RAM are offsets from its base; values that the
  vendor's headers give to register fields are a parameter (\<open>ScifHw\<close>). A wait for a register that never
  changes and an access outside an array are the value \<open>None\<close>.
\<close>

subsection \<open>Driver data\<close>

datatype SCIF_RESULT = SCIF_SUCCESS | SCIF_NOT_READY | SCIF_ILLEGAL_OPERATION

datatype SCIF_TASK_STRUCT_TYPE = SCIF_STRUCT_CFG | SCIF_STRUCT_INPUT | SCIF_STRUCT_OUTPUT | SCIF_STRUCT_STATE

fun struct_number :: "SCIF_TASK_STRUCT_TYPE \<Rightarrow> nat" where
  "struct_number SCIF_STRUCT_CFG = 0"
| "struct_number SCIF_STRUCT_INPUT = 1"
| "struct_number SCIF_STRUCT_OUTPUT = 2"
| "struct_number SCIF_STRUCT_STATE = 3"

record ScifData =
  pIntData :: nat
  pTaskCtrl :: nat
  pTaskExecuteSchedule :: nat
  bvDirtyTasks :: u16
  pAuxRamImage :: "u8 list"
  pTaskDataStructInfoLut :: "u32 list"
  pAuxIoIndexToMcuIocfgOffsetLut :: "u8 list"
  taskBaseEvTrigIndexLut :: u16
  activeModeSceClkFreqMhz :: u16

definition pScifTaskDataStructInfoLut :: "u32 list" where
  "pScifTaskDataStructInfoLut = [0x00501170, 0x00000000, 0x00E03180, 0x033011D4]"

definition scifIocfgOffsetLut :: "u8 list" where
  "scifIocfgOffsetLut = [0, 68, 64, 60, 56, 52, 48, 44, 40, 36, 32, 28, 24, 20, 16, 12,
     8, 4, 0, 120, 116, 112, 108, 104, 100, 96, 92, 88, 84, 80, 76, 72]"

definition scifDriverSetup :: ScifData where
  "scifDriverSetup = \<lparr> pIntData = 0x158, pTaskCtrl = 0x166, pTaskExecuteSchedule = 0x14C, bvDirtyTasks = 0,
     pAuxRamImage = aux_image_bytes, pTaskDataStructInfoLut = pScifTaskDataStructInfoLut,
     pAuxIoIndexToMcuIocfgOffsetLut = scifIocfgOffsetLut, taskBaseEvTrigIndexLut = 0, activeModeSceClkFreqMhz = 24 \<rparr>"

text \<open>The registers of one block of eight pins in the AUX domain.\<close>

record Aiodio =
  ad_psel :: "u32 list"
  ad_iopoe :: u32
  ad_iomode :: u32
  ad_gpiodout :: u32
  ad_gpiodie :: u32

datatype scif_int = CtrlReady | TaskAlert

datatype vec_event = EV_SW_WU0 | EV_SW_WU1 | EV_SW_WU2 | EV_PROG_WU0 | EV_PROG_WU1 | EV_PROG_WU2 | EV_PROG_WU3 | EV_NONE

text \<open>
  What the driver does to registers that are not plain memory, to the interrupts and to the RTOS:
  \<open>SwWuTrig n\<close> sets the wake-up flag \<open>SW_WUn\<close> of the Sensor Controller, \<open>ClearReady\<close> and \<open>ClearAlert\<close> clear the
  event flags towards the CPU.
\<close>

datatype scif_effect =
    WuGate bool | ProgWuCfg nat u32 | WuFlagsClr u32 | VecCfg nat vec_event
  | SetReady | ClearReady | ClearAlert | SwWuTrig nat
  | DacSmplCfg u32 | SceCtl u32 | OpModeReq u32 | RtcCtl u32 | AuxSceClk u32
  | HwiRegister scif_int | HwiUnregister scif_int | HwiEnable scif_int | HwiDisable scif_int | HwiClear scif_int
  | SemReset | SemPend u32 | SemPost | SemConstruct | Callback scif_int

record Scif =
  scifData :: ScifData
  aux_ram :: "u8 list"
  mcuwusel :: "u32 list"
  sce_ctl :: u32
  opmodereq :: u32
  auxsceclk :: u32
  rtc_ctl :: u32
  aiodio :: "Aiodio list"
  iocfg :: "nat \<Rightarrow> u32"
  osalInitDone :: bool
  osalCtrlTaskNblLocked :: bool
  osalWaitOnNblLocked :: bool
  readyCallback :: bool
  alertCallback :: bool

record ScifHw =
  MCUWUSEL_M :: u32
  EV_AUX_SWEV0 :: u32
  EV_AUX_SWEV1 :: u32
  EV_AUX_NONE :: u32
  REQ_A :: u32
  REQ_PDA :: u32
  REQ_LP :: u32
  CTL_CLK_EN :: u32
  CTL_RESTART :: u32
  CTL_SUSPEND :: u32
  PROGWU1CFG :: u32
  PORT_ID_AUX_IO :: u32
  PORT_ID_GPIO :: u32
  IOCURR_S :: nat
  PULL_DIS :: u32
  PULL_DWN :: u32
  PULL_UP :: u32
  AUXSCECLK_HFDIV2 :: u32
  PD_SRC_M :: u32
  PD_SRC_LF :: u32
  PD_SRC_NO_CLOCK :: u32
  RTC_4KHZ_EN :: u32

text \<open>The 16-bit words of the AUX RAM.\<close>

definition ram16 :: "Scif \<Rightarrow> nat \<Rightarrow> u16" where
  "ram16 s a = le16_at (aux_ram s) a"

definition ram16_put :: "nat \<Rightarrow> u16 \<Rightarrow> Scif \<Rightarrow> Scif" where
  "ram16_put a w s = s\<lparr> aux_ram := blit (aux_ram s) a (le16_bytes w) \<rparr>"

text \<open>Fields of \<open>SCIF_INT_DATA_T\<close> and \<open>SCIF_TASK_CTRL_T\<close>.\<close>

definition id_bvTaskIoAlert :: "ScifData \<Rightarrow> nat" where "id_bvTaskIoAlert d = pIntData d + 4"
definition id_alertCanPdAuxMask :: "ScifData \<Rightarrow> nat" where "id_alertCanPdAuxMask d = pIntData d + 8"
definition id_progwucfgManTrigReg :: "ScifData \<Rightarrow> nat" where "id_progwucfgManTrigReg d = pIntData d + 10"
definition tc_bvActiveTasks :: "ScifData \<Rightarrow> nat" where "tc_bvActiveTasks d = pTaskCtrl d"
definition tc_bvTaskIoAlert :: "ScifData \<Rightarrow> nat" where "tc_bvTaskIoAlert d = pTaskCtrl d + 2"
definition tc_bvTaskInitializeReq :: "ScifData \<Rightarrow> nat" where "tc_bvTaskInitializeReq d = pTaskCtrl d + 4"
definition tc_bvTaskExecuteReq :: "ScifData \<Rightarrow> nat" where "tc_bvTaskExecuteReq d = pTaskCtrl d + 6"
definition tc_bvTaskTerminateReq :: "ScifData \<Rightarrow> nat" where "tc_bvTaskTerminateReq d = pTaskCtrl d + 8"

lemmas scif_field_defs = id_bvTaskIoAlert_def id_alertCanPdAuxMask_def id_progwucfgManTrigReg_def tc_bvActiveTasks_def
  tc_bvTaskIoAlert_def tc_bvTaskInitializeReq_def tc_bvTaskExecuteReq_def tc_bvTaskTerminateReq_def

subsection \<open>Waiting\<close>

text \<open>A loop that reads a register until a flag is clear; the result is the number of readings.\<close>

partial_function (option) wait_clear :: "(nat \<Rightarrow> bool) \<Rightarrow> nat \<Rightarrow> nat option" where
  "wait_clear flag k = (if flag k then wait_clear flag (Suc k) else Some (Suc k))"

subsection \<open>Bit vectors of tasks\<close>

definition scifFindLeastSignificant1 :: "u32 \<Rightarrow> nat" where
  "scifFindLeastSignificant1 x = (case find (bit x) [0..<32] of None \<Rightarrow> 32 | Some n \<Rightarrow> n)"

lemma least_bit:
  assumes "x \<noteq> 0"
  shows "scifFindLeastSignificant1 x < 32" "bit x (scifFindLeastSignificant1 x)"
    "\<And>m. m < scifFindLeastSignificant1 x \<Longrightarrow> \<not> bit x m"
proof -
  have "find (bit x) [0..<32] \<noteq> None"
  proof
    assume "find (bit x) [0..<32] = None"
    then have "\<forall>n < 32. \<not> bit x n" by (simp add: find_None_iff)
    then have "x = 0" by (intro bit_word_eqI) simp
    then show False using assms by simp
  qed
  then obtain n where n: "find (bit x) [0..<32] = Some n" by blast
  then have l: "scifFindLeastSignificant1 x = n" by (simp add: scifFindLeastSignificant1_def)
  from n have "n < 32 \<and> bit x n \<and> (\<forall>m<n. \<not> bit x m)" by (auto simp: find_Some_iff)
  then show "scifFindLeastSignificant1 x < 32" "bit x (scifFindLeastSignificant1 x)"
    "\<And>m. m < scifFindLeastSignificant1 x \<Longrightarrow> \<not> bit x m"
    by (simp_all add: l)
qed

text \<open>The loop \<open>while (bv) { n = lowest one; bv &= ~(1 << n); ... }\<close>: the values of \<open>n\<close>, in order.\<close>

lemma clear_bit_less:
  assumes b: "bit x n" shows "unat (x AND NOT (2 ^ n)) < unat (x :: 'a::len word)"
proof -
  let ?y = "x AND NOT (push_bit n 1)"
  have "?y \<noteq> x"
  proof
    assume "?y = x"
    then have "bit ?y n = bit x n" by simp
    then show False using b by (simp add: bit_simps)
  qed
  moreover have "?y \<le> x" by (rule word_and_le2)
  ultimately have "?y < x" by simp
  then show ?thesis by (simp add: word_less_nat_alt push_bit_eq_mult)
qed

function bits_up :: "u32 \<Rightarrow> nat list" where
  "bits_up x = (if x = 0 then []
     else let n = scifFindLeastSignificant1 x in n # bits_up (x AND NOT (push_bit n 1)))"
  by pat_completeness auto
termination by (relation "measure unat") (auto simp: least_bit clear_bit_less)

declare bits_up.simps [simp del]

lemma bits_up_filter: "bits_up x = filter (bit x) [0..<32]"
proof (induction x rule: bits_up.induct)
  case (1 x)
  show ?case
  proof (cases "x = 0")
    case False
    define n where "n = scifFindLeastSignificant1 x"
    define y where "y = x AND NOT (push_bit n 1)"
    note lb = least_bit [OF False, folded n_def]
    have upt: "[0..<32] = [0..<n] @ n # [Suc n..<32]"
    proof -
      have "[0..<32] = [0..<n] @ [n..<32]" using upt_add_eq_append [of 0 n "32 - n"] lb(1) by simp
      then show ?thesis using lb(1) by (simp add: upt_conv_Cons)
    qed
    have y: "bit y m \<longleftrightarrow> bit x m \<and> m \<noteq> n" for m
      using bit_imp_le_length [of x m] by (auto simp: y_def bit_simps)
    have low: "filter (bit x) [0..<n] = []" "filter (bit y) [0..<n] = []"
      using lb(3) by (auto simp: filter_empty_conv y)
    have "filter (bit x) [0..<32] = n # filter (bit x) [Suc n..<32]"
      by (simp only: upt filter_append filter.simps low lb(2) if_True append_Nil)
    moreover have "filter (bit y) [0..<32] = filter (bit y) [Suc n..<32]"
      by (simp only: upt filter_append filter.simps low append_Nil) (simp add: y)
    moreover have "filter (bit y) [Suc n..<32] = filter (bit x) [Suc n..<32]"
      by (rule filter_cong) (auto simp: y)
    moreover have "bits_up y = filter (bit y) [0..<32]"
      using 1 [OF False n_def] by (simp add: y_def)
    ultimately show ?thesis
      using False by (subst bits_up.simps) (simp add: Let_def n_def [symmetric] y_def)
  qed (simp add: bits_up.simps)
qed

subsection \<open>Registers and power modes\<close>

definition scifSetMcuwusel :: "ScifHw \<Rightarrow> nat \<Rightarrow> u32 \<Rightarrow> Scif \<Rightarrow> Scif" where
  "scifSetMcuwusel hw index wuSignal s =
     (let r = (if bit index 2 then 1 else 0); sh = 8 * (index mod 4);
          v = mcuwusel s ! r AND NOT (push_bit sh (MCUWUSEL_M hw))
      in s\<lparr> mcuwusel := (mcuwusel s)[r := v OR push_bit sh wuSignal] \<rparr>)"

definition OSAL_CTRL_READY_MCUWUSEL_WU_EV_INDEX :: nat where [simp]: "OSAL_CTRL_READY_MCUWUSEL_WU_EV_INDEX = 6"
definition OSAL_TASK_ALERT_MCUWUSEL_WU_EV_INDEX :: nat where [simp]: "OSAL_TASK_ALERT_MCUWUSEL_WU_EV_INDEX = 7"

text \<open>
  The change of the operation mode: \<open>ack rs k\<close> is the k-th reading of the acknowledged mode, when the modes
  \<open>rs\<close> have been requested so far; the result are all requests.
\<close>

definition next_opmode :: "ScifHw \<Rightarrow> u32 \<Rightarrow> u32 \<Rightarrow> u32" where
  "next_opmode hw cur new =
     (if cur AND REQ_PDA hw \<noteq> 0 then cur AND NOT (REQ_PDA hw)
      else if (cur XOR new) AND REQ_LP hw \<noteq> 0 then new AND REQ_LP hw
      else new)"

partial_function (option) opmode_loop ::
  "ScifHw \<Rightarrow> (u32 list \<Rightarrow> nat \<Rightarrow> u32) \<Rightarrow> u32 \<Rightarrow> nat \<Rightarrow> u32 list \<Rightarrow> u32 \<Rightarrow> u32 \<Rightarrow> u32 list option" where
  "opmode_loop hw ack new k rs cur opmodeack =
     (if opmodeack \<noteq> cur then opmode_loop hw ack new (Suc k) rs cur (ack rs k)
      else if cur = new then Some rs
      else opmode_loop hw ack new k (rs @ [next_opmode hw cur new]) (next_opmode hw cur new) opmodeack)"

definition scifSetSceOpmode :: "ScifHw \<Rightarrow> (u32 list \<Rightarrow> nat \<Rightarrow> u32) \<Rightarrow> u32 \<Rightarrow> Scif \<Rightarrow> (Scif \<times> scif_effect list) option" where
  "scifSetSceOpmode hw ack new s =
     (case opmode_loop hw ack new 1 [] (opmodereq s) (ack [] 0) of
        None \<Rightarrow> None
      | Some rs \<Rightarrow>
          let fast = activeModeSceClkFreqMhz (scifData s) = 24; lp = new AND REQ_LP hw \<noteq> 0
          in Some (s\<lparr> opmodereq := last (opmodereq s # rs) \<rparr>,
               (if fast \<and> \<not> lp then [DacSmplCfg (12 - 1)] else []) @ map OpModeReq rs @
               (if fast \<and> lp then [DacSmplCfg (1 - 1)] else [])))"

subsection \<open>Pins\<close>

definition pull_bits :: "ScifHw \<Rightarrow> int \<Rightarrow> u32" where
  "pull_bits hw pullLevel = (if pullLevel = -1 then PULL_DIS hw else if pullLevel = 0 then PULL_DWN hw
     else if pullLevel = 1 then PULL_UP hw else 0)"

definition scifReinitIo :: "ScifHw \<Rightarrow> u32 \<Rightarrow> int \<Rightarrow> u32 \<Rightarrow> Scif \<Rightarrow> Scif option" where
  "scifReinitIo hw auxIoIndex pullLevel driveStrength s =
     (let lut = pAuxIoIndexToMcuIocfgOffsetLut (scifData s) in
      if unat auxIoIndex \<ge> length lut then None
      else Some (s\<lparr> iocfg := (iocfg s)(unat (lut ! unat auxIoIndex) :=
        PORT_ID_AUX_IO hw OR push_bit (IOCURR_S hw) driveStrength OR pull_bits hw pullLevel) \<rparr>))"

definition scifUninitIo :: "ScifHw \<Rightarrow> u32 \<Rightarrow> int \<Rightarrow> Scif \<Rightarrow> Scif option" where
  "scifUninitIo hw auxIoIndex pullLevel s =
     (let lut = pAuxIoIndexToMcuIocfgOffsetLut (scifData s) in
      if unat auxIoIndex \<ge> length lut then None
      else Some (s\<lparr> iocfg := (iocfg s)(unat (lut ! unat auxIoIndex) := PORT_ID_GPIO hw OR pull_bits hw pullLevel) \<rparr>))"

definition set_field :: "u32 \<Rightarrow> nat \<Rightarrow> u32 \<Rightarrow> u32 \<Rightarrow> u32" where
  "set_field m sh v r = (r AND NOT (push_bit sh m)) OR push_bit sh v"

definition scifInitIo :: "ScifHw \<Rightarrow> u32 \<Rightarrow> u32 \<Rightarrow> int \<Rightarrow> u32 \<Rightarrow> Scif \<Rightarrow> Scif option" where
  "scifInitIo hw auxIoIndex ioMode pullLevel outputValue s =
     (let pin = unat (auxIoIndex AND 7); b = unat (auxIoIndex div 8) in
      if b \<ge> length (aiodio s) then None
      else
        let a = aiodio s ! b;
            a' = a\<lparr> ad_psel := (ad_psel a)[pin := drop_bit 24 ioMode AND 0x0F],
                    ad_iopoe := set_field 1 pin (drop_bit 8 ioMode AND 0xFF) (ad_iopoe a),
                    ad_iomode := set_field 3 (2 * pin) (ioMode AND 0xFF) (ad_iomode a),
                    ad_gpiodout := set_field 1 pin outputValue (ad_gpiodout a),
                    ad_gpiodie := set_field 1 pin (drop_bit 16 ioMode AND 0xFF) (ad_gpiodie a) \<rparr>
        in scifReinitIo hw auxIoIndex pullLevel (drop_bit 28 ioMode) (s\<lparr> aiodio := (aiodio s)[b := a'] \<rparr>))"

abbreviation (input) "AUXIOMODE_OPEN_DRAIN \<equiv> 2 :: u32"
abbreviation (input) "AUXIOMODE_OPEN_SOURCE \<equiv> 3 :: u32"

definition scifReinitTaskIo :: "ScifHw \<Rightarrow> u32 \<Rightarrow> Scif \<Rightarrow> Scif option" where
  "scifReinitTaskIo hw bvTaskIds s =
     (if bvTaskIds AND 1 \<noteq> 0 then
        Option.bind (scifReinitIo hw 22 (-1) 0 s) (\<lambda>s.
        Option.bind (scifReinitIo hw 20 (-1) 0 s) (\<lambda>s. scifReinitIo hw 25 (-1) 0 s))
      else Some s)"

definition scifDriverSetupInit :: "ScifHw \<Rightarrow> (u32 list \<Rightarrow> nat \<Rightarrow> u32) \<Rightarrow> Scif \<Rightarrow> (Scif \<times> scif_effect list) option" where
  "scifDriverSetupInit hw ack s =
     (let s0 = s\<lparr> auxsceclk := AUXSCECLK_HFDIV2 hw \<rparr> in
      case scifSetSceOpmode hw ack (REQ_A hw) s0 of None \<Rightarrow> None
      | Some (s1, fx) \<Rightarrow>
        Option.bind (scifInitIo hw 22 AUXIOMODE_OPEN_DRAIN (-1) 1 s1) (\<lambda>s2.
        Option.bind (scifInitIo hw 20 AUXIOMODE_OPEN_DRAIN (-1) 1 s2) (\<lambda>s3.
        Option.bind (scifInitIo hw 25 AUXIOMODE_OPEN_SOURCE (-1) 0 s3) (\<lambda>s4.
          let c = (auxsceclk s4 AND NOT (PD_SRC_M hw)) OR PD_SRC_LF hw; r = rtc_ctl s4 OR RTC_4KHZ_EN hw
          in Some (s4\<lparr> auxsceclk := c, rtc_ctl := r \<rparr>,
               AuxSceClk (AUXSCECLK_HFDIV2 hw) # fx @ [AuxSceClk c, RtcCtl r])))))"

definition scifDriverSetupUninit :: "ScifHw \<Rightarrow> Scif \<Rightarrow> (Scif \<times> scif_effect list) option" where
  "scifDriverSetupUninit hw s =
     Option.bind (scifUninitIo hw 22 (-1) s) (\<lambda>s1.
     Option.bind (scifUninitIo hw 20 (-1) s1) (\<lambda>s2.
     Option.bind (scifUninitIo hw 25 (-1) s2) (\<lambda>s3.
       let c = (auxsceclk s3 AND NOT (PD_SRC_M hw)) OR PD_SRC_NO_CLOCK hw; r = rtc_ctl s3 AND NOT (RTC_4KHZ_EN hw)
       in Some (s3\<lparr> auxsceclk := c, rtc_ctl := r \<rparr>, [AuxSceClk c, RtcCtl r]))))"

subsection \<open>Exchange of buffers\<close>

abbreviation (input) "SCIF_TASK_STRUCT_CTRL_SIZE \<equiv> 6 :: nat"
abbreviation (input) "SCE_ADDR_BACK_OFFSET \<equiv> 6 :: nat"
abbreviation (input) "MCU_ADDR_BACK_OFFSET \<equiv> 4 :: nat"

definition struct_info :: "Scif \<Rightarrow> nat \<Rightarrow> nat \<Rightarrow> u32 option" where
  "struct_info s taskId n = (let lut = pTaskDataStructInfoLut (scifData s); i = taskId * 4 + n
     in if i < length lut then Some (lut ! i) else None)"

definition info_addr :: "u32 \<Rightarrow> u16" where "info_addr i = ucast (i AND 0x0FFF)"
definition info_count :: "u32 \<Rightarrow> u16" where "info_count i = ucast (drop_bit 12 i AND 0x00FF)"
definition info_size :: "u32 \<Rightarrow> u16" where "info_size i = ucast (drop_bit 20 i AND 0x0FFF)"

text \<open>The two buffer pointers, which precede the first buffer.\<close>

definition sce_addr :: "Scif \<Rightarrow> u16 \<Rightarrow> u16" where "sce_addr s base = ram16 s (unat base - SCE_ADDR_BACK_OFFSET)"
definition mcu_addr :: "Scif \<Rightarrow> u16 \<Rightarrow> u16" where "mcu_addr s base = ram16 s (unat base - MCU_ADDR_BACK_OFFSET)"

definition scifGetTaskIoStructAvailCount :: "nat \<Rightarrow> SCIF_TASK_STRUCT_TYPE \<Rightarrow> Scif \<Rightarrow> u32 option" where
  "scifGetTaskIoStructAvailCount taskId typ s = (case struct_info s taskId (struct_number typ) of None \<Rightarrow> None
   | Some i \<Rightarrow>
      let base = info_addr i; count = info_count i; sz = info_size i in
      if count < 2 then Some 0
      else
        let sceAddr = sce_addr s base; mcuAddr = mcu_addr s base in
        if (ucast (ram16 s (id_bvTaskIoAlert (scifData s))) :: u32) AND push_bit taskId 0x0100 \<noteq> 0 then Some 0
        else if mcuAddr = sceAddr then Some (ucast count)
        else
          let m = mcuAddr AND NOT 1; c = sceAddr AND NOT 1; c' = (if c < m then c + sz * 2 * count else c)
          in if sz = 0 then None
             else Some (word_of_int ((uint c' - uint m) div (uint sz * 2))))"

definition scifGetTaskStruct :: "nat \<Rightarrow> SCIF_TASK_STRUCT_TYPE \<Rightarrow> Scif \<Rightarrow> u16 option" where
  "scifGetTaskStruct taskId typ s = (case struct_info s taskId (struct_number typ) of None \<Rightarrow> None
   | Some i \<Rightarrow> if info_count i < 2 then Some (info_addr i) else Some (mcu_addr s (info_addr i) AND NOT 1))"

text \<open>The next address of a buffer pointer; its lowest bit counts the rounds.\<close>

definition next_buffer :: "u16 \<Rightarrow> u16 \<Rightarrow> u16 \<Rightarrow> u16 \<Rightarrow> u16" where
  "next_buffer base count sz a =
     (let n = a + sz * 2 in
      if uint (n AND NOT 1) > uint base + uint sz * 2 * (uint count - 1)
      then base OR ((n AND 1) XOR 1) else n)"

definition scifHandoffTaskStruct :: "nat \<Rightarrow> SCIF_TASK_STRUCT_TYPE \<Rightarrow> Scif \<Rightarrow> Scif option" where
  "scifHandoffTaskStruct taskId typ s = (case struct_info s taskId (struct_number typ) of None \<Rightarrow> None
   | Some i \<Rightarrow>
      let base = info_addr i in
      if info_count i \<ge> 2 then
        Some (ram16_put (unat base - MCU_ADDR_BACK_OFFSET) (next_buffer base (info_count i) (info_size i) (mcu_addr s base)) s)
      else Some s)"

subsection \<open>Reset of the task's structures\<close>

text \<open>The range of a structure in the AUX RAM, its control variables included; lengths are 16 bits.\<close>

definition struct_range :: "u32 \<Rightarrow> nat \<times> nat" where
  "struct_range i =
     (let addr = info_addr i; len = 2 * info_size i * info_count i in
      if info_count i > 1 then (unat (addr - 6), unat (len + 6)) else (unat addr, unat len))"

definition reset_struct :: "u32 \<Rightarrow> Scif \<Rightarrow> Scif option" where
  "reset_struct i s =
     (if i = 0 then Some s
      else let (a, n) = struct_range i; image = pAuxRamImage (scifData s) in
        if a + n > length image \<or> a + n > length (aux_ram s) then None
        else Some (s\<lparr> aux_ram := blit (aux_ram s) a (take n (drop a image)) \<rparr>))"

fun reset_structs :: "nat \<Rightarrow> nat list \<Rightarrow> Scif \<Rightarrow> Scif option" where
  "reset_structs taskId [] s = Some s"
| "reset_structs taskId (n # ns) s = (case struct_info s taskId n of None \<Rightarrow> None
   | Some i \<Rightarrow> Option.bind (reset_struct i s) (reset_structs taskId ns))"

definition scifSetTaskStartupDelay :: "nat \<Rightarrow> u16 \<Rightarrow> Scif \<Rightarrow> Scif" where
  "scifSetTaskStartupDelay taskId ticks s = ram16_put (pTaskExecuteSchedule (scifData s) + 2 * taskId) ticks s"

fun reset_tasks :: "nat list \<Rightarrow> u32 \<Rightarrow> Scif \<Rightarrow> Scif option" where
  "reset_tasks [] bv s = Some s"
| "reset_tasks (t # ts) bv s =
     Option.bind (reset_structs t (bits_up bv) (scifSetTaskStartupDelay t 0 s)) (reset_tasks ts bv)"

definition scifResetTaskStructs :: "u32 \<Rightarrow> u32 \<Rightarrow> Scif \<Rightarrow> Scif option" where
  "scifResetTaskStructs bvTaskIds bvTaskStructs s =
     (let d = scifData s; s1 = s\<lparr> scifData := d\<lparr> bvDirtyTasks := bvDirtyTasks d AND ucast (NOT bvTaskIds) \<rparr> \<rparr>
      in reset_tasks (bits_up bvTaskIds) (bvTaskStructs OR push_bit (struct_number SCIF_STRUCT_STATE) 1) s1)"

subsection \<open>Alerts\<close>

definition scifGetAlertEvents :: "Scif \<Rightarrow> u32" where
  "scifGetAlertEvents s = ucast (ram16 s (tc_bvTaskIoAlert (scifData s)))"

text \<open>\<open>flag k\<close> is the k-th reading of the ALERT event flag, each after a write that clears it.\<close>

definition scifClearAlertIntSource :: "(nat \<Rightarrow> bool) \<Rightarrow> scif_effect list option" where
  "scifClearAlertIntSource flag = map_option (\<lambda>n. replicate n ClearAlert) (wait_clear flag 0)"

definition scifAckAlertEvents :: "Scif \<Rightarrow> Scif \<times> scif_effect list" where
  "scifAckAlertEvents s =
     (ram16_put (tc_bvTaskIoAlert (scifData s)) 0 s, [HwiClear TaskAlert, HwiEnable TaskAlert, SwWuTrig 2])"

definition scifSetWakeOnAlertInt :: "ScifHw \<Rightarrow> bool \<Rightarrow> Scif \<Rightarrow> Scif" where
  "scifSetWakeOnAlertInt hw enable s =
     (if enable then
        scifSetMcuwusel hw OSAL_TASK_ALERT_MCUWUSEL_WU_EV_INDEX (EV_AUX_SWEV1 hw)
          (ram16_put (id_alertCanPdAuxMask (scifData s)) 0x0000 s)
      else
        scifSetMcuwusel hw OSAL_TASK_ALERT_MCUWUSEL_WU_EV_INDEX (EV_AUX_NONE hw)
          (ram16_put (id_alertCanPdAuxMask (scifData s)) 0xFFFF s))"

subsection \<open>Control of the task\<close>

definition osalLockCtrlTaskNbl :: "Scif \<Rightarrow> bool \<times> Scif" where
  "osalLockCtrlTaskNbl s =
     (if osalCtrlTaskNblLocked s then (False, s) else (True, s\<lparr> osalCtrlTaskNblLocked := True \<rparr>))"

definition osalUnlockCtrlTaskNbl :: "Scif \<Rightarrow> Scif" where
  "osalUnlockCtrlTaskNbl s = s\<lparr> osalCtrlTaskNblLocked := False \<rparr>"

definition scifGetActiveTaskIds :: "Scif \<Rightarrow> u16" where
  "scifGetActiveTaskIds s = ram16 s (tc_bvActiveTasks (scifData s))"

text \<open>The three request words, and the mark on the tasks that are started.\<close>

definition put_request :: "u32 \<Rightarrow> u32 \<Rightarrow> Scif \<Rightarrow> Scif" where
  "put_request bvTaskIds bvTaskReq s =
     (let d = scifData s;
          req = (\<lambda>b. if bvTaskReq AND b \<noteq> 0 then ucast bvTaskIds else 0);
          s1 = ram16_put (tc_bvTaskInitializeReq d) (req 1) s;
          s2 = (if bvTaskReq AND 1 \<noteq> 0 then s1\<lparr> scifData := d\<lparr> bvDirtyTasks := bvDirtyTasks d OR ucast bvTaskIds \<rparr> \<rparr> else s1)
      in ram16_put (tc_bvTaskTerminateReq d) (req 4) (ram16_put (tc_bvTaskExecuteReq d) (req 2) s2))"

text \<open>
  A request to the Sensor Controller: \<open>ready\<close> is whether its READY event is set, \<open>flag k\<close> the k-th reading
  of the event after it was cleared.
\<close>

definition scifCtrlTasksNbl :: "u32 \<Rightarrow> u32 \<Rightarrow> bool \<Rightarrow> (nat \<Rightarrow> bool) \<Rightarrow> Scif \<Rightarrow> (SCIF_RESULT \<times> Scif \<times> scif_effect list) option" where
  "scifCtrlTasksNbl bvTaskIds bvTaskReq ready flag s = (case osalLockCtrlTaskNbl s of
     (False, s) \<Rightarrow> Some (SCIF_NOT_READY, s, [])
   | (True, s1) \<Rightarrow>
      if bvTaskReq AND 1 \<noteq> 0 \<and> ucast (scifGetActiveTaskIds s1 OR bvDirtyTasks (scifData s1)) AND bvTaskIds \<noteq> 0 then
        Some (SCIF_ILLEGAL_OPERATION, osalUnlockCtrlTaskNbl s1, [])
      else if \<not> ready then Some (SCIF_NOT_READY, osalUnlockCtrlTaskNbl s1, [])
      else (case wait_clear flag 0 of None \<Rightarrow> None
        | Some _ \<Rightarrow> Some (SCIF_SUCCESS, osalUnlockCtrlTaskNbl (put_request bvTaskIds bvTaskReq s1),
            [ClearReady, HwiClear CtrlReady, HwiEnable CtrlReady, SwWuTrig 0])))"

definition scifExecuteTasksOnceNbl :: "u32 \<Rightarrow> bool \<Rightarrow> (nat \<Rightarrow> bool) \<Rightarrow> Scif \<Rightarrow> (SCIF_RESULT \<times> Scif \<times> scif_effect list) option" where
  "scifExecuteTasksOnceNbl bvTaskIds = scifCtrlTasksNbl bvTaskIds 0x07"

definition scifStartTasksNbl :: "u32 \<Rightarrow> bool \<Rightarrow> (nat \<Rightarrow> bool) \<Rightarrow> Scif \<Rightarrow> (SCIF_RESULT \<times> Scif \<times> scif_effect list) option" where
  "scifStartTasksNbl bvTaskIds = scifCtrlTasksNbl bvTaskIds 0x01"

definition scifStopTasksNbl :: "u32 \<Rightarrow> bool \<Rightarrow> (nat \<Rightarrow> bool) \<Rightarrow> Scif \<Rightarrow> (SCIF_RESULT \<times> Scif \<times> scif_effect list) option" where
  "scifStopTasksNbl bvTaskIds = scifCtrlTasksNbl bvTaskIds 0x04"

definition scifSwTriggerExecutionCodeNbl :: "u32 \<Rightarrow> bool \<Rightarrow> (nat \<Rightarrow> bool) \<Rightarrow> Scif \<Rightarrow> (SCIF_RESULT \<times> Scif \<times> scif_effect list) option" where
  "scifSwTriggerExecutionCodeNbl bvTaskIds = scifCtrlTasksNbl bvTaskIds 0x02"

definition scifSwTriggerEventHandlerCode :: "ScifHw \<Rightarrow> nat \<Rightarrow> u32 \<Rightarrow> Scif \<Rightarrow> SCIF_RESULT \<times> Scif \<times> scif_effect list" where
  "scifSwTriggerEventHandlerCode hw taskId triggerIndex s =
     (let d = scifData s;
          triggerBase = ucast (drop_bit (2 * taskId) (taskBaseEvTrigIndexLut d) AND 3) :: u32;
          reg = ucast (PROGWU1CFG hw + (triggerBase + triggerIndex) * 4) :: u16
      in if ram16 s (id_progwucfgManTrigReg d) = 0 then
           (SCIF_SUCCESS, ram16_put (id_progwucfgManTrigReg d) reg s, [SwWuTrig 1])
         else (SCIF_NOT_READY, s, []))"

subsection \<open>The operating system side\<close>

text \<open>
  Waiting for the READY event: \<open>ready\<close> is the event with interrupts disabled, \<open>pended\<close> what the semaphore
  returns. \<open>Clock_tickPeriod\<close> is a parameter of the RTOS.
\<close>

definition osalWaitOnCtrlReady ::
  "ScifHw \<Rightarrow> u32 \<Rightarrow> bool \<Rightarrow> bool \<Rightarrow> u32 \<Rightarrow> Scif \<Rightarrow> SCIF_RESULT \<times> Scif \<times> scif_effect list" where
  "osalWaitOnCtrlReady hw tickPeriod ready pended timeoutUs s =
     (if ready then (SCIF_SUCCESS, s, [])
      else if timeoutUs = 0 then (SCIF_NOT_READY, s, [])
      else if osalWaitOnNblLocked s then (SCIF_ILLEGAL_OPERATION, s, [])
      else
        let s1 = scifSetMcuwusel hw OSAL_CTRL_READY_MCUWUSEL_WU_EV_INDEX (EV_AUX_SWEV0 hw) (s\<lparr> osalWaitOnNblLocked := True \<rparr>);
            s2 = s1\<lparr> osalWaitOnNblLocked := False \<rparr>
        in (if pended then SCIF_SUCCESS else SCIF_NOT_READY,
            scifSetMcuwusel hw OSAL_CTRL_READY_MCUWUSEL_WU_EV_INDEX (EV_AUX_NONE hw) s2,
            [SemReset, SemPend (timeoutUs div tickPeriod)]))"

definition scifWaitOnNbl ::
  "ScifHw \<Rightarrow> u32 \<Rightarrow> bool \<Rightarrow> bool \<Rightarrow> bool \<Rightarrow> u32 \<Rightarrow> Scif \<Rightarrow> SCIF_RESULT \<times> Scif \<times> scif_effect list" where
  "scifWaitOnNbl hw tickPeriod ready0 ready pended timeoutUs s =
     (if ready0 then (SCIF_SUCCESS, s, []) else osalWaitOnCtrlReady hw tickPeriod ready pended timeoutUs s)"

definition osalIndicateCtrlReady :: "Scif \<Rightarrow> scif_effect list" where
  "osalIndicateCtrlReady s =
     (if osalInitDone s then [SemPost] else []) @ (if readyCallback s then [Callback CtrlReady] else [])"

definition osalIndicateTaskAlert :: "Scif \<Rightarrow> scif_effect list" where
  "osalIndicateTaskAlert s = (if alertCallback s then [Callback TaskAlert] else [])"

definition osalCtrlReadyIsr :: "Scif \<Rightarrow> scif_effect list" where
  "osalCtrlReadyIsr s = HwiDisable CtrlReady # osalIndicateCtrlReady s"

definition osalTaskAlertIsr :: "Scif \<Rightarrow> scif_effect list" where
  "osalTaskAlertIsr s = HwiDisable TaskAlert # osalIndicateTaskAlert s"

definition scifOsalRegisterCtrlReadyCallback :: "bool \<Rightarrow> Scif \<Rightarrow> Scif" where
  "scifOsalRegisterCtrlReadyCallback callback s = s\<lparr> readyCallback := callback \<rparr>"

definition scifOsalRegisterTaskAlertCallback :: "bool \<Rightarrow> Scif \<Rightarrow> Scif" where
  "scifOsalRegisterTaskAlertCallback callback s = s\<lparr> alertCallback := callback \<rparr>"

definition scifOsalInit :: "Scif \<Rightarrow> Scif \<times> scif_effect list" where
  "scifOsalInit s = (if osalInitDone s then (s, []) else (s\<lparr> osalInitDone := True \<rparr>, [SemConstruct]))"

subsection \<open>Start and end\<close>

definition scif_vectors :: "scif_effect list" where
  "scif_vectors = [WuGate False, ProgWuCfg 0 0, ProgWuCfg 1 0, ProgWuCfg 2 0, ProgWuCfg 3 0, WuFlagsClr 0x00FF, WuFlagsClr 0x0000,
     VecCfg 0 EV_SW_WU0, VecCfg 1 EV_SW_WU1, VecCfg 2 EV_PROG_WU0, VecCfg 3 EV_PROG_WU1, VecCfg 4 EV_PROG_WU2,
     VecCfg 5 EV_PROG_WU3, VecCfg 6 EV_SW_WU2, VecCfg 7 EV_NONE, WuGate True]"

definition scifInit :: "ScifHw \<Rightarrow> (u32 list \<Rightarrow> nat \<Rightarrow> u32) \<Rightarrow> ScifData \<Rightarrow> Scif \<Rightarrow> (SCIF_RESULT \<times> Scif \<times> scif_effect list) option" where
  "scifInit hw ack setup s =
     (if sce_ctl s AND CTL_CLK_EN hw \<noteq> 0 then Some (SCIF_ILLEGAL_OPERATION, s, [])
      else if length (pAuxRamImage setup) > length (aux_ram s) then None
      else
        let s1 = s\<lparr> scifData := setup, aux_ram := blit (aux_ram s) 0 (pAuxRamImage setup), sce_ctl := 0 \<rparr>
        in (case scifDriverSetupInit hw ack s1 of None \<Rightarrow> None
          | Some (s2, fx) \<Rightarrow>
              let s3 = scifSetMcuwusel hw OSAL_TASK_ALERT_MCUWUSEL_WU_EV_INDEX (EV_AUX_SWEV1 hw) s2;
                  s4 = s3\<lparr> sce_ctl := sce_ctl s3 OR CTL_CLK_EN hw \<rparr>
              in Some (SCIF_SUCCESS, s4, scif_vectors @ [SceCtl 0] @ fx @ [SetReady, SceCtl (sce_ctl s4),
                   HwiRegister CtrlReady, HwiClear CtrlReady, HwiEnable CtrlReady,
                   HwiRegister TaskAlert, HwiClear TaskAlert, HwiEnable TaskAlert])))"

text \<open>
  \<open>wu\<close> and \<open>busy\<close> are the readings of the pending wake-up signal and of the running processor; the two
  changes of the operation mode have readings of their own.
\<close>

definition scifUninit ::
  "ScifHw \<Rightarrow> (nat \<Rightarrow> bool) \<Rightarrow> (nat \<Rightarrow> bool) \<Rightarrow> (u32 list \<Rightarrow> nat \<Rightarrow> u32) \<Rightarrow> (u32 list \<Rightarrow> nat \<Rightarrow> u32) \<Rightarrow> Scif \<Rightarrow>
    (Scif \<times> scif_effect list) option" where
  "scifUninit hw wu busy ack1 ack2 s =
     Option.bind (wait_clear wu 0) (\<lambda>_. Option.bind (wait_clear busy 0) (\<lambda>_.
     Option.bind (scifSetSceOpmode hw ack1 (REQ_A hw) (s\<lparr> sce_ctl := CTL_CLK_EN hw OR CTL_RESTART hw \<rparr>)) (\<lambda>(s1, fx1).
     Option.bind (scifSetSceOpmode hw ack2 (REQ_PDA hw) (s1\<lparr> sce_ctl := 0 \<rparr>)) (\<lambda>(s2, fx2).
     map_option (\<lambda>(s4, fx3). (s4,
         [SceCtl (CTL_CLK_EN hw OR CTL_RESTART hw)] @ fx1 @
         [SceCtl (CTL_CLK_EN hw OR CTL_SUSPEND hw), SceCtl 0] @ fx2 @
         [HwiDisable CtrlReady, HwiUnregister CtrlReady, HwiDisable TaskAlert, HwiUnregister TaskAlert] @ fx3))
       (scifDriverSetupUninit hw (scifSetMcuwusel hw OSAL_TASK_ALERT_MCUWUSEL_WU_EV_INDEX (EV_AUX_NONE hw) s2))))))"

subsection \<open>The outputs of the touch task\<close>

text \<open>
  The loop of \<open>scTaskAlertCallback\<close> (\<open>gpiointerrupt.c\<close>), which takes over the outputs of the touch task: their
  results in order, and the driver afterwards. \<open>sc k\<close> is what the Sensor Controller writes to the AUX RAM before the k-th check for outputs.
\<close>

definition touch_detected :: "Scif \<Rightarrow> u16 \<Rightarrow> u16" where
  "touch_detected s addr = ram16 s (unat addr + 24)"

partial_function (option) touch_outputs ::
  "(nat \<Rightarrow> u8 list \<Rightarrow> u8 list) \<Rightarrow> nat \<Rightarrow> u16 list \<Rightarrow> Scif \<Rightarrow> (u16 list \<times> Scif) option" where
  "touch_outputs sc k seen s =
     (let s1 = s\<lparr> aux_ram := sc k (aux_ram s) \<rparr> in
      Option.bind (scifGetTaskIoStructAvailCount 0 SCIF_STRUCT_OUTPUT s1) (\<lambda>n.
        if n = 0 then Some (seen, s1)
        else Option.bind (scifGetTaskStruct 0 SCIF_STRUCT_OUTPUT s1) (\<lambda>pOut.
             Option.bind (scifHandoffTaskStruct 0 SCIF_STRUCT_OUTPUT s1) (\<lambda>s2.
               touch_outputs sc (Suc k) (seen @ [touch_detected s1 pOut]) s2))))"

end
