(* ===== verification/ScifTouch.thy ===== *)
theory ScifTouch
  imports Scif LightSwitch
begin

text \<open>
  What the driver of the Sensor Controller guarantees: its waits end when the hardware answers, a power mode is
  reached without a forbidden transition, a started task is not started twice, and the touch callback takes
  over every output of the task once and in order.
\<close>

text \<open>
  The whole callback: the alert is cleared, the results go to the touch loop of \<open>LightSwitch\<close> in the order in which they
  are taken over, and the alert is acknowledged. \<open>flag\<close> and \<open>sc\<close> are as in the driver.
\<close>

definition touch_alert ::
  "(nat \<Rightarrow> bool) \<Rightarrow> (nat \<Rightarrow> u8 list \<Rightarrow> u8 list) \<Rightarrow> Light \<Rightarrow> Scif \<Rightarrow> (Light \<times> Scif \<times> scif_effect list) option" where
  "touch_alert flag sc li s =
     Option.bind (scifClearAlertIntSource flag) (\<lambda>fx.
     Option.bind (touch_outputs sc 0 [] s) (\<lambda>(seen, s1).
       let (s2, fx2) = scifAckAlertEvents s1 in Some (scTaskAlertCallback seen li, s2, fx @ fx2)))"

subsection \<open>Waits\<close>

lemma wait_clear_SomeD:
  "wait_clear flag k = Some n \<Longrightarrow> k < n \<and> \<not> flag (n - 1) \<and> (\<forall>j. k \<le> j \<and> j < n - 1 \<longrightarrow> flag j)"
proof (erule wait_clear.raw_induct
    [where P = "\<lambda>flag k n. k < n \<and> \<not> flag (n - 1) \<and> (\<forall>j. k \<le> j \<and> j < n - 1 \<longrightarrow> flag j)", rotated])
  fix wc and flag :: "nat \<Rightarrow> bool" and k n :: nat
  assume IH: "\<And>flag k y. wc flag k = Some y \<Longrightarrow> k < y \<and> \<not> flag (y - 1) \<and> (\<forall>j. k \<le> j \<and> j < y - 1 \<longrightarrow> flag j)"
    and wc: "(if flag k then wc flag (Suc k) else Some (Suc k)) = Some n"
  show "k < n \<and> \<not> flag (n - 1) \<and> (\<forall>j. k \<le> j \<and> j < n - 1 \<longrightarrow> flag j)"
  proof (cases "flag k")
    case True
    then have "Suc k < n \<and> \<not> flag (n - 1) \<and> (\<forall>j. Suc k \<le> j \<and> j < n - 1 \<longrightarrow> flag j)"
      using IH [of flag "Suc k" n] wc by simp
    then show ?thesis using True by (metis Suc_leI Suc_lessD le_neq_implies_less)
  qed (use wc in auto)
qed

lemma wait_clear_ends: "\<not> flag (k + d) \<Longrightarrow> \<exists>n. wait_clear flag k = Some n"
proof (induction d arbitrary: k)
  case 0
  then show ?case by (simp add: wait_clear.simps)
next
  case (Suc d)
  then have "\<exists>n. wait_clear flag (Suc k) = Some n" by simp
  then show ?case by (subst wait_clear.simps) simp
qed

lemma wait_clear_iff: "(\<exists>n. wait_clear flag k = Some n) \<longleftrightarrow> (\<exists>j \<ge> k. \<not> flag j)"
  using wait_clear_SomeD [of flag k] wait_clear_ends [of flag k]
  by (metis add_diff_cancel_left' le_add_diff_inverse less_Suc_eq_le less_imp_Suc_add add_Suc_right diff_Suc_1 le_add1)

subsection \<open>Operation modes\<close>

text \<open>A transition that does not change the low-power request while the power-down request is set.\<close>

definition mode_step_ok :: "ScifHw \<Rightarrow> u32 \<Rightarrow> u32 \<Rightarrow> bool" where
  "mode_step_ok hw c d \<longleftrightarrow> c AND REQ_LP hw = d AND REQ_LP hw \<or> (c AND REQ_PDA hw = 0 \<and> d AND REQ_PDA hw = 0)"

definition mode_rank :: "ScifHw \<Rightarrow> u32 \<Rightarrow> u32 \<Rightarrow> nat" where
  "mode_rank hw new c = (if c = new then 0 else if c AND REQ_PDA hw \<noteq> 0 then 3
     else if (c XOR new) AND REQ_LP hw \<noteq> 0 then 2 else 1)"

lemma and_eq_zero_iff: "a AND b = (0 :: 'a::len word) \<longleftrightarrow> (\<forall>n < LENGTH('a). \<not> (bit a n \<and> bit b n))"
  by (auto simp: bit_eq_iff bit_simps)

lemma xor_and_zero: "(a XOR b) AND m = (0 :: 'a::len word) \<longleftrightarrow> a AND m = b AND m"
  by (simp add: bit_eq_iff bit_simps) blast

lemma next_opmode_ok:
  assumes "REQ_PDA hw AND REQ_LP hw = 0" "c \<noteq> new"
  shows "mode_rank hw new (next_opmode hw c new) < mode_rank hw new c" "mode_step_ok hw c (next_opmode hw c new)"
proof -
  have dis: "\<And>n. n < 32 \<Longrightarrow> \<not> (bit (REQ_PDA hw) n \<and> bit (REQ_LP hw) n)"
    using assms(1) by (simp add: and_eq_zero_iff)
  have pd: "(x AND NOT (REQ_PDA hw)) AND REQ_PDA hw = 0" for x
    by (simp add: and_eq_zero_iff bit_simps)
  have lp: "(x AND NOT (REQ_PDA hw)) AND REQ_LP hw = x AND REQ_LP hw" for x
    by (rule bit_word_eqI) (use dis in \<open>auto simp: bit_simps\<close>)
  have lpd: "(x AND REQ_LP hw) AND REQ_PDA hw = 0" for x
    using dis by (auto simp: and_eq_zero_iff bit_simps)
  have lpp: "((x AND REQ_LP hw) XOR x) AND REQ_LP hw = 0" for x
    by (rule bit_word_eqI) (auto simp: bit_simps)
  show "mode_rank hw new (next_opmode hw c new) < mode_rank hw new c"
    using assms(2) by (auto simp: mode_rank_def next_opmode_def pd lpd lpp)
  show "mode_step_ok hw c (next_opmode hw c new)"
    by (auto simp: mode_step_ok_def next_opmode_def lp lpd xor_and_zero)
qed

lemma opmode_wait:
  assumes "ack rs (k + d) = cur"
  shows "\<exists>k'. opmode_loop hw ack new k rs cur a = opmode_loop hw ack new k' rs cur cur"
  using assms
proof (induction d arbitrary: k a)
  case 0
  then show ?case
    by (cases "a = cur") (auto simp: opmode_loop.simps [of hw ack new k rs cur a])
next
  case (Suc d)
  then have "\<exists>k'. opmode_loop hw ack new (Suc k) rs cur (ack rs k) = opmode_loop hw ack new k' rs cur cur" by simp
  then show ?case
    by (cases "a = cur") (auto simp: opmode_loop.simps [of hw ack new k rs cur a])
qed

lemma opmode_ends:
  assumes "REQ_PDA hw AND REQ_LP hw = 0" and "\<And>rs k. \<exists>j \<ge> k. ack rs j = last (c0 # rs)"
    and "cur = last (c0 # rs)"
  shows "\<exists>rs'. opmode_loop hw ack new k rs cur a = Some (rs @ rs') \<and> length rs' \<le> mode_rank hw new cur \<and>
    last (cur # rs') = new \<and> (\<forall>i < length rs'. mode_step_ok hw ((cur # rs') ! i) (rs' ! i))"
  using assms(3)
proof (induction "mode_rank hw new cur" arbitrary: k rs cur a rule: less_induct)
  case less
  obtain j where "j \<ge> k" "ack rs j = cur" using assms(2) [where rs = rs and k = k] less.prems by auto
  then obtain k' where w: "opmode_loop hw ack new k rs cur a = opmode_loop hw ack new k' rs cur cur"
    using opmode_wait [where ack = ack and rs = rs and k = k and d = "j - k" and cur = cur and hw = hw and new = new and a = a]
    by auto
  show ?case
  proof (cases "cur = new")
    case True
    then show ?thesis unfolding w by (subst opmode_loop.simps) simp
  next
    case False
    define c where "c = next_opmode hw cur new"
    note ok = next_opmode_ok [OF assms(1) False, folded c_def]
    obtain rs' where r: "opmode_loop hw ack new k' (rs @ [c]) c cur = Some ((rs @ [c]) @ rs')"
      "length rs' \<le> mode_rank hw new c" "last (c # rs') = new"
      "\<forall>i < length rs'. mode_step_ok hw ((c # rs') ! i) (rs' ! i)"
      using less.hyps [OF ok(1), of "rs @ [c]" k' cur] by auto
    have "opmode_loop hw ack new k rs cur a = Some (rs @ c # rs')"
      unfolding w using False r(1) by (subst opmode_loop.simps) (simp add: c_def)
    moreover have "\<forall>i < length (c # rs'). mode_step_ok hw ((cur # c # rs') ! i) ((c # rs') ! i)"
      using ok(2) r(4) by (auto simp: less_Suc_eq_0_disj nth_Cons split: nat.split)
    ultimately show ?thesis using r(2,3) ok(1) by (intro exI [of _ "c # rs'"]) auto
  qed
qed

text \<open>
  C40. A change of the Sensor Controller's operation mode comes to an end whenever the hardware acknowledges each
  request at some time: after at most three requests the new mode is set, the requests are written in this order,
  and none of them changes the low-power bit while the power-down bit is set.
\<close>

theorem operation_mode_reached:
  assumes "REQ_PDA hw AND REQ_LP hw = 0" and "\<And>rs k. \<exists>j \<ge> k. ack rs j = last (opmodereq s # rs)"
  shows "\<exists>rs s' fx. scifSetSceOpmode hw ack new s = Some (s', fx) \<and> s' = s\<lparr> opmodereq := new \<rparr> \<and>
    [v. OpModeReq v \<leftarrow> fx] = rs \<and> length rs \<le> 3 \<and> last (opmodereq s # rs) = new \<and>
    (\<forall>i < length rs. mode_step_ok hw ((opmodereq s # rs) ! i) (rs ! i))"
proof -
  obtain rs where r: "opmode_loop hw ack new 1 [] (opmodereq s) (ack [] 0) = Some rs"
    "length rs \<le> mode_rank hw new (opmodereq s)" "last (opmodereq s # rs) = new"
    "\<forall>i < length rs. mode_step_ok hw ((opmodereq s # rs) ! i) (rs ! i)"
    using opmode_ends [OF assms(1), of ack "opmodereq s" "opmodereq s" "[]" new 1 "ack [] 0"] assms(2) by auto
  have "mode_rank hw new (opmodereq s) \<le> 3" by (simp add: mode_rank_def)
  then have "length rs \<le> 3" using r(2) by simp
  moreover have "concat (map (\<lambda>e. case e of OpModeReq v \<Rightarrow> [v] | _ \<Rightarrow> []) (map OpModeReq rs)) = rs"
    by (induction rs) simp_all
  ultimately show ?thesis using r by (auto simp: scifSetSceOpmode_def Let_def split: if_splits)
qed

text \<open>Register values as on the chip of the light switch, and the driver's state at power-up.\<close>

definition cc13x2_hw :: ScifHw where
  "cc13x2_hw = \<lparr> MCUWUSEL_M = 0x3F, EV_AUX_SWEV0 = 10, EV_AUX_SWEV1 = 11, EV_AUX_NONE = 0x3F, REQ_A = 0, REQ_PDA = 2, REQ_LP = 1,
     CTL_CLK_EN = 1, CTL_RESTART = 8, CTL_SUSPEND = 4, PROGWU1CFG = 0x6004, PORT_ID_AUX_IO = 8, PORT_ID_GPIO = 0, IOCURR_S = 10,
     PULL_DIS = 0x6000, PULL_DWN = 0x2000, PULL_UP = 0x4000, AUXSCECLK_HFDIV2 = 0, PD_SRC_M = 0x100, PD_SRC_LF = 0x100,
     PD_SRC_NO_CLOCK = 0, RTC_4KHZ_EN = 4 \<rparr>"

definition scif_power_up :: Scif where
  "scif_power_up = \<lparr> scifData = scifDriverSetup, aux_ram = replicate 4096 0, mcuwusel = [0x3F3F3F3F, 0x3F3F3F3F], sce_ctl = 0,
     opmodereq = 3, auxsceclk = 0, rtc_ctl = 0, aiodio = replicate 4 \<lparr> ad_psel = replicate 8 0, ad_iopoe = 0, ad_iomode = 0,
       ad_gpiodout = 0, ad_gpiodie = 0 \<rparr>, iocfg = (\<lambda>_. 0), osalInitDone = False, osalCtrlTaskNblLocked = False,
     osalWaitOnNblLocked = False, readyCallback = False, alertCallback = False \<rparr>"

lemma operation_mode_reached_witness:
  "\<exists>rs s' fx. scifSetSceOpmode cc13x2_hw (\<lambda>rs k. last (3 # rs)) 0 scif_power_up = Some (s', fx) \<and>
    s' = scif_power_up\<lparr> opmodereq := 0 \<rparr> \<and> [v. OpModeReq v \<leftarrow> fx] = rs \<and> length rs \<le> 3 \<and>
    last (opmodereq scif_power_up # rs) = 0 \<and>
    (\<forall>i < length rs. mode_step_ok cc13x2_hw ((opmodereq scif_power_up # rs) ! i) (rs ! i))"
  by (rule operation_mode_reached) (auto simp: cc13x2_hw_def scif_power_up_def)

subsection \<open>The buffers of the touch task\<close>

text \<open>
  The output buffers: the Sensor Controller has filled \<open>p\<close> outputs and the program has returned \<open>m\<close> since the
  last reset. The pointers of both walk over the three buffers at \<open>0x180\<close>, 28 bytes each, and flip their lowest bit with
  every round; the program's starts with the bit set.
\<close>

definition out_ptr :: "nat \<Rightarrow> u16" where
  "out_ptr p = 0x180 + 28 * of_nat (p mod 3) + of_nat (p div 3 mod 2)"

definition ram_ring :: "(nat \<Rightarrow> u16) \<Rightarrow> nat \<Rightarrow> nat \<Rightarrow> u8 list \<Rightarrow> bool" where
  "ram_ring D m p ram \<longleftrightarrow> length ram = 4096 \<and> m \<le> p \<and> p \<le> m + 3 \<and>
     le16_at ram 0x17A = out_ptr p \<and> le16_at ram 0x17C = out_ptr (m + 3) \<and> le16_at ram 0x15C AND 0x0100 = 0 \<and>
     (\<forall>i. m \<le> i \<and> i < p \<longrightarrow> le16_at ram (0x180 + 28 * (i mod 3) + 24) = D i)"

lemma out_ptr_mod: "out_ptr p = out_ptr (p mod 6)"
proof -
  have "p mod 6 mod 3 = p mod 3" by (simp add: mod_mod_cancel)
  moreover have "p mod 6 div 3 mod 2 = p div 3 mod 2" using mod_mult2_eq [of p 3 2] by simp
  ultimately show ?thesis by (simp add: out_ptr_def)
qed

lemma out_ptr_eval:
  "out_ptr 0 = 0x180" "out_ptr 1 = 0x19C" "out_ptr (Suc 0) = 0x19C" "out_ptr 2 = 0x1B8" "out_ptr (Suc (Suc 0)) = 0x1B8" "out_ptr 3 = 0x181" "out_ptr 4 = 0x19D" "out_ptr 5 = 0x1B9"
  by (simp_all add: out_ptr_def)

lemma six_cases: obtains "(m::nat) mod 6 = 0" | "m mod 6 = 1" | "m mod 6 = 2" | "m mod 6 = 3" | "m mod 6 = 4" | "m mod 6 = 5"
proof -
  have "m mod 6 < 6" by simp
  then show thesis using that by linarith
qed

lemma out_ptr_shift: "out_ptr (p + d) = out_ptr ((p mod 6 + d) mod 6)"
  by (subst out_ptr_mod) (simp add: mod_add_left_eq)

lemma out_ptr_table:
  obtains "out_ptr m = 0x180" "out_ptr (Suc m) = 0x19C" "out_ptr (m + 2) = 0x1B8" "out_ptr (m + 3) = 0x181"
    | "out_ptr m = 0x19C" "out_ptr (Suc m) = 0x1B8" "out_ptr (m + 2) = 0x181" "out_ptr (m + 3) = 0x19D"
    | "out_ptr m = 0x1B8" "out_ptr (Suc m) = 0x181" "out_ptr (m + 2) = 0x19D" "out_ptr (m + 3) = 0x1B9"
    | "out_ptr m = 0x181" "out_ptr (Suc m) = 0x19D" "out_ptr (m + 2) = 0x1B9" "out_ptr (m + 3) = 0x180"
    | "out_ptr m = 0x19D" "out_ptr (Suc m) = 0x1B9" "out_ptr (m + 2) = 0x180" "out_ptr (m + 3) = 0x19C"
    | "out_ptr m = 0x1B9" "out_ptr (Suc m) = 0x180" "out_ptr (m + 2) = 0x19C" "out_ptr (m + 3) = 0x1B8"
proof -
  note f = out_ptr_mod [of m] out_ptr_shift [of m 1, simplified] out_ptr_shift [of m 2] out_ptr_shift [of m 3]
  show thesis
  proof (rule six_cases [of m])
    assume r: "m mod 6 = 0"
    show thesis by (rule that(1)) (simp_all only: f r, simp_all add: out_ptr_eval)
  next
    assume r: "m mod 6 = 1"
    show thesis by (rule that(2)) (simp_all only: f r, simp_all add: out_ptr_eval)
  next
    assume r: "m mod 6 = 2"
    show thesis by (rule that(3)) (simp_all only: f r, simp_all add: out_ptr_eval)
  next
    assume r: "m mod 6 = 3"
    show thesis by (rule that(4)) (simp_all only: f r, simp_all add: out_ptr_eval)
  next
    assume r: "m mod 6 = 4"
    show thesis by (rule that(5)) (simp_all only: f r, simp_all add: out_ptr_eval)
  next
    assume r: "m mod 6 = 5"
    show thesis by (rule that(6)) (simp_all only: f r, simp_all add: out_ptr_eval)
  qed
qed

lemma upto_three: "m \<le> p \<Longrightarrow> p \<le> m + 3 \<Longrightarrow> p = m \<or> p = Suc m \<or> p = m + 2 \<or> p = m + (3::nat)"
  by linarith

lemma next_out_ptr: "next_buffer 0x180 3 14 (out_ptr p) = out_ptr (Suc p)"
  by (rule six_cases [of p])
    (simp_all add: out_ptr_mod [of p] out_ptr_shift [of p 1, simplified] out_ptr_eval next_buffer_def Let_def)

lemma out_ptr_address: "out_ptr (m + 3) AND NOT 1 = 0x180 + 28 * of_nat (m mod 3)"
proof -
  have "m mod 3 = m mod 6 mod 3" by (simp add: mod_mod_cancel)
  then show ?thesis
    by (rule_tac six_cases [of m]) (simp_all add: out_ptr_shift [of m 3] out_ptr_eval)
qed

lemma table_info:
  "struct_info s 0 2 = Some 0x00E03180" if "pTaskDataStructInfoLut (scifData s) = pScifTaskDataStructInfoLut"
  using that by (simp add: struct_info_def pScifTaskDataStructInfoLut_def Let_def)

lemma out_info: "info_addr 0x00E03180 = 0x180" "info_count 0x00E03180 = 3" "info_size 0x00E03180 = 14"
  by (simp_all add: info_addr_def info_count_def info_size_def)

lemma available:
  assumes "m \<le> p" "p \<le> m + 3" "out_ptr (m + 3) \<noteq> out_ptr p"
  shows "(let a = out_ptr (m + 3) AND NOT 1; c = out_ptr p AND NOT 1; c' = (if c < a then c + 14 * 2 * 3 else c)
     in (uint c' - uint a) div (uint (14::u16) * 2)) = int (p - m)"
  using upto_three [OF assms(1,2)] assms(3)
  by (rule_tac out_ptr_table [of m]) (elim disjE; simp add: Let_def)+

lemma full_ring:
  assumes "m \<le> p" "p \<le> m + 3" "out_ptr (m + 3) = out_ptr p"
  shows "p = m + 3"
  using upto_three [OF assms(1,2)] assms(3)
  by (rule_tac out_ptr_table [of m]) (elim disjE; simp)+

definition touch_setup :: "Scif \<Rightarrow> bool" where
  "touch_setup s \<longleftrightarrow> pTaskDataStructInfoLut (scifData s) = pScifTaskDataStructInfoLut \<and>
     pIntData (scifData s) = 0x158 \<and> pTaskCtrl (scifData s) = 0x166"

lemma avail_count:
  assumes "touch_setup s" "ram_ring D m p (aux_ram s)"
  shows "scifGetTaskIoStructAvailCount 0 SCIF_STRUCT_OUTPUT s = Some (of_nat (p - m))"
proof -
  have w: "ram16 s 0x17A = out_ptr p" "ram16 s 0x17C = out_ptr (m + 3)" "ram16 s 0x15C AND 0x0100 = 0"
    and mp: "m \<le> p" "p \<le> m + 3"
    using assms(2) by (auto simp: ram_ring_def ram16_def)
  have "(ucast (ram16 s 0x15C) :: u32) AND 0x0100 = ucast (ram16 s 0x15C AND 0x0100)"
    by (simp add: unsigned_and_eq)
  then have flag: "(ucast (ram16 s 0x15C) :: u32) AND 0x0100 = 0" by (simp only: w(3) unsigned_0)
  show ?thesis
    using assms(1) flag available [OF mp] full_ring [OF mp]
    by (auto simp: scifGetTaskIoStructAvailCount_def table_info touch_setup_def out_info sce_addr_def mcu_addr_def w
        id_bvTaskIoAlert_def Let_def)
qed

subsection \<open>Taking over the outputs\<close>

lemma le16_at_blit_other [layout]:
  "off + length src \<le> length buf \<Longrightarrow> i + 2 \<le> off \<or> off + length src \<le> i \<Longrightarrow> le16_at (blit buf off src) i = le16_at buf i"
  by (auto simp: le16_at_def nth_blit)

lemma current_output:
  assumes "touch_setup s" "ram_ring D m p (aux_ram s)" "m < p"
  shows "\<exists>a. scifGetTaskStruct 0 SCIF_STRUCT_OUTPUT s = Some a \<and> touch_detected s a = D m"
proof -
  have "mcu_addr s 0x180 = out_ptr (m + 3)" "ram16 s (0x180 + 28 * (m mod 3) + 24) = D m"
    using assms by (auto simp: ram_ring_def mcu_addr_def ram16_def)
  moreover have "unat (0x180 + 28 * of_nat (m mod 3) :: u16) = 0x180 + 28 * (m mod 3)"
  proof -
    have "m mod 3 < 3" by simp
    then have "m mod 3 = 0 \<or> m mod 3 = 1 \<or> m mod 3 = 2" by linarith
    then show ?thesis by auto
  qed
  ultimately show ?thesis
    using assms(1) out_ptr_address [of m]
    by (simp add: scifGetTaskStruct_def touch_setup_def table_info out_info touch_detected_def Let_def)
qed

lemma ram_ring_return:
  assumes "ram_ring D m p ram" "m < p"
  shows "ram_ring D (Suc m) p (blit ram 0x17C (le16_bytes (out_ptr (Suc m + 3))))"
  using assms by (auto simp: ram_ring_def layout)

lemma hand_back:
  assumes "touch_setup s" "ram_ring D m p (aux_ram s)" "m < p"
  shows "\<exists>s'. scifHandoffTaskStruct 0 SCIF_STRUCT_OUTPUT s = Some s' \<and> s' = s\<lparr> aux_ram := aux_ram s' \<rparr> \<and>
    ram_ring D (Suc m) p (aux_ram s')"
proof -
  have "mcu_addr s 0x180 = out_ptr (m + 3)"
    using assms by (auto simp: ram_ring_def mcu_addr_def ram16_def)
  then show ?thesis
    using assms(1) next_out_ptr [of "m + 3"] ram_ring_return [OF assms(2,3)]
    by (simp add: scifHandoffTaskStruct_def touch_setup_def table_info out_info ram16_put_def Let_def)
qed

text \<open>
  The Sensor Controller's part: from \<open>p\<close> to \<open>p'\<close> outputs it only fills free buffers with their detection results and
  moves its own pointer. (It flags an overflow instead of overwriting a buffer that is not returned.)
\<close>

definition sc_fills :: "(nat \<Rightarrow> u16) \<Rightarrow> nat \<Rightarrow> nat \<Rightarrow> (u8 list \<Rightarrow> u8 list) \<Rightarrow> bool" where
  "sc_fills D p p' f \<longleftrightarrow> (\<forall>m ram. ram_ring D m p ram \<longrightarrow> p' \<le> m + 3 \<longrightarrow> ram_ring D m p' (f ram))"

lemma touch_outputs_take:
  assumes "touch_setup s" "ram_ring D m (P k) (aux_ram s)"
    and "\<And>j. j \<le> n \<Longrightarrow> sc_fills D (P (k + j)) (P (Suc (k + j))) (sc (k + j)) \<and> P (Suc (k + j)) \<le> m + j + 3"
    and "\<And>j. j < n \<Longrightarrow> m + j < P (Suc (k + j))" and "P (Suc (k + n)) = m + n"
  shows "\<exists>s'. touch_outputs sc k seen s = Some (seen @ map D [m..<m + n], s') \<and> s' = s\<lparr> aux_ram := aux_ram s' \<rparr> \<and>
    ram_ring D (m + n) (m + n) (aux_ram s')"
  using assms
proof (induction n arbitrary: k m s seen)
  case 0
  define s1 where "s1 = s\<lparr> aux_ram := sc k (aux_ram s) \<rparr>"
  have r: "ram_ring D m m (aux_ram s1)"
    using "0.prems"(2) "0.prems"(3) [of 0] "0.prems"(5) by (auto simp: sc_fills_def s1_def)
  have "touch_setup s1" using "0.prems"(1) by (simp add: touch_setup_def s1_def)
  from avail_count [OF this r] show ?case
    using r by (subst touch_outputs.simps) (simp add: s1_def)
next
  case (Suc n)
  define s1 where "s1 = s\<lparr> aux_ram := sc k (aux_ram s) \<rparr>"
  have r: "ram_ring D m (P (Suc k)) (aux_ram s1)"
    using Suc.prems(2) Suc.prems(3) [of 0] by (auto simp: sc_fills_def s1_def)
  have less: "m < P (Suc k)" using Suc.prems(4) [of 0] by simp
  have ts: "touch_setup s1" using Suc.prems(1) by (simp add: touch_setup_def s1_def)
  have bound: "P (Suc k) \<le> m + 3" using r by (simp add: ram_ring_def)
  obtain a where a: "scifGetTaskStruct 0 SCIF_STRUCT_OUTPUT s1 = Some a" "touch_detected s1 a = D m"
    using current_output [OF ts r less] by blast
  obtain s2 where h: "scifHandoffTaskStruct 0 SCIF_STRUCT_OUTPUT s1 = Some s2" "s2 = s1\<lparr> aux_ram := aux_ram s2 \<rparr>"
    "ram_ring D (Suc m) (P (Suc k)) (aux_ram s2)"
    using hand_back [OF ts r less] by blast
  have nz: "(of_nat (P (Suc k) - m) :: u32) \<noteq> 0"
  proof -
    have "P (Suc k) - m = 1 \<or> P (Suc k) - m = 2 \<or> P (Suc k) - m = 3" using less bound by linarith
    then show ?thesis by auto
  qed
  have "touch_setup s2" using ts by (subst h(2)) (simp add: touch_setup_def)
  then obtain s' where s': "touch_outputs sc (Suc k) (seen @ [D m]) s2 = Some ((seen @ [D m]) @ map D [Suc m..<Suc m + n], s')"
    "s' = s2\<lparr> aux_ram := aux_ram s' \<rparr>" "ram_ring D (Suc m + n) (Suc m + n) (aux_ram s')"
    using Suc.IH [of s2 "Suc m" "Suc k" "seen @ [D m]"] h(3) Suc.prems(3) [of "Suc j" for j] Suc.prems(4) [of "Suc j" for j] Suc.prems(5)
    by auto
  have "touch_outputs sc k seen s = touch_outputs sc (Suc k) (seen @ [D m]) s2"
    using avail_count [OF ts r] nz a h(1) by (subst touch_outputs.simps) (simp add: s1_def [symmetric])
  moreover have "s' = s\<lparr> aux_ram := aux_ram s' \<rparr>"
    by (subst s'(2), subst h(2)) (simp add: s1_def)
  moreover have "[m..<m + Suc n] = m # [Suc m..<Suc m + n]" by (simp add: upt_conv_Cons)
  ultimately show ?case using s' by auto
qed

lemma ring_after_ack:
  "touch_setup s \<Longrightarrow> ram_ring D m p (aux_ram s) \<Longrightarrow>
     ram_ring D m p (aux_ram (fst (scifAckAlertEvents s))) \<and> scifGetAlertEvents (fst (scifAckAlertEvents s)) = 0"
  by (auto simp: scifAckAlertEvents_def ram_ring_def touch_setup_def ram16_put_def ram16_def scifGetAlertEvents_def
      tc_bvTaskIoAlert_def layout)

text \<open>
  C13. The touch callback takes over every output of the Sensor Controller once and in order, also those that are
  filled while it runs: it returns each buffer, leaves the result of the last one for the touch loop, clears the
  alert and acknowledges it. It returns as soon as it has caught up, if the alert flag can be cleared at all.
\<close>

theorem touch_callback_takes_every_output:
  assumes "touch_setup s" "ram_ring D m (P 0) (aux_ram s)"
    and "\<And>j. j \<le> n \<Longrightarrow> sc_fills D (P j) (P (Suc j)) (sc j) \<and> P (Suc j) \<le> m + j + 3"
    and "\<And>j. j < n \<Longrightarrow> m + j < P (Suc j)" and "P (Suc n) = m + n" and "\<not> flag i"
  shows "\<exists>k s'. touch_alert flag sc li s =
      Some (scTaskAlertCallback (map D [m..<m + n]) li, s', replicate (Suc k) ClearAlert @ [HwiClear TaskAlert, HwiEnable TaskAlert, SwWuTrig 2]) \<and>
    ram_ring D (m + n) (m + n) (aux_ram s') \<and> scifGetAlertEvents s' = 0 \<and> s' = s\<lparr> aux_ram := aux_ram s' \<rparr>"
proof -
  obtain s1 where o: "touch_outputs sc 0 [] s = Some (map D [m..<m + n], s1)" "s1 = s\<lparr> aux_ram := aux_ram s1 \<rparr>"
    "ram_ring D (m + n) (m + n) (aux_ram s1)"
    using touch_outputs_take [of s D m P 0 n sc "[]"] assms by auto
  obtain k where k: "wait_clear flag 0 = Some (Suc k)"
    using wait_clear_ends [of flag 0 i] wait_clear_SomeD [of flag 0] assms(6) by (metis add_0 gr0_implies_Suc)
  have ts: "touch_setup s1" using assms(1) by (subst o(2)) (simp add: touch_setup_def)
  have upd: "fst (scifAckAlertEvents s1) = s\<lparr> aux_ram := aux_ram (fst (scifAckAlertEvents s1)) \<rparr>"
    by (subst o(2), subst (2) o(2)) (simp add: scifAckAlertEvents_def ram16_put_def)
  have "touch_alert flag sc li s = Some (scTaskAlertCallback (map D [m..<m + n]) li, fst (scifAckAlertEvents s1),
     replicate (Suc k) ClearAlert @ [HwiClear TaskAlert, HwiEnable TaskAlert, SwWuTrig 2])"
    using k o(1) by (simp add: touch_alert_def scifClearAlertIntSource_def scifAckAlertEvents_def)
  then show ?thesis using ring_after_ack [OF ts o(3)] upd by blast
qed

text \<open>What the touch loop then sees is the last result, or the old one if there was none.\<close>

lemma touch_alert_state: "gTouchState (scTaskAlertCallback ds li) = last (gTouchState li # ds)"
  by (induction ds arbitrary: li) (simp_all add: scTaskAlertCallback_def)

text \<open>The image that start-up loads holds an empty ring.\<close>

lemma image_ring: "ram_ring D 0 0 (blit (replicate 4096 0) 0 aux_image_bytes)"
proof -
  have w: "le16_at (blit (replicate 4096 0) 0 aux_image_bytes) (2 * i) = auxRamImage ! i" if "i < 821" for i
    using that image_word [of i] by (simp add: le16_at_def nth_blit length_aux_image)
  show ?thesis
    using w [of 189] w [of 190] w [of 174]
    by (simp add: ram_ring_def length_aux_image image_pointers out_ptr_eval)
qed

definition sc_two_outputs :: "nat \<Rightarrow> u8 list \<Rightarrow> u8 list" where
  "sc_two_outputs k ram = (if k = 0 then
     blit (blit (blit ram 0x198 (le16_bytes 0)) 0x1B4 (le16_bytes 1)) 0x17A (le16_bytes (out_ptr 2)) else ram)"

lemma touch_callback_takes_every_output_witness:
  "\<forall>r. \<exists>k s'. touch_alert (\<lambda>j. j = 0) sc_two_outputs (light_start r)
      (scif_power_up\<lparr> aux_ram := blit (replicate 4096 0) 0 aux_image_bytes \<rparr>) =
      Some (scTaskAlertCallback (map (\<lambda>i. if i = 1 then 1 else 0) [0..<0 + 2]) (light_start r), s',
        replicate (Suc k) ClearAlert @ [HwiClear TaskAlert, HwiEnable TaskAlert, SwWuTrig 2]) \<and>
    ram_ring (\<lambda>i. if i = 1 then 1 else 0) (0 + 2) (0 + 2) (aux_ram s') \<and> scifGetAlertEvents s' = 0 \<and>
    s' = scif_power_up\<lparr> aux_ram := blit (replicate 4096 0) 0 aux_image_bytes, aux_ram := aux_ram s' \<rparr>"
proof (rule allI, rule touch_callback_takes_every_output [where P = "\<lambda>k. if k = 0 then 0 else 2" and i = 1])
  show "touch_setup (scif_power_up\<lparr> aux_ram := blit (replicate 4096 0) 0 aux_image_bytes \<rparr>)"
    by (simp add: touch_setup_def scif_power_up_def scifDriverSetup_def)
next
  fix j :: nat
  show "sc_fills (\<lambda>i. if i = 1 then 1 else 0) (if j = 0 then 0 else 2) (if Suc j = 0 then 0 else 2) (sc_two_outputs j) \<and>
    (if Suc j = 0 then 0 else 2) \<le> 0 + j + 3"
  proof (cases "j = 0")
    case True
    have "ram_ring (\<lambda>i. if i = 1 then 1 else 0) m 2 (sc_two_outputs 0 ram)"
      if "ram_ring (\<lambda>i. if i = 1 then 1 else 0) m 0 ram" for m ram
    proof -
      have "m = 0" using that by (simp add: ram_ring_def)
      then show ?thesis using that by (auto simp: ram_ring_def sc_two_outputs_def layout less_2_cases_iff)
    qed
    then show ?thesis using True by (simp add: sc_fills_def)
  qed (simp add: sc_fills_def sc_two_outputs_def)
qed (simp_all add: image_ring)

subsection \<open>Starting the task\<close>

definition task_dirty :: "nat \<Rightarrow> Scif \<Rightarrow> bool" where
  "task_dirty t s \<longleftrightarrow> bit (bvDirtyTasks (scifData s)) t"

lemma scifData_ram [simp]: "scifData (ram16_put a w s) = scifData s"
  "scifData (scifSetMcuwusel hw i v s) = scifData s"
  "scifData (scifSetTaskStartupDelay t w s) = scifData s"
  by (simp_all add: ram16_put_def scifSetMcuwusel_def scifSetTaskStartupDelay_def Let_def)

lemma reset_structs_data: "reset_structs t ns s = Some s' \<Longrightarrow> scifData s' = scifData s"
proof (induction ns arbitrary: s)
  case (Cons n ns)
  then show ?case
    by (fastforce simp: reset_struct_def Let_def split: option.splits if_splits prod.splits bind_splits)
qed simp

lemma reset_tasks_data: "reset_tasks ts bv s = Some s' \<Longrightarrow> scifData s' = scifData s"
  by (induction ts arbitrary: s) (auto dest!: reset_structs_data split: bind_splits)

text \<open>
  The calls that may follow the start of a task, with everything the Sensor Controller may write meanwhile;
  resets of other tasks only.
\<close>

inductive scif_move :: "ScifHw \<Rightarrow> nat \<Rightarrow> Scif \<Rightarrow> Scif \<Rightarrow> bool" for hw t where
  "scifCtrlTasksNbl ids req ready flag s = Some (r, s', fx) \<Longrightarrow> scif_move hw t s s'"
| "scifResetTaskStructs ids structs s = Some s' \<Longrightarrow> \<not> bit ids t \<Longrightarrow> scif_move hw t s s'"
| "scif_move hw t s (s\<lparr> aux_ram := ram \<rparr>)"
| "scif_move hw t s (s\<lparr> osalCtrlTaskNblLocked := l \<rparr>)"
| "scif_move hw t s (scifSetWakeOnAlertInt hw enable s)"
| "scifWaitOnNbl hw tp ready0 ready pended timeoutUs s = (r, s', fx) \<Longrightarrow> scif_move hw t s s'"
| "scifSwTriggerEventHandlerCode hw taskId i s = (r, s', fx) \<Longrightarrow> scif_move hw t s s'"
| "touch_alert flag sc li s = Some (li', s', fx) \<Longrightarrow> scif_move hw t s s'"

lemma ctrl_cases:
  assumes "scifCtrlTasksNbl ids req ready flag s = Some (r, s', fx)"
  shows "r \<noteq> SCIF_SUCCESS \<and> s' = s \<and> fx = [] \<or>
    r = SCIF_SUCCESS \<and> \<not> osalCtrlTaskNblLocked s \<and> ready \<and>
      (req AND 1 \<noteq> 0 \<longrightarrow> ucast (scifGetActiveTaskIds s OR bvDirtyTasks (scifData s)) AND ids = 0) \<and>
      s' = osalUnlockCtrlTaskNbl (put_request ids req (s\<lparr> osalCtrlTaskNblLocked := True \<rparr>)) \<and>
      fx = [ClearReady, HwiClear CtrlReady, HwiEnable CtrlReady, SwWuTrig 0]"
proof -
  have "s\<lparr> osalCtrlTaskNblLocked := False \<rparr> = s" if "\<not> osalCtrlTaskNblLocked s" using that by simp
  then show ?thesis
    using assms
    by (auto simp: scifCtrlTasksNbl_def osalLockCtrlTaskNbl_def osalUnlockCtrlTaskNbl_def scifGetActiveTaskIds_def ram16_def
        split: if_splits option.splits)
qed

lemma put_request_dirty:
  "bvDirtyTasks (scifData (put_request ids req s)) =
     (if req AND 1 \<noteq> 0 then bvDirtyTasks (scifData s) OR ucast ids else bvDirtyTasks (scifData s))"
  by (simp add: put_request_def Let_def)

lemma put_request_ctrl: "pTaskCtrl (scifData (put_request ids req s)) = pTaskCtrl (scifData s)"
  by (simp add: put_request_def Let_def)

lemma ctrl_keeps_dirty:
  "scifCtrlTasksNbl ids req ready flag s = Some (r, s', fx) \<Longrightarrow> task_dirty t s \<Longrightarrow> task_dirty t s'"
  using ctrl_cases [of ids req ready flag s r s' fx]
  by (auto simp: task_dirty_def osalUnlockCtrlTaskNbl_def put_request_dirty bit_simps)

lemma handoff_data: "scifHandoffTaskStruct t typ s = Some s' \<Longrightarrow> scifData s' = scifData s"
  by (auto simp: scifHandoffTaskStruct_def Let_def split: option.splits if_splits)

lemma touch_outputs_data: "touch_outputs sc k seen s = Some (seen', s') \<Longrightarrow> scifData s' = scifData s"
proof -
  have "touch_outputs sc k seen s = Some r \<Longrightarrow> scifData (snd r) = scifData s" for r
  proof (erule touch_outputs.raw_induct [where P = "\<lambda>sc k seen s r. scifData (snd r) = scifData s", rotated])
    fix f :: "(nat \<Rightarrow> u8 list \<Rightarrow> u8 list) \<Rightarrow> nat \<Rightarrow> u16 list \<Rightarrow> Scif \<Rightarrow> (u16 list \<times> Scif) option" and sc k seen s r
    assume IH: "\<And>sc k seen s y. f sc k seen s = Some y \<Longrightarrow> scifData (snd y) = scifData s"
      and eq: "(let s1 = s\<lparr> aux_ram := sc k (aux_ram s) \<rparr> in
        Option.bind (scifGetTaskIoStructAvailCount 0 SCIF_STRUCT_OUTPUT s1) (\<lambda>n.
          if n = 0 then Some (seen, s1)
          else Option.bind (scifGetTaskStruct 0 SCIF_STRUCT_OUTPUT s1) (\<lambda>pOut.
               Option.bind (scifHandoffTaskStruct 0 SCIF_STRUCT_OUTPUT s1) (\<lambda>s2.
                 f sc (Suc k) (seen @ [touch_detected s1 pOut]) s2)))) = Some r"
    then show "scifData (snd r) = scifData s"
      by (auto simp: Let_def dest!: IH handoff_data split: bind_splits if_splits)
  qed
  then show "touch_outputs sc k seen s = Some (seen', s') \<Longrightarrow> scifData s' = scifData s" by fastforce
qed

lemma move_keeps_dirty: "scif_move hw t s s' \<Longrightarrow> t < 16 \<Longrightarrow> task_dirty t s \<Longrightarrow> task_dirty t s'"
proof (induction rule: scif_move.induct)
  case 1
  then show ?case by (auto dest: ctrl_keeps_dirty)
next
  case (2 ids structs s s')
  then show ?case
    by (auto simp: scifResetTaskStructs_def Let_def task_dirty_def bit_simps dest!: reset_tasks_data)
next
  case (8 flag sc li s li' s' fx)
  then show ?case
    by (auto simp: touch_alert_def scifAckAlertEvents_def task_dirty_def dest!: touch_outputs_data split: bind_splits)
qed (auto simp: task_dirty_def scifSetWakeOnAlertInt_def scifWaitOnNbl_def osalWaitOnCtrlReady_def
      scifSwTriggerEventHandlerCode_def Let_def split: if_splits)

lemma moves_keep_dirty: "(scif_move hw t)\<^sup>*\<^sup>* s s' \<Longrightarrow> t < 16 \<Longrightarrow> task_dirty t s \<Longrightarrow> task_dirty t s'"
  by (induction rule: rtranclp_induct) (auto dest: move_keeps_dirty)

lemma start_refused:
  assumes "scifCtrlTasksNbl ids req ready flag s = Some (r, s', fx)" "req AND 1 \<noteq> 0" "task_dirty t s" "t < 16" "bit ids t"
  shows "r \<noteq> SCIF_SUCCESS \<and> s' = s \<and> fx = [] \<and> (\<not> osalCtrlTaskNblLocked s \<longrightarrow> r = SCIF_ILLEGAL_OPERATION)"
proof -
  let ?v = "ucast (scifGetActiveTaskIds s OR bvDirtyTasks (scifData s)) AND ids"
  have "bit ?v t" using assms(3-5) by (simp add: task_dirty_def bit_simps)
  then have v: "?v \<noteq> 0" by auto
  show ?thesis
  proof (cases "osalCtrlTaskNblLocked s")
    case True
    then show ?thesis using assms(1) by (simp add: scifCtrlTasksNbl_def osalLockCtrlTaskNbl_def)
  next
    case False
    then have "s\<lparr> osalCtrlTaskNblLocked := False \<rparr> = s" by simp
    then show ?thesis
      using assms(1,2) v False
      by (auto simp: scifCtrlTasksNbl_def osalLockCtrlTaskNbl_def osalUnlockCtrlTaskNbl_def scifGetActiveTaskIds_def ram16_def)
  qed
qed

lemma start_marks_dirty:
  "scifStartTasksNbl ids ready flag s = Some (SCIF_SUCCESS, s', fx) \<Longrightarrow> bit ids t \<Longrightarrow> t < 16 \<Longrightarrow> task_dirty t s'"
  using ctrl_cases [of ids 1 ready flag s SCIF_SUCCESS s' fx]
  by (auto simp: scifStartTasksNbl_def task_dirty_def osalUnlockCtrlTaskNbl_def put_request_dirty bit_simps)

text \<open>
  Once the driver has accepted the start of a task, it refuses every further start and every single execution of
  it, without any effect, until the structures of this task are reset: whatever else is called, whatever the Sensor
  Controller writes to the shared memory, and even if the task has stopped by itself in between.
\<close>

theorem started_task_needs_reset:
  assumes "scifStartTasksNbl ids ready flag s = Some (SCIF_SUCCESS, s1, fx)" "bit ids t" "t < 16"
    and "(scif_move hw t)\<^sup>*\<^sup>* s1 s2" and "bit ids' t"
    and "scifStartTasksNbl ids' ready' flag' s2 = Some (r, s3, fx') \<or>
      scifExecuteTasksOnceNbl ids' ready' flag' s2 = Some (r, s3, fx')"
  shows "r \<noteq> SCIF_SUCCESS \<and> s3 = s2 \<and> fx' = [] \<and> (\<not> osalCtrlTaskNblLocked s2 \<longrightarrow> r = SCIF_ILLEGAL_OPERATION)"
proof -
  have d: "task_dirty t s2"
    using start_marks_dirty [OF assms(1-3)] moves_keep_dirty [OF assms(4,3)] by blast
  have "(1 :: u32) AND 1 \<noteq> 0" "(7 :: u32) AND 1 \<noteq> 0" by simp_all
  then show ?thesis
    using assms(6) start_refused [of ids' 1 ready' flag' s2 r s3 fx' t] start_refused [of ids' 7 ready' flag' s2 r s3 fx' t]
      d assms(3,5)
    by (auto simp: scifStartTasksNbl_def scifExecuteTasksOnceNbl_def)
qed

text \<open>The program starts the touch task; a second start is refused, even after its memory was cleared.\<close>

definition touch_started :: Scif where
  "touch_started = osalUnlockCtrlTaskNbl (put_request 1 1 (scif_power_up\<lparr> osalCtrlTaskNblLocked := True \<rparr>))"

lemma first_start: "scifStartTasksNbl 1 True (\<lambda>_. False) scif_power_up =
   Some (SCIF_SUCCESS, touch_started, [ClearReady, HwiClear CtrlReady, HwiEnable CtrlReady, SwWuTrig 0])"
  by (simp add: scifStartTasksNbl_def scifCtrlTasksNbl_def osalLockCtrlTaskNbl_def scif_power_up_def scifDriverSetup_def
      scifGetActiveTaskIds_def ram16_def le16_at_def tc_bvActiveTasks_def wait_clear.simps touch_started_def)

lemma second_start: "scifStartTasksNbl 1 True (\<lambda>_. False) (touch_started\<lparr> aux_ram := replicate 4096 0 \<rparr>) =
   Some (SCIF_ILLEGAL_OPERATION, touch_started\<lparr> aux_ram := replicate 4096 0 \<rparr>, [])"
  by (simp add: scifStartTasksNbl_def scifCtrlTasksNbl_def osalLockCtrlTaskNbl_def osalUnlockCtrlTaskNbl_def
      touch_started_def put_request_dirty scif_power_up_def scifDriverSetup_def scifGetActiveTaskIds_def ram16_def le16_at_def
      tc_bvActiveTasks_def put_request_ctrl)

lemma started_task_needs_reset_witness:
  "\<exists>r s3 fx. scifStartTasksNbl 1 True (\<lambda>_. False) (touch_started\<lparr> aux_ram := replicate 4096 0 \<rparr>) = Some (r, s3, fx) \<and>
     r \<noteq> SCIF_SUCCESS \<and> s3 = touch_started\<lparr> aux_ram := replicate 4096 0 \<rparr> \<and> fx = [] \<and> r = SCIF_ILLEGAL_OPERATION"
proof -
  let ?s2 = "touch_started\<lparr> aux_ram := replicate 4096 0 \<rparr>"
  have "(scif_move cc13x2_hw 0)\<^sup>*\<^sup>* touch_started ?s2"
    by (rule r_into_rtranclp) (rule scif_move.intros(3))
  moreover have "bit (1 :: u32) 0" "(0 :: nat) < 16" by simp_all
  moreover have "\<not> osalCtrlTaskNblLocked ?s2" by (simp add: touch_started_def osalUnlockCtrlTaskNbl_def)
  ultimately show ?thesis
    using started_task_needs_reset [OF first_start, of 0 cc13x2_hw ?s2 1 True "\<lambda>_. False"] second_start by blast
qed

text \<open>
  Waiting for the driver: it succeeds exactly if the event is seen or the semaphore is released in time, leaves the
  lock as it was, and a second waiter is refused.
\<close>

lemma wait_result:
  assumes "scifWaitOnNbl hw tp ready0 ready pended t s = (r, s', fx)"
  shows "r = SCIF_SUCCESS \<longleftrightarrow> ready0 \<or> ready \<or> (t \<noteq> 0 \<and> \<not> osalWaitOnNblLocked s \<and> pended)"
    "r = SCIF_ILLEGAL_OPERATION \<longleftrightarrow> \<not> ready0 \<and> \<not> ready \<and> t \<noteq> 0 \<and> osalWaitOnNblLocked s"
    "osalWaitOnNblLocked s' = osalWaitOnNblLocked s" "aux_ram s' = aux_ram s"
  using assms
  by (auto simp: scifWaitOnNbl_def osalWaitOnCtrlReady_def scifSetMcuwusel_def Let_def split: if_splits)

subsection \<open>Start-up and reset\<close>

text \<open>Pins: the settings of one pin do not touch the others of its block.\<close>

lemma set_field_other: "\<not> bit (push_bit sh m OR push_bit sh v) n \<Longrightarrow> bit (set_field m sh v r) n = bit r n"
  by (auto simp: set_field_def bit_simps dest: bit_imp_le_length)

lemma init_io_total:
  assumes "scifData s = d" "pAuxIoIndexToMcuIocfgOffsetLut d = scifIocfgOffsetLut" "length (aiodio s) = 4" "i < 32"
  shows "\<exists>s'. scifInitIo hw i mode pull out s = Some s' \<and> scifData s' = d \<and> length (aiodio s') = 4 \<and>
    aux_ram s' = aux_ram s \<and> sce_ctl s' = sce_ctl s"
proof -
  have "unat i < 32" using assms(4) by (simp add: word_less_nat_alt)
  moreover then have "unat (i div 8) < 4" by (simp add: unat_div)
  ultimately show ?thesis
    using assms(1-3) by (simp add: scifInitIo_def scifReinitIo_def scifIocfgOffsetLut_def Let_def)
qed

lemma set_opmode_total:
  assumes "REQ_PDA hw AND REQ_LP hw = 0" "\<And>rs k. \<exists>j \<ge> k. ack rs j = last (opmodereq s # rs)"
  shows "\<exists>fx. scifSetSceOpmode hw ack new s = Some (s\<lparr> opmodereq := new \<rparr>, fx)"
proof -
  obtain rs where "opmode_loop hw ack new 1 [] (opmodereq s) (ack [] 0) = Some rs" "last (opmodereq s # rs) = new"
    using opmode_ends [OF assms(1), of ack "opmodereq s" "opmodereq s" "[]" new 1 "ack [] 0"] assms(2) by auto
  then show ?thesis by (simp add: scifSetSceOpmode_def Let_def)
qed

text \<open>Start-up succeeds once, with an empty ring; as long as the Sensor Controller runs, another one is refused.\<close>

theorem start_up_loads_empty_ring:
  assumes "sce_ctl s AND CTL_CLK_EN hw = 0" "CTL_CLK_EN hw \<noteq> 0" "length (aux_ram s) = 4096" "length (aiodio s) = 4"
    and "REQ_PDA hw AND REQ_LP hw = 0" "\<And>rs k. \<exists>j \<ge> k. ack rs j = last (opmodereq s # rs)"
  shows "\<exists>s' fx. scifInit hw ack scifDriverSetup s = Some (SCIF_SUCCESS, s', fx) \<and> scifData s' = scifDriverSetup \<and>
    touch_setup s' \<and> ram_ring D 0 0 (aux_ram s') \<and> scifInit hw ack' setup' s' = Some (SCIF_ILLEGAL_OPERATION, s', [])"
proof -
  define s1 where "s1 = s\<lparr> scifData := scifDriverSetup, aux_ram := blit (aux_ram s) 0 aux_image_bytes, sce_ctl := 0,
    auxsceclk := AUXSCECLK_HFDIV2 hw \<rparr>"
  have "\<exists>fx. scifSetSceOpmode hw ack (REQ_A hw) s1 = Some (s1\<lparr> opmodereq := REQ_A hw \<rparr>, fx)"
  proof (rule set_opmode_total [OF assms(5)])
    fix rs k
    show "\<exists>j \<ge> k. ack rs j = last (opmodereq s1 # rs)" using assms(6) [of k rs] by (simp add: s1_def)
  qed
  then obtain fx where o: "scifSetSceOpmode hw ack (REQ_A hw) s1 = Some (s1\<lparr> opmodereq := REQ_A hw \<rparr>, fx)" by blast
  have lut: "pAuxIoIndexToMcuIocfgOffsetLut scifDriverSetup = scifIocfgOffsetLut" by (simp add: scifDriverSetup_def)
  have img: "pAuxRamImage scifDriverSetup = aux_image_bytes" by (simp add: scifDriverSetup_def)
  let ?s2 = "s1\<lparr> opmodereq := REQ_A hw \<rparr>"
  obtain a where a: "scifInitIo hw 22 AUXIOMODE_OPEN_DRAIN (-1) 1 ?s2 = Some a" "scifData a = scifDriverSetup"
    "length (aiodio a) = 4" "aux_ram a = aux_ram s1" "sce_ctl a = 0"
    using init_io_total [OF _ lut, where s = ?s2 and i = 22 and hw = hw and mode = AUXIOMODE_OPEN_DRAIN and pull = "-1" and out = 1] assms(4) by (auto simp: s1_def)
  obtain b where b: "scifInitIo hw 20 AUXIOMODE_OPEN_DRAIN (-1) 1 a = Some b" "scifData b = scifDriverSetup"
    "length (aiodio b) = 4" "aux_ram b = aux_ram s1" "sce_ctl b = 0"
    using init_io_total [OF a(2) lut a(3), where i = 20 and hw = hw and mode = AUXIOMODE_OPEN_DRAIN and pull = "-1" and out = 1] a(4,5) by auto
  obtain c where c: "scifInitIo hw 25 AUXIOMODE_OPEN_SOURCE (-1) 0 b = Some c" "scifData c = scifDriverSetup"
    "aux_ram c = aux_ram s1" "sce_ctl c = 0"
    using init_io_total [OF b(2) lut b(3), where i = 25 and hw = hw and mode = AUXIOMODE_OPEN_SOURCE and pull = "-1" and out = 0] b(4,5) by auto
  have w: "le16_at (aux_ram s1) (2 * i) = auxRamImage ! i" if "i < 821" for i
    using that image_word [of i] assms(3) by (simp add: s1_def le16_at_def nth_blit length_aux_image)
  have ring: "ram_ring D 0 0 (aux_ram s1)"
    using w [of 189] w [of 190] w [of 174] assms(3)
    by (simp add: ram_ring_def length_aux_image image_pointers out_ptr_eval s1_def)
  define d where "d = scifSetMcuwusel hw OSAL_TASK_ALERT_MCUWUSEL_WU_EV_INDEX (EV_AUX_SWEV1 hw)
    (c\<lparr> auxsceclk := (auxsceclk c AND NOT (PD_SRC_M hw)) OR PD_SRC_LF hw, rtc_ctl := rtc_ctl c OR RTC_4KHZ_EN hw \<rparr>)"
  have d: "scifData d = scifDriverSetup" "aux_ram d = aux_ram s1" "sce_ctl d = 0"
    using c by (simp_all add: d_def scifSetMcuwusel_def Let_def)
  have "\<exists>fx. scifInit hw ack scifDriverSetup s = Some (SCIF_SUCCESS, d\<lparr> sce_ctl := sce_ctl d OR CTL_CLK_EN hw \<rparr>, fx)"
    using assms(1,3) o a(1) b(1) c(1)
    by (simp add: scifInit_def img scifDriverSetupInit_def Let_def s1_def [symmetric] d_def
        length_aux_image)
  moreover define e where "e = d\<lparr> sce_ctl := sce_ctl d OR CTL_CLK_EN hw \<rparr>"
  moreover have "scifData e = scifDriverSetup" "ram_ring D 0 0 (aux_ram e)" using d ring by (simp_all add: e_def)
  moreover have "touch_setup e" by (simp add: touch_setup_def e_def d scifDriverSetup_def)
  moreover have "scifInit hw ack' setup' e = Some (SCIF_ILLEGAL_OPERATION, e, [])"
    using assms(2) by (simp add: scifInit_def e_def d)
  ultimately show ?thesis by blast
qed

text \<open>A reset of the touch task with its outputs: the ring is empty, the task may be started again.\<close>

lemma bits_up_eval: "bits_up 1 = [0]" "bits_up 12 = [2, 3]"
  by (simp_all add: bits_up_filter upt_conv_Cons)

lemma reset_ranges: "struct_range 0x00E03180 = (0x17A, 90)" "struct_range 0x033011D4 = (0x1D4, 102)"
  by (simp_all add: struct_range_def info_addr_def info_count_def info_size_def Let_def)

theorem reset_empties_ring:
  assumes "touch_setup s" "pTaskExecuteSchedule (scifData s) = 0x14C" "pAuxRamImage (scifData s) = aux_image_bytes"
    and "length (aux_ram s) = 4096" "le16_at (aux_ram s) 0x15C AND 0x0100 = 0"
  shows "\<exists>s'. scifResetTaskStructs 1 4 s = Some s' \<and> ram_ring D 0 0 (aux_ram s') \<and> \<not> task_dirty 0 s' \<and>
    le16_at (aux_ram s') 0x14C = 0 \<and> take 102 (drop 0x1D4 (aux_ram s')) = take 102 (drop 0x1D4 aux_image_bytes) \<and>
    (\<forall>i < 4096. (i < 0x14C \<or> 0x14E \<le> i) \<longrightarrow> (i < 0x17A \<or> 0x1D4 \<le> i) \<longrightarrow> (i < 0x1D4 \<or> 0x23A \<le> i) \<longrightarrow>
       aux_ram s' ! i = aux_ram s ! i)"
proof -
  define r1 where "r1 = blit (aux_ram s) 0x14C (le16_bytes 0)"
  define r2 where "r2 = blit r1 0x17A (take 90 (drop 0x17A aux_image_bytes))"
  define r3 where "r3 = blit r2 0x1D4 (take 102 (drop 0x1D4 aux_image_bytes))"
  have len: "length r1 = 4096" "length r2 = 4096" "length r3 = 4096"
    using assms(4) by (simp_all add: r1_def r2_def r3_def length_aux_image)
  have info: "struct_info t 0 2 = Some 0x00E03180" "struct_info t 0 3 = Some 0x033011D4"
    if "pTaskDataStructInfoLut (scifData t) = pScifTaskDataStructInfoLut" for t
    using that by (simp_all add: struct_info_def pScifTaskDataStructInfoLut_def Let_def)
  have "scifResetTaskStructs 1 4 s =
      Some (s\<lparr> aux_ram := r3, scifData := (scifData s)\<lparr> bvDirtyTasks := bvDirtyTasks (scifData s) AND ucast (NOT 1 :: u32) \<rparr> \<rparr>)"
    using assms len
    by (simp add: scifResetTaskStructs_def Let_def bits_up_eval scifSetTaskStartupDelay_def ram16_put_def info touch_setup_def
        reset_struct_def reset_ranges length_aux_image r1_def [symmetric] r2_def [symmetric] r3_def [symmetric])
  moreover have w: "le16_at (take 90 (drop 0x17A aux_image_bytes)) i = le16_at aux_image_bytes (0x17A + i)" if "i < 89" for i
    using that by (simp add: le16_at_def length_aux_image)
  have "ram_ring D 0 0 r3"
  proof -
    have "le16_at r3 0x17A = le16_at r2 0x17A" "le16_at r3 0x17C = le16_at r2 0x17C" "le16_at r3 0x15C = le16_at r2 0x15C"
      using len by (simp_all add: r3_def layout length_aux_image)
    moreover have "le16_at r2 0x15C = le16_at (aux_ram s) 0x15C"
      using len assms(4) by (simp add: r2_def r1_def layout length_aux_image)
    moreover have "le16_at r2 0x17A = 0x180" "le16_at r2 0x17C = 0x181"
      using len image_word [of 189] image_word [of 190]
      by (simp_all add: r2_def le16_at_def nth_blit length_aux_image image_pointers)
    ultimately show ?thesis using assms(5) len by (simp add: ram_ring_def out_ptr_eval)
  qed
  moreover have "le16_at r3 0x14C = 0"
    using len assms(4) by (simp add: r3_def r2_def r1_def layout length_aux_image)
  moreover have "take 102 (drop 0x1D4 r3) = take 102 (drop 0x1D4 aux_image_bytes)"
    using len by (simp add: r3_def blit_def length_aux_image)
  moreover have "\<forall>i < 4096. (i < 0x14C \<or> 0x14E \<le> i) \<longrightarrow> (i < 0x17A \<or> 0x1D4 \<le> i) \<longrightarrow> (i < 0x1D4 \<or> 0x23A \<le> i) \<longrightarrow>
       r3 ! i = aux_ram s ! i"
    using len assms(4) by (auto simp: r3_def r2_def r1_def nth_blit length_aux_image)
  moreover have "\<not> bit (bvDirtyTasks (scifData s) AND ucast (NOT 1 :: u32)) 0" by (simp add: bit_simps)
  ultimately show ?thesis by (simp add: task_dirty_def)
qed

end
