(* ===== verification/FlashPins.thy ===== *)
theory FlashPins
  imports Prelude
begin

text \<open>
  The board hook of the CC1310 programs (\<open>CC1310_LAUNCHXL_fxns.c\<close>, the same file in three of them): it puts the serial
  flash of the board to sleep by clocking a command out on pins. The pins and the delays are the effects, and
  \<open>flash_reads\<close> is how a serial flash understands them: while its select pin is low it takes the data pin at
  each rising edge of the clock.
\<close>

datatype flash_pin = FlashCS | FlashCLK | FlashMOSI | FlashMISO

datatype pin_effect = OpenPins "(flash_pin \<times> bool option) list" | SetPin flash_pin bool | Delay nat | ClosePins

text \<open>\<open>OpenPins\<close> makes the listed pins outputs at a level, or inputs (\<open>None\<close>).\<close>

fun ext_flash_bits :: "nat \<Rightarrow> u8 \<Rightarrow> pin_effect list" where
  "ext_flash_bits 0 byte = []"
| "ext_flash_bits (Suc n) byte =
     [SetPin FlashCLK False, SetPin FlashMOSI (drop_bit (7 - (7 - n)) byte AND 1 \<noteq> 0), SetPin FlashCLK True, Delay 8] @
     ext_flash_bits n byte"

definition CC1310_LAUNCHXL_sendExtFlashByte :: "u8 \<Rightarrow> pin_effect list" where
  "CC1310_LAUNCHXL_sendExtFlashByte byte =
     [SetPin FlashCS False] @ ext_flash_bits 8 byte @ [SetPin FlashCLK False, SetPin FlashCS True, Delay 700]"

definition CC1310_LAUNCHXL_wakeUpExtFlash :: "pin_effect list" where
  "CC1310_LAUNCHXL_wakeUpExtFlash =
     [OpenPins [(FlashCS, Some True)], SetPin FlashCS False, Delay 1, SetPin FlashCS True, Delay 560, ClosePins]"

definition CC1310_LAUNCHXL_shutDownExtFlash :: "pin_effect list" where
  "CC1310_LAUNCHXL_shutDownExtFlash =
     CC1310_LAUNCHXL_wakeUpExtFlash @
     [OpenPins [(FlashCS, Some True), (FlashCLK, Some False), (FlashMOSI, Some False), (FlashMISO, None)]] @
     CC1310_LAUNCHXL_sendExtFlashByte 0xB9 @ [ClosePins]"

definition Board_initHook :: "pin_effect list" where
  "Board_initHook = CC1310_LAUNCHXL_shutDownExtFlash"

subsection \<open>What the flash reads\<close>

record FlashBus =
  fb_cs :: bool
  fb_clk :: bool
  fb_mosi :: bool
  fb_bits :: "bool list"
  fb_commands :: "bool list list"

text \<open>One change of a pin: a rising clock takes a bit, a rising select ends the command.\<close>

definition flash_pin_set :: "flash_pin \<Rightarrow> bool \<Rightarrow> FlashBus \<Rightarrow> FlashBus" where
  "flash_pin_set p v b = (case p of
     FlashCS \<Rightarrow> (if v \<and> \<not> fb_cs b then b\<lparr> fb_cs := True, fb_commands := fb_commands b @ [fb_bits b], fb_bits := [] \<rparr>
                 else b\<lparr> fb_cs := v \<rparr>)
   | FlashCLK \<Rightarrow> (if v \<and> \<not> fb_clk b \<and> \<not> fb_cs b then b\<lparr> fb_clk := True, fb_bits := fb_bits b @ [fb_mosi b] \<rparr>
                  else b\<lparr> fb_clk := v \<rparr>)
   | FlashMOSI \<Rightarrow> b\<lparr> fb_mosi := v \<rparr>
   | FlashMISO \<Rightarrow> b)"

fun flash_reads :: "pin_effect list \<Rightarrow> FlashBus \<Rightarrow> FlashBus" where
  "flash_reads [] b = b"
| "flash_reads (OpenPins ps # es) b =
     flash_reads es (foldl (\<lambda>b (p, l). case l of None \<Rightarrow> b | Some v \<Rightarrow> flash_pin_set p v b) b ps)"
| "flash_reads (SetPin p v # es) b = flash_reads es (flash_pin_set p v b)"
| "flash_reads (Delay n # es) b = flash_reads es b"
| "flash_reads (ClosePins # es) b = flash_reads es b"

lemma flash_reads_append: "flash_reads (xs @ ys) b = flash_reads ys (flash_reads xs b)"
  by (induction xs b rule: flash_reads.induct) simp_all

lemma flash_bits:
  "n \<le> 8 \<Longrightarrow> \<not> fb_cs b \<Longrightarrow> \<exists>b'. flash_reads (ext_flash_bits n byte) b = b' \<and> \<not> fb_cs b' \<and> fb_commands b' = fb_commands b \<and>
     fb_bits b' = fb_bits b @ map (bit byte) (rev [0..<n])"
proof (induction n arbitrary: b)
  case (Suc n)
  have "drop_bit n byte AND 1 \<noteq> 0 \<longleftrightarrow> bit byte n"
    by (simp add: and_one_eq odd_iff_mod_2_eq_one [symmetric] bit_iff_odd_drop_bit)
  then show ?case using Suc by (simp add: flash_pin_set_def)
qed simp

text \<open>A byte is one command of eight bits, the highest first.\<close>

lemma flash_byte:
  assumes "fb_cs b" "fb_bits b = []"
  shows "fb_commands (flash_reads (CC1310_LAUNCHXL_sendExtFlashByte byte) b) = fb_commands b @ [map (bit byte) (rev [0..<8])] \<and>
    fb_cs (flash_reads (CC1310_LAUNCHXL_sendExtFlashByte byte) b) \<and> fb_bits (flash_reads (CC1310_LAUNCHXL_sendExtFlashByte byte) b) = []"
  using flash_bits [of 8 "b\<lparr> fb_cs := False \<rparr>" byte] assms
  by (auto simp: CC1310_LAUNCHXL_sendExtFlashByte_def flash_reads_append flash_pin_set_def)

theorem flash_put_to_sleep:
  "fb_cs b \<Longrightarrow> fb_bits b = [] \<Longrightarrow>
   fb_commands (flash_reads Board_initHook b) = fb_commands b @ [[], map (bit (0xB9 :: u8)) [7, 6, 5, 4, 3, 2, 1, 0]] \<and>
   fb_cs (flash_reads Board_initHook b)"
proof -
  assume b: "fb_cs b" "fb_bits b = []"
  define w where "w = flash_reads [OpenPins [(FlashCS, Some True), (FlashCLK, Some False), (FlashMOSI, Some False), (FlashMISO, None)]]
    (flash_reads CC1310_LAUNCHXL_wakeUpExtFlash b)"
  have w: "fb_cs w" "fb_bits w = []" "fb_commands w = fb_commands b @ [[]]"
    using b by (simp_all add: w_def CC1310_LAUNCHXL_wakeUpExtFlash_def flash_pin_set_def)
  have eight: "rev [0..<8] = [7, 6, 5, 4, 3, 2, 1, 0]" by (simp add: upt_conv_Cons)
  have "flash_reads Board_initHook b = flash_reads [ClosePins] (flash_reads (CC1310_LAUNCHXL_sendExtFlashByte 0xB9) w)"
    by (simp only: Board_initHook_def CC1310_LAUNCHXL_shutDownExtFlash_def flash_reads_append w_def)
  then show ?thesis using flash_byte [OF w(1,2), of "0xB9"] w(3) by (simp add: eight del: map_eq_conv)
qed

end
