(* ===== verification/BoardPins.thy ===== *)
theory BoardPins
  imports FlashPins
begin

text \<open>
  The pins of the three CC1310 boards (\<open>CC1310_LAUNCHXL.h\<close> and \<open>CC1310_LAUNCHXL.c\<close>, which the gateway's concentrator, the
  solar node and the temperature and humidity node have each in an edited copy). A program names a GPIO by a constant of an
  enumeration; the constant is the index of the pin in a table. Pins are numbered as on the chip.
\<close>

datatype gpio = GPIO_S1 | GPIO_S2 | SPI_MASTER_READY | SPI_SLAVE_READY | ADS1256nRESET | ADS1256_MOSI | GPIO_LED_GREEN | GPIO_RELAY3
  | GPIO_TMP116_EN | GPIO_SPI_FLASH_CS | SDSPI_CS | GPIO_LCD_CS | ADS1256nDRDY | ADS1256_MISO | GPIO_RELAY1 | GPIO_LCD_ENABLE
  | ADS1256_SCLK | ADS1256nCS | GPIO_RELAY2 | EPAPER_DC | EPAPER_RST | EPAPER_BUSY | EPAPER_CS | GPIO_PERIPH_EN | GPIO_NCHRGSTAT

text \<open>The pins of the peripherals, and whether the pins of the table at start-up are outputs.\<close>

record Board =
  GPIOName :: "gpio list"
  gpioPinConfigs :: "nat list"
  numberOfCallbacks :: nat
  spi0_pins :: "nat list"
  i2c_pins :: "nat list"
  uart_pins :: "nat list"
  pwm_pins :: "nat list"
  BoardGpioInitTable :: "(nat \<times> bool) list"

subsection \<open>The three boards\<close>

definition gateway_GPIOName :: "gpio list" where
  "gateway_GPIOName = [GPIO_S1, GPIO_S2, SPI_MASTER_READY, SPI_SLAVE_READY, GPIO_LED_GREEN, GPIO_RELAY3, GPIO_TMP116_EN,
     GPIO_SPI_FLASH_CS, SDSPI_CS, GPIO_LCD_CS, GPIO_RELAY1, GPIO_LCD_ENABLE, GPIO_RELAY2]"

definition gateway_gpioPinConfigs :: "nat list" where
  "gateway_gpioPinConfigs = [13, 14, 15, 21, 7, 6, 30, 20, 21, 24, 22, 23, 1]"

definition gateway_init :: "(nat \<times> bool) list" where
  "gateway_init = [(6, True), (7, True), (13, False), (14, False), (20, True), (2, False), (3, True), (9, False), (8, False), (10, False)]"

definition gateway_board :: Board where
  "gateway_board = \<lparr> GPIOName = gateway_GPIOName, gpioPinConfigs = gateway_gpioPinConfigs, numberOfCallbacks = 4,
     spi0_pins = [8, 9, 10, 11], i2c_pins = [4, 5], uart_pins = [2, 3], pwm_pins = [6, 7], BoardGpioInitTable = gateway_init \<rparr>"

definition solar_GPIOName :: "gpio list" where
  "solar_GPIOName = [GPIO_S1, GPIO_S2, ADS1256nRESET, ADS1256_MOSI, GPIO_LED_GREEN, GPIO_RELAY3, GPIO_TMP116_EN, GPIO_SPI_FLASH_CS,
     ADS1256nDRDY, ADS1256_MISO, GPIO_RELAY1, ADS1256_SCLK, ADS1256nCS, GPIO_RELAY2, EPAPER_DC, EPAPER_RST, EPAPER_BUSY, EPAPER_CS]"

definition solar_gpioPinConfigs :: "nat list" where
  "solar_gpioPinConfigs = [13, 14, 15, 21, 7, 6, 30, 20, 21, 24, 22, 23, 11, 1, 28, 29, 30, 25]"

definition solar_init :: "(nat \<times> bool) list" where
  "solar_init = [(6, True), (7, True), (13, False), (14, False), (20, True), (2, False), (3, True), (9, False), (8, False), (10, False),
     (26, False), (25, False), (27, False)]"

definition solar_board :: Board where
  "solar_board = \<lparr> GPIOName = solar_GPIOName, gpioPinConfigs = solar_gpioPinConfigs, numberOfCallbacks = 4,
     spi0_pins = [8, 9, 10], i2c_pins = [4, 5], uart_pins = [2, 3], pwm_pins = [6, 7], BoardGpioInitTable = solar_init \<rparr>"

definition th_GPIOName :: "gpio list" where
  "th_GPIOName = [GPIO_S1, GPIO_S2, ADS1256nRESET, ADS1256_MOSI, GPIO_LED_GREEN, GPIO_RELAY3, GPIO_TMP116_EN, GPIO_SPI_FLASH_CS,
     ADS1256nDRDY, ADS1256_MISO, GPIO_RELAY1, ADS1256_SCLK, ADS1256nCS, GPIO_RELAY2, GPIO_PERIPH_EN, GPIO_NCHRGSTAT]"

definition th_gpioPinConfigs :: "nat list" where
  "th_gpioPinConfigs = [13, 26, 15, 21, 7, 6, 30, 20, 21, 24, 22, 23, 11, 1, 25, 14]"

definition th_init :: "(nat \<times> bool) list" where
  "th_init = [(6, True), (7, True), (20, True), (13, False), (12, True), (9, False), (8, False), (10, False),
     (24, False), (21, False), (23, False)]"

definition th_board :: Board where
  "th_board = \<lparr> GPIOName = th_GPIOName, gpioPinConfigs = th_gpioPinConfigs, numberOfCallbacks = 4,
     spi0_pins = [8, 9, 10], i2c_pins = [9, 10], uart_pins = [13, 12], pwm_pins = [6, 7], BoardGpioInitTable = th_init \<rparr>"

subsection \<open>What the programs use\<close>

text \<open>The pin behind a constant: its index in the enumeration, looked up in the table.\<close>

definition gpio_pin :: "Board \<Rightarrow> gpio \<Rightarrow> nat option" where
  "gpio_pin b g = map_of (zip (GPIOName b) (gpioPinConfigs b)) g"

text \<open>The index of a constant, and those that get a callback.\<close>

definition gpio_index :: "Board \<Rightarrow> gpio \<Rightarrow> nat option" where
  "gpio_index b g = map_of (zip (GPIOName b) [0..<length (GPIOName b)]) g"

definition gateway_uses :: "nat option list" where
  "gateway_uses = map Some (spi0_pins gateway_board) @ map Some (uart_pins gateway_board) @
     map (gpio_pin gateway_board) [SPI_SLAVE_READY, SPI_MASTER_READY, GPIO_S2]"

definition solar_uses :: "nat option list" where
  "solar_uses = map Some (spi0_pins solar_board) @ map Some (uart_pins solar_board) @ [Some (pwm_pins solar_board ! 1)] @
     map (gpio_pin solar_board) [ADS1256nRESET, ADS1256nCS, ADS1256nDRDY, GPIO_RELAY1, GPIO_RELAY2, GPIO_RELAY3, GPIO_S2]"

text \<open>The line that tells the power timer of the first revision that the node is done is given by its pin.\<close>

definition DONE_DIO :: nat where "DONE_DIO = 23"

definition th_uses :: "nat option list" where
  "th_uses = map Some (i2c_pins th_board) @ map Some (uart_pins th_board) @ [Some DONE_DIO] @
     map (gpio_pin th_board) [GPIO_PERIPH_EN, GPIO_NCHRGSTAT, GPIO_S2]"

subsection \<open>No pin has two uses\<close>

definition pins_ok :: "Board \<Rightarrow> nat option list \<Rightarrow> gpio list \<Rightarrow> bool" where
  "pins_ok b uses callbacks \<longleftrightarrow> length (gpioPinConfigs b) = length (GPIOName b) \<and> distinct (GPIOName b) \<and>
     None \<notin> set uses \<and> distinct uses \<and> (\<forall>p \<in> set uses. \<forall>n. p = Some n \<longrightarrow> n \<le> 30) \<and>
     (\<forall>g \<in> set callbacks. \<exists>i. gpio_index b g = Some i \<and> i < numberOfCallbacks b)"

lemmas board_defs = pins_ok_def gpio_pin_def gpio_index_def

text \<open>
  On each board the table fits the enumeration, the constants that get a callback have one of the four callback
  slots, and the pins that the program uses are there and different from each other.
\<close>

theorem board_pins_consistent:
  "pins_ok gateway_board gateway_uses [SPI_MASTER_READY, GPIO_S2]"
  "pins_ok solar_board solar_uses [GPIO_S2]"
  "pins_ok th_board th_uses [GPIO_S2]"
  by (simp_all add: board_defs gateway_board_def gateway_GPIOName_def gateway_gpioPinConfigs_def gateway_uses_def
      solar_board_def solar_GPIOName_def solar_gpioPinConfigs_def solar_uses_def
      th_board_def th_GPIOName_def th_gpioPinConfigs_def th_uses_def DONE_DIO_def upt_conv_Cons)

text \<open>The tables hold pins twice, under names that no program uses together: the data-ready line is one of them.\<close>

lemma shared_entries:
  "gpio_pin solar_board ADS1256nDRDY = gpio_pin solar_board ADS1256_MOSI"
  "gpio_pin solar_board EPAPER_BUSY = gpio_pin solar_board GPIO_TMP116_EN"
  "gpio_pin gateway_board SPI_SLAVE_READY = gpio_pin gateway_board SDSPI_CS"
  by (simp_all add: board_defs gateway_board_def gateway_GPIOName_def gateway_gpioPinConfigs_def
      solar_board_def solar_GPIOName_def solar_gpioPinConfigs_def)

text \<open>The application's inputs and outputs are where the program expects them: no relay is an input at start-up.\<close>

lemma relays_not_inputs:
  "(n, False) \<in> set (BoardGpioInitTable solar_board) \<Longrightarrow>
     Some n \<notin> {gpio_pin solar_board GPIO_RELAY1, gpio_pin solar_board GPIO_RELAY2, gpio_pin solar_board GPIO_RELAY3}"
  by (auto simp: board_defs solar_board_def solar_init_def solar_GPIOName_def solar_gpioPinConfigs_def)

subsection \<open>The board hook on these boards\<close>

fun flash_ioid :: "flash_pin \<Rightarrow> nat" where
  "flash_ioid FlashCS = 20"
| "flash_ioid FlashCLK = 10"
| "flash_ioid FlashMOSI = 9"
| "flash_ioid FlashMISO = 8"

text \<open>The levels that effects put on pins, in order.\<close>

fun pin_levels :: "pin_effect list \<Rightarrow> (nat \<times> bool) list" where
  "pin_levels [] = []"
| "pin_levels (OpenPins ps # es) = [(flash_ioid p, v). (p, Some v) \<leftarrow> ps] @ pin_levels es"
| "pin_levels (SetPin p v # es) = (flash_ioid p, v) # pin_levels es"
| "pin_levels (_ # es) = pin_levels es"

text \<open>The conditions that such levels make on an I2C bus with the given lines, from the lines' levels before.\<close>

datatype i2c_condition = I2CStart | I2CStop

fun i2c_conditions :: "nat \<Rightarrow> nat \<Rightarrow> bool \<Rightarrow> bool \<Rightarrow> (nat \<times> bool) list \<Rightarrow> i2c_condition list" where
  "i2c_conditions scl sda c d [] = []"
| "i2c_conditions scl sda c d ((p, v) # ls) =
     (if p = scl then i2c_conditions scl sda v d ls
      else if p = sda then
        (if c \<and> d \<and> \<not> v then [I2CStart] else if c \<and> \<not> d \<and> v then [I2CStop] else []) @ i2c_conditions scl sda c v ls
      else i2c_conditions scl sda c d ls)"

lemma hook_levels: "pin_levels Board_initHook =
   [(20, True), (20, False), (20, True), (20, True), (10, False), (9, False), (20, False),
    (10, False), (9, True), (10, True), (10, False), (9, False), (10, True), (10, False), (9, True), (10, True),
    (10, False), (9, True), (10, True), (10, False), (9, True), (10, True), (10, False), (9, False), (10, True),
    (10, False), (9, False), (10, True), (10, False), (9, True), (10, True), (10, False), (20, True)]"
  by code_simp

text \<open>
  On the temperature and humidity node the data and clock lines of the flash are the lines of the sensors' bus: the
  hook puts six start conditions on the idle bus and ends inside an open transfer. On the gateway the hook
  drives the two lines of the SPI link that the master drives.
\<close>

theorem hook_disturbs_sensor_bus:
  "i2c_conditions (i2c_pins th_board ! 0) (i2c_pins th_board ! 1) True True (pin_levels Board_initHook) =
     [I2CStart, I2CStop, I2CStart, I2CStop, I2CStart, I2CStop, I2CStart, I2CStop, I2CStart, I2CStop, I2CStart]"
  "{spi0_pins gateway_board ! 1, spi0_pins gateway_board ! 2} \<subseteq> set (map fst (pin_levels Board_initHook))"
  by (simp_all add: hook_levels th_board_def gateway_board_def)

end
