(* ===== verification/SelfTest.thy ===== *)
theory SelfTest
  imports Protocol
begin

text \<open>
  The self test of the RPMsg protocol (\<open>testProtocol\<close> of \<open>ipc_rpmsg_echo.c\<close>): checksums of eight messages and the
  encoding and decoding of one. What it prints is the result; the test value of the documentation
  (\<open>Docs/PROTOCOL.md\<close>) is added.
\<close>

definition test_messages :: "u8 list list" where
  "test_messages = [[], [0x00], [0xFF], map of_char ''hello'', [0x01, 0x02, 0x03, 0x04, 0x05], replicate 16 0, replicate 16 0xFF,
     [0x10, 0x00, 0x05, 0x00, 0x04]]"

text \<open>The checksums, the encoded bytes and what they decode to, for a buffer \<open>enc_buf\<close> with any contents.\<close>

definition testProtocol :: "u8 list \<Rightarrow> u16 list \<times> u8 list \<times> (decode_error + u8 \<times> u16 \<times> u8 list)" where
  "testProtocol enc_buf =
     (let (buf, enc_len) = protocol_encode enc_buf MSG_DATA 42 (Some (map of_char ''hello world'')) 11
      in (map protocol_crc16 test_messages, take enc_len buf, protocol_decode (take enc_len buf)))"

text \<open>Checksums are computed on numerals eight bits at a time.\<close>

lemma crc16_bit_num: "crc16_bit c = (if bit c 15 then push_bit 1 c XOR 0x1021 else push_bit 1 c)"
  by (simp add: crc16_bit_def test_top_bit)

lemma crc16_step_num: "crc16_step c b = (let x = c XOR push_bit 8 (ucast b) in
   crc16_bit (crc16_bit (crc16_bit (crc16_bit (crc16_bit (crc16_bit (crc16_bit (crc16_bit x))))))))"
  by (simp add: crc16_step_def numeral_eq_Suc)

lemmas crc16_numerals = crc16_step_num crc16_bit_num Let_def of_char_def

lemma documented_check_value: "protocol_crc16 (map of_char ''123456789'') = 0x29B1"
  by (simp add: protocol_crc16_def crc16_numerals)

lemma checksums_short:
  "protocol_crc16 [] = 0xFFFF" "protocol_crc16 [0] = 0xE1F0" "protocol_crc16 [0xFF] = 0xFF00"
  by (simp_all add: protocol_crc16_def crc16_numerals)

lemma checksums_five:
  "protocol_crc16 (map of_char ''hello'') = 0xD26E" "protocol_crc16 [0x01, 0x02, 0x03, 0x04, 0x05] = 0x9304"
  "protocol_crc16 [0x10, 0x00, 0x05, 0x00, 0x04] = 0xBE22"
  by (simp_all add: protocol_crc16_def crc16_numerals)

lemma sixteen: "replicate 16 b = [b, b, b, b, b, b, b, b, b, b, b, b, b, b, b, b]"
  by (simp add: numeral_eq_Suc)

lemma checksums_long:
  "protocol_crc16 (replicate 16 0) = 0x6A0A" "protocol_crc16 (replicate 16 0xFF) = 0x6A4B"
  by (simp_all add: sixteen protocol_crc16_def crc16_numerals)

text \<open>
  The self test on any buffer that is large enough: the checksums it prints, the encoded bytes in the documented wire
  form, and the decoded message, which is the encoded one.
\<close>

theorem self_test_passes:
  assumes "487 \<le> length enc_buf"
  shows "testProtocol enc_buf = ([0xFFFF, 0xE1F0, 0xFF00, 0xD26E, 0x9304, 0x6A0A, 0x6A4B, 0xBE22],
    protocol_wire MSG_DATA 42 (map of_char ''hello world''), Inr (MSG_DATA, 42, map of_char ''hello world''))"
proof -
  define p :: "u8 list" where "p = map of_char ''hello world''"
  have p: "length p = 11" by (simp add: p_def)
  have "protocol_encode enc_buf MSG_DATA 42 (Some p) 11 = (protocol_wire MSG_DATA 42 p @ drop 18 enc_buf, 18)"
    using protocol_encode_wire [of 11 enc_buf p MSG_DATA 42] assms p by simp
  moreover have "length (protocol_wire MSG_DATA 42 p) = 18"
    by (simp add: protocol_wire_def protocol_body_def p)
  moreover have "map protocol_crc16 test_messages = [0xFFFF, 0xE1F0, 0xFF00, 0xD26E, 0x9304, 0x6A0A, 0x6A4B, 0xBE22]"
    by (simp only: test_messages_def list.map checksums_short checksums_five [unfolded list.map] checksums_long)
  moreover have "protocol_decode (protocol_wire MSG_DATA 42 p) = Inr (MSG_DATA, 42, p)"
    by (rule decode_wire) (simp add: p)
  ultimately show ?thesis unfolding testProtocol_def p_def [symmetric] by simp
qed

end
