(* ===== verification/Spec2Isabelle.thy ===== *)
theory Spec2Isabelle
  imports IpcLoop SpiBridge SolarPump LightSwitch ThCycle RfCommands EndToEnd StartUp Outbox Gauge RfQueue Baseline
    ScifTouch BoardPins SelfTest
begin

text \<open>
  The C programs of a home-automation gateway and its radio nodes.

  \<^bold>\<open>The system.\<close> A Linux service (written in Go, not modelled) talks over RPMsg to the Cortex-M4F of the
  gateway (\<open>src/Gateway/Firmware/M4F\<close>). The M4F runs the automation rules and is the master of an SPI link
  to a CC1310, the concentrator (\<open>src/Gateway/Firmware/CC1310\<close>), which exchanges radio packets with the nodes
  (\<open>src/Nodes\<close>): a solar controller, a light switch and two revisions of a battery-powered temperature and
  humidity sensor. A report travels node, concentrator, M4F, Linux; a command travels back, and waits in the
  concentrator until the chip it is for sends its next packet. The headers of \<open>src/Shared/Protocol\<close> are the
  formats that the programs share. Every arrow of this picture is modelled on both ends where both ends are C.

  \<^bold>\<open>How C became HOL.\<close> Machine integers are words of their width and wrap as in C; \<open>int\<close> and \<open>nat\<close> stand for
  C integers only where the theory says that they cannot overflow. \<open>float\<close> and \<open>double\<close> are bit patterns with
  IEEE-754 operations that round once, to nearest even (\<open>Float32\<close>, \<open>Float64\<close>). Structs that cross a wire are
  kept as their bytes with a view per union arm, other structs and file-static variables are records. A
  function that changes state takes and returns it; what leaves the program (a transfer, a packet, a call of
  a registered pointer, a pin) is a list of effects in the order of the calls. What the outside answers
  (drivers, chips, clock readings, packets received, the time spent waiting) is an argument, so a theorem
  holds for every answer unless a hypothesis restricts it. An access outside a buffer and a loop that never
  ends are the value \<open>None\<close>, never a default; a theorem that a function does not fault is proved as
  \<open>f x = Some y\<close> or \<open>f x \<noteq> None\<close>. A pre-emptible task is cut into steps, between which the steps of the other
  tasks may fall; invariants hold for every interleaving.

  \<^bold>\<open>The shared library.\<close>
  \<^item> \<open>Prelude\<close>: machine types, little-endian layout, buffers, and the interfaces that several components
    implement: \<open>byte_hash\<close> (a running checksum: the CRC16 of both links, the radio's XOR, the ruleset's CRC32),
    \<open>codec\<close> and \<open>checked_codec\<close> (parse after print, and rejection of damage), \<open>bounded_fifo\<close> (rings and queues
    that lose nothing they accepted and keep the order), \<open>keyed_table\<close> (arrays searched by key). Each is
    interpreted on the definitions of the components below.
  \<^item> \<open>Float32\<close>, \<open>Float64\<close>, \<open>FloatOrder\<close>: the arithmetic, and that rounding is monotone, with which
    inequalities on exact values carry over to what the code computes.

  \<^bold>\<open>The RPMsg protocol and the engine.\<close>
  \<^item> \<open>Protocol\<close> (\<open>protocol.h\<close>): frame and CRC; encoding into any buffer that is large enough and decoding are
    inverse, decoding accepts only what the format states.
  \<^item> \<open>NodeProtocol\<close> (\<open>node_protocol.h\<close>) and \<open>Automation\<close> (\<open>automation.h\<close>): the wire structs and the rules.
  \<^item> \<open>Engine\<close> (\<open>engine.c\<close>): state and all operations; the record \<open>Engine\<close> holds the file-static variables, the
    ruleset buffers are \<open>g_rules e 0\<close> and \<open>g_rules e 1\<close>. \<open>EngineClock\<close>: the wall clock and the minute boundaries. \<open>EngineEval\<close>: a
    pass over the rules against a declarative specification. \<open>EngineFire\<close>: which messages a pass can emit; that a
    condition on the clock or on a node holds only after the clock was set or the node has reported, whatever the engine
    did before; and that a rule on the clock fires once per minute until a pass of another minute or a new ruleset. \<open>EngineUpload\<close>: an upload replaces the active set in
    one step or not at all, which refines an abstract register.
  \<^item> \<open>EngineRpmsg\<close> (\<open>engine_rpmsg.c\<close>): control messages and reports.
  \<^item> \<open>RxRing\<close>, \<open>Ipc\<close> (\<open>ipc_rpmsg_echo.c\<close>): receive ring, reliable sender, dispatch, outbox, loop, engine task
    and monitor. \<open>IpcSend\<close>: what goes on the wire and the accounting of unacknowledged messages. \<open>IpcLoop\<close>:
    what is sent again, how often, how far apart, and that it ends however the passes fall, the loop, the monitor, the path of a report. \<open>Outbox\<close>: the queue of sixteen items between
    engine task and loop, and what gets through it.

  \<^bold>\<open>The SPI link.\<close>
  \<^item> \<open>SpiFrame\<close> (\<open>spi_frame.h\<close> and both sides' helpers), \<open>SpiMaster\<close> (\<open>spi_master.c\<close>), \<open>SpiSlave\<close>
    (\<open>spi_slave_task.c\<close>): frames, tasks and interrupt wiring.
  \<^item> \<open>SpiLink\<close>: the invariant of the master between the slots of its task (a post that falls into a transfer changes
    nothing the transfer reads, which is why a slot can be one step), and the order of its sends. \<open>SpiBridge\<close>: master, slave and radio
    task together.

  \<^bold>\<open>The radio.\<close>
  \<^item> \<open>PendingTable\<close>, \<open>RadioTask\<close> (\<open>radio_task.c\<close>): the table of waiting commands, which refines a finite map;
    packets, retries, replies. \<open>RadioLink\<close>: what a packet does.
  \<^item> \<open>RfQueue\<close> (\<open>RFQueue.c\<close>): the ring of receive buffers.
  \<^item> \<open>RfSettings\<close>, \<open>RfCommands\<close> (\<open>smartrf_settings.c\<close> and the command structures of \<open>radio_task.c\<close>, \<open>rfEchoTx.c\<close>,
    \<open>radio.c\<close>): what each program hands to the radio core at every submission, whatever earlier ones left in the shared
    structures, and that the programs use the same channel, rate and packet format. The structures that the light
    switch's build generates and the vendor's constants are parameters.
  \<^item> \<open>NodeIdentity\<close> (\<open>node_identity.c\<close>), \<open>NodeRadio\<close> (\<open>rfEchoTx.c\<close>, both copies): identity and radio task of the
    nodes. \<open>NodeLink\<close>: a node against the concentrator, joining and delivery.
  \<^item> \<open>EndToEnd\<close>: a report from the node's queue to RPMsg, and a command from RPMsg to the node's application, through
    all programs on the way.

  \<^bold>\<open>The nodes.\<close>
  \<^item> \<open>Ads1256\<close> (\<open>ads1256.c\<close>), \<open>SolarController\<close> (\<open>solar_controller_task.c\<close>), \<open>SolarEval\<close>, \<open>SolarPump\<close>: the
    converter, the control loop, and the pump over whole runs.
  \<^item> \<open>LightSwitch\<close> (\<open>gpiointerrupt.c\<close>, \<open>node_app.c\<close>): touch loop and application. \<open>ScifImage\<close>, \<open>Scif\<close> (\<open>scif.c\<close>, \<open>scif_framework.c\<close>,
    \<open>scif_osal_tirtos.c\<close>): the driver of the Sensor Controller, whose touch results the loop reads. \<open>ScifTouch\<close>: the
    callback takes every result once, a started task is not started again, waits and power modes end.
  \<^item> \<open>ThNode\<close>, \<open>ThTask\<close> (\<open>radio.c\<close>, \<open>sensors.c\<close>, \<open>rfWsnNode.c\<close>), \<open>Gauge\<close> (the fuel gauge and the measuring program of
    the same files): the first revision of the sensor node. \<open>BatterySoc\<close>, \<open>ThRev2\<close> (\<open>rev2\<close>): the second one. \<open>ThLink\<close>: the node against
    the concentrator. \<open>ThSense\<close>: what can be measured. \<open>ThCycle\<close>: many cycles.
  \<^item> \<open>Baseline\<close> (\<open>m4f-baseline/ipc_rpmsg_echo.c\<close>): the firmware template of the set-up. \<open>SelfTest\<close> (\<open>testProtocol\<close> of the M4F):
    its checksums and its round trip. \<open>FlashPins\<close> (\<open>CC1310_LAUNCHXL_fxns.c\<close>),
    \<open>BoardPins\<close> (\<open>CC1310_LAUNCHXL.c\<close>, \<open>CC1310_LAUNCHXL.h\<close>): the board hook, and that no pin has two uses.

  \<^bold>\<open>Start-up.\<close>
  \<^item> \<open>StartUp\<close> (\<open>main.c\<close>, \<open>rfWsnConcentrator.c\<close>, \<open>main_tirtos.c\<close>, \<open>rfWsnNode.c\<close> and the \<open>_init\<close> functions): the calls of
    the five programs up to the loops of their tasks, each with what it uses, and those of the loops and handlers, under a
    scheduler with priorities. All states of each program are explored, with everything created and with each single thing
    that can fail failing, which gives what can be used too early, which failures stop a program, and that the others let
    all tasks come to their loops.

  \<^bold>\<open>Bounds.\<close> The limits of loops are the sources' own: the retries of an RPMsg message, of an SPI frame and of
  a radio packet, the looks at the SLAVE_READY pin, 4,000,000 reads of the converter's ready pin, the windows in which a node
  waits for an address, the polls of the battery converter. Loops over them are structural recursions on the remaining
  count (or \<open>function\<close>s with a measure), so no fuel is added to what the code has. The loops without
  a bound of their own are \<open>partial_function\<close>s: the one that empties the ring of receive buffers is proved to return
  (\<open>RfQueue\<close>), the wait for the converter at the start of a conversion (\<open>ads_poll\<close>) and the waits of the Sensor Controller's driver (\<open>wait_clear\<close>,
  \<open>opmode_loop\<close>, \<open>touch_outputs\<close>) return when the hardware answers. The exploration of a start-up (\<open>StartUp\<close>) has fuel
  for 100 to 400 states looked at; that it was enough is part of what is proved, since without enough it has no result. A task's endless loop is its single turn, applied to a list of what the outside does.

  \<^bold>\<open>Not modelled.\<close> What the library calls of the start-up do inside; logging, LEDs without a meaning and the hard-fault
  dump of the M4F; the tables of the board files that only name parts of the chip for the vendor's drivers (driver
  objects, interrupt and DMA numbers), their aliases (\<open>Board.h\<close>) and the configuration area (\<open>ccfg.c\<close>); the headers of
  the vendor's node example, which no source includes (\<open>easylink\<close>); the Sensor Controller's own program, which is
  machine code; the Linux side, which is not in C. The radio's analogue behaviour, timing in real time and memory
  exhaustion inside the RTOS are outside too.
\<close>

end
